(* ===== verification/Prelude.thy ===== *)
theory Prelude
  imports
    Main
    "HOL-Library.Char_ord"
    "HOL-Library.List_Lexorder"
    "HOL-Library.Product_Lexorder"
    "HOL-Library.Option_ord"
    "HOL-Library.Multiset"
    "HOL-Library.Monad_Syntax"
begin

text \<open>
  Shared vocabulary of the development.
  \<^item> Rust's \<open>Result<T, CoreError>\<close> is the sum \<open>core_error + 'a\<close>; \<open>and_then\<close> is the
    \<open>?\<close> operator, \<open>collect\<close> and \<open>collect_ix\<close> are \<open>collect::<Result<Vec<_>, _>>()\<close>
    over a plain and an enumerated iterator, \<open>fold_try\<close> is a \<open>for\<close> loop that may
    return early with an error.
  \<^item> Rust's \<open>String\<close> is a list of bytes (\<open>char list\<close>): UTF-8, ordered bytewise, so
    \<open>len\<close>, the order of \<open>sort\<close> and \<open>starts_with\<close> are those of the code.
  \<^item> \<open>BTreeMap\<close> is an association list with strictly increasing keys, \<open>BTreeSet\<close> a
    strictly increasing list: both representations are canonical, so equality of the
    lists is equality of the maps and sets.
\<close>

named_theorems result_simps
named_theorems omap_simps
named_theorems text_simps

section \<open>Errors as values\<close>

definition and_then :: "'e + 'a \<Rightarrow> ('a \<Rightarrow> 'e + 'b) \<Rightarrow> 'e + 'b" where
  "and_then m f = (case m of Inl e \<Rightarrow> Inl e | Inr x \<Rightarrow> f x)"

declare and_then_def [code_unfold]

lemma and_then_simps [simp]:
  "and_then (Inl e) f = Inl e"
  "and_then (Inr x) f = f x"
  by (simp_all add: and_then_def)

lemma and_then_Inr_iff [result_simps]:
  "and_then m f = Inr y \<longleftrightarrow> (\<exists>x. m = Inr x \<and> f x = Inr y)"
  by (cases m) auto

lemma and_then_InrE:
  assumes "and_then m f = Inr y"
  obtains x where "m = Inr x" "f x = Inr y"
  using assms by (auto simp: result_simps)

text \<open>A guard with an early return.\<close>

definition reject_if :: "bool \<Rightarrow> 'e \<Rightarrow> 'e + unit" where
  "reject_if b e = (if b then Inl e else Inr ())"

lemma reject_if_Inr_iff [result_simps]: "reject_if b e = Inr u \<longleftrightarrow> \<not> b"
  by (simp add: reject_if_def)

text \<open>\<open>Option::ok_or_else\<close>.\<close>

definition ok_or :: "'a option \<Rightarrow> 'e \<Rightarrow> 'e + 'a" where
  "ok_or v e = (case v of None \<Rightarrow> Inl e | Some x \<Rightarrow> Inr x)"

lemma ok_or_Inr_iff [result_simps]: "ok_or v e = Inr x \<longleftrightarrow> v = Some x"
  by (simp add: ok_or_def split: option.splits)

text \<open>\<open>Option<Result<T, E>>::transpose\<close> after a \<open>map\<close>.\<close>

definition opt_try :: "('a \<Rightarrow> 'e + 'b) \<Rightarrow> 'a option \<Rightarrow> 'e + 'b option" where
  "opt_try f v = (case v of None \<Rightarrow> Inr None | Some x \<Rightarrow> and_then (f x) (\<lambda>y. Inr (Some y)))"

lemma opt_try_simps [simp]:
  "opt_try f None = Inr None"
  "opt_try f (Some x) = and_then (f x) (\<lambda>y. Inr (Some y))"
  by (simp_all add: opt_try_def)

lemma opt_try_Inr_None: "opt_try f v = Inr w \<Longrightarrow> v = None \<longleftrightarrow> w = None"
  by (cases v) (auto simp: and_then_def split: sum.splits)

fun collect :: "('a \<Rightarrow> 'e + 'b) \<Rightarrow> 'a list \<Rightarrow> 'e + 'b list" where
  "collect f [] = Inr []"
| "collect f (x # xs) = and_then (f x) (\<lambda>y. and_then (collect f xs) (\<lambda>ys. Inr (y # ys)))"

fun collect_ix :: "(nat \<Rightarrow> 'a \<Rightarrow> 'e + 'b) \<Rightarrow> nat \<Rightarrow> 'a list \<Rightarrow> 'e + 'b list" where
  "collect_ix f i [] = Inr []"
| "collect_ix f i (x # xs) =
     and_then (f i x) (\<lambda>y. and_then (collect_ix f (Suc i) xs) (\<lambda>ys. Inr (y # ys)))"

fun fold_try :: "('a \<Rightarrow> 's \<Rightarrow> 'e + 's) \<Rightarrow> 'a list \<Rightarrow> 's \<Rightarrow> 'e + 's" where
  "fold_try f [] s = Inr s"
| "fold_try f (x # xs) s = and_then (f x s) (fold_try f xs)"

fun fold_try_ix :: "(nat \<Rightarrow> 'a \<Rightarrow> 's \<Rightarrow> 'e + 's) \<Rightarrow> nat \<Rightarrow> 'a list \<Rightarrow> 's \<Rightarrow> 'e + 's" where
  "fold_try_ix f i [] s = Inr s"
| "fold_try_ix f i (x # xs) s = and_then (f i x s) (fold_try_ix f (Suc i) xs)"

lemma collect_Inr_iff: "collect f xs = Inr ys \<longleftrightarrow> list_all2 (\<lambda>x y. f x = Inr y) xs ys"
proof (induction xs arbitrary: ys)
  case Nil
  then show ?case by auto
next
  case (Cons x xs)
  then show ?case
    by (cases ys) (auto simp: and_then_Inr_iff)
qed

lemma collect_Inr_set:
  "collect f xs = Inr ys \<Longrightarrow> y \<in> set ys \<Longrightarrow> \<exists>x \<in> set xs. f x = Inr y"
  by (induction f xs arbitrary: ys rule: collect.induct) (auto simp: and_then_Inr_iff)

lemma collect_Inr_source:
  "collect f xs = Inr ys \<Longrightarrow> x \<in> set xs \<Longrightarrow> \<exists>y \<in> set ys. f x = Inr y"
  by (induction f xs arbitrary: ys rule: collect.induct) (auto simp: and_then_Inr_iff)

lemma collect_Inr_map:
  "collect f xs = Inr ys \<longleftrightarrow> (\<forall>x \<in> set xs. \<exists>y. f x = Inr y) \<and> ys = map (\<lambda>x. projr (f x)) xs"
  by (induction xs arbitrary: ys) (auto simp: and_then_Inr_iff)

lemma collect_perm:
  assumes "collect f xs = Inr ys" and "mset xs' = mset xs"
  shows "\<exists>ys'. collect f xs' = Inr ys' \<and> mset ys' = mset ys"
proof -
  have "set xs' = set xs" using assms(2) by (rule mset_eq_setD)
  then show ?thesis using assms by (simp add: collect_Inr_map)
qed

lemma collect_cong: "(\<And>x. x \<in> set xs \<Longrightarrow> f x = g x) \<Longrightarrow> collect f xs = collect g xs"
  by (induction xs) simp_all

lemma collect_ix_Inr_set:
  "collect_ix f i xs = Inr ys \<Longrightarrow> y \<in> set ys \<Longrightarrow> \<exists>j x. x \<in> set xs \<and> f j x = Inr y"
proof (induction f i xs arbitrary: ys rule: collect_ix.induct)
  case (2 f i x xs)
  from "2.prems"(1) obtain z zs where z: "f i x = Inr z" "collect_ix f (Suc i) xs = Inr zs" "ys = z # zs"
    by (auto simp: and_then_Inr_iff)
  show ?case
  proof (cases "y = z")
    case True
    then show ?thesis using z(1) by auto
  next
    case False
    then have "\<exists>j x. x \<in> set xs \<and> f j x = Inr y"
      using "2.IH" [OF z(2)] "2.prems"(2) z(3) by simp
    then show ?thesis by auto
  qed
qed simp

lemma collect_ix_length: "collect_ix f i xs = Inr ys \<Longrightarrow> length ys = length xs"
  by (induction f i xs arbitrary: ys rule: collect_ix.induct) (auto simp: result_simps)

lemma fold_try_invariant:
  assumes "fold_try f xs s = Inr t" and "P s"
    and "\<And>x u v. x \<in> set xs \<Longrightarrow> P u \<Longrightarrow> f x u = Inr v \<Longrightarrow> P v"
  shows "P t"
  using assms
proof (induction xs arbitrary: s)
  case (Cons x xs)
  then obtain u where u: "f x s = Inr u" "fold_try f xs u = Inr t"
    by (auto simp: result_simps)
  moreover have "P u" using Cons.prems u(1) by auto
  ultimately show ?case using Cons.IH Cons.prems(3) by (metis list.set_intros(2))
qed simp

lemma fold_try_ix_invariant:
  assumes "fold_try_ix f i xs s = Inr t" and "P s"
    and "\<And>j x u v. x \<in> set xs \<Longrightarrow> P u \<Longrightarrow> f j x u = Inr v \<Longrightarrow> P v"
  shows "P t"
  using assms
proof (induction xs arbitrary: i s)
  case (Cons x xs)
  then obtain u where u: "f i x s = Inr u" "fold_try_ix f (Suc i) xs u = Inr t"
    by (auto simp: result_simps)
  moreover have "P u" using Cons.prems u(1) by auto
  ultimately show ?case using Cons.IH Cons.prems(3) by (metis list.set_intros(2))
qed simp

text \<open>What one iteration establishes and every other keeps, the loop establishes.\<close>

lemma fold_try_establish:
  assumes "fold_try f xs s = Inr t" and "P s" and "x \<in> set xs"
    and "\<And>y u v. y \<in> set xs \<Longrightarrow> P u \<Longrightarrow> f y u = Inr v \<Longrightarrow> P v"
    and "\<And>u v. P u \<Longrightarrow> f x u = Inr v \<Longrightarrow> Q v"
    and "\<And>y u v. y \<in> set xs \<Longrightarrow> P u \<Longrightarrow> f y u = Inr v \<Longrightarrow> Q u \<Longrightarrow> Q v"
  shows "Q t"
  using assms
proof (induction xs arbitrary: s)
  case (Cons y ys)
  obtain u where u: "f y s = Inr u" "fold_try f ys u = Inr t"
    using Cons.prems(1) by (auto simp: result_simps)
  have P: "P u" using Cons.prems(4) [of y s u] Cons.prems(2) u(1) by simp
  show ?case
  proof (cases "x \<in> set ys")
    case True
    show ?thesis
    proof (rule Cons.IH [OF u(2) P True])
      show "P w" if "z \<in> set ys" "P v" "f z v = Inr w" for z v w
        using that Cons.prems(4) [of z v w] by simp
      show "Q w" if "P v" "f x v = Inr w" for v w
        using that Cons.prems(5) by simp
      show "Q w" if "z \<in> set ys" "P v" "f z v = Inr w" "Q v" for z v w
        using that Cons.prems(6) [of z v w] by simp
    qed
  next
    case False
    then have "x = y" using Cons.prems(3) by simp
    then have "P u \<and> Q u" using Cons.prems(5) [of s u] Cons.prems(2) P u(1) by simp
    have step: "P w \<and> Q w" if "z \<in> set ys" "P v \<and> Q v" "f z v = Inr w" for z v w
      using that Cons.prems(4) [of z v w] Cons.prems(6) [of z v w] by simp
    have "P t \<and> Q t" 
      using u(2) \<open>P u \<and> Q u\<close> step by (rule fold_try_invariant [where P = "\<lambda>v. P v \<and> Q v"])
    then show ?thesis ..
  qed
qed simp

lemma fold_try_unit_Inr_iff: "fold_try f xs () = Inr u \<longleftrightarrow> (\<forall>x \<in> set xs. f x () = Inr ())"
  by (induction xs) (auto simp: and_then_Inr_iff)

section \<open>Sorted vectors and BTreeSet\<close>

text \<open>\<open>values.sort(); values.dedup()\<close>, also the contents of a \<open>BTreeSet\<close>.\<close>

definition sort_dedup :: "'a::linorder list \<Rightarrow> 'a list" where
  "sort_dedup xs = remdups_adj (sort xs)"

lemma set_sort_dedup [simp]: "set (sort_dedup xs) = set xs"
  by (simp add: sort_dedup_def)

lemma strict_sorted_remdups_adj: "sorted xs \<Longrightarrow> sorted_wrt (<) (remdups_adj xs)"
  for xs :: "'a::linorder list"
  by (induction xs rule: remdups_adj.induct) (auto simp: less_le)

lemma strict_sorted_sort_dedup [simp]: "sorted_wrt (<) (sort_dedup xs)"
  by (simp add: sort_dedup_def strict_sorted_remdups_adj)

lemma distinct_sort_dedup [simp]: "distinct (sort_dedup xs)"
  using strict_sorted_iff strict_sorted_sort_dedup by blast

lemma sort_dedup_unique:
  "sorted_wrt (<) xs \<Longrightarrow> set xs = set ys \<Longrightarrow> sort_dedup ys = xs"
  using strict_sorted_equal by (metis set_sort_dedup strict_sorted_sort_dedup)

lemma sort_dedup_idem [simp]: "sort_dedup (sort_dedup xs) = sort_dedup xs"
  by (rule sort_dedup_unique) simp_all

lemma sort_dedup_Nil_iff [simp]: "sort_dedup xs = [] \<longleftrightarrow> xs = []"
  by (metis set_empty set_sort_dedup)

lemma sort_dedup_cong: "set xs = set ys \<Longrightarrow> sort_dedup xs = sort_dedup ys"
  by (rule sort_dedup_unique) simp_all

lemma length_sort_dedup_distinct: "length (sort_dedup xs) = length xs \<longleftrightarrow> distinct xs"
  by (metis card_distinct distinct_card distinct_sort_dedup set_sort_dedup)

lemma strict_sorted_filter [simp]: "sorted_wrt P xs \<Longrightarrow> sorted_wrt P (filter Q xs)"
  by (rule sorted_wrt_filter)

text \<open>\<open>windows(2).any(..)\<close>: two neighbours satisfy \<open>P\<close>.\<close>

fun neighbours :: "('a \<Rightarrow> 'a \<Rightarrow> bool) \<Rightarrow> 'a list \<Rightarrow> bool" where
  "neighbours P (x # y # xs) \<longleftrightarrow> P x y \<or> neighbours P (y # xs)"
| "neighbours P _ \<longleftrightarrow> False"

lemma neighbours_sorted_distinct:
  fixes f :: "'a \<Rightarrow> 'b::linorder"
  shows "sorted (map f xs) \<Longrightarrow> neighbours (\<lambda>x y. f x = f y) xs \<longleftrightarrow> \<not> distinct (map f xs)"
proof (induction "\<lambda>x y. f x = f y" xs rule: neighbours.induct)
  case (1 x y xs)
  then have IH: "neighbours (\<lambda>x y. f x = f y) (y # xs) \<longleftrightarrow> \<not> distinct (map f (y # xs))" by simp
  show ?case
  proof (cases "f x = f y")
    case False
    then have "f x < f y" using "1.prems" by (simp add: less_le)
    then have "f x \<notin> set (map f (y # xs))" using "1.prems" by fastforce
    then show ?thesis using IH by auto
  qed simp
qed simp_all

lemma neighbours_sort_key [simp]:
  fixes f :: "'a \<Rightarrow> 'b::linorder"
  shows "neighbours (\<lambda>x y. f x = f y) (sort_key f xs) \<longleftrightarrow> \<not> distinct (map f xs)"
proof -
  have "mset (map f (sort_key f xs)) = mset (map f xs)" by (simp only: mset_map mset_sort)
  then have "distinct (map f (sort_key f xs)) = distinct (map f xs)" by (rule mset_eq_imp_distinct_iff)
  then show ?thesis using neighbours_sorted_distinct [of f "sort_key f xs"] by simp
qed

lemma sort_key_perm:
  fixes f :: "'a \<Rightarrow> 'b::linorder"
  assumes "mset xs = mset ys" and "distinct (map f xs)"
  shows "sort_key f xs = sort_key f ys"
proof -
  have set: "set xs = set ys" using assms(1) by (rule mset_eq_setD)
  have d: "distinct (map f (sort_key f zs)) = distinct (map f zs)" for zs
  proof -
    have "mset (map f (sort_key f zs)) = mset (map f zs)" by (simp only: mset_map mset_sort)
    then show ?thesis by (rule mset_eq_imp_distinct_iff)
  qed
  have "distinct (map f ys)" using assms mset_eq_imp_distinct_iff [of "map f xs" "map f ys"] by simp
  then show ?thesis
    using assms(2) set
    by (intro map_sorted_distinct_set_unique [of f]) (simp_all add: d distinct_map)
qed

section \<open>BTreeMap\<close>

type_synonym ('k, 'v) omap = "('k \<times> 'v) list"

abbreviation om_get :: "('k, 'v) omap \<Rightarrow> 'k \<Rightarrow> 'v option" where
  "om_get m k \<equiv> map_of m k"

definition om_ok :: "('k::linorder, 'v) omap \<Rightarrow> bool" where
  "om_ok m \<longleftrightarrow> sorted_wrt (<) (map fst m)"

fun om_put :: "'k::linorder \<Rightarrow> 'v \<Rightarrow> ('k, 'v) omap \<Rightarrow> ('k, 'v) omap" where
  "om_put k v [] = [(k, v)]"
| "om_put k v ((k', v') # m) =
     (if k < k' then (k, v) # (k', v') # m
      else if k = k' then (k, v) # m
      else (k', v') # om_put k v m)"

definition om_del :: "'k \<Rightarrow> ('k, 'v) omap \<Rightarrow> ('k, 'v) omap" where
  "om_del k m = filter (\<lambda>p. fst p \<noteq> k) m"

text \<open>A literal: the first of two entries with the same key wins.\<close>

definition om_of :: "('k::linorder \<times> 'v) list \<Rightarrow> ('k, 'v) omap" where
  "om_of kvs = foldr (\<lambda>(k, v) m. om_put k v m) kvs []"

text \<open>\<open>collect::<BTreeMap<_, _>>()\<close>: the last of two entries with the same key wins.\<close>

definition om_collect :: "('k::linorder \<times> 'v) list \<Rightarrow> ('k, 'v) omap" where
  "om_collect kvs = fold (\<lambda>(k, v) m. om_put k v m) kvs []"

abbreviation om_keys :: "('k, 'v) omap \<Rightarrow> 'k list" where
  "om_keys m \<equiv> map fst m"

lemma om_get_put [omap_simps]: "om_get (om_put k v m) k' = (if k' = k then Some v else om_get m k')"
  by (induction m) auto

lemma om_keys_put_set [omap_simps]: "set (om_keys (om_put k v m)) = insert k (set (om_keys m))"
proof (induction m)
  case (Cons p m)
  then show ?case by (cases p) (simp, blast)
qed simp

lemma om_ok_Nil [simp]: "om_ok []"
  by (simp add: om_ok_def)

lemma om_ok_put: "om_ok m \<Longrightarrow> om_ok (om_put k v m)"
proof (induction m)
  case Nil
  then show ?case by (simp add: om_ok_def)
next
  case (Cons p m)
  obtain k' v' where p: "p = (k', v')" by fastforce
  have "om_ok (om_put k v m)" and "\<forall>x \<in> set (om_keys m). k' < x"
    using Cons by (auto simp: om_ok_def p)
  then show ?case
    using Cons.prems om_keys_put_set [of k v m] by (auto simp: om_ok_def p)
qed

lemma om_get_del [omap_simps]: "om_get (om_del k m) k' = (if k' = k then None else om_get m k')"
  by (induction m) (auto simp: om_del_def)

lemma om_ok_del: "om_ok m \<Longrightarrow> om_ok (om_del k m)"
  unfolding om_ok_def om_del_def
  by (induction m) auto

lemma om_ok_distinct: "om_ok m \<Longrightarrow> distinct (om_keys m)"
  using strict_sorted_iff by (auto simp: om_ok_def)

lemma om_get_of [omap_simps]: "om_get (om_of kvs) k = map_of kvs k"
  unfolding om_of_def by (induction kvs) (auto simp: om_get_put)

lemma om_ok_of [simp]: "om_ok (om_of kvs)"
  unfolding om_of_def by (induction kvs) (auto simp: om_ok_put)

lemma om_ext:
  "om_ok m \<Longrightarrow> om_ok m' \<Longrightarrow> map_of m = map_of m' \<Longrightarrow> m = m'"
proof (induction m arbitrary: m')
  case Nil
  then show ?case by (cases m') (auto simp: fun_eq_iff split: if_splits)
next
  case (Cons p m)
  obtain k v where p: "p = (k, v)" by fastforce
  then obtain q n where m': "m' = q # n"
    using Cons.prems(3) by (cases m') (auto simp: fun_eq_iff dest: spec [of _ k])
  obtain k' v' where q: "q = (k', v')" by fastforce
  have less: "\<forall>x \<in> fst ` set m. k < x" "\<forall>x \<in> fst ` set n. k' < x"
    using Cons.prems by (auto simp: om_ok_def p m' q)
  have keys: "insert k (fst ` set m) = insert k' (fst ` set n)"
    using arg_cong [OF Cons.prems(3), of dom]
    by (simp add: p m' q dom_map_of_conv_image_fst del: map_of.simps)
  have "k = k'" using keys less by (metis insertCI insertE not_less_iff_gr_or_eq)
  then have "v = v'" using Cons.prems(3) by (auto simp: p m' q fun_eq_iff split: if_splits)
  have out: "map_of m k = None" "map_of n k = None"
    using less \<open>k = k'\<close> by (metis less_irrefl map_of_eq_None_iff)+
  have "map_of m x = map_of n x" for x
    using out \<open>k = k'\<close> fun_cong [OF Cons.prems(3), of x] by (cases "x = k") (simp_all add: p m' q)
  then have "m = n" using Cons.IH Cons.prems(1,2) by (simp add: om_ok_def p m' q fun_eq_iff)
  then show ?case by (simp add: p m' q \<open>k = k'\<close> \<open>v = v'\<close>)
qed

section \<open>The map interface\<close>

text \<open>
  What the normalizers rely on when they admit declarations one by one into a
  \<open>BTreeMap\<close> and refuse a key that is already there.
\<close>

locale keyed_map =
  fixes empty :: "'m"
    and get :: "'m \<Rightarrow> 'k \<Rightarrow> 'v option"
    and put :: "'k \<Rightarrow> 'v \<Rightarrow> 'm \<Rightarrow> 'm"
    and ok :: "'m \<Rightarrow> bool"
  assumes get_empty: "get empty k = None"
    and get_put: "get (put k v m) k' = (if k' = k then Some v else get m k')"
    and ok_empty: "ok empty"
    and ok_put: "ok m \<Longrightarrow> ok (put k v m)"
begin

lemma get_fold_put_other:
  "k \<notin> fst ` set kvs \<Longrightarrow> get (fold (\<lambda>(k, v). put k v) kvs m) k = get m k"
  by (induction kvs arbitrary: m) (auto simp: get_put)

lemma get_fold_put:
  "distinct (map fst kvs) \<Longrightarrow> (k, v) \<in> set kvs \<Longrightarrow> get (fold (\<lambda>(k, v). put k v) kvs m) k = Some v"
proof (induction kvs arbitrary: m)
  case (Cons p kvs)
  then show ?case
    by (cases p) (auto simp: get_fold_put_other get_put)
qed simp

lemma ok_fold_put: "ok m \<Longrightarrow> ok (fold (\<lambda>(k, v). put k v) kvs m)"
  by (induction kvs arbitrary: m) (auto simp: ok_put)

lemma fold_try_fresh:
  assumes "fold_try (\<lambda>(k, v) m. if get m k = None then Inr (put k v m) else Inl (e k)) kvs m = Inr m'"
  shows "distinct (map fst kvs) \<and> (\<forall>k \<in> fst ` set kvs. get m k = None)
    \<and> m' = fold (\<lambda>(k, v). put k v) kvs m"
  using assms
proof (induction kvs arbitrary: m)
  case (Cons p kvs)
  obtain k v where p: "p = (k, v)" by fastforce
  with Cons.prems have fresh: "get m k = None"
    and rest: "fold_try (\<lambda>(k, v) m. if get m k = None then Inr (put k v m) else Inl (e k)) kvs
      (put k v m) = Inr m'"
    by (auto split: if_splits)
  show ?case using Cons.IH [OF rest] fresh by (auto simp: p get_put split: if_splits)
qed simp

end

interpretation om: keyed_map "[] :: ('k::linorder, 'v) omap" map_of om_put om_ok
  by unfold_locales (simp_all add: om_get_put om_ok_put)

section \<open>Text\<close>

type_synonym str = string

definition starts_with :: "str \<Rightarrow> str \<Rightarrow> bool" where
  "starts_with s p \<longleftrightarrow> take (length p) s = p"

definition strip_prefix :: "str \<Rightarrow> str \<Rightarrow> str option" where
  "strip_prefix s p = (if starts_with s p then Some (drop (length p) s) else None)"

definition strip_suffix :: "str \<Rightarrow> str \<Rightarrow> str option" where
  "strip_suffix s p =
     (if starts_with (rev s) (rev p) then Some (take (length s - length p) s) else None)"

lemma starts_with_iff [text_simps]: "starts_with s p \<longleftrightarrow> (\<exists>r. s = p @ r)"
  by (metis append_eq_conv_conj append_take_drop_id starts_with_def)

lemma strip_prefix_Some_iff [text_simps]: "strip_prefix s p = Some r \<longleftrightarrow> s = p @ r"
  by (auto simp: strip_prefix_def starts_with_iff)

lemma strip_suffix_Some_iff [text_simps]: "strip_suffix s p = Some r \<longleftrightarrow> s = r @ p"
proof -
  have "starts_with (rev s) (rev p) \<longleftrightarrow> (\<exists>r. s = r @ p)"
    unfolding starts_with_iff by (metis rev_append rev_rev_ident)
  then show ?thesis by (auto simp: strip_suffix_def)
qed

text \<open>\<open>str::split\<close> on one byte: always at least one segment.\<close>

fun split_on :: "char \<Rightarrow> str \<Rightarrow> str list" where
  "split_on c [] = [[]]"
| "split_on c (x # xs) =
     (if x = c then [] # split_on c xs
      else (case split_on c xs of [] \<Rightarrow> [[x]] | s # ss \<Rightarrow> (x # s) # ss))"

text \<open>\<open>str::split_once\<close> on one byte.\<close>

fun split_once :: "char \<Rightarrow> str \<Rightarrow> (str \<times> str) option" where
  "split_once c [] = None"
| "split_once c (x # xs) =
     (if x = c then Some ([], xs)
      else (case split_once c xs of None \<Rightarrow> None | Some (a, b) \<Rightarrow> Some (x # a, b)))"

lemma split_on_nonempty [simp]: "split_on c s \<noteq> []"
  by (induction s) (auto split: list.splits)

text \<open>The inverse of splitting: joining with the separator.\<close>

fun join_with :: "str \<Rightarrow> str list \<Rightarrow> str" where
  "join_with sep [] = []"
| "join_with sep [s] = s"
| "join_with sep (s # t # ss) = s @ sep @ join_with sep (t # ss)"

lemma join_with_split_on: "join_with [c] (split_on c s) = s"
proof (induction s)
  case (Cons x xs)
  then show ?case
    by (cases "split_on c xs") (auto split: list.splits, (case_tac list; simp)+)
qed simp

text \<open>Bytes are compared bit by bit when evaluated.\<close>

declare less_char_simp [code del]
declare less_eq_char_simp [code del]

lemma of_bool_less:
  "of_bool b + k * 2 < (of_bool c + l * 2 :: nat) \<longleftrightarrow> (if k = l then \<not> b \<and> c else k < l)"
  by (cases b; cases c) auto

lemma of_bool_eq: "of_bool b + k * 2 = (of_bool c + l * 2 :: nat) \<longleftrightarrow> b = c \<and> k = l"
  by (cases b; cases c) (auto; presburger)+

lemma less_char_bits [code]:
  "Char b0 b1 b2 b3 b4 b5 b6 b7 < Char c0 c1 c2 c3 c4 c5 c6 c7 \<longleftrightarrow>
     (if b7 = c7 then if b6 = c6 then if b5 = c5 then if b4 = c4 then if b3 = c3 then if b2 = c2
      then if b1 = c1 then \<not> b0 \<and> c0 else c1 else c2 else c3 else c4 else c5 else c6 else c7)"
  unfolding less_char_simp foldr.simps o_apply id_apply of_bool_less of_bool_eq by auto

lemma less_eq_char_bits [code]:
  "Char b0 b1 b2 b3 b4 b5 b6 b7 \<le> Char c0 c1 c2 c3 c4 c5 c6 c7 \<longleftrightarrow>
     (if b7 = c7 then if b6 = c6 then if b5 = c5 then if b4 = c4 then if b3 = c3 then if b2 = c2
      then if b1 = c1 then b0 \<longrightarrow> c0 else c1 else c2 else c3 else c4 else c5 else c6 else c7)"
  unfolding order_le_less less_char_bits char.inject by auto
text \<open>
  \<open>str::trim\<close> strips Unicode \<open>White_Space\<close> characters; these are their UTF-8
  encodings. UTF-8 is self-synchronizing, so stripping encodings bytewise from valid
  UTF-8 strips the characters.
\<close>

definition white_space :: "str list" where
  "white_space =
     [[CHR 0x09], [CHR 0x0A], [CHR 0x0B], [CHR 0x0C], [CHR 0x0D], [CHR 0x20],
      [CHR 0xC2, CHR 0x85], [CHR 0xC2, CHR 0xA0], [CHR 0xE1, CHR 0x9A, CHR 0x80],
      [CHR 0xE2, CHR 0x80, CHR 0x80], [CHR 0xE2, CHR 0x80, CHR 0x81],
      [CHR 0xE2, CHR 0x80, CHR 0x82], [CHR 0xE2, CHR 0x80, CHR 0x83],
      [CHR 0xE2, CHR 0x80, CHR 0x84], [CHR 0xE2, CHR 0x80, CHR 0x85],
      [CHR 0xE2, CHR 0x80, CHR 0x86], [CHR 0xE2, CHR 0x80, CHR 0x87],
      [CHR 0xE2, CHR 0x80, CHR 0x88], [CHR 0xE2, CHR 0x80, CHR 0x89],
      [CHR 0xE2, CHR 0x80, CHR 0x8A], [CHR 0xE2, CHR 0x80, CHR 0xA8],
      [CHR 0xE2, CHR 0x80, CHR 0xA9], [CHR 0xE2, CHR 0x80, CHR 0xAF],
      [CHR 0xE2, CHR 0x81, CHR 0x9F], [CHR 0xE3, CHR 0x80, CHR 0x80]]"

function strip_front :: "str list \<Rightarrow> str \<Rightarrow> str" where
  "strip_front ws s =
     (case find (\<lambda>w. w \<noteq> [] \<and> starts_with s w) ws of
        None \<Rightarrow> s
      | Some w \<Rightarrow> strip_front ws (drop (length w) s))"
  by pat_completeness auto
termination
  by (relation "measure (\<lambda>(ws, s). length s)") (auto simp: find_Some_iff starts_with_iff)

declare strip_front.simps [simp del]

definition trim_with :: "str list \<Rightarrow> str \<Rightarrow> str" where
  "trim_with ws s = rev (strip_front (map rev ws) (rev (strip_front ws s)))"

definition trim :: "str \<Rightarrow> str" where
  "trim s = trim_with white_space s"

lemma strip_front_suffix: "\<exists>p. s = p @ strip_front ws s"
proof (induction ws s rule: strip_front.induct)
  case (1 ws s)
  show ?case
  proof (cases "find (\<lambda>w. w \<noteq> [] \<and> starts_with s w) ws")
    case (Some w)
    then obtain r where "s = w @ r" by (auto simp: find_Some_iff starts_with_iff)
    moreover obtain p where "drop (length w) s = p @ strip_front ws (drop (length w) s)"
      using "1.IH" [OF Some] by blast
    moreover have "strip_front ws s = strip_front ws (drop (length w) s)"
      using Some by (subst strip_front.simps) simp
    ultimately have "s = (w @ p) @ strip_front ws s" by simp
    then show ?thesis by blast
  qed (simp add: strip_front.simps)
qed

lemma strip_front_stuck: "find (\<lambda>w. w \<noteq> [] \<and> starts_with (strip_front ws s) w) ws = None"
proof (induction ws s rule: strip_front.induct)
  case (1 ws s)
  then show ?case
    by (cases "find (\<lambda>w. w \<noteq> [] \<and> starts_with s w) ws") (simp_all add: strip_front.simps [of ws s])
qed

text \<open>Decimal rendering of a \<open>usize\<close> in a \<open>format!\<close> string.\<close>

definition digit :: "nat \<Rightarrow> char" where
  "digit n = ''0123456789'' ! n"

fun nat_text :: "nat \<Rightarrow> str" where
  "nat_text n = (if n < 10 then [digit n] else nat_text (n div 10) @ [digit (n mod 10)])"

declare nat_text.simps [simp del]

definition ascii_lower :: "char \<Rightarrow> bool" where
  "ascii_lower c \<longleftrightarrow> CHR ''a'' \<le> c \<and> c \<le> CHR ''z''"

definition ascii_digit :: "char \<Rightarrow> bool" where
  "ascii_digit c \<longleftrightarrow> CHR ''0'' \<le> c \<and> c \<le> CHR ''9''"

definition lower_hex :: "char \<Rightarrow> bool" where
  "lower_hex c \<longleftrightarrow> ascii_digit c \<or> (CHR ''a'' \<le> c \<and> c \<le> CHR ''f'')"

end
