(* ===== verification/Json.thy ===== *)
theory Json
  imports Prelude
begin

text \<open>
  JSON values as the code handles them: \<open>serde_json::Value\<close> with its public
  constructors. The crate is built without \<open>preserve_order\<close>, so an object is a
  \<open>BTreeMap\<close>. \<open>jget\<close> is \<open>Value::get\<close>, \<open>ix\<close> is the indexing \<open>v["k"]\<close>
  (\<open>Null\<close> when the key is absent or the value is no object), \<open>obj\<close> is an object
  literal of \<open>json!\<close>, \<open>jset\<close> is \<open>v["k"] = x\<close>.
\<close>

datatype number = PosInt nat | NegInt int | Float nat

datatype json =
    JNull
  | JBool bool
  | JNum number
  | JStr str
  | JArr "json list"
  | JObj "(str \<times> json) list"

named_theorems json_simps

definition obj :: "(str \<times> json) list \<Rightarrow> json" where
  "obj kvs = JObj (om_of kvs)"

definition jstrs :: "str list \<Rightarrow> json" where
  "jstrs xs = JArr (map JStr xs)"

definition jget :: "json \<Rightarrow> str \<Rightarrow> json option" where
  "jget v k = (case v of JObj m \<Rightarrow> om_get m k | _ \<Rightarrow> None)"

definition ix :: "json \<Rightarrow> str \<Rightarrow> json" where
  "ix v k = (case jget v k of None \<Rightarrow> JNull | Some x \<Rightarrow> x)"

definition as_str :: "json \<Rightarrow> str option" where
  "as_str v = (case v of JStr s \<Rightarrow> Some s | _ \<Rightarrow> None)"

definition as_array :: "json \<Rightarrow> json list option" where
  "as_array v = (case v of JArr xs \<Rightarrow> Some xs | _ \<Rightarrow> None)"

definition as_object :: "json \<Rightarrow> (str, json) omap option" where
  "as_object v = (case v of JObj m \<Rightarrow> Some m | _ \<Rightarrow> None)"

definition as_bool :: "json \<Rightarrow> bool option" where
  "as_bool v = (case v of JBool b \<Rightarrow> Some b | _ \<Rightarrow> None)"

definition as_u64 :: "json \<Rightarrow> nat option" where
  "as_u64 v = (case v of JNum (PosInt n) \<Rightarrow> Some n | _ \<Rightarrow> None)"

definition is_object :: "json \<Rightarrow> bool" where
  "is_object v = (case v of JObj _ \<Rightarrow> True | _ \<Rightarrow> False)"

definition is_null :: "json \<Rightarrow> bool" where
  "is_null v \<longleftrightarrow> v = JNull"

text \<open>\<open>v.as_array().into_iter().flatten()\<close>: the elements, none when \<open>v\<close> is no array.\<close>

definition elements :: "json \<Rightarrow> json list" where
  "elements v = (case v of JArr xs \<Rightarrow> xs | _ \<Rightarrow> [])"

text \<open>Assignment through \<open>IndexMut\<close>: \<open>Null\<close> becomes an object; any other
  non-object panics, which the model never reaches and shows as the unchanged value.\<close>

definition jset :: "str \<Rightarrow> json \<Rightarrow> json \<Rightarrow> json" where
  "jset k x v =
     (case v of JObj m \<Rightarrow> JObj (om_put k x m) | JNull \<Rightarrow> JObj [(k, x)] | _ \<Rightarrow> v)"

definition jremove :: "str \<Rightarrow> json \<Rightarrow> json" where
  "jremove k v = (case v of JObj m \<Rightarrow> JObj (om_del k m) | _ \<Rightarrow> v)"

text \<open>\<open>Option<T>\<close> in \<open>json!\<close>: \<open>None\<close> is \<open>null\<close>.\<close>

definition jopt :: "('a \<Rightarrow> json) \<Rightarrow> 'a option \<Rightarrow> json" where
  "jopt f v = (case v of None \<Rightarrow> JNull | Some x \<Rightarrow> f x)"

text \<open>A field with \<open>skip_serializing_if = "Option::is_none"\<close>.\<close>

definition opt_field :: "str \<Rightarrow> ('a \<Rightarrow> json) \<Rightarrow> 'a option \<Rightarrow> (str \<times> json) list" where
  "opt_field k f v = (case v of None \<Rightarrow> [] | Some x \<Rightarrow> [(k, f x)])"

lemma jget_obj [json_simps, simp]: "jget (obj kvs) k = map_of kvs k"
  by (simp add: jget_def obj_def omap_simps)

lemma ix_obj [json_simps]: "ix (obj kvs) k = (case map_of kvs k of None \<Rightarrow> JNull | Some x \<Rightarrow> x)"
  by (simp add: ix_def)

lemma ix_obj_Cons [simp]:
  "ix (obj ((k', v) # kvs)) k = (if k = k' then v else ix (obj kvs) k)"
  "ix (obj []) k = JNull"
  by (simp_all add: ix_obj)

lemma is_object_obj [simp]: "is_object (obj kvs)"
  by (simp add: is_object_def obj_def)

lemma as_simps [simp]:
  "as_str (JStr s) = Some s"
  "as_array (JArr xs) = Some xs"
  "as_bool (JBool b) = Some b"
  "elements (JArr xs) = xs"
  "elements (obj kvs) = []"
  "as_object (obj kvs) = Some (om_of kvs)"
  by (simp_all add: as_str_def as_array_def as_bool_def elements_def as_object_def obj_def)

lemma as_str_Some_iff [json_simps]: "as_str v = Some s \<longleftrightarrow> v = JStr s"
  by (cases v) (simp_all add: as_str_def)

lemma as_array_Some_iff [json_simps]: "as_array v = Some xs \<longleftrightarrow> v = JArr xs"
  by (cases v) (simp_all add: as_array_def)

lemma is_object_iff [json_simps]: "is_object v \<longleftrightarrow> (\<exists>m. v = JObj m)"
  by (cases v) (simp_all add: is_object_def)

lemma obj_neq [simp]:
  "obj kvs \<noteq> JNull" "obj kvs \<noteq> JStr s" "obj kvs \<noteq> JArr xs" "obj kvs \<noteq> JBool b"
  by (simp_all add: obj_def)

lemma jget_jset [json_simps]:
  "is_object v \<Longrightarrow> jget (jset k x v) k' = (if k' = k then Some x else jget v k')"
  by (auto simp: is_object_iff jset_def jget_def omap_simps)

lemma ix_jset [json_simps]:
  "is_object v \<Longrightarrow> ix (jset k x v) k' = (if k' = k then x else ix v k')"
  by (simp add: ix_def jget_jset)

lemma is_object_jset [simp]: "is_object v \<Longrightarrow> is_object (jset k x v)"
  by (auto simp: is_object_iff jset_def)

lemma is_object_jremove [simp]: "is_object v \<Longrightarrow> is_object (jremove k v)"
  by (auto simp: is_object_iff jremove_def)

lemma jget_jremove [json_simps]:
  "jget (jremove k v) k' = (if k' = k then None else jget v k')"
  by (cases v) (auto simp: jremove_def jget_def omap_simps)

lemma jremove_commute: "jremove j (jremove k v) = jremove k (jremove j v)"
  by (cases v) (auto simp: jremove_def om_del_def intro: filter_cong)

lemma jremove_obj: "jremove k (obj kvs) = obj (filter (\<lambda>p. fst p \<noteq> k) kvs)"
proof -
  have "om_del k (om_of kvs) = om_of (filter (\<lambda>p. fst p \<noteq> k) kvs)"
  proof (rule om_ext)
    show "om_get (om_del k (om_of kvs)) = om_get (om_of (filter (\<lambda>p. fst p \<noteq> k) kvs))"
      using om_get_del [of k kvs, unfolded om_del_def]
      by (simp add: fun_eq_iff om_get_del om_get_of)
  qed (simp_all add: om_ok_del)
  then show ?thesis by (simp add: jremove_def obj_def)
qed

text \<open>Well-formed values: every object in it is a map. Every literal is.\<close>

fun json_ok :: "json \<Rightarrow> bool" where
  "json_ok (JArr xs) \<longleftrightarrow> (\<forall>x \<in> set xs. json_ok x)"
| "json_ok (JObj m) \<longleftrightarrow> om_ok m \<and> (\<forall>p \<in> set m. json_ok (snd p))"
| "json_ok _ \<longleftrightarrow> True"

section \<open>Derived deserialization\<close>

text \<open>
  \<open>#[derive(Deserialize)]\<close> on a struct, from a \<open>Value\<close>: an object gives fields by
  name, an array gives them by position. \<open>deny_unknown_fields\<close> refuses other keys. A
  missing \<open>Option\<close> field is \<open>None\<close> in an object and an error in an array; a missing
  field with \<open>#[serde(default)]\<close> takes its default; \<open>null\<close> is \<open>None\<close> for an
  \<open>Option\<close>. Which of several errors is reported is not modelled: a failed decoding is
  \<open>None\<close>.
\<close>

type_synonym fields = "bool \<times> (str, json) omap"

definition struct_fields :: "bool \<Rightarrow> str list \<Rightarrow> json \<Rightarrow> fields option" where
  "struct_fields deny names v =
     (case v of
        JObj m \<Rightarrow> if deny \<and> \<not> set (om_keys m) \<subseteq> set names then None else Some (False, m)
      | JArr xs \<Rightarrow> if length xs \<le> length names then Some (True, zip names xs) else None
      | _ \<Rightarrow> None)"

text \<open>With a flattened remainder only an object is accepted.\<close>

definition flatten_fields :: "json \<Rightarrow> fields option" where
  "flatten_fields v = (case v of JObj m \<Rightarrow> Some (False, m) | _ \<Rightarrow> None)"

definition req :: "(json \<Rightarrow> 'a option) \<Rightarrow> fields \<Rightarrow> str \<Rightarrow> 'a option" where
  "req de f k = Option.bind (map_of (snd f) k) de"

definition opt :: "(json \<Rightarrow> 'a option) \<Rightarrow> fields \<Rightarrow> str \<Rightarrow> 'a option option" where
  "opt de f k =
     (case map_of (snd f) k of
        None \<Rightarrow> if fst f then None else Some None
      | Some JNull \<Rightarrow> Some None
      | Some v \<Rightarrow> map_option Some (de v))"

definition dflt :: "(json \<Rightarrow> 'a option) \<Rightarrow> 'a \<Rightarrow> fields \<Rightarrow> str \<Rightarrow> 'a option" where
  "dflt de d f k = (case map_of (snd f) k of None \<Rightarrow> Some d | Some v \<Rightarrow> de v)"

definition de_bool :: "json \<Rightarrow> bool option" where
  "de_bool = as_bool"

definition de_str :: "json \<Rightarrow> str option" where
  "de_str = as_str"

definition de_any :: "json \<Rightarrow> json option" where
  "de_any v = Some v"

fun option_all :: "'a option list \<Rightarrow> 'a list option" where
  "option_all [] = Some []"
| "option_all (x # xs) = Option.bind x (\<lambda>y. map_option ((#) y) (option_all xs))"

definition de_list :: "(json \<Rightarrow> 'a option) \<Rightarrow> json \<Rightarrow> 'a list option" where
  "de_list de v = (case v of JArr xs \<Rightarrow> option_all (map de xs) | _ \<Rightarrow> None)"

definition de_map :: "(json \<Rightarrow> 'a option) \<Rightarrow> json \<Rightarrow> (str, 'a) omap option" where
  "de_map de v =
     (case v of
        JObj m \<Rightarrow> map_option (zip (om_keys m)) (option_all (map (de \<circ> snd) m))
      | _ \<Rightarrow> None)"

definition extra_fields :: "str list \<Rightarrow> fields \<Rightarrow> (str, json) omap" where
  "extra_fields names f = filter (\<lambda>p. fst p \<notin> set names) (snd f)"

lemma option_all_map_Some [simp]: "option_all (map (\<lambda>x. Some (f x)) xs) = Some (map f xs)"
  by (induction xs) auto

lemma de_list_strs [simp]: "de_list de_str (jstrs xs) = Some xs"
  by (induction xs) (auto simp: de_list_def jstrs_def de_str_def)

lemma om_keys_put: "set (om_keys (om_put k v m)) = insert k (set (om_keys m))"
  by (rule om_keys_put_set)

lemma om_keys_of: "set (om_keys (om_of kvs)) = set (map fst kvs)"
  unfolding om_of_def
proof (induction kvs)
  case (Cons p kvs)
  then show ?case by (cases p) (simp del: set_map add: om_keys_put_set)
qed simp

text \<open>Decoding an object literal.\<close>

lemma struct_fields_obj [simp]:
  "struct_fields deny names (obj kvs) =
     (if deny \<and> \<not> set (map fst kvs) \<subseteq> set names then None else Some (False, om_of kvs))"
  using om_keys_of [of kvs] by (auto simp: struct_fields_def obj_def)

lemma req_of [simp]: "req de (b, om_of kvs) k = Option.bind (map_of kvs k) de"
  by (simp add: req_def om_get_of)

lemma opt_of [simp]:
  "opt de (False, om_of kvs) k =
     (case map_of kvs k of None \<Rightarrow> Some None | Some JNull \<Rightarrow> Some None | Some v \<Rightarrow> map_option Some (de v))"
  by (simp add: opt_def om_get_of)

lemma dflt_of [simp]: "dflt de d (b, om_of kvs) k = (case map_of kvs k of None \<Rightarrow> Some d | Some v \<Rightarrow> de v)"
  by (simp add: dflt_def om_get_of)

lemma de_simps [simp]: "de_str (JStr s) = Some s" "de_any v = Some v" "de_bool (JBool b) = Some b"
  by (simp_all add: de_str_def de_any_def de_bool_def)

lemma opt_jopt: "v \<noteq> Some JNull \<Longrightarrow>
    (case jopt (\<lambda>v. v) v of JNull \<Rightarrow> Some None | w \<Rightarrow> map_option Some (de_any w)) = Some v"
  by (cases v) (auto simp: jopt_def split: json.splits)

end
