(* ===== verification/Core.thy ===== *)
theory Core
  imports Json
begin

text \<open>
  The kernel shared by every component (\<open>src/src/core/src/lib.rs\<close>): the error value,
  the code outside the repository as a record of parameters, the digest, the schema
  validator with its bounded per-thread cache, and the text and list checks.
\<close>

section \<open>Errors and parameters\<close>

datatype dispatch_mismatch =
    CurrentWork | AssignmentHandoff | ExecutionConfiguration | CapabilityOwner
  | StartupSource | Carriage | Resolution

datatype assignment_source_change = Requirements | Comparison

datatype core_error =
  CoreError (message: str) (mismatch: "dispatch_mismatch option")
    (source_change: "assignment_source_change option")

definition err :: "str \<Rightarrow> core_error" where
  "err m = CoreError m None None"

definition with_dispatch_mismatch :: "dispatch_mismatch \<Rightarrow> core_error \<Rightarrow> core_error" where
  "with_dispatch_mismatch d e =
     CoreError (message e) (case mismatch e of None \<Rightarrow> Some d | Some d' \<Rightarrow> Some d') (source_change e)"

definition assignment_source_changed :: "assignment_source_change \<Rightarrow> core_error \<Rightarrow> core_error" where
  "assignment_source_changed s e = CoreError (message e) (mismatch e) (Some s)"

text \<open>
  What the code takes from elsewhere: the lowercase hexadecimal SHA-256 of a byte
  string (crate \<open>sha2\<close>), the serialization of a value (\<open>serde_json::to_vec\<close> and
  \<open>to_string\<close>), the JSON Schema compiler (\<open>jsonschema::draft202012\<close>: \<open>None\<close> for
  a schema it refuses, otherwise the validity predicate) and the compiled-in schema file
  \<open>contracts/schemas/source_decision_input.schema.json\<close>.
\<close>

record host =
  sha256_hex :: "str \<Rightarrow> str"
  to_vec :: "json \<Rightarrow> str"
  schema_build :: "json \<Rightarrow> (json \<Rightarrow> bool) option"
  source_schema :: json

type_synonym 'a res = "core_error + 'a"

definition digest :: "host \<Rightarrow> json \<Rightarrow> str" where
  "digest H v = ''sha256:'' @ sha256_hex H (to_vec H v)"

text \<open>A derived deserializer that failed.\<close>

definition decoded :: "'a option \<Rightarrow> 'a res" where
  "decoded v = ok_or v (err ''deserialization'')"

lemma decoded_Inr_iff [result_simps]: "decoded v = Inr x \<longleftrightarrow> v = Some x"
  by (simp add: decoded_def ok_or_Inr_iff)

lemma decoded_Some [simp]: "decoded (Some x) = Inr x"
  by (simp add: decoded_def ok_or_def)

section \<open>Text and list checks\<close>

text \<open>A \<open>format!\<close> string: its pieces in order. Renderings of third-party errors that the
  code appends after a colon are left out.\<close>

definition fmt :: "str list \<Rightarrow> str" where
  "fmt parts = concat parts"

definition require_text :: "str \<Rightarrow> str \<Rightarrow> str res" where
  "require_text value field =
     (let normalized = trim value in
      if normalized = [] then Inl (err (fmt [field, '' is required''])) else Inr normalized)"

definition strings :: "str list \<Rightarrow> str \<Rightarrow> bool \<Rightarrow> str list res" where
  "strings values field canonical_set =
     (if (\<exists>v \<in> set values. v = [])
      then Inl (err (fmt [field, '' must contain non-empty strings'']))
      else Inr (if canonical_set then sort_dedup values else values))"

definition unique_strings :: "str list \<Rightarrow> str \<Rightarrow> str list res" where
  "unique_strings values field =
     and_then (strings values field True) (\<lambda>vs.
       if length vs \<noteq> length values
       then Inl (err (fmt [field, '' must not contain duplicate values'']))
       else Inr vs)"

definition sha256_revision :: "str \<Rightarrow> bool" where
  "sha256_revision value \<longleftrightarrow>
     length value = 71 \<and> starts_with value ''sha256:'' \<and> list_all lower_hex (drop 7 value)"

definition TASK :: str where
  "TASK = ''task''"

definition CONSEQUENCE_PREFIXES :: "str list" where
  "CONSEQUENCE_PREFIXES =
     [''action:'', ''decision:'', ''effect:'', ''claim:'', ''outcome:'', ''attestation:'']"

definition consequence_identity :: "str \<Rightarrow> bool" where
  "consequence_identity value \<longleftrightarrow>
     value = TASK \<or>
     (\<exists>p \<in> set CONSEQUENCE_PREFIXES. starts_with value p \<and> length p < length value)"

definition affects :: "str list \<Rightarrow> str \<Rightarrow> str list res" where
  "affects values field =
     and_then (strings values field True) (\<lambda>vs.
       if vs = [] then Inl (err (fmt [field, '' must name at least one affected consequence'']))
       else if (\<exists>v \<in> set vs. \<not> consequence_identity v)
       then Inl (err (fmt [field, '' contains an unsupported consequence identity'']))
       else Inr vs)"

lemma require_text_Inr_iff [result_simps]:
  "require_text v f = Inr t \<longleftrightarrow> t = trim v \<and> t \<noteq> []"
  by (auto simp: require_text_def Let_def)

lemma strings_Inr_iff [result_simps]:
  "strings vs f c = Inr ws \<longleftrightarrow> [] \<notin> set vs \<and> ws = (if c then sort_dedup vs else vs)"
  by (auto simp: strings_def)

lemma unique_strings_Inr_iff [result_simps]:
  "unique_strings vs f = Inr ws \<longleftrightarrow> [] \<notin> set vs \<and> distinct vs \<and> ws = sort_dedup vs"
  by (auto simp: unique_strings_def result_simps length_sort_dedup_distinct)

lemma affects_Inr_iff [result_simps]:
  "affects vs f = Inr ws \<longleftrightarrow>
     vs \<noteq> [] \<and> [] \<notin> set vs \<and> (\<forall>v \<in> set vs. consequence_identity v) \<and> ws = sort_dedup vs"
  by (auto simp: affects_def result_simps)

section \<open>The schema validator and its cache\<close>

type_synonym validator = "json \<Rightarrow> bool"

type_synonym schema_cache = "(str \<times> validator) list"

definition DRAFT :: str where
  "DRAFT = ''https://json-schema.org/draft/2020-12/schema''"

definition schema_validator :: "host \<Rightarrow> json \<Rightarrow> str \<Rightarrow> validator res" where
  "schema_validator H schema field =
     (if Option.bind (jget schema ''$schema'') as_str \<noteq> Some DRAFT
      then Inl (err (fmt [field, ''.input_schema must declare JSON Schema Draft 2020-12'']))
      else ok_or (schema_build H schema) (err (fmt [field, ''.input_schema is invalid''])))"

text \<open>
  The same with the thread-local queue: an exact serialized schema of at most 65536
  bytes is looked up first; a compiled one is appended, the oldest of 64 leaving.
\<close>

definition cache_push :: "str \<Rightarrow> validator \<Rightarrow> schema_cache \<Rightarrow> schema_cache" where
  "cache_push key v cache = (if length cache = 64 then tl cache else cache) @ [(key, v)]"

definition schema_validator_cached ::
  "host \<Rightarrow> json \<Rightarrow> str \<Rightarrow> schema_cache \<Rightarrow> validator res \<times> schema_cache" where
  "schema_validator_cached H schema field cache =
     (if Option.bind (jget schema ''$schema'') as_str \<noteq> Some DRAFT
      then (Inl (err (fmt [field, ''.input_schema must declare JSON Schema Draft 2020-12''])), cache)
      else
        let key = to_vec H schema; cacheable = length key \<le> 65536 in
        case (if cacheable then find (\<lambda>e. fst e = key) cache else None) of
          Some e \<Rightarrow> (Inr (snd e), cache)
        | None \<Rightarrow>
            (case schema_build H schema of
               None \<Rightarrow> (Inl (err (fmt [field, ''.input_schema is invalid''])), cache)
             | Some v \<Rightarrow> (Inr v, if cacheable then cache_push key v cache else cache)))"

text \<open>What a cache may hold: compiled validators of schemas with that serialization.\<close>

definition cache_sound :: "host \<Rightarrow> schema_cache \<Rightarrow> bool" where
  "cache_sound H cache \<longleftrightarrow>
     (\<forall>e \<in> set cache. \<exists>s. to_vec H s = fst e \<and> schema_build H s = Some (snd e))"

fun run_validations ::
  "host \<Rightarrow> (json \<times> str) list \<Rightarrow> schema_cache \<Rightarrow> validator res list \<times> schema_cache" where
  "run_validations H [] cache = ([], cache)"
| "run_validations H ((s, f) # rs) cache =
     (let (r, cache') = schema_validator_cached H s f cache;
          (out, cache'') = run_validations H rs cache'
      in (r # out, cache''))"

lemma cache_push_bounded: "length cache \<le> 64 \<Longrightarrow> length (cache_push k v cache) \<le> 64"
  by (auto simp: cache_push_def)

lemma set_cache_push: "set (cache_push k v cache) \<subseteq> insert (k, v) (set cache)"
  by (cases cache) (auto simp: cache_push_def)

lemma cache_sound_push:
  "cache_sound H cache \<Longrightarrow> schema_build H s = Some v \<Longrightarrow> cache_sound H (cache_push (to_vec H s) v cache)"
  using set_cache_push [of "to_vec H s" v cache] unfolding cache_sound_def by fastforce

lemma schema_validator_cached_sound:
  assumes "cache_sound H cache"
  shows "cache_sound H (snd (schema_validator_cached H s f cache))"
  using assms cache_sound_push [OF assms, of s]
  by (auto simp: schema_validator_cached_def Let_def split: option.splits)

lemma schema_validator_cached_bounded:
  "length cache \<le> 64 \<Longrightarrow> length (snd (schema_validator_cached H s f cache)) \<le> 64"
  by (auto simp: schema_validator_cached_def Let_def cache_push_bounded split: option.splits)

lemma schema_validator_cached_fst:
  assumes "\<And>s t. to_vec H s = to_vec H t \<Longrightarrow> schema_build H s = schema_build H t"
    and "cache_sound H cache"
  shows "fst (schema_validator_cached H s f cache) = schema_validator H s f"
proof (cases "find (\<lambda>e. fst e = to_vec H s) cache")
  case None
  then show ?thesis
    by (auto simp: schema_validator_cached_def schema_validator_def Let_def ok_or_def split: option.splits)
next
  case (Some e)
  then have "e \<in> set cache" and "fst e = to_vec H s"
    by (auto simp: find_Some_iff)
  then have "schema_build H s = Some (snd e)"
    using assms unfolding cache_sound_def by metis
  with Some show ?thesis
    by (auto simp: schema_validator_cached_def schema_validator_def Let_def ok_or_def split: option.splits)
qed

definition validate_operation_arguments :: "host \<Rightarrow> json \<Rightarrow> json \<Rightarrow> str \<Rightarrow> unit res" where
  "validate_operation_arguments H v schema field =
     (if \<not> is_object v then Inl (err (fmt [field, ''.arguments must be an object'']))
      else and_then (schema_validator H schema field) (\<lambda>valid.
        if valid v then Inr () else Inl (err (fmt [field, ''.arguments violate input_schema'']))))"

end
