(* ===== verification/Dependency.thy ===== *)
theory Dependency
  imports Core "HOL-Library.Word"
begin

text \<open>
  Dependency identity (\<open>src/src/core/src/dependency_binding.rs\<close>): the streamed observation
  of one source file while others may write it, the revision schemes, and the comparison
  of a current basis with an accepted one.
\<close>

section \<open>Confined references\<close>

text \<open>\<open>decision_source::relative\<close>.\<close>

definition relative_reference :: "str \<Rightarrow> unit res" where
  "relative_reference path =
     (if path = [] \<or> (\<exists>c \<in> set path. c \<in> {CHR 0x5C, CHR '':'', CHR 0x00, CHR 0x0A})
        \<or> (\<exists>part \<in> set (split_on CHR 0x2F path). part \<in> {'''', ''.'', ''..'', ''.git''})
      then Inl (err ''decision source requires an exact repository-relative path'') else Inr ())"

definition archive_relative :: "str \<Rightarrow> str \<Rightarrow> str res" where
  "archive_relative path field =
     (let canonical = (case strip_suffix path ''/'' of Some p \<Rightarrow> p | None \<Rightarrow> path) in
      case relative_reference canonical of
        Inl _ \<Rightarrow> Inl (err (fmt [field, '' requires a confined repository-relative archive directory with at most one trailing slash'']))
      | Inr _ \<Rightarrow> Inr canonical)"

section \<open>A file system that changes between calls\<close>

type_synonym u64 = "64 word"

record file_meta =
  fm_file :: bool
  fm_dir :: bool
  fm_link :: bool
  fm_len :: u64
  fm_modified :: "nat option"
  fm_created :: "nat option"
  fm_dev :: u64
  fm_ino :: u64

datatype lookup = Entry file_meta | Absent | Failed

text \<open>
  What each system call answers at each moment; every call takes one moment. A read may
  give any bytes; the operating system never gives more than were asked for.
\<close>

record world =
  w_stat :: "nat \<Rightarrow> str list \<Rightarrow> lookup"
  w_open :: "nat \<Rightarrow> bool"
  w_fstat :: "nat \<Rightarrow> file_meta option"
  w_read :: "nat \<Rightarrow> nat \<Rightarrow> str option"

definition MAX_OBSERVATION_BYTES :: u64 where
  "MAX_OBSERVATION_BYTES = 32 * 1024 * 1024"

definition same_file :: "file_meta \<Rightarrow> file_meta \<Rightarrow> bool" where
  "same_file a b \<longleftrightarrow>
     fm_file a \<and> fm_file b \<and> fm_len a = fm_len b \<and> fm_modified a = fm_modified b \<and>
     fm_created a = fm_created b \<and> fm_dev a = fm_dev b \<and> fm_ino a = fm_ino b"

text \<open>The walk of the reference: no link, and directories before the last part.\<close>

fun check_path :: "world \<Rightarrow> str list \<Rightarrow> str list \<Rightarrow> file_meta option \<Rightarrow> nat \<Rightarrow> file_meta option res \<times> nat" where
  "check_path W prefix [] found t = (Inr found, t)"
| "check_path W prefix (part # parts) found t =
     (case w_stat W t (prefix @ [part]) of
        Absent \<Rightarrow> (Inr None, Suc t)
      | Failed \<Rightarrow> (Inl (err ''source-observation-unreadable''), Suc t)
      | Entry m \<Rightarrow>
          if fm_link m then (Inl (err ''source-observation-linked''), Suc t)
          else if parts \<noteq> [] \<and> \<not> fm_dir m then (Inl (err ''source-observation-not-directory''), Suc t)
          else check_path W (prefix @ [part]) parts (Some m) (Suc t))"

definition check_reference_path :: "world \<Rightarrow> str \<Rightarrow> nat \<Rightarrow> file_meta option res \<times> nat" where
  "check_reference_path W ref t = check_path W [] (split_on CHR 0x2F ref) None t"

text \<open>How many bytes the next read asks for; the buffer holds 65536.\<close>

definition next_request :: "u64 \<Rightarrow> u64 \<Rightarrow> u64" where
  "next_request limit sz = min (limit - sz + 1) (64 * 1024)"

function read_stream :: "world \<Rightarrow> u64 \<Rightarrow> u64 \<Rightarrow> str \<Rightarrow> nat \<Rightarrow> (str \<times> u64) res \<times> nat" where
  "read_stream W limit sz content t =
     (if sz \<le> limit then
        (case w_read W t (unat (next_request limit sz)) of
           None \<Rightarrow> (Inl (err ''source-observation-unreadable''), Suc t)
         | Some bytes \<Rightarrow>
             let chunk = take (unat (next_request limit sz)) bytes in
             if chunk = [] then (Inr (content, sz), Suc t)
             else read_stream W limit (sz + of_nat (length chunk)) (content @ chunk) (Suc t))
      else (Inr (content, sz), t))"
  by pat_completeness auto


lemma unat_top: "unat (- 1 :: u64) = 2 ^ 64 - 1"
  by (simp add: unsigned_minus_1_eq_mask mask_eq_exp_minus_1)

lemma unat_u64: "unat (w :: u64) < 2 ^ 64"
  using unsigned_less [of w] by simp

lemma unat_neg:
  fixes w :: u64
  assumes "w \<noteq> 0"
  shows "unat (- w) = 2 ^ 64 - unat w"
proof -
  have "unat (- w + w) = (unat (- w) + unat w) mod 2 ^ 64" by (simp only: unat_word_ariths) simp
  then have m: "(unat (- w) + unat w) mod 2 ^ 64 = 0" by simp
  have "0 < unat w" using assms by (simp add: unat_gt_0)
  moreover have "unat w < 2 ^ 64" "unat (- w) < 2 ^ 64" by (rule unat_u64)+
  moreover obtain k where k: "unat (- w) + unat w = 2 ^ 64 * k" using m by (meson mod_0_imp_dvd dvdE)
  ultimately have "0 < k" "k < 2" by (auto intro: gr0I)
  then have "k = 1" by simp
  then show ?thesis using k by simp
qed

text \<open>Without the top value of the limit the sum in the request does not wrap.\<close>

lemma request_unat:
  assumes "sz \<le> limit" and "limit < - 1"
  shows "unat (next_request limit sz) = min (unat limit - unat sz + 1) 65536"
proof -
  have l: "unat limit < 2 ^ 64 - 1" using assms(2) by (simp add: word_less_nat_alt unat_top)
  have s: "unat (limit - sz) = unat limit - unat sz" using assms(1) by (simp add: unat_sub word_le_nat_alt)
  have p: "unat (limit - sz + 1) = unat limit - unat sz + 1"
    using l s by (subst unat_plus_simple [THEN iffD1]) (auto simp: word_le_nat_alt unat_word_ariths)
  show ?thesis by (simp add: next_request_def min_def word_le_nat_alt p)
qed

lemma grown_unat:
  assumes "sz \<le> limit" and "limit < - 1" and "length chunk \<le> unat (next_request limit sz)"
  shows "unat (sz + of_nat (length chunk)) = unat sz + length chunk \<and>
    unat sz + length chunk \<le> unat limit + 1"
proof -
  have l: "unat limit < 2 ^ 64 - 1" using assms(2) by (simp add: word_less_nat_alt unat_top)
  have c: "length chunk \<le> unat limit - unat sz + 1" using assms request_unat by simp
  have s: "unat sz \<le> unat limit" using assms(1) by (simp add: word_le_nat_alt)
  have b: "unat sz + length chunk \<le> unat limit + 1" using c s by linarith
  have "unat (sz + of_nat (length chunk)) = (unat sz + length chunk) mod 2 ^ 64"
    by (simp add: unat_word_ariths unat_of_nat mod_simps)
  then show ?thesis using b l by simp
qed

text \<open>With the top value of the limit the first request is for no bytes, which ends the loop.\<close>

lemma request_top: "limit = - 1 \<Longrightarrow> next_request limit 0 = 0"
  by (simp add: next_request_def min_def)

lemma grown_top:
  assumes "sz \<noteq> 0" and "0 < length chunk" and "length chunk \<le> unat (next_request (- 1) sz)"
  shows "sz + of_nat (length chunk) = 0 \<or> unat sz < unat (sz + of_nat (length chunk))"
proof -
  have "next_request (- 1) sz \<le> - 1 - sz + 1" by (simp add: next_request_def)
  then have "unat (next_request (- 1) sz) \<le> unat (- sz)" by (simp add: word_le_nat_alt)
  moreover have m: "unat (- sz) = 2 ^ 64 - unat sz" using assms(1) by (simp add: unat_neg)
  ultimately have c: "length chunk \<le> 2 ^ 64 - unat sz" using assms(3) by linarith
  have s: "unat sz < 2 ^ 64" using unat_u64 [of sz] by simp
  have u: "unat (sz + of_nat (length chunk)) = (unat sz + length chunk) mod 2 ^ 64"
    by (simp add: unat_word_ariths unat_of_nat mod_simps)
  show ?thesis
  proof (cases "unat sz + length chunk = 2 ^ 64")
    case True
    then have "unat (sz + of_nat (length chunk)) = 0" using u by simp
    then show ?thesis by (simp add: unat_eq_0)
  next
    case False
    then have "unat sz + length chunk < 2 ^ 64" using c s by linarith
    then show ?thesis using u assms(2) by simp
  qed
qed

definition stream_fuel :: "u64 \<Rightarrow> u64 \<Rightarrow> nat" where
  "stream_fuel limit sz = (if limit = - 1 \<and> sz = 0 then 0 else Suc (unat limit + 1 - unat sz))"

lemma stream_decreases:
  assumes "sz \<le> limit" and "chunk \<noteq> []" and "length chunk \<le> unat (next_request limit sz)"
  shows "stream_fuel limit (sz + of_nat (length chunk)) < stream_fuel limit sz"
proof (cases "limit = - 1")
  case True
  have sz: "sz \<noteq> 0" using assms(2,3) request_top [OF True] by auto
  have "unat sz < 2 ^ 64" "unat (sz + of_nat (length chunk)) < 2 ^ 64" "unat limit = 2 ^ 64 - 1"
    using unat_u64 [of sz] unat_u64 [of "sz + of_nat (length chunk)"]
    by (simp_all add: True unat_top)
  then show ?thesis using grown_top [OF sz, of chunk] assms(2,3) sz by (auto simp: stream_fuel_def True)
next
  case False
  then have l: "limit < - 1" by (metis word_order.not_eq_extremum)
  have "unat sz \<le> unat limit" using assms(1) by (simp add: word_le_nat_alt)
  moreover have "0 < length chunk" using assms(2) by simp
  moreover note g = grown_unat [OF assms(1) l assms(3)]
  ultimately have "unat limit + 1 - (unat sz + length chunk) < unat limit + 1 - unat sz" by linarith
  then show ?thesis using g False by (simp add: stream_fuel_def)
qed

termination read_stream
  by (relation "measure (\<lambda>(W, limit, sz, content, t). stream_fuel limit sz)")
    (simp, simp only: in_measure prod.case, rule stream_decreases, simp_all)

declare read_stream.simps [simp del]

text \<open>What was read: as many bytes as counted, and one more than the limit at most.\<close>

lemma read_stream_Inr:
  assumes "read_stream W limit sz content t = (Inr (out, sz'), t')"
    and "limit < - 1" and "unat sz = length content" and "unat sz \<le> unat limit + 1"
  shows "unat sz' = length out \<and> length out \<le> unat limit + 1"
  using assms
proof (induction W limit sz content t rule: read_stream.induct)
  case (1 W limit sz content t)
  show ?case
  proof (cases "sz \<le> limit")
    case False
    then show ?thesis using "1.prems" by (subst (asm) read_stream.simps) simp
  next
    case True
    then obtain bytes where b: "w_read W t (unat (next_request limit sz)) = Some bytes"
      using "1.prems"(1) by (subst (asm) read_stream.simps) (auto split: option.splits)
    let ?chunk = "take (unat (next_request limit sz)) bytes"
    show ?thesis
    proof (cases "?chunk = []")
      case True
      then show ?thesis using "1.prems" b \<open>sz \<le> limit\<close> by (subst (asm) read_stream.simps) (auto simp: Let_def)
    next
      case False
      have r: "read_stream W limit (sz + of_nat (length ?chunk)) (content @ ?chunk) (Suc t) = (Inr (out, sz'), t')"
        using "1.prems"(1) b True False by (subst (asm) read_stream.simps) (simp add: Let_def del: length_take)
      have g: "unat (sz + of_nat (length ?chunk)) = unat sz + length ?chunk \<and>
          unat sz + length ?chunk \<le> unat limit + 1"
        using grown_unat [OF True "1.prems"(2), of ?chunk] by simp
      show ?thesis using "1.IH" [OF True b refl False r "1.prems"(2)] g "1.prems"(3) by simp
    qed
  qed
qed

text \<open>
  The same loop counting in natural numbers, where nothing wraps. \<open>counted\<close> reads the words of
  a run as the numbers they stand for.
\<close>

function exact_stream :: "world \<Rightarrow> nat \<Rightarrow> nat \<Rightarrow> str \<Rightarrow> nat \<Rightarrow> (str \<times> nat) res \<times> nat" where
  "exact_stream W limit sz content t =
     (if sz \<le> limit then
        (let n = min (limit - sz + 1) 65536 in
         case w_read W t n of
           None \<Rightarrow> (Inl (err ''source-observation-unreadable''), Suc t)
         | Some bytes \<Rightarrow>
             if take n bytes = [] then (Inr (content, sz), Suc t)
             else exact_stream W limit (sz + length (take n bytes)) (content @ take n bytes) (Suc t))
      else (Inr (content, sz), t))"
  by pat_completeness auto
termination
  by (relation "measure (\<lambda>(W, limit, sz, content, t). Suc limit - sz)")
    (simp, simp only: in_measure prod.case, simp add: diff_less_mono2 flip: length_greater_0_conv)

declare exact_stream.simps [simp del]

definition counted :: "(str \<times> u64) res \<times> nat \<Rightarrow> (str \<times> nat) res \<times> nat" where
  "counted r = (case r of (Inl e, t) \<Rightarrow> (Inl e, t) | (Inr (content, sz), t) \<Rightarrow> (Inr (content, unat sz), t))"

lemma counted_simps [simp]:
  "counted (Inl e, t) = (Inl e, t)" "counted (Inr (content, sz), t) = (Inr (content, unat sz), t)"
  by (simp_all add: counted_def)

lemma read_stream_exact:
  assumes "limit < - 1" and "unat sz \<le> unat limit + 1"
  shows "counted (read_stream W limit sz content t) = exact_stream W (unat limit) (unat sz) content t"
  using assms
proof (induction W limit sz content t rule: read_stream.induct)
  case (1 W limit sz content t)
  show ?case
  proof (cases "sz \<le> limit")
    case False
    then show ?thesis
      by (simp add: read_stream.simps [of W limit sz] exact_stream.simps [of W "unat limit"] word_le_nat_alt)
  next
    case True
    have n: "unat (next_request limit sz) = min (unat limit - unat sz + 1) 65536"
      using request_unat [OF True "1.prems"(1)] .
    have le: "unat sz \<le> unat limit" using True by (simp add: word_le_nat_alt)
    show ?thesis
    proof (cases "w_read W t (unat (next_request limit sz))")
      case None
      then show ?thesis using True le n
        by (simp add: read_stream.simps [of W limit sz] exact_stream.simps [of W "unat limit"] Let_def)
    next
      case (Some bytes)
      let ?chunk = "take (unat (next_request limit sz)) bytes"
      have g: "unat (sz + of_nat (length ?chunk)) = unat sz + length ?chunk" "unat sz + length ?chunk \<le> unat limit + 1"
        using grown_unat [OF True "1.prems"(1), of ?chunk] by simp_all
      have "counted (read_stream W limit (sz + of_nat (length ?chunk)) (content @ ?chunk) (Suc t)) =
          exact_stream W (unat limit) (unat sz + length ?chunk) (content @ ?chunk) (Suc t)" if "?chunk \<noteq> []"
        using "1.IH" [OF True Some refl that "1.prems"(1)] g by simp
      then show ?thesis using True le Some n
        by (simp add: read_stream.simps [of W limit sz] exact_stream.simps [of W "unat limit"] Let_def del: length_take)
    qed
  qed
qed

section \<open>Observing a source\<close>

definition over_budget :: "u64 \<Rightarrow> core_error" where
  "over_budget limit =
     err (if limit < MAX_OBSERVATION_BYTES then ''source-observation-exceeds-128-mib-resolution-bound''
          else ''source-observation-exceeds-32-mib-bound'')"

definition sha256_revision_of :: "host \<Rightarrow> str \<Rightarrow> str" where
  "sha256_revision_of H bytes = ''sha256:'' @ sha256_hex H bytes"

text \<open>What happens once the walk found an entry: open, read, look again.\<close>

definition observe_entry ::
  "host \<Rightarrow> world \<Rightarrow> str \<Rightarrow> u64 \<Rightarrow> file_meta \<Rightarrow> nat \<Rightarrow> (str \<times> u64) option res" where
  "observe_entry H W ref limit before t1 =
     (if \<not> fm_file before then Inl (err ''source-observation-not-regular'')
      else if limit < fm_len before then Inl (over_budget limit)
      else if \<not> w_open W t1 then Inl (err ''source-observation-unreadable'')
      else
      and_then (ok_or (w_fstat W (Suc t1)) (err ''source-observation-unreadable'')) (\<lambda>opened.
      if \<not> same_file before opened then Inl (err ''source-observation-changed-during-read'')
      else
      and_then (fst (read_stream W limit 0 [] (Suc (Suc t1)))) (\<lambda>(content, sz).
      if limit < sz then Inl (over_budget limit)
      else
      let t2 = snd (read_stream W limit 0 [] (Suc (Suc t1))) in
      and_then (ok_or (w_fstat W t2) (err ''source-observation-unreadable'')) (\<lambda>after.
      if sz \<noteq> fm_len before \<or> \<not> same_file before after
      then Inl (err ''source-observation-changed-during-read'')
      else
      and_then (fst (check_reference_path W ref (Suc t2))) (\<lambda>current.
      if (case current of None \<Rightarrow> True | Some m \<Rightarrow> \<not> same_file before m)
      then Inl (err ''source-observation-changed-during-read'')
      else Inr (Some (sha256_revision_of H content, sz)))))))"

definition observe_raw_with_limit ::
  "host \<Rightarrow> world \<Rightarrow> str \<Rightarrow> u64 \<Rightarrow> nat \<Rightarrow> (str \<times> u64) option res" where
  "observe_raw_with_limit H W ref limit t0 =
     and_then (relative_reference ref) (\<lambda>_.
     and_then (fst (check_reference_path W ref t0)) (\<lambda>found.
     let t1 = snd (check_reference_path W ref t0) in
     case found of
       None \<Rightarrow>
         and_then (fst (check_reference_path W ref t1)) (\<lambda>again.
         if again \<noteq> None then Inl (err ''source-observation-changed-during-read'') else Inr None)
     | Some before \<Rightarrow> observe_entry H W ref limit before t1))"

definition observe_raw :: "host \<Rightarrow> world \<Rightarrow> str \<Rightarrow> u64 \<Rightarrow> nat \<Rightarrow> (str \<times> u64) option res" where
  "observe_raw H W ref budget t = observe_raw_with_limit H W ref (min MAX_OBSERVATION_BYTES budget) t"

lemma check_path_Some:
  assumes "check_path W prefix parts found t = (Inr (Some m), t')" and "parts \<noteq> []"
  shows "\<exists>u. w_stat W u (prefix @ parts) = Entry m \<and> \<not> fm_link m \<and> t \<le> u \<and> u < t'"
  using assms
proof (induction W prefix parts found t rule: check_path.induct)
  case (2 W prefix part parts found t)
  then obtain m' where m: "w_stat W t (prefix @ [part]) = Entry m'" "\<not> fm_link m'"
    "\<not> (parts \<noteq> [] \<and> \<not> fm_dir m')"
    "check_path W (prefix @ [part]) parts (Some m') (Suc t) = (Inr (Some m), t')"
    by (auto split: lookup.splits if_splits)
  show ?case
  proof (cases "parts = []")
    case True
    then show ?thesis using m by auto
  next
    case False
    obtain u where "w_stat W u ((prefix @ [part]) @ parts) = Entry m \<and> \<not> fm_link m \<and> Suc t \<le> u \<and> u < t'"
      using "2.IH" [OF m(1) m(2) m(3) m(4) False] by blast
    then show ?thesis by (intro exI [of _ u]) simp
  qed
qed simp

lemma check_reference_path_Some:
  "check_reference_path W ref t = (Inr (Some m), t') \<Longrightarrow>
     \<exists>u. w_stat W u (split_on CHR 0x2F ref) = Entry m \<and> \<not> fm_link m \<and> t \<le> u \<and> u < t'"
  unfolding check_reference_path_def using check_path_Some [of W "[]"] by fastforce

lemma read_stream_later: "read_stream W limit sz content t = (r, t') \<Longrightarrow> t \<le> t'"
proof (induction W limit sz content t rule: read_stream.induct)
  case (1 W limit sz content t)
  let ?chunk = "\<lambda>bytes. take (unat (next_request limit sz)) bytes"
  consider (stop) "\<not> sz \<le> limit" | (fail) "sz \<le> limit" "w_read W t (unat (next_request limit sz)) = None"
    | (ended) bytes where "sz \<le> limit" "w_read W t (unat (next_request limit sz)) = Some bytes" "?chunk bytes = []"
    | (more) bytes where "sz \<le> limit" "w_read W t (unat (next_request limit sz)) = Some bytes" "?chunk bytes \<noteq> []"
    by (cases "w_read W t (unat (next_request limit sz))") blast+
  then show ?case
  proof cases
    case more
    have r: "read_stream W limit (sz + of_nat (length (?chunk bytes))) (content @ ?chunk bytes) (Suc t) = (r, t')"
      using "1.prems" more by (subst (asm) read_stream.simps) (simp add: Let_def del: length_take)
    show ?thesis using "1.IH" [OF more(1,2) refl more(3) r] by simp
  qed (use "1.prems" in \<open>subst (asm) read_stream.simps, force simp: Let_def\<close>)+
qed

text \<open>A reading that starts within the limit takes a moment.\<close>

lemma read_stream_first:
  assumes "read_stream W limit 0 content t = (r, t')"
  shows "t < t'"
proof (cases "w_read W t (unat (next_request limit 0))")
  case None
  then show ?thesis using assms by (simp add: read_stream.simps [of W limit 0])
next
  case (Some bytes)
  then show ?thesis using assms read_stream_later
    by (force simp: read_stream.simps [of W limit 0] Let_def split: if_splits)
qed

lemma observe_entry_Inr:
  assumes "observe_entry H W ref limit before t1 = Inr (Some (revision, sz))"
  shows "\<exists>content after. fst (read_stream W limit 0 [] (Suc (Suc t1))) = Inr (content, sz) \<and>
    \<not> limit < sz \<and> sz = fm_len before \<and> revision = sha256_revision_of H content \<and> same_file before after \<and>
    fst (check_reference_path W ref (Suc (snd (read_stream W limit 0 [] (Suc (Suc t1)))))) = Inr (Some after)"
  using assms unfolding observe_entry_def Let_def
  by (auto simp: and_then_Inr_iff split: if_splits option.splits)


section \<open>Revisions\<close>

datatype scheme = RawBytes | UniversalNewlineUtf8

text \<open>\<open>str::from_utf8\<close> accepts exactly the well-formed sequences of Unicode's table 3-7.\<close>

definition byte_in :: "nat \<Rightarrow> nat \<Rightarrow> char \<Rightarrow> bool" where
  "byte_in lo hi b \<longleftrightarrow> lo \<le> of_char b \<and> of_char b \<le> hi"

fun valid_utf8 :: "str \<Rightarrow> bool" where
  "valid_utf8 [] = True"
| "valid_utf8 (b # bs) =
     (let n = (of_char b :: nat); tail = byte_in 0x80 0xBF in
      if n < 0x80 then valid_utf8 bs
      else if 0xC2 \<le> n \<and> n \<le> 0xDF then
        (case bs of b1 # rest \<Rightarrow> tail b1 \<and> valid_utf8 rest | _ \<Rightarrow> False)
      else if 0xE0 \<le> n \<and> n \<le> 0xEF then
        (case bs of
           b1 # b2 # rest \<Rightarrow>
             byte_in (if n = 0xE0 then 0xA0 else 0x80) (if n = 0xED then 0x9F else 0xBF) b1 \<and>
             tail b2 \<and> valid_utf8 rest
         | _ \<Rightarrow> False)
      else if 0xF0 \<le> n \<and> n \<le> 0xF4 then
        (case bs of
           b1 # b2 # b3 # rest \<Rightarrow>
             byte_in (if n = 0xF0 then 0x90 else 0x80) (if n = 0xF4 then 0x8F else 0xBF) b1 \<and>
             tail b2 \<and> tail b3 \<and> valid_utf8 rest
         | _ \<Rightarrow> False)
      else False)"

text \<open>\<open>replace("\r\n", "\n")\<close> and \<open>replace('\r', "\n")\<close>.\<close>

fun replace_crlf :: "str \<Rightarrow> str" where
  "replace_crlf (a # b # s) =
     (if a = CHR 0x0D \<and> b = CHR 0x0A then CHR 0x0A # replace_crlf s else a # replace_crlf (b # s))"
| "replace_crlf s = s"

definition replace_cr :: "str \<Rightarrow> str" where
  "replace_cr s = map (\<lambda>c. if c = CHR 0x0D then CHR 0x0A else c) s"

text \<open>\<open>decision_source::hash\<close> of a valid UTF-8 string.\<close>

definition newline_hash :: "host \<Rightarrow> str \<Rightarrow> str" where
  "newline_hash H text = ''sha256:'' @ sha256_hex H (replace_crlf text)"

definition source_revision :: "host \<Rightarrow> str \<Rightarrow> scheme \<Rightarrow> str res" where
  "source_revision H bytes scheme =
     (case scheme of
        RawBytes \<Rightarrow> Inr (sha256_revision_of H bytes)
      | UniversalNewlineUtf8 \<Rightarrow>
          if valid_utf8 bytes then Inr (newline_hash H (replace_cr (replace_crlf bytes)))
          else Inl (err ''invalid utf-8 sequence''))"

text \<open>A line ends in \<open>\n\<close>, \<open>\r\n\<close> or \<open>\r\<close>; the text with every end written \<open>\n\<close>.\<close>

fun with_newlines :: "str \<Rightarrow> str" where
  "with_newlines (a # s) =
     (if a = CHR 0x0D then
        (case s of b # rest \<Rightarrow> if b = CHR 0x0A then CHR 0x0A # with_newlines rest else CHR 0x0A # with_newlines s
         | [] \<Rightarrow> [CHR 0x0A])
      else a # with_newlines s)"
| "with_newlines [] = []"

lemma replace_newlines: "replace_cr (replace_crlf s) = with_newlines s"
  by (induction s rule: replace_crlf.induct) (auto simp: replace_cr_def split: list.splits)

lemma with_newlines_no_cr: "CHR 0x0D \<notin> set (with_newlines s)"
  by (induction s rule: with_newlines.induct) (auto split: list.splits)

lemma replace_crlf_fixed: "CHR 0x0D \<notin> set s \<Longrightarrow> replace_crlf s = s"
  by (induction s rule: replace_crlf.induct) auto

lemma universal_revision:
  "valid_utf8 bytes \<Longrightarrow> source_revision H bytes UniversalNewlineUtf8 = Inr (sha256_revision_of H (with_newlines bytes))"
  by (simp add: source_revision_def newline_hash_def sha256_revision_of_def replace_newlines
      replace_crlf_fixed with_newlines_no_cr)

text \<open>Under the universal-newline scheme the revision of a text is the raw revision of the
  text with every line end written as one line feed, so texts that differ only in their
  line ends have the same revision; bytes that are no UTF-8 have none.\<close>

theorem universal_newline_revision:
  "source_revision H bytes UniversalNewlineUtf8 =
     (if valid_utf8 bytes then source_revision H (with_newlines bytes) RawBytes
      else Inl (err ''invalid utf-8 sequence'')) \<and>
   CHR 0x0D \<notin> set (with_newlines bytes)"
  using universal_revision with_newlines_no_cr by (simp add: source_revision_def)

section \<open>Comparison\<close>

datatype currentness = Current | Changed | MissingSource | Unavailable | Unassessed

record observation =
  ob_identity :: str
  ob_scheme :: scheme
  ob_revision :: "str option"
  ob_status :: currentness

record basis =
  ba_conclusion :: json
  ba_dependencies :: "observation list"

record comparison =
  co_status :: currentness
  co_changed :: "str list"
  co_membership_changed :: bool

text \<open>How an observation came out: the revision and whether there is one.\<close>

definition observation_of :: "str \<Rightarrow> scheme \<Rightarrow> str option res \<Rightarrow> observation" where
  "observation_of identity scheme outcome =
     (let (status, revision) =
        (case outcome of
           Inr (Some r) \<Rightarrow> (Current, Some r) | Inr None \<Rightarrow> (MissingSource, None) | Inl _ \<Rightarrow> (Unavailable, None)) in
      \<lparr>ob_identity = identity, ob_scheme = scheme, ob_revision = revision, ob_status = status\<rparr>)"

text \<open>\<open>observe\<close>; \<open>read\<close> is \<open>native_verification::read\<close>, an argument.\<close>

definition observe ::
  "host \<Rightarrow> world \<Rightarrow> (str \<Rightarrow> str option res) \<Rightarrow> str \<Rightarrow> scheme \<Rightarrow> nat \<Rightarrow> observation" where
  "observe H W read identity scheme t =
     observation_of identity scheme
       (case scheme of
          RawBytes \<Rightarrow>
            and_then (observe_raw H W identity MAX_OBSERVATION_BYTES t) (\<lambda>v. Inr (map_option fst v))
        | UniversalNewlineUtf8 \<Rightarrow>
            and_then (read identity) (opt_try (\<lambda>bytes. source_revision H bytes scheme)))"

definition dependency_changed :: "observation list \<Rightarrow> observation \<Rightarrow> bool" where
  "dependency_changed accepted o' \<longleftrightarrow>
     (let matching = filter (\<lambda>a. ob_identity a = ob_identity o') accepted in
      ob_status o' \<noteq> Current \<or> length matching \<noteq> 1 \<or> hd matching \<noteq> o')"

definition worse_status :: "observation \<Rightarrow> currentness \<Rightarrow> currentness" where
  "worse_status o' status =
     (if ob_status o' \<in> {MissingSource, Unavailable} then ob_status o'
      else if status = Current then Changed else status)"

definition membership_changed :: "observation list \<Rightarrow> observation list \<Rightarrow> bool" where
  "membership_changed current accepted \<longleftrightarrow>
     length current \<noteq> length accepted \<or> map ob_identity current \<noteq> map ob_identity accepted"

definition compare_basis :: "basis \<Rightarrow> basis option \<Rightarrow> comparison" where
  "compare_basis current accepted =
     (case accepted of
        None \<Rightarrow> \<lparr>co_status = Unassessed, co_changed = map ob_identity (ba_dependencies current),
          co_membership_changed = True\<rparr>
      | Some a \<Rightarrow>
          let deps = ba_dependencies current; old = ba_dependencies a;
              differing = filter (dependency_changed old) deps;
              status = fold worse_status differing Current;
              removed = filter (\<lambda>o'. ob_identity o' \<notin> ob_identity ` set deps) old;
              changed = map ob_identity differing @ map ob_identity removed;
              membership = membership_changed deps old in
          \<lparr>co_status =
             (if status = Current \<and> (membership \<or> changed \<noteq> [] \<or> ba_conclusion current \<noteq> ba_conclusion a)
              then Changed else status),
           co_changed = changed, co_membership_changed = membership\<rparr>)"

lemma worse_not_current: "worse_status o' status \<noteq> Current"
  by (simp add: worse_status_def)

lemma fold_worse_Current: "fold worse_status os status = Current \<longleftrightarrow> os = [] \<and> status = Current"
  by (induction os arbitrary: status) (simp_all add: worse_not_current)

lemma unchanged_iff:
  "\<not> dependency_changed accepted o' \<longleftrightarrow>
     ob_status o' = Current \<and> filter (\<lambda>a. ob_identity a = ob_identity o') accepted = [o']"
  by (auto simp: dependency_changed_def Let_def length_Suc_conv)

lemma filter_one_distinct:
  "\<forall>x \<in> set xs. length (filter (\<lambda>y. f y = f x) xs) = 1 \<Longrightarrow> distinct (map f xs)"
proof (induction xs)
  case (Cons x xs)
  have none: "filter (\<lambda>y. f y = f x) xs = []" using Cons.prems by auto
  then have "f x \<notin> f ` set xs" by (auto simp: filter_empty_conv)
  moreover have "\<forall>z \<in> set xs. length (filter (\<lambda>y. f y = f z) xs) = 1"
  proof
    fix z
    assume z: "z \<in> set xs"
    then have "f x \<noteq> f z" using none by (auto simp: filter_empty_conv)
    then show "length (filter (\<lambda>y. f y = f z) xs) = 1" using bspec [OF Cons.prems, of z] z by simp
  qed
  ultimately show ?case using Cons.IH by simp
qed simp

lemma filter_own:
  "distinct (map f xs) \<Longrightarrow> x \<in> set xs \<Longrightarrow> filter (\<lambda>y. f y = f x) xs = [x]"
  by (induction xs) (auto simp: filter_empty_conv image_iff)

lemma unchanged_all:
  assumes "map ob_identity deps = map ob_identity old"
    and "\<forall>o' \<in> set deps. \<not> dependency_changed old o'"
  shows "deps = old \<and> distinct (map ob_identity deps)"
proof
  have m: "filter (\<lambda>a. ob_identity a = ob_identity o') old = [o']" if "o' \<in> set deps" for o'
    using assms(2) that by (auto simp: unchanged_iff)
  have len: "length deps = length old" using assms(1) by (metis length_map)
  show "deps = old"
  proof (rule nth_equalityI [OF len])
    fix k
    assume k: "k < length deps"
    have "ob_identity (old ! k) = ob_identity (deps ! k)" using assms(1) k len by (metis nth_map)
    then have "old ! k \<in> set (filter (\<lambda>a. ob_identity a = ob_identity (deps ! k)) old)" using k len by simp
    then show "deps ! k = old ! k" using m [of "deps ! k"] k by simp
  qed
  then show "distinct (map ob_identity deps)" using m by (intro filter_one_distinct) auto
qed

text \<open>A basis is current against an accepted one exactly when conclusion and dependencies
  are the same in the same order, every dependency was observed as current, and no
  identity is declared twice.\<close>

theorem comparison_current_iff:
  "co_status (compare_basis current (Some accepted)) = Current \<longleftrightarrow>
     ba_conclusion current = ba_conclusion accepted \<and>
     ba_dependencies current = ba_dependencies accepted \<and>
     (\<forall>o' \<in> set (ba_dependencies current). ob_status o' = Current) \<and>
     distinct (map ob_identity (ba_dependencies current))"
proof
  let ?deps = "ba_dependencies current" and ?old = "ba_dependencies accepted"
  assume c: "co_status (compare_basis current (Some accepted)) = Current"
  then have none: "filter (dependency_changed ?old) ?deps = []" and m: "\<not> membership_changed ?deps ?old"
    and k: "ba_conclusion current = ba_conclusion accepted"
    by (auto simp: compare_basis_def Let_def fold_worse_Current split: if_splits)
  have u: "\<forall>o' \<in> set ?deps. \<not> dependency_changed ?old o'" using none by (simp add: filter_empty_conv)
  show "ba_conclusion current = ba_conclusion accepted \<and> ?deps = ?old \<and>
      (\<forall>o' \<in> set ?deps. ob_status o' = Current) \<and> distinct (map ob_identity ?deps)"
    using unchanged_all [OF _ u] m k u by (auto simp: membership_changed_def unchanged_iff)
next
  assume a: "ba_conclusion current = ba_conclusion accepted \<and> ba_dependencies current = ba_dependencies accepted \<and>
     (\<forall>o' \<in> set (ba_dependencies current). ob_status o' = Current) \<and>
     distinct (map ob_identity (ba_dependencies current))"
  have "filter (dependency_changed (ba_dependencies accepted)) (ba_dependencies current) = []"
    using a by (auto simp: filter_empty_conv unchanged_iff filter_own)
  then show "co_status (compare_basis current (Some accepted)) = Current"
    using a by (simp add: compare_basis_def membership_changed_def)
qed

text \<open>A dependency is reported as changed exactly when it is not observed as current, is not
  declared exactly once in the accepted basis with the same scheme and revision, or was
  dropped from the current basis.\<close>

theorem comparison_changed_exact:
  "i \<in> set (co_changed (compare_basis current (Some accepted))) \<longleftrightarrow>
     (\<exists>o' \<in> set (ba_dependencies current). ob_identity o' = i \<and>
        (ob_status o' \<noteq> Current \<or> filter (\<lambda>a. ob_identity a = i) (ba_dependencies accepted) \<noteq> [o'])) \<or>
     (i \<in> ob_identity ` set (ba_dependencies accepted) \<and> i \<notin> ob_identity ` set (ba_dependencies current))"
proof -
  have "dependency_changed old o' \<longleftrightarrow>
      ob_status o' \<noteq> Current \<or> filter (\<lambda>a. ob_identity a = ob_identity o') old \<noteq> [o']" for old o'
    using unchanged_iff [of old o'] by blast
  then show ?thesis by (auto simp: compare_basis_def Let_def)
qed

definition unreadable :: "currentness \<Rightarrow> bool" where
  "unreadable status \<longleftrightarrow> status = MissingSource \<or> status = Unavailable"

lemma fold_worse_unreadable:
  "unreadable (fold worse_status os status) \<longleftrightarrow> unreadable status \<or> (\<exists>o' \<in> set os. unreadable (ob_status o'))"
proof (induction os arbitrary: status)
  case (Cons o' os)
  have "unreadable (worse_status o' status) \<longleftrightarrow> unreadable status \<or> unreadable (ob_status o')"
    by (auto simp: worse_status_def unreadable_def)
  then show ?case using Cons.IH by auto
qed simp

text \<open>A source that is missing or unavailable is never hidden: the comparison with an
  accepted basis ends as missing or unavailable exactly when some current dependency is.\<close>

theorem comparison_reports_unreadable:
  "unreadable (co_status (compare_basis current (Some accepted))) \<longleftrightarrow>
     (\<exists>o' \<in> set (ba_dependencies current). unreadable (ob_status o'))"
proof -
  let ?deps = "ba_dependencies current" and ?old = "ba_dependencies accepted"
  have "(\<exists>o' \<in> set (filter (dependency_changed ?old) ?deps). unreadable (ob_status o')) \<longleftrightarrow>
      (\<exists>o' \<in> set ?deps. unreadable (ob_status o'))"
  proof -
    have "dependency_changed ?old o'" if "unreadable (ob_status o')" for o'
      using that unchanged_iff [of ?old o'] by (auto simp: unreadable_def)
    then show ?thesis by auto
  qed
  moreover have "unreadable (co_status (compare_basis current (Some accepted))) \<longleftrightarrow>
      unreadable (fold worse_status (filter (dependency_changed ?old) ?deps) Current)"
    by (auto simp: compare_basis_def Let_def unreadable_def)
  ultimately show ?thesis by (simp add: fold_worse_unreadable) (simp add: unreadable_def)
qed

end
