(* ===== verification/Routes.thy ===== *)
theory Routes
  imports Core
begin

text \<open>
  The work identity, the intended outcome and the semantic routes of an intent
  (\<open>current_work\<close>, \<open>intended_outcome\<close>, \<open>route_ids\<close> and \<open>normalize_semantic_routes\<close>
  of \<open>src/src/core/src/lib.rs\<close>). A route selection is used only when it was made for
  the current work and the current route source; otherwise it is cleared.
\<close>

section \<open>Current work\<close>

record work_identity =
  wi_kind :: str
  wi_id :: str

definition de_work :: "json \<Rightarrow> work_identity option" where
  "de_work v = do {
     f \<leftarrow> struct_fields True [''kind'', ''id''] v;
     kind \<leftarrow> req de_str f ''kind'';
     id \<leftarrow> req de_str f ''id'';
     Some \<lparr>wi_kind = kind, wi_id = id\<rparr> }"

definition en_work :: "work_identity \<Rightarrow> json" where
  "en_work w = obj [(''kind'', JStr (wi_kind w)), (''id'', JStr (wi_id w))]"

text \<open>The part \<open>current_work\<close> and \<open>normalize_semantic_routes\<close> have in common.\<close>

definition checked_work :: "json \<Rightarrow> work_identity res" where
  "checked_work v =
     and_then (ok_or (de_work v) (err ''intent.current_work is invalid'')) (\<lambda>parsed.
     and_then (require_text (wi_kind parsed) ''intent.current_work.kind'') (\<lambda>kind.
     and_then (require_text (wi_id parsed) ''intent.current_work.id'') (\<lambda>id.
     if kind \<noteq> ''current-work'' then Inl (err ''intent.current_work.kind must be current-work'')
     else Inr \<lparr>wi_kind = kind, wi_id = id\<rparr>)))"

definition current_work :: "json \<Rightarrow> work_identity option res" where
  "current_work intent = opt_try checked_work (jget intent ''current_work'')"

lemma checked_work_Inr_iff [result_simps]:
  "checked_work v = Inr w \<longleftrightarrow>
     (\<exists>p. de_work v = Some p \<and> trim (wi_kind p) = ''current-work'' \<and> trim (wi_id p) \<noteq> [] \<and>
        w = \<lparr>wi_kind = ''current-work'', wi_id = trim (wi_id p)\<rparr>)"
  by (auto simp: checked_work_def result_simps split: if_splits)

section \<open>Intended outcome\<close>

record intended_goal =
  io_id :: str
  io_owner :: str
  io_claim :: str

definition de_intended :: "json \<Rightarrow> intended_goal option" where
  "de_intended v = do {
     f \<leftarrow> struct_fields False [''id'', ''owner'', ''claim''] v;
     id \<leftarrow> req de_str f ''id'';
     owner \<leftarrow> req de_str f ''owner'';
     claim \<leftarrow> req de_str f ''claim'';
     Some \<lparr>io_id = id, io_owner = owner, io_claim = claim\<rparr> }"

definition intended_outcome :: "json \<Rightarrow> intended_goal option res" where
  "intended_outcome intent =
     (case jget intent ''outcome'' of
        None \<Rightarrow> Inr None
      | Some v \<Rightarrow>
          if \<not> is_object v then Inl (err ''intent.outcome must be an object'')
          else
            and_then (ok_or (de_intended v) (err ''intent.outcome requires id, owner, and claim'')) (\<lambda>parsed.
            and_then (require_text (io_id parsed) ''intent.outcome.id'') (\<lambda>id.
            and_then (require_text (io_owner parsed) ''intent.outcome.owner'') (\<lambda>owner.
            and_then (require_text (io_claim parsed) ''intent.outcome.claim'') (\<lambda>claim.
            Inr (Some \<lparr>io_id = id, io_owner = owner, io_claim = claim\<rparr>))))))"

section \<open>Semantic routes\<close>

definition route_first :: "char \<Rightarrow> bool" where
  "route_first c \<longleftrightarrow> ascii_lower c \<or> ascii_digit c"

definition route_char :: "char \<Rightarrow> bool" where
  "route_char c \<longleftrightarrow> ascii_lower c \<or> ascii_digit c \<or> c = CHR ''-''"

definition route_segment :: "str \<Rightarrow> bool" where
  "route_segment s \<longleftrightarrow> s \<noteq> [] \<and> route_first (hd s) \<and> list_all route_char s"

definition semantic_route_id :: "str \<Rightarrow> bool" where
  "semantic_route_id value =
     (let segments = split_on CHR 0x2F value
      in 2 \<le> length segments \<and> list_all route_segment segments)"

definition route_ids :: "str list \<Rightarrow> str \<Rightarrow> str list res" where
  "route_ids values field =
     (if (\<exists>v \<in> set values. \<not> semantic_route_id v)
      then Inl (err (fmt [field, '' contains an invalid semantic route identity'']))
      else
        let sorted = sort_dedup values in
        if length sorted \<noteq> length values
        then Inl (err (fmt [field, '' must not contain duplicate routes'']))
        else Inr sorted)"

record semantic_route_source =
  rsrc_revision :: str
  rsrc_routes :: "str list"

record semantic_route_selection =
  sel_posture :: str
  sel_routes :: "str list"
  sel_task_identity :: work_identity
  sel_source_revision :: str
  sel_provenance :: str
  sel_authority_effect :: str

definition de_route_source :: "json \<Rightarrow> semantic_route_source option" where
  "de_route_source v = do {
     f \<leftarrow> struct_fields True [''revision'', ''routes''] v;
     revision \<leftarrow> req de_str f ''revision'';
     routes \<leftarrow> req (de_list de_str) f ''routes'';
     Some \<lparr>rsrc_revision = revision, rsrc_routes = routes\<rparr> }"

definition de_route_selection :: "json \<Rightarrow> semantic_route_selection option" where
  "de_route_selection v = do {
     f \<leftarrow> struct_fields True
       [''posture'', ''routes'', ''task_identity'', ''source_revision'', ''provenance'',
        ''authority_effect''] v;
     posture \<leftarrow> req de_str f ''posture'';
     routes \<leftarrow> req (de_list de_str) f ''routes'';
     task_identity \<leftarrow> req de_work f ''task_identity'';
     source_revision \<leftarrow> req de_str f ''source_revision'';
     provenance \<leftarrow> req de_str f ''provenance'';
     authority_effect \<leftarrow> req de_str f ''authority_effect'';
     Some \<lparr>sel_posture = posture, sel_routes = routes, sel_task_identity = task_identity,
       sel_source_revision = source_revision, sel_provenance = provenance,
       sel_authority_effect = authority_effect\<rparr> }"

definition checked_route_source :: "json \<Rightarrow> semantic_route_source res" where
  "checked_route_source v =
     and_then (ok_or (de_route_source v) (err ''intent.semantic_route_source is invalid'')) (\<lambda>parsed.
     and_then (require_text (rsrc_revision parsed) ''intent.semantic_route_source.revision'') (\<lambda>revision.
     if \<not> sha256_revision revision
     then Inl (err ''intent.semantic_route_source.revision must be a lowercase sha256 revision'')
     else and_then (route_ids (rsrc_routes parsed) ''intent.semantic_route_source.routes'') (\<lambda>routes.
       Inr \<lparr>rsrc_revision = revision, rsrc_routes = routes\<rparr>)))"

definition absent_selection :: "work_identity \<Rightarrow> str \<Rightarrow> json" where
  "absent_selection current revision = obj
     [(''posture'', JStr ''unresolved''), (''routes'', JArr []), (''task_identity'', en_work current),
      (''source_revision'', JStr revision), (''provenance'', JStr ''agent-selected''),
      (''authority_effect'', JStr ''applicability-only'')]"

definition stale_reasons ::
  "work_identity \<Rightarrow> semantic_route_source \<Rightarrow> semantic_route_selection \<Rightarrow> str list" where
  "stale_reasons current src selection =
     (if sel_task_identity selection \<noteq> current then [''current-work-changed''] else [])
     @ (if sel_source_revision selection \<noteq> rsrc_revision src then [''route-source-changed''] else [])
     @ (if (\<exists>r \<in> set (sel_routes selection). r \<notin> set (rsrc_routes src)) then [''route-removed''] else [])"

definition checked_selection :: "json \<Rightarrow> semantic_route_selection res" where
  "checked_selection v =
     and_then (ok_or (de_route_selection v) (err ''intent.semantic_task_routes is invalid'')) (\<lambda>parsed.
     and_then (route_ids (sel_routes parsed) ''intent.semantic_task_routes.routes'') (\<lambda>routes.
     let selection = parsed\<lparr>sel_routes := routes\<rparr> in
     if sel_posture selection \<notin> {''selected'', ''none'', ''unresolved''}
     then Inl (err ''intent.semantic_task_routes.posture must be selected, none, or unresolved'')
     else if (sel_posture selection = ''selected'') \<noteq> (routes \<noteq> [])
     then Inl (err
       ''selected semantic-route posture requires routes; none and unresolved require no routes'')
     else if sel_provenance selection \<noteq> ''agent-selected''
       \<or> sel_authority_effect selection \<noteq> ''applicability-only''
     then Inl (err ''semantic routes must be agent-selected and applicability-only'')
     else Inr selection))"

text \<open>The stored selection; \<open>fact\<close> also carries the verdict.\<close>

definition normalized_selection :: "str \<Rightarrow> str list \<Rightarrow> work_identity \<Rightarrow> str \<Rightarrow> (str \<times> json) list" where
  "normalized_selection posture routes current revision =
     [(''posture'', JStr posture), (''routes'', jstrs routes), (''task_identity'', en_work current),
      (''source_revision'', JStr revision), (''provenance'', JStr ''agent-selected''),
      (''authority_effect'', JStr ''applicability-only'')]"

definition selection_value :: "json \<Rightarrow> work_identity \<Rightarrow> str \<Rightarrow> json" where
  "selection_value intent current revision =
     (case jget intent ''semantic_task_routes'' of
        None \<Rightarrow> absent_selection current revision | Some v \<Rightarrow> v)"

definition selection_status :: "bool \<Rightarrow> str list \<Rightarrow> str" where
  "selection_status missing stale =
     (if missing then ''missing'' else if stale = [] then ''current'' else ''stale'')"

definition conclude_routes ::
  "json \<Rightarrow> bool \<Rightarrow> work_identity \<Rightarrow> semantic_route_source \<Rightarrow> semantic_route_selection
   \<Rightarrow> json option \<times> json" where
  "conclude_routes intent missing current source selection =
     (let stale = stale_reasons current source selection;
          status = selection_status missing stale;
          posture = (if status \<noteq> ''current'' then ''unresolved'' else sel_posture selection);
          routes = (if status \<noteq> ''current'' then [] else sel_routes selection);
          normalized = normalized_selection posture routes current (rsrc_revision source)
      in (Some (obj (normalized @ [(''status'', JStr status), (''stale_reasons'', jstrs stale)])),
          jset ''semantic_task_routes'' (obj normalized)
            (jset ''semantic_route_source''
              (obj [(''revision'', JStr (rsrc_revision source)), (''routes'', jstrs (rsrc_routes source))])
              (jset ''current_work'' (en_work current) intent))))"

definition normalize_semantic_routes :: "json \<Rightarrow> (json option \<times> json) res" where
  "normalize_semantic_routes intent =
     (if jget intent ''semantic_route_source'' = None \<and> jget intent ''semantic_task_routes'' = None
      then Inr (None, intent)
      else case (jget intent ''current_work'', jget intent ''semantic_route_source'') of
        (Some work, Some source_value) \<Rightarrow>
          and_then (checked_work work) (\<lambda>current.
          and_then (checked_route_source source_value) (\<lambda>source.
          and_then (checked_selection
            (selection_value intent current (rsrc_revision source))) (\<lambda>selection.
          Inr (conclude_routes intent (jget intent ''semantic_task_routes'' = None)
            current source selection))))
      | _ \<Rightarrow> Inl (err
          ''semantic routes require current_work and an admitted semantic_route_source''))"

section \<open>What the normalizer keeps\<close>

lemma route_ids_Inr_iff [result_simps]:
  "route_ids vs f = Inr ws \<longleftrightarrow>
     (\<forall>v \<in> set vs. semantic_route_id v) \<and> distinct vs \<and> ws = sort_dedup vs"
  by (auto simp: route_ids_def Let_def length_sort_dedup_distinct)

lemma checked_route_source_Inr_iff [result_simps]:
  "checked_route_source v = Inr s \<longleftrightarrow>
     (\<exists>p. de_route_source v = Some p \<and> sha256_revision (trim (rsrc_revision p)) \<and>
        trim (rsrc_revision p) \<noteq> [] \<and>
        (\<forall>r \<in> set (rsrc_routes p). semantic_route_id r) \<and> distinct (rsrc_routes p) \<and>
        s = \<lparr>rsrc_revision = trim (rsrc_revision p), rsrc_routes = sort_dedup (rsrc_routes p)\<rparr>)"
  by (auto simp: checked_route_source_def result_simps split: if_splits)

lemma checked_selection_Inr_iff [result_simps]:
  "checked_selection v = Inr s \<longleftrightarrow>
     (\<exists>p. de_route_selection v = Some p \<and>
        (\<forall>r \<in> set (sel_routes p). semantic_route_id r) \<and> distinct (sel_routes p) \<and>
        sel_posture p \<in> {''selected'', ''none'', ''unresolved''} \<and>
        (sel_posture p = ''selected'') = (sel_routes p \<noteq> []) \<and>
        sel_provenance p = ''agent-selected'' \<and> sel_authority_effect p = ''applicability-only'' \<and>
        s = p\<lparr>sel_routes := sort_dedup (sel_routes p)\<rparr>)"
  by (auto simp: checked_selection_def result_simps Let_def)

lemma normalize_semantic_routes_Some:
  assumes "normalize_semantic_routes intent = Inr (Some found, intent')"
  obtains work source_value current source selection where
    "jget intent ''current_work'' = Some work" "checked_work work = Inr current"
    "jget intent ''semantic_route_source'' = Some source_value"
    "checked_route_source source_value = Inr source"
    "checked_selection (selection_value intent current (rsrc_revision source)) = Inr selection"
    "conclude_routes intent (jget intent ''semantic_task_routes'' = None) current source selection
      = (Some found, intent')"
  using assms unfolding normalize_semantic_routes_def
  by (auto simp: and_then_Inr_iff split: option.splits prod.splits if_splits)

lemma conclude_routes_found:
  assumes "conclude_routes intent missing current source selection = (Some found, intent')"
  defines "stale \<equiv> stale_reasons current source selection"
  shows "ix found ''status'' = JStr (selection_status missing stale)"
    "ix found ''routes'' = jstrs (if missing \<or> stale \<noteq> [] then [] else sel_routes selection)"
    "ix found ''task_identity'' = en_work current"
    "ix found ''source_revision'' = JStr (rsrc_revision source)"
    "ix found ''authority_effect'' = JStr ''applicability-only''"
  using assms
  by (auto simp: conclude_routes_def Let_def normalized_selection_def selection_status_def)

lemma stale_reasons_Nil_iff:
  "stale_reasons current source selection = [] \<longleftrightarrow>
     sel_task_identity selection = current \<and> sel_source_revision selection = rsrc_revision source \<and>
     set (sel_routes selection) \<subseteq> set (rsrc_routes source)"
  by (auto simp: stale_reasons_def)

text \<open>
  A finding lists routes only when the client selected exactly these routes for the
  current work and the current source, and the source still has them.
\<close>

theorem routes_current_or_cleared:
  assumes "normalize_semantic_routes intent = Inr (Some found, intent')"
    and "ix found ''routes'' \<noteq> JArr []"
  shows "\<exists>selection work source_value current source.
     de_route_selection (ix intent ''semantic_task_routes'') = Some selection \<and>
     jget intent ''current_work'' = Some work \<and> checked_work work = Inr current \<and>
     jget intent ''semantic_route_source'' = Some source_value \<and>
     checked_route_source source_value = Inr source \<and>
     ix found ''status'' = JStr ''current'' \<and>
     ix found ''routes'' = jstrs (sort_dedup (sel_routes selection)) \<and>
     sel_task_identity selection = current \<and>
     sel_source_revision selection = rsrc_revision source \<and>
     set (sel_routes selection) \<subseteq> set (rsrc_routes source)"
proof -
  obtain work source_value current source selection where
    w: "jget intent ''current_work'' = Some work" "checked_work work = Inr current"
    and s: "jget intent ''semantic_route_source'' = Some source_value"
      "checked_route_source source_value = Inr source"
    and sel: "checked_selection (selection_value intent current (rsrc_revision source)) = Inr selection"
    and c: "conclude_routes intent (jget intent ''semantic_task_routes'' = None) current source selection
      = (Some found, intent')"
    using normalize_semantic_routes_Some [OF assms(1)] .
  have fresh: "jget intent ''semantic_task_routes'' \<noteq> None" "stale_reasons current source selection = []"
    using assms(2) conclude_routes_found(2) [OF c] by (auto simp: jstrs_def split: if_splits)
  obtain v where v: "jget intent ''semantic_task_routes'' = Some v" using fresh(1) by blast
  obtain p where p: "de_route_selection v = Some p" "selection = p\<lparr>sel_routes := sort_dedup (sel_routes p)\<rparr>"
    using sel by (auto simp: v selection_value_def checked_selection_Inr_iff)
  have "ix intent ''semantic_task_routes'' = v" by (simp add: ix_def v)
  moreover have "ix found ''status'' = JStr ''current''"
    "ix found ''routes'' = jstrs (sort_dedup (sel_routes p))"
    using conclude_routes_found(1,2) [OF c] fresh by (simp_all add: selection_status_def p(2))
  moreover have "sel_task_identity p = current" "sel_source_revision p = rsrc_revision source"
    "set (sel_routes p) \<subseteq> set (rsrc_routes source)"
    using fresh(2) by (simp_all add: stale_reasons_Nil_iff p(2))
  ultimately show ?thesis using w s p(1) by blast
qed

end
