(* ===== verification/Capability.thy ===== *)
theory Capability
  imports Core
begin

text \<open>
  The capability contract (\<open>normalize_capability_contract\<close> of
  \<open>src/src/core/src/lib.rs\<close>): which owner may do what. Input records and their
  derived decoders, the normalized records with their serialization, the admission of
  every declaration in the order of the code, and the custody invariant.
\<close>

section \<open>Input\<close>

record restriction_authority_input =
  rai_owner :: str
  rai_affects :: "str list"

record effect_authority_input =
  eai_id :: str
  eai_domain :: str

record claim_authority_input =
  cai_claim :: str
  cai_owner :: str

record operation_capability_input =
  oci_id :: str
  oci_semantic_revision :: str
  oci_reads :: "str list option"
  oci_input_schema :: json
  oci_result_kind :: str
  oci_effects :: "str list"
  oci_claims :: "str list"

record request_shape_input =
  rsi_kind :: str
  rsi_input_schema :: json
  rsi_result_kind :: str

record capability_owner_input =
  coi_owner :: str
  coi_revision :: str
  coi_domains :: "str list"
  coi_effects :: "effect_authority_input list"
  coi_operations :: "operation_capability_input list"
  coi_requests :: "request_shape_input list"

record capability_contract_input =
  cci_kind :: str
  cci_revision :: str
  cci_owners :: "capability_owner_input list"
  cci_claim_authorities :: "claim_authority_input list"
  cci_restriction_authorities :: "restriction_authority_input list"

definition de_strs :: "json \<Rightarrow> str list option" where
  "de_strs = de_list de_str"

definition de_restriction_authority :: "json \<Rightarrow> restriction_authority_input option" where
  "de_restriction_authority v = do {
     f \<leftarrow> struct_fields True [''owner'', ''affects''] v;
     owner \<leftarrow> req de_str f ''owner'';
     affects \<leftarrow> req de_strs f ''affects'';
     Some \<lparr>rai_owner = owner, rai_affects = affects\<rparr> }"

definition de_effect_authority :: "json \<Rightarrow> effect_authority_input option" where
  "de_effect_authority v = do {
     f \<leftarrow> struct_fields True [''id'', ''domain''] v;
     id \<leftarrow> req de_str f ''id'';
     domain \<leftarrow> req de_str f ''domain'';
     Some \<lparr>eai_id = id, eai_domain = domain\<rparr> }"

definition de_claim_authority :: "json \<Rightarrow> claim_authority_input option" where
  "de_claim_authority v = do {
     f \<leftarrow> struct_fields True [''claim'', ''owner''] v;
     claim \<leftarrow> req de_str f ''claim'';
     owner \<leftarrow> req de_str f ''owner'';
     Some \<lparr>cai_claim = claim, cai_owner = owner\<rparr> }"

definition de_operation_capability :: "json \<Rightarrow> operation_capability_input option" where
  "de_operation_capability v = do {
     f \<leftarrow> struct_fields True
       [''id'', ''semantic_revision'', ''reads'', ''input_schema'', ''result_kind'',
        ''effects'', ''claims''] v;
     id \<leftarrow> req de_str f ''id'';
     semantic_revision \<leftarrow> req de_str f ''semantic_revision'';
     reads \<leftarrow> opt de_strs f ''reads'';
     input_schema \<leftarrow> req de_any f ''input_schema'';
     result_kind \<leftarrow> req de_str f ''result_kind'';
     effects \<leftarrow> dflt de_strs [] f ''effects'';
     claims \<leftarrow> dflt de_strs [] f ''claims'';
     Some \<lparr>oci_id = id, oci_semantic_revision = semantic_revision, oci_reads = reads,
       oci_input_schema = input_schema, oci_result_kind = result_kind,
       oci_effects = effects, oci_claims = claims\<rparr> }"

definition de_request_shape :: "json \<Rightarrow> request_shape_input option" where
  "de_request_shape v = do {
     f \<leftarrow> struct_fields True [''kind'', ''input_schema'', ''result_kind''] v;
     kind \<leftarrow> req de_str f ''kind'';
     input_schema \<leftarrow> req de_any f ''input_schema'';
     result_kind \<leftarrow> req de_str f ''result_kind'';
     Some \<lparr>rsi_kind = kind, rsi_input_schema = input_schema, rsi_result_kind = result_kind\<rparr> }"

definition de_capability_owner :: "json \<Rightarrow> capability_owner_input option" where
  "de_capability_owner v = do {
     f \<leftarrow> struct_fields True
       [''owner'', ''revision'', ''domains'', ''effects'', ''operations'', ''requests''] v;
     owner \<leftarrow> req de_str f ''owner'';
     revision \<leftarrow> req de_str f ''revision'';
     domains \<leftarrow> dflt de_strs [] f ''domains'';
     effects \<leftarrow> dflt (de_list de_effect_authority) [] f ''effects'';
     operations \<leftarrow> dflt (de_list de_operation_capability) [] f ''operations'';
     requests \<leftarrow> dflt (de_list de_request_shape) [] f ''requests'';
     Some \<lparr>coi_owner = owner, coi_revision = revision, coi_domains = domains,
       coi_effects = effects, coi_operations = operations, coi_requests = requests\<rparr> }"

definition de_capability_contract :: "json \<Rightarrow> capability_contract_input option" where
  "de_capability_contract v = do {
     f \<leftarrow> struct_fields True
       [''kind'', ''revision'', ''owners'', ''claim_authorities'', ''restriction_authorities''] v;
     kind \<leftarrow> req de_str f ''kind'';
     revision \<leftarrow> req de_str f ''revision'';
     owners \<leftarrow> req (de_list de_capability_owner) f ''owners'';
     claims \<leftarrow> dflt (de_list de_claim_authority) [] f ''claim_authorities'';
     restrictions \<leftarrow> dflt (de_list de_restriction_authority) [] f ''restriction_authorities'';
     Some \<lparr>cci_kind = kind, cci_revision = revision, cci_owners = owners,
       cci_claim_authorities = claims, cci_restriction_authorities = restrictions\<rparr> }"

section \<open>Normalized contract\<close>

record operation_capability =
  oc_semantic_revision :: str
  oc_reads :: "str list option"
  oc_input_schema :: json
  oc_result_kind :: str
  oc_effects :: "str list"
  oc_claims :: "str list"

record request_shape =
  rs_input_schema :: json
  rs_result_kind :: str

record capability_owner =
  co_revision :: str
  co_domains :: "str list"
  co_effects :: "(str, str) omap"
  co_operations :: "(str, operation_capability) omap"
  co_requests :: "(str, request_shape) omap"

record capability_contract =
  cc_revision :: str
  cc_owners :: "(str, capability_owner) omap"
  cc_claim_authorities :: "(str, str) omap"
  cc_restriction_authorities :: "(str, str list) omap"

definition CAPABILITY_CONTRACT_KIND :: str where
  "CAPABILITY_CONTRACT_KIND = ''agentic-workspace/capability-contract/v1''"

definition jmap :: "('a \<Rightarrow> json) \<Rightarrow> (str, 'a) omap \<Rightarrow> json" where
  "jmap f m = JObj (map (\<lambda>(k, v). (k, f v)) m)"

definition en_operation :: "operation_capability \<Rightarrow> json" where
  "en_operation oc = obj
     ([(''semantic_revision'', JStr (oc_semantic_revision oc))]
      @ opt_field ''reads'' jstrs (oc_reads oc) @
      [(''input_schema'', oc_input_schema oc), (''result_kind'', JStr (oc_result_kind oc)),
       (''effects'', jstrs (oc_effects oc)), (''claims'', jstrs (oc_claims oc))])"

definition en_request_shape :: "request_shape \<Rightarrow> json" where
  "en_request_shape rs = obj
     [(''input_schema'', rs_input_schema rs), (''result_kind'', JStr (rs_result_kind rs))]"

definition en_owner :: "capability_owner \<Rightarrow> json" where
  "en_owner co = obj
     [(''revision'', JStr (co_revision co)), (''domains'', jstrs (co_domains co)),
      (''effects'', jmap JStr (co_effects co)),
      (''operations'', jmap en_operation (co_operations co)),
      (''requests'', jmap en_request_shape (co_requests co))]"

definition en_contract :: "capability_contract \<Rightarrow> json" where
  "en_contract cc = obj
     [(''kind'', JStr CAPABILITY_CONTRACT_KIND), (''revision'', JStr (cc_revision cc)),
      (''owners'', jmap en_owner (cc_owners cc)),
      (''claim_authorities'', jmap JStr (cc_claim_authorities cc)),
      (''restriction_authorities'', jmap jstrs (cc_restriction_authorities cc))]"

section \<open>Admitting the declarations\<close>

text \<open>The maps the loop over the owners carries.\<close>

record contract_state =
  cs_owners :: "(str, capability_owner) omap"
  cs_owned_domains :: "(str, str) omap"
  cs_owned_effects :: "(str, str) omap"
  cs_operation_owners :: "(str, str) omap"
  cs_request_kinds :: "(str, str) omap"

definition empty_contract_state :: contract_state where
  "empty_contract_state =
     \<lparr>cs_owners = [], cs_owned_domains = [], cs_owned_effects = [],
      cs_operation_owners = [], cs_request_kinds = []\<rparr>"

definition admit_domain :: "str \<Rightarrow> str \<Rightarrow> (str, str) omap \<Rightarrow> (str, str) omap res" where
  "admit_domain owner domain owned =
     (case om_get owned domain of
        Some existing \<Rightarrow> Inl (err (fmt [''domain '', domain, '' has conflicting owners '', existing, '' and '', owner]))
      | None \<Rightarrow> Inr (om_put domain owner owned))"

definition admit_effect ::
  "str \<Rightarrow> str list \<Rightarrow> nat \<Rightarrow> effect_authority_input
   \<Rightarrow> (str, str) omap \<times> (str, str) omap \<Rightarrow> ((str, str) omap \<times> (str, str) omap) res" where
  "admit_effect owner domains i e = (\<lambda>(effects, owned_effects).
     and_then (require_text (eai_id e)
       (fmt [''capability_contract owner '', owner, ''.effects['', nat_text i, ''].id''])) (\<lambda>id.
     and_then (require_text (eai_domain e)
       (fmt [''capability_contract owner '', owner, ''.effects['', nat_text i, ''].domain''])) (\<lambda>domain.
     if domain \<notin> set domains then
       Inl (err (fmt [''effect '', id, '' names domain '', domain, '', which is not owned by '', owner]))
     else if om_get effects id \<noteq> None then
       Inl (err (fmt [''effect '', id, '' is declared more than once by '', owner]))
     else case om_get owned_effects id of
       Some existing \<Rightarrow> Inl (err (fmt [''effect '', id, '' has conflicting owners '', existing, '' and '', owner]))
     | None \<Rightarrow> Inr (om_put id domain effects, om_put id owner owned_effects))))"

definition admit_operation ::
  "host \<Rightarrow> str \<Rightarrow> (str, str) omap \<Rightarrow> nat \<Rightarrow> operation_capability_input
   \<Rightarrow> (str, operation_capability) omap \<times> (str, str) omap
   \<Rightarrow> ((str, operation_capability) omap \<times> (str, str) omap) res" where
  "admit_operation H owner effects i o' = (\<lambda>(operations, operation_owners).
     and_then (require_text (oci_id o')
       (fmt [''capability_contract owner '', owner, ''.operations['', nat_text i, ''].id''])) (\<lambda>id.
     case om_get operation_owners id of
       Some existing \<Rightarrow> Inl (err (fmt [''operation '', id, '' has conflicting owners '', existing, '' and '', owner]))
     | None \<Rightarrow>
     and_then (schema_validator H (oci_input_schema o') (fmt [''operation '', id])) (\<lambda>_.
     and_then (unique_strings (oci_effects o')
       (fmt [''capability_contract operation '', id, ''.effects''])) (\<lambda>operation_effects.
     case find (\<lambda>e. om_get effects e = None) operation_effects of
       Some effect \<Rightarrow> Inl (err (fmt [''operation '', id, '' advertises effect '', effect, '' outside owner '', owner]))
     | None \<Rightarrow>
     and_then (unique_strings (oci_claims o')
       (fmt [''capability_contract operation '', id, ''.claims''])) (\<lambda>claims.
     and_then (require_text (oci_semantic_revision o') ''operation.semantic_revision'') (\<lambda>semantic.
     and_then (opt_try (\<lambda>reads. unique_strings reads ''operation.reads'') (oci_reads o')) (\<lambda>reads.
     and_then (require_text (oci_result_kind o')
       ''capability_contract operation result_kind'') (\<lambda>result_kind.
     Inr (om_put id \<lparr>oc_semantic_revision = semantic, oc_reads = reads,
            oc_input_schema = oci_input_schema o', oc_result_kind = result_kind,
            oc_effects = operation_effects, oc_claims = claims\<rparr> operations,
          om_put id owner operation_owners)))))))))"

definition admit_request ::
  "host \<Rightarrow> str \<Rightarrow> request_shape_input
   \<Rightarrow> (str, request_shape) omap \<times> (str, str) omap
   \<Rightarrow> ((str, request_shape) omap \<times> (str, str) omap) res" where
  "admit_request H owner r = (\<lambda>(requests, request_kinds).
     and_then (require_text (rsi_kind r) ''capability request.kind'') (\<lambda>kind.
     case om_get request_kinds kind of
       Some existing \<Rightarrow> Inl (err (fmt [''public request kind '', kind, '' has conflicting declarations by '', existing, '' and '', owner]))
     | None \<Rightarrow>
     and_then (schema_validator H (rsi_input_schema r) (fmt [''request '', kind])) (\<lambda>_.
     and_then (require_text (rsi_result_kind r) ''capability request.result_kind'') (\<lambda>result_kind.
     Inr (om_put kind \<lparr>rs_input_schema = rsi_input_schema r, rs_result_kind = result_kind\<rparr> requests,
          om_put kind owner request_kinds)))))"

definition admit_owner ::
  "host \<Rightarrow> nat \<Rightarrow> capability_owner_input \<Rightarrow> contract_state \<Rightarrow> contract_state res" where
  "admit_owner H i inp st =
     and_then (require_text (coi_owner inp)
       (fmt [''capability_contract.owners['', nat_text i, ''].owner''])) (\<lambda>owner.
     if om_get (cs_owners st) owner \<noteq> None then
       Inl (err (fmt [''capability owner '', owner, '' is declared more than once'']))
     else
     and_then (require_text (coi_revision inp)
       (fmt [''capability_contract.owners['', nat_text i, ''].revision''])) (\<lambda>revision.
     and_then (unique_strings (coi_domains inp)
       (fmt [''capability_contract owner '', owner, ''.domains''])) (\<lambda>domains.
     and_then (fold_try (admit_domain owner) domains (cs_owned_domains st)) (\<lambda>owned_domains.
     and_then (fold_try_ix (admit_effect owner domains) 0 (coi_effects inp)
       ([], cs_owned_effects st)) (\<lambda>(effects, owned_effects).
     and_then (fold_try_ix (admit_operation H owner effects) 0 (coi_operations inp)
       ([], cs_operation_owners st)) (\<lambda>(operations, operation_owners).
     and_then (fold_try (admit_request H owner) (coi_requests inp)
       ([], cs_request_kinds st)) (\<lambda>(requests, request_kinds).
     Inr \<lparr>cs_owners = om_put owner \<lparr>co_revision = revision, co_domains = domains,
             co_effects = effects, co_operations = operations, co_requests = requests\<rparr> (cs_owners st),
          cs_owned_domains = owned_domains, cs_owned_effects = owned_effects,
          cs_operation_owners = operation_owners, cs_request_kinds = request_kinds\<rparr>)))))))"

definition admit_claim_authority ::
  "(str, capability_owner) omap \<Rightarrow> nat \<Rightarrow> claim_authority_input
   \<Rightarrow> (str, str) omap \<Rightarrow> (str, str) omap res" where
  "admit_claim_authority owners i a claims =
     and_then (require_text (cai_claim a)
       (fmt [''capability_contract.claim_authorities['', nat_text i, ''].claim''])) (\<lambda>claim.
     and_then (require_text (cai_owner a)
       (fmt [''capability_contract.claim_authorities['', nat_text i, ''].owner''])) (\<lambda>owner.
     if om_get owners owner = None then
       Inl (err (fmt [''claim '', claim, '' names unknown authority owner '', owner]))
     else case om_get claims claim of
       Some existing \<Rightarrow> Inl (err (fmt [''claim '', claim, '' has conflicting authorities '', existing, '' and '', owner]))
     | None \<Rightarrow> Inr (om_put claim owner claims)))"

definition check_operation ::
  "(str, str) omap \<Rightarrow> (str, str) omap \<Rightarrow> str \<Rightarrow> str \<times> operation_capability \<Rightarrow> unit \<Rightarrow> unit res" where
  "check_operation owned_domains claims owner = (\<lambda>(id, oc) _.
     case find (\<lambda>d. om_get owned_domains d = None) (case oc_reads oc of None \<Rightarrow> [] | Some r \<Rightarrow> r) of
       Some domain \<Rightarrow> Inl (err (fmt [''operation '', id, '' reads unknown domain '', domain]))
     | None \<Rightarrow>
       (case find (\<lambda>c. om_get claims c \<noteq> Some owner) (oc_claims oc) of
          Some claim \<Rightarrow> Inl (err (fmt [''operation '', id, '' advertises claim '', claim, '' without authority owned by '', owner]))
        | None \<Rightarrow> Inr ()))"

definition check_owner_operations ::
  "(str, str) omap \<Rightarrow> (str, str) omap \<Rightarrow> str \<times> capability_owner \<Rightarrow> unit \<Rightarrow> unit res" where
  "check_owner_operations owned_domains claims = (\<lambda>(owner, co) u.
     fold_try (check_operation owned_domains claims owner) (co_operations co) u)"

definition admit_restriction ::
  "(str, capability_owner) omap \<Rightarrow> restriction_authority_input
   \<Rightarrow> (str, str list) omap \<Rightarrow> (str, str list) omap res" where
  "admit_restriction owners g restrictions =
     and_then (require_text (rai_owner g) ''restriction authority.owner'') (\<lambda>owner.
     if om_get owners owner = None then
       Inl (err (fmt [''restriction authority names unknown owner '', owner]))
     else and_then (affects (rai_affects g) ''restriction authority.affects'') (\<lambda>scopes.
     if om_get restrictions owner \<noteq> None then
       Inl (err (fmt [''restriction authority for '', owner, '' is declared more than once'']))
     else Inr (om_put owner scopes restrictions)))"

definition normalize_capability_contract ::
  "host \<Rightarrow> capability_contract_input \<Rightarrow> capability_contract res" where
  "normalize_capability_contract H inp =
     (if cci_kind inp \<noteq> CAPABILITY_CONTRACT_KIND then
        Inl (err (fmt [''capability_contract.kind must be '', CAPABILITY_CONTRACT_KIND]))
      else and_then (require_text (cci_revision inp) ''capability_contract.revision'') (\<lambda>revision.
      if \<not> sha256_revision revision then
        Inl (err ''capability_contract.revision must be a lowercase sha256 revision'')
      else and_then (fold_try_ix (admit_owner H) 0 (cci_owners inp) empty_contract_state) (\<lambda>st.
      if cs_owners st = [] then
        Inl (err ''capability_contract must declare at least one owner'')
      else
        and_then (fold_try_ix (admit_claim_authority (cs_owners st)) 0
          (cci_claim_authorities inp) []) (\<lambda>claims.
        and_then (fold_try (check_owner_operations (cs_owned_domains st) claims)
          (cs_owners st) ()) (\<lambda>_.
        and_then (fold_try (admit_restriction (cs_owners st))
          (cci_restriction_authorities inp) []) (\<lambda>restrictions.
        Inr \<lparr>cc_revision = revision, cc_owners = cs_owners st,
             cc_claim_authorities = claims, cc_restriction_authorities = restrictions\<rparr>))))))"

section \<open>Custody\<close>

text \<open>Every key of \<open>K\<close> was free and now belongs to \<open>owner\<close>; nothing else changed.\<close>

definition grown :: "'v \<Rightarrow> ('k, 'v) omap \<Rightarrow> ('k, 'v) omap \<Rightarrow> 'k set \<Rightarrow> bool" where
  "grown owner m m' K \<longleftrightarrow>
     (\<forall>k. om_get m' k = (if k \<in> K then Some owner else om_get m k)) \<and> (\<forall>k \<in> K. om_get m k = None)"

lemma grown_refl [simp]: "grown owner m m {}"
  by (simp add: grown_def)

lemma grown_put:
  "grown owner m m' K \<Longrightarrow> om_get m' k = None \<Longrightarrow> grown owner m (om_put k owner m') (insert k K)"
  by (auto simp: grown_def omap_simps split: if_splits)

text \<open>What the normalizer promises of one operation and one owner.\<close>

definition operation_ok :: "(str, str) omap \<Rightarrow> operation_capability \<Rightarrow> bool" where
  "operation_ok effects oc \<longleftrightarrow>
     oc_semantic_revision oc \<noteq> [] \<and> oc_result_kind oc \<noteq> [] \<and>
     sorted_wrt (<) (oc_effects oc) \<and> sorted_wrt (<) (oc_claims oc) \<and>
     set (oc_effects oc) \<subseteq> dom (om_get effects)"

definition owner_ok :: "capability_owner \<Rightarrow> bool" where
  "owner_ok co \<longleftrightarrow>
     co_revision co \<noteq> [] \<and> sorted_wrt (<) (co_domains co) \<and>
     om_ok (co_effects co) \<and> om_ok (co_operations co) \<and> om_ok (co_requests co) \<and>
     ran (om_get (co_effects co)) \<subseteq> set (co_domains co) \<and>
     (\<forall>oc \<in> ran (om_get (co_operations co)). operation_ok (co_effects co) oc)"

definition state_ok :: "contract_state \<Rightarrow> bool" where
  "state_ok st \<longleftrightarrow>
     om_ok (cs_owners st) \<and>
     (\<forall>co \<in> ran (om_get (cs_owners st)). owner_ok co) \<and>
     (\<forall>o' co. om_get (cs_owners st) o' = Some co \<longrightarrow>
        (\<forall>d \<in> set (co_domains co). om_get (cs_owned_domains st) d = Some o') \<and>
        (\<forall>k \<in> dom (om_get (co_effects co)). om_get (cs_owned_effects st) k = Some o') \<and>
        (\<forall>k \<in> dom (om_get (co_operations co)). om_get (cs_operation_owners st) k = Some o') \<and>
        (\<forall>k \<in> dom (om_get (co_requests co)). om_get (cs_request_kinds st) k = Some o')) \<and>
     (\<forall>d o'. om_get (cs_owned_domains st) d = Some o' \<longrightarrow>
        (\<exists>co. om_get (cs_owners st) o' = Some co \<and> d \<in> set (co_domains co)))"

text \<open>Inversion: when a declaration is admitted, and what it adds.\<close>

lemma admit_domain_Inr_iff [result_simps]:
  "admit_domain owner d m = Inr m' \<longleftrightarrow> om_get m d = None \<and> m' = om_put d owner m"
  by (auto simp: admit_domain_def split: option.splits)

lemma admit_effect_Inr_iff [result_simps]:
  "admit_effect owner ds i e (eff, own) = Inr r \<longleftrightarrow>
     (let id = trim (eai_id e); d = trim (eai_domain e) in
      id \<noteq> [] \<and> d \<noteq> [] \<and> d \<in> set ds \<and> om_get eff id = None \<and> om_get own id = None \<and>
      r = (om_put id d eff, om_put id owner own))"
  by (auto simp: admit_effect_def result_simps Let_def split: option.splits if_splits)

lemma opt_try_unique_Inr_iff [result_simps]:
  "opt_try (\<lambda>r. unique_strings r f) v = Inr w \<longleftrightarrow>
     (case v of None \<Rightarrow> w = None
      | Some r \<Rightarrow> [] \<notin> set r \<and> distinct r \<and> w = Some (sort_dedup r))"
  by (cases v) (auto simp: result_simps)

definition normal_operation ::
  "operation_capability_input \<Rightarrow> str list option \<Rightarrow> operation_capability" where
  "normal_operation x reads =
     \<lparr>oc_semantic_revision = trim (oci_semantic_revision x), oc_reads = reads,
      oc_input_schema = oci_input_schema x, oc_result_kind = trim (oci_result_kind x),
      oc_effects = sort_dedup (oci_effects x), oc_claims = sort_dedup (oci_claims x)\<rparr>"

lemma admit_operation_Inr:
  assumes "admit_operation H owner eff i x (ops, own) = Inr r"
  shows "\<exists>reads. om_get own (trim (oci_id x)) = None \<and> operation_ok eff (normal_operation x reads) \<and>
    r = (om_put (trim (oci_id x)) (normal_operation x reads) ops, om_put (trim (oci_id x)) owner own)"
  using assms unfolding admit_operation_def prod.case
  by (elim and_then_InrE)
    (auto simp: result_simps operation_ok_def normal_operation_def find_None_iff subset_iff
      split: option.splits elim!: and_then_InrE)

lemma admit_request_Inr:
  assumes "admit_request H owner r' (reqs, own) = Inr r"
  shows "om_get own (trim (rsi_kind r')) = None \<and>
    r = (om_put (trim (rsi_kind r'))
          \<lparr>rs_input_schema = rsi_input_schema r', rs_result_kind = trim (rsi_result_kind r')\<rparr> reqs,
         om_put (trim (rsi_kind r')) owner own)"
  using assms unfolding admit_request_def prod.case
  by (elim and_then_InrE) (auto simp: result_simps split: option.splits elim!: and_then_InrE)

text \<open>One step of each loop keeps the loop's invariant.\<close>

lemma dom_om_put [simp]: "dom (om_get (om_put k v m)) = insert k (dom (om_get m))"
  by (auto simp: omap_simps split: if_splits)

lemma ran_om_put: "ran (om_get (om_put k v m)) \<subseteq> insert v (ran (om_get m))"
  by (auto simp: omap_simps ran_def split: if_splits)

lemma admit_domains_grown:
  "fold_try (admit_domain owner) ds m = Inr m' \<Longrightarrow> grown owner m0 m K \<Longrightarrow> grown owner m0 m' (K \<union> set ds)"
proof (induction ds arbitrary: m K)
  case (Cons d ds)
  have "om_get m d = None" and "fold_try (admit_domain owner) ds (om_put d owner m) = Inr m'"
    using Cons.prems(1) by (auto simp: result_simps)
  then show ?case using Cons.IH [of "om_put d owner m" "insert d K"] Cons.prems(2)
    by (simp add: grown_put)
qed simp

lemma admit_effect_step:
  assumes "admit_effect owner ds i e (eff, own) = Inr (eff', own')"
    and "grown owner own0 own (dom (om_get eff))" and "om_ok eff" and "ran (om_get eff) \<subseteq> set ds"
  shows "grown owner own0 own' (dom (om_get eff')) \<and> om_ok eff' \<and> ran (om_get eff') \<subseteq> set ds"
proof -
  obtain id d where "om_get own id = None" "d \<in> set ds"
    and r: "eff' = om_put id d eff" "own' = om_put id owner own"
    using assms(1) by (auto simp: admit_effect_Inr_iff Let_def)
  then show ?thesis using assms(2-4) ran_om_put [of id d eff]
    by (auto simp: r grown_put om_ok_put)
qed

lemma admit_operation_step:
  assumes "admit_operation H owner eff i x (ops, own) = Inr (ops', own')"
    and "grown owner own0 own (dom (om_get ops))" and "om_ok ops"
    and "\<forall>oc \<in> ran (om_get ops). operation_ok eff oc"
  shows "grown owner own0 own' (dom (om_get ops')) \<and> om_ok ops' \<and>
    (\<forall>oc \<in> ran (om_get ops'). operation_ok eff oc)"
proof -
  obtain id oc where "om_get own id = None" "operation_ok eff oc"
    and r: "ops' = om_put id oc ops" "own' = om_put id owner own"
    using admit_operation_Inr [OF assms(1)] by blast
  then show ?thesis using assms(2-4) ran_om_put [of id oc ops]
    by (auto simp: r grown_put om_ok_put)
qed

lemma admit_request_step:
  assumes "admit_request H owner r (reqs, own) = Inr (reqs', own')"
    and "grown owner own0 own (dom (om_get reqs))" and "om_ok reqs"
  shows "grown owner own0 own' (dom (om_get reqs')) \<and> om_ok reqs'"
proof -
  obtain id sh where "om_get own id = None"
    and r: "reqs' = om_put id sh reqs" "own' = om_put id owner own"
    using admit_request_Inr [OF assms(1)] by blast
  then show ?thesis using assms(2-3) by (auto simp: r grown_put om_ok_put)
qed

lemma admit_effects_ok:
  assumes "fold_try_ix (admit_effect owner ds) i es ([], own) = Inr (eff, own')"
  shows "grown owner own own' (dom (om_get eff)) \<and> om_ok eff \<and> ran (om_get eff) \<subseteq> set ds"
proof -
  have "case (eff, own') of (eff, own') \<Rightarrow>
      grown owner own own' (dom (om_get eff)) \<and> om_ok eff \<and> ran (om_get eff) \<subseteq> set ds"
    by (rule fold_try_ix_invariant [OF assms]) (auto dest: admit_effect_step)
  then show ?thesis by simp
qed

lemma admit_operations_ok:
  assumes "fold_try_ix (admit_operation H owner eff) i xs ([], own) = Inr (ops, own')"
  shows "grown owner own own' (dom (om_get ops)) \<and> om_ok ops \<and>
    (\<forall>oc \<in> ran (om_get ops). operation_ok eff oc)"
proof -
  have "case (ops, own') of (ops, own') \<Rightarrow>
      grown owner own own' (dom (om_get ops)) \<and> om_ok ops \<and>
      (\<forall>oc \<in> ran (om_get ops). operation_ok eff oc)"
    by (rule fold_try_ix_invariant [OF assms]) (auto dest: admit_operation_step)
  then show ?thesis by simp
qed

lemma admit_requests_ok:
  assumes "fold_try (admit_request H owner) rs ([], own) = Inr (reqs, own')"
  shows "grown owner own own' (dom (om_get reqs)) \<and> om_ok reqs"
proof -
  have "case (reqs, own') of (reqs, own') \<Rightarrow>
      grown owner own own' (dom (om_get reqs)) \<and> om_ok reqs"
    by (rule fold_try_invariant [OF assms]) (auto dest: admit_request_step)
  then show ?thesis by simp
qed

lemma admit_owner_Inr:
  assumes "admit_owner H i inp st = Inr st'"
  shows "\<exists>owner co.
    om_get (cs_owners st) owner = None \<and> owner_ok co \<and>
    cs_owners st' = om_put owner co (cs_owners st) \<and>
    grown owner (cs_owned_domains st) (cs_owned_domains st') (set (co_domains co)) \<and>
    grown owner (cs_owned_effects st) (cs_owned_effects st') (dom (om_get (co_effects co))) \<and>
    grown owner (cs_operation_owners st) (cs_operation_owners st') (dom (om_get (co_operations co))) \<and>
    grown owner (cs_request_kinds st) (cs_request_kinds st') (dom (om_get (co_requests co)))"
proof -
  let ?owner = "trim (coi_owner inp)" and ?ds = "sort_dedup (coi_domains inp)"
  obtain od eff oe ops oo reqs rk where
    d: "fold_try (admit_domain ?owner) ?ds (cs_owned_domains st) = Inr od"
    and e: "fold_try_ix (admit_effect ?owner ?ds) 0 (coi_effects inp) ([], cs_owned_effects st) = Inr (eff, oe)"
    and o: "fold_try_ix (admit_operation H ?owner eff) 0 (coi_operations inp) ([], cs_operation_owners st)
      = Inr (ops, oo)"
    and r: "fold_try (admit_request H ?owner) (coi_requests inp) ([], cs_request_kinds st) = Inr (reqs, rk)"
    and fresh: "om_get (cs_owners st) ?owner = None" and rev: "trim (coi_revision inp) \<noteq> []"
    and st': "st' = \<lparr>cs_owners = om_put ?owner \<lparr>co_revision = trim (coi_revision inp), co_domains = ?ds,
        co_effects = eff, co_operations = ops, co_requests = reqs\<rparr> (cs_owners st),
      cs_owned_domains = od, cs_owned_effects = oe, cs_operation_owners = oo, cs_request_kinds = rk\<rparr>"
    using assms unfolding admit_owner_def
    by (elim and_then_InrE) (auto simp: result_simps split: if_splits elim!: and_then_InrE)
  show ?thesis
    by (rule exI [of _ ?owner], rule exI [of _ "\<lparr>co_revision = trim (coi_revision inp), co_domains = ?ds,
        co_effects = eff, co_operations = ops, co_requests = reqs\<rparr>"])
      (use fresh rev admit_domains_grown [OF d grown_refl] admit_effects_ok [OF e]
        admit_operations_ok [OF o] admit_requests_ok [OF r] in \<open>simp add: st' owner_ok_def\<close>)
qed

lemma state_ok_empty: "state_ok empty_contract_state"
  by (simp add: state_ok_def empty_contract_state_def)

lemma admit_owner_state_ok:
  assumes "admit_owner H i inp st = Inr st'" and "state_ok st"
  shows "state_ok st'"
proof -
  obtain owner co where co: "om_get (cs_owners st) owner = None" "owner_ok co"
    "cs_owners st' = om_put owner co (cs_owners st)"
    and g: "grown owner (cs_owned_domains st) (cs_owned_domains st') (set (co_domains co))"
    "grown owner (cs_owned_effects st) (cs_owned_effects st') (dom (om_get (co_effects co)))"
    "grown owner (cs_operation_owners st) (cs_operation_owners st') (dom (om_get (co_operations co)))"
    "grown owner (cs_request_kinds st) (cs_request_kinds st') (dom (om_get (co_requests co)))"
    using admit_owner_Inr [OF assms(1)] by blast
  have own: "om_get (cs_owners st') o' = (if o' = owner then Some co else om_get (cs_owners st) o')" for o'
    by (simp add: co(3) omap_simps)
  have "om_ok (cs_owners st')" using assms(2) by (simp add: co(3) om_ok_put state_ok_def)
  moreover have "\<forall>c \<in> ran (om_get (cs_owners st')). owner_ok c"
    using assms(2) ran_om_put [of owner co "cs_owners st"] co(2) by (auto simp: co(3) state_ok_def)
  moreover have "(\<forall>d \<in> set (co_domains c). om_get (cs_owned_domains st') d = Some o') \<and>
      (\<forall>k \<in> dom (om_get (co_effects c)). om_get (cs_owned_effects st') k = Some o') \<and>
      (\<forall>k \<in> dom (om_get (co_operations c)). om_get (cs_operation_owners st') k = Some o') \<and>
      (\<forall>k \<in> dom (om_get (co_requests c)). om_get (cs_request_kinds st') k = Some o')"
    if "om_get (cs_owners st') o' = Some c" for o' c
  proof (cases "o' = owner")
    case True
    then show ?thesis using that g by (auto simp: own grown_def)
  next
    case False
    then have "om_get (cs_owners st) o' = Some c" using that by (simp add: own)
    then have "(\<forall>d \<in> set (co_domains c). om_get (cs_owned_domains st) d = Some o')"
      "(\<forall>k \<in> dom (om_get (co_effects c)). om_get (cs_owned_effects st) k = Some o')"
      "(\<forall>k \<in> dom (om_get (co_operations c)). om_get (cs_operation_owners st) k = Some o')"
      "(\<forall>k \<in> dom (om_get (co_requests c)). om_get (cs_request_kinds st) k = Some o')"
      using assms(2) unfolding state_ok_def by blast+
    then show ?thesis using g unfolding grown_def by (metis option.distinct(1))
  qed
  moreover have "\<exists>c. om_get (cs_owners st') o' = Some c \<and> d \<in> set (co_domains c)"
    if "om_get (cs_owned_domains st') d = Some o'" for d o'
  proof (cases "d \<in> set (co_domains co)")
    case True
    then show ?thesis using that g(1) by (auto simp: own grown_def)
  next
    case False
    then have "om_get (cs_owned_domains st) d = Some o'" using that g(1) by (simp add: grown_def)
    then obtain c where "om_get (cs_owners st) o' = Some c" "d \<in> set (co_domains c)"
      using assms(2) unfolding state_ok_def by blast
    then show ?thesis using co(1) by (auto simp: own)
  qed
  ultimately show ?thesis unfolding state_ok_def by blast
qed

lemma admit_owners_state_ok:
  "fold_try_ix (admit_owner H) i os empty_contract_state = Inr st \<Longrightarrow> state_ok st"
  by (erule fold_try_ix_invariant) (auto intro: state_ok_empty admit_owner_state_ok)

section \<open>The contract invariant\<close>

definition exclusive :: "(str, capability_owner) omap \<Rightarrow> (capability_owner \<Rightarrow> str set) \<Rightarrow> bool" where
  "exclusive owners keys \<longleftrightarrow>
     (\<forall>o1 c1 o2 c2. om_get owners o1 = Some c1 \<longrightarrow> om_get owners o2 = Some c2 \<longrightarrow> o1 \<noteq> o2 \<longrightarrow>
        keys c1 \<inter> keys c2 = {})"

definition contract_ok :: "capability_contract \<Rightarrow> bool" where
  "contract_ok cc \<longleftrightarrow>
     sha256_revision (cc_revision cc) \<and> cc_owners cc \<noteq> [] \<and>
     om_ok (cc_owners cc) \<and> om_ok (cc_claim_authorities cc) \<and> om_ok (cc_restriction_authorities cc) \<and>
     (\<forall>co \<in> ran (om_get (cc_owners cc)). owner_ok co) \<and>
     exclusive (cc_owners cc) (\<lambda>co. set (co_domains co)) \<and>
     exclusive (cc_owners cc) (\<lambda>co. dom (om_get (co_effects co))) \<and>
     exclusive (cc_owners cc) (\<lambda>co. dom (om_get (co_operations co))) \<and>
     exclusive (cc_owners cc) (\<lambda>co. dom (om_get (co_requests co))) \<and>
     ran (om_get (cc_claim_authorities cc)) \<subseteq> dom (om_get (cc_owners cc)) \<and>
     (\<forall>o' co oc. om_get (cc_owners cc) o' = Some co \<longrightarrow> oc \<in> ran (om_get (co_operations co)) \<longrightarrow>
        (\<forall>c \<in> set (oc_claims oc). om_get (cc_claim_authorities cc) c = Some o') \<and>
        (\<forall>r. oc_reads oc = Some r \<longrightarrow>
           set r \<subseteq> (\<Union>co' \<in> ran (om_get (cc_owners cc)). set (co_domains co')))) \<and>
     dom (om_get (cc_restriction_authorities cc)) \<subseteq> dom (om_get (cc_owners cc)) \<and>
     (\<forall>scopes \<in> ran (om_get (cc_restriction_authorities cc)).
        scopes \<noteq> [] \<and> sorted_wrt (<) scopes \<and> (\<forall>v \<in> set scopes. consequence_identity v))"

lemma admit_claims_ok:
  assumes "fold_try_ix (admit_claim_authority owners) i as [] = Inr claims"
  shows "om_ok claims \<and> ran (om_get claims) \<subseteq> dom (om_get owners)"
  using assms
proof (rule fold_try_ix_invariant)
  show "om_ok [] \<and> ran (om_get []) \<subseteq> dom (om_get owners)" by simp
next
  fix j a u v
  assume u: "om_ok u \<and> ran (om_get u) \<subseteq> dom (om_get owners)"
    and "admit_claim_authority owners j a u = Inr v"
  then have "om_get owners (trim (cai_owner a)) \<noteq> None"
    and v: "v = om_put (trim (cai_claim a)) (trim (cai_owner a)) u"
    by (auto simp: admit_claim_authority_def result_simps split: if_splits option.splits)
  then show "om_ok v \<and> ran (om_get v) \<subseteq> dom (om_get owners)"
    using u ran_om_put [of "trim (cai_claim a)" "trim (cai_owner a)" u] by (auto simp: om_ok_put)
qed

lemma admit_restrictions_ok:
  assumes "fold_try (admit_restriction owners) gs [] = Inr restrictions"
  shows "om_ok restrictions \<and> dom (om_get restrictions) \<subseteq> dom (om_get owners) \<and>
    (\<forall>scopes \<in> ran (om_get restrictions).
      scopes \<noteq> [] \<and> sorted_wrt (<) scopes \<and> (\<forall>v \<in> set scopes. consequence_identity v))"
    (is "?P restrictions")
  using assms
proof (rule fold_try_invariant)
  show "?P []" by simp
next
  fix g u v
  assume u: "?P u" and "admit_restriction owners g u = Inr v"
  then have "om_get owners (trim (rai_owner g)) \<noteq> None" and "rai_affects g \<noteq> []"
    and "\<forall>w \<in> set (rai_affects g). consequence_identity w"
    and v: "v = om_put (trim (rai_owner g)) (sort_dedup (rai_affects g)) u"
    by (auto simp: admit_restriction_def result_simps split: if_splits)
  have "scopes \<in> ran (om_get u) \<or> scopes = sort_dedup (rai_affects g)"
    if "scopes \<in> ran (om_get v)" for scopes
    using that ran_om_put [of "trim (rai_owner g)" "sort_dedup (rai_affects g)" u] by (auto simp: v)
  moreover have "om_ok v \<and> dom (om_get v) \<subseteq> dom (om_get owners)"
    using u \<open>om_get owners (trim (rai_owner g)) \<noteq> None\<close> by (auto simp: v om_ok_put)
  ultimately show "?P v"
    using u \<open>rai_affects g \<noteq> []\<close> \<open>\<forall>w \<in> set (rai_affects g). consequence_identity w\<close>
    by (metis set_sort_dedup sort_dedup_Nil_iff strict_sorted_sort_dedup)
qed

lemma check_operation_Inr_iff:
  "check_operation od claims owner (k, oc) u = Inr v \<longleftrightarrow>
     (\<forall>r. oc_reads oc = Some r \<longrightarrow> set r \<subseteq> dom (om_get od)) \<and>
     (\<forall>c \<in> set (oc_claims oc). om_get claims c = Some owner)"
proof -
  have "find (\<lambda>d. om_get od d = None) (case oc_reads oc of None \<Rightarrow> [] | Some r \<Rightarrow> r) = None \<longleftrightarrow>
      (\<forall>r. oc_reads oc = Some r \<longrightarrow> set r \<subseteq> dom (om_get od))"
    by (cases "oc_reads oc") (auto simp: find_None_iff)
  moreover have "find (\<lambda>c. om_get claims c \<noteq> Some owner) (oc_claims oc) = None \<longleftrightarrow>
      (\<forall>c \<in> set (oc_claims oc). om_get claims c = Some owner)"
    by (auto simp: find_None_iff)
  ultimately show ?thesis by (auto simp: check_operation_def split: option.splits)
qed

lemma check_owners_Inr:
  assumes "fold_try (check_owner_operations od claims) owners () = Inr u"
    and "om_get owners o' = Some co" and "oc \<in> ran (om_get (co_operations co))"
  shows "(\<forall>r. oc_reads oc = Some r \<longrightarrow> set r \<subseteq> dom (om_get od)) \<and>
    (\<forall>c \<in> set (oc_claims oc). om_get claims c = Some o')"
proof -
  obtain k where k: "(k, oc) \<in> set (co_operations co)"
    using assms(3) by (auto simp: ran_def dest: map_of_SomeD)
  have "(o', co) \<in> set owners" using assms(2) by (rule map_of_SomeD)
  then have "fold_try (check_operation od claims o') (co_operations co) () = Inr ()"
    using assms(1) by (auto simp: fold_try_unit_Inr_iff check_owner_operations_def)
  then have "check_operation od claims o' (k, oc) () = Inr ()"
    using k unfolding fold_try_unit_Inr_iff by blast
  then show ?thesis unfolding check_operation_Inr_iff .
qed

lemma state_ok_exclusive:
  assumes "state_ok st"
  shows "exclusive (cs_owners st) (\<lambda>co. set (co_domains co))"
    "exclusive (cs_owners st) (\<lambda>co. dom (om_get (co_effects co)))"
    "exclusive (cs_owners st) (\<lambda>co. dom (om_get (co_operations co)))"
    "exclusive (cs_owners st) (\<lambda>co. dom (om_get (co_requests co)))"
  using assms unfolding state_ok_def exclusive_def disjoint_iff by (metis option.inject)+

lemma normalize_capability_contract_ok:
  assumes "normalize_capability_contract H inp = Inr cc"
  shows "contract_ok cc"
proof -
  obtain st claims restrictions where
    st: "fold_try_ix (admit_owner H) 0 (cci_owners inp) empty_contract_state = Inr st"
    and ne: "cs_owners st \<noteq> []" and rev: "sha256_revision (trim (cci_revision inp))"
    and cl: "fold_try_ix (admit_claim_authority (cs_owners st)) 0 (cci_claim_authorities inp) [] = Inr claims"
    and ch: "fold_try (check_owner_operations (cs_owned_domains st) claims) (cs_owners st) () = Inr ()"
    and re: "fold_try (admit_restriction (cs_owners st)) (cci_restriction_authorities inp) []
      = Inr restrictions"
    and cc: "cc = \<lparr>cc_revision = trim (cci_revision inp), cc_owners = cs_owners st,
      cc_claim_authorities = claims, cc_restriction_authorities = restrictions\<rparr>"
    using assms unfolding normalize_capability_contract_def
    by (auto simp: result_simps split: if_splits)
  have ok: "state_ok st" using admit_owners_state_ok [OF st] .
  have doms: "dom (om_get (cs_owned_domains st)) \<subseteq>
      (\<Union>co' \<in> ran (om_get (cs_owners st)). set (co_domains co'))"
    using ok unfolding state_ok_def by (fastforce intro: ranI)
  have op: "(\<forall>c \<in> set (oc_claims oc). om_get claims c = Some o') \<and>
      (\<forall>r. oc_reads oc = Some r \<longrightarrow>
         set r \<subseteq> (\<Union>co' \<in> ran (om_get (cs_owners st)). set (co_domains co')))"
    if "om_get (cs_owners st) o' = Some co" "oc \<in> ran (om_get (co_operations co))" for o' co oc
    using check_owners_Inr [OF ch that] doms by blast
  have "om_ok (cs_owners st)" "\<forall>co \<in> ran (om_get (cs_owners st)). owner_ok co"
    using ok unfolding state_ok_def by blast+
  then show ?thesis
    unfolding contract_ok_def cc capability_contract.simps
    using rev ne state_ok_exclusive [OF ok] admit_claims_ok [OF cl] admit_restrictions_ok [OF re] op
    by (intro conjI) blast+
qed

text \<open>C40: A capability contract that is admitted is in normal form: its maps are sorted, every
  domain, effect, operation and request belongs to one owner, operations read only domains
  that have an owner and claim only what their owner has the authority for, and restriction
  scopes are nonempty sorted sets of consequence identities.\<close>

theorem contract_normal_form:
  assumes "normalize_capability_contract H inp = Inr cc"
  shows "contract_ok cc"
  using assms by (rule normalize_capability_contract_ok)

end
