(* ===== verification/Unicode.thy ===== *)
theory Unicode
  imports Prelude
begin

text \<open>
  Strings as characters, where the code looks at characters and not at bytes: the Unicode
  scalar values of a UTF-8 string, their UTF-16 code units, and the ASCII rendering of a
  JSON text that the packet and proof identities are computed from.
\<close>

section \<open>Characters\<close>

text \<open>\<open>str::chars\<close>: the Unicode scalar values of a UTF-8 string.\<close>

type_synonym uchar = nat

definition scalar :: "uchar \<Rightarrow> bool" where
  "scalar c \<longleftrightarrow> c < 0xD800 \<or> (0xE000 \<le> c \<and> c \<le> 0x10FFFF)"

definition continuation :: "char \<Rightarrow> nat" where
  "continuation b = of_char b - 0x80"

fun utf8_chars :: "str \<Rightarrow> uchar list" where
  "utf8_chars [] = []"
| "utf8_chars (b # bs) =
     (let n = of_char b in
      if n < 0x80 then n # utf8_chars bs
      else if n < 0xE0 then
        (case bs of b1 # rest \<Rightarrow> ((n - 0xC0) * 64 + continuation b1) # utf8_chars rest | _ \<Rightarrow> [])
      else if n < 0xF0 then
        (case bs of
           b1 # b2 # rest \<Rightarrow>
             ((n - 0xE0) * 4096 + continuation b1 * 64 + continuation b2) # utf8_chars rest
         | _ \<Rightarrow> [])
      else
        (case bs of
           b1 # b2 # b3 # rest \<Rightarrow>
             ((n - 0xF0) * 262144 + continuation b1 * 4096 + continuation b2 * 64 + continuation b3)
               # utf8_chars rest
         | _ \<Rightarrow> []))"

text \<open>\<open>char::encode_utf16\<close>.\<close>

definition utf16_units :: "uchar \<Rightarrow> nat list" where
  "utf16_units c =
     (if c < 0x10000 then [c]
      else [0xD800 + (c - 0x10000) div 0x400, 0xDC00 + (c - 0x10000) mod 0x400])"

definition hex_digit :: "nat \<Rightarrow> char" where
  "hex_digit n = ''0123456789abcdef'' ! n"

text \<open>\<open>format!("\\u{unit:04x}")\<close>; a unit has 16 bits.\<close>

definition unicode_escape :: "nat \<Rightarrow> str" where
  "unicode_escape u =
     [CHR 0x5C, CHR ''u'', hex_digit (u div 4096 mod 16), hex_digit (u div 256 mod 16),
      hex_digit (u div 16 mod 16), hex_digit (u mod 16)]"

text \<open>Characters below \<open>limit\<close> stay, the others are escaped.\<close>

definition ascii_json :: "nat \<Rightarrow> str \<Rightarrow> str" where
  "ascii_json limit encoded =
     concat (map (\<lambda>c. if c < limit then [char_of c] else concat (map unicode_escape (utf16_units c)))
       (utf8_chars encoded))"

lemma hex_digit_ascii: "of_char (hex_digit n) < (0x80 :: nat)" if "n < 16"
proof -
  have "list_all (\<lambda>n. of_char (hex_digit n) < (0x80 :: nat)) [0..<16]" by code_simp
  then show ?thesis using that by (simp only: list_all_iff set_upt) simp
qed

text \<open>The rendering is ASCII.\<close>

lemma ascii_json_ascii:
  assumes "limit \<le> 0x80" and "b \<in> set (ascii_json limit encoded)"
  shows "of_char b < (0x80 :: nat)"
proof -
  obtain c where c: "b \<in> set (if c < limit then [char_of c] else concat (map unicode_escape (utf16_units c)))"
    using assms(2) unfolding ascii_json_def set_concat set_map by blast
  show ?thesis
  proof (cases "c < limit")
    case True
    then show ?thesis using c assms(1) by simp
  next
    case False
    then obtain u where "b \<in> set (unicode_escape u)" using c by auto
    then show ?thesis using hex_digit_ascii by (auto simp: unicode_escape_def)
  qed
qed

end
