(* ===== verification/Applicability.thy ===== *)
theory Applicability
  imports Routes Capability Unicode
begin

text \<open>
  Scoped applicability of instructions (\<open>src/src/core/src/instruction_applicability.rs\<close>):
  Python \<open>fnmatch\<close> patterns as token lists, the row-by-row matcher, the search for a
  common path of two patterns, and the applicability view. A pattern denotes a set of
  paths (\<open>denotes\<close>); the matcher decides it and the search decides intersection.
\<close>

section \<open>Patterns\<close>

datatype pattern_token =
    Star
  | AnyChar
  | Literal uchar
  | Class bool "(uchar \<times> uchar) list"

text \<open>The ranges of a bracket class: \<open>a-b\<close> is a range, any other character itself.\<close>

fun class_ranges :: "uchar list \<Rightarrow> (uchar \<times> uchar) list" where
  "class_ranges (a # d # b # rest) =
     (if d = 45 then (a, b) # class_ranges rest else (a, a) # class_ranges (d # b # rest))"
| "class_ranges (a # rest) = (a, a) # class_ranges rest"
| "class_ranges [] = []"

text \<open>
  The class that opens before \<open>rest\<close>: a \<open>!\<close> and then a \<open>]\<close> may come first, the next
  \<open>]\<close> closes it. \<open>None\<close> when there is none; otherwise the token and what follows.
\<close>

definition class_token :: "uchar list \<Rightarrow> (pattern_token \<times> uchar list) option" where
  "class_token rest =
     (let start = (if take 1 rest = [33] then 1 else 0);
          first = (if take 1 (drop start rest) = [93] then Suc start else start);
          close = first + length (takeWhile (\<lambda>c. c \<noteq> 93) (drop first rest)) in
      if close = length rest then None
      else Some (Class (start = 1) (class_ranges (take (close - start) (drop start rest))),
                 drop (Suc close) rest))"

lemma class_token_shorter: "class_token rest = Some (tk, rest') \<Longrightarrow> length rest' < length rest"
  by (cases rest) (auto simp: class_token_def Let_def less_Suc_eq_le split: if_splits)

function tokens_of :: "uchar list \<Rightarrow> pattern_token list" where
  "tokens_of [] = []"
| "tokens_of (c # rest) =
     (if c = 42 then Star # tokens_of rest
      else if c = 63 then AnyChar # tokens_of rest
      else if c = 91 then
        (case class_token rest of
           None \<Rightarrow> Literal 91 # tokens_of rest
         | Some (tk, rest') \<Rightarrow> tk # tokens_of rest')
      else Literal c # tokens_of rest)"
  by pat_completeness auto
termination
  by (relation "measure length") (auto dest: class_token_shorter)

definition tokens :: "str \<Rightarrow> pattern_token list" where
  "tokens pattern = tokens_of (utf8_chars pattern)"

section \<open>Matching\<close>

definition in_ranges :: "uchar \<Rightarrow> (uchar \<times> uchar) list \<Rightarrow> bool" where
  "in_ranges ch ranges \<longleftrightarrow> (\<exists>r \<in> set ranges. fst r \<le> ch \<and> ch \<le> snd r)"

text \<open>One row of the table: \<open>next[i + 1]\<close> from \<open>next[i]\<close>, \<open>row[i]\<close> and \<open>row[i + 1]\<close>.\<close>

definition next_cell :: "pattern_token \<Rightarrow> bool \<Rightarrow> bool \<Rightarrow> bool \<Rightarrow> uchar \<Rightarrow> bool" where
  "next_cell tk left diag up ch =
     (case tk of
        Star \<Rightarrow> left \<or> up
      | AnyChar \<Rightarrow> diag
      | Literal c \<Rightarrow> diag \<and> ch = c
      | Class negated ranges \<Rightarrow> diag \<and> in_ranges ch ranges \<noteq> negated)"

fun next_cells :: "pattern_token \<Rightarrow> bool \<Rightarrow> bool list \<Rightarrow> uchar list \<Rightarrow> bool list" where
  "next_cells tk left (diag # up # row) (ch # path) =
     (let cell = next_cell tk left diag up ch in cell # next_cells tk cell (up # row) path)"
| "next_cells tk left row path = []"

definition next_row :: "pattern_token \<Rightarrow> uchar list \<Rightarrow> bool list \<Rightarrow> bool list" where
  "next_row tk path row = (let first = (tk = Star \<and> hd row) in first # next_cells tk first row path)"

definition pattern_matches :: "str \<Rightarrow> str \<Rightarrow> bool" where
  "pattern_matches pattern path =
     (let cs = utf8_chars path in
      last (fold (\<lambda>tk row. next_row tk cs row) (tokens pattern) (True # replicate (length cs) False)))"

section \<open>Intersection\<close>

fun accepts :: "pattern_token \<Rightarrow> uchar \<Rightarrow> bool" where
  "accepts Star ch = True"
| "accepts AnyChar ch = True"
| "accepts (Literal c) ch = (c = ch)"
| "accepts (Class negated ranges) ch = (in_ranges ch ranges \<noteq> negated)"

fun token_ranges :: "pattern_token \<Rightarrow> (uchar \<times> uchar) list" where
  "token_ranges (Literal c) = [(c, c)]"
| "token_ranges (Class negated ranges) = ranges"
| "token_ranges _ = []"

definition range_boundaries :: "uchar \<times> uchar \<Rightarrow> nat list" where
  "range_boundaries r =
     (if fst r \<le> snd r then fst r # (if snd r < 0x10FFFF then [snd r + 1] else []) else [])"

definition token_boundaries :: "pattern_token \<Rightarrow> pattern_token \<Rightarrow> nat list" where
  "token_boundaries left right =
     [0, 0xE000] @ concat (map range_boundaries (token_ranges left @ token_ranges right))"

definition tokens_intersect :: "pattern_token \<Rightarrow> pattern_token \<Rightarrow> bool" where
  "tokens_intersect left right \<longleftrightarrow>
     list_ex (\<lambda>ch. accepts left ch \<and> accepts right ch) (filter scalar (token_boundaries left right))"

text \<open>\<open>slice::get\<close>.\<close>

definition get_token :: "pattern_token list \<Rightarrow> nat \<Rightarrow> pattern_token option" where
  "get_token ts i = (if i < length ts then Some (ts ! i) else None)"

definition advance :: "pattern_token \<Rightarrow> nat" where
  "advance tk = (if tk = Star then 0 else 1)"

text \<open>What a visited pair pushes, last first: the stack's top is the head of the list.\<close>

definition successors :: "pattern_token list \<Rightarrow> pattern_token list \<Rightarrow> nat \<times> nat \<Rightarrow> (nat \<times> nat) list" where
  "successors left right = (\<lambda>(a, b).
     (case (get_token left a, get_token right b) of
        (Some l, Some r) \<Rightarrow> if tokens_intersect l r then [(a + advance l, b + advance r)] else []
      | _ \<Rightarrow> []) @
     (if get_token right b = Some Star then [(a, b + 1)] else []) @
     (if get_token left a = Some Star then [(a + 1, b)] else []))"

text \<open>The pairs a pair can still lead to.\<close>

definition ahead :: "nat \<Rightarrow> nat \<Rightarrow> nat \<times> nat \<Rightarrow> (nat \<times> nat) set" where
  "ahead m n p = {fst p..max (fst p) m} \<times> {snd p..max (snd p) n}"

lemma successors_ahead:
  "q \<in> set (successors left right p) \<Longrightarrow> ahead (length left) (length right) q \<subseteq> ahead (length left) (length right) p"
  by (cases p) (auto simp: successors_def ahead_def get_token_def advance_def split: if_splits)

lemma finite_ahead: "finite (ahead m n p)"
  by (simp add: ahead_def)

lemma ahead_self: "p \<in> ahead m n p"
  by (cases p) (simp add: ahead_def)

text \<open>What the search has not seen and can still reach.\<close>

definition unseen :: "pattern_token list \<Rightarrow> pattern_token list \<Rightarrow> (nat \<times> nat) list \<Rightarrow> (nat \<times> nat) list \<Rightarrow> (nat \<times> nat) set" where
  "unseen left right pending seen =
     (\<Union>p \<in> set pending. ahead (length left) (length right) p) - set seen"

lemma finite_unseen [simp]: "finite (unseen left right pending seen)"
  by (auto simp: unseen_def finite_ahead)

lemma unseen_tail: "card (unseen left right pending seen) \<le> card (unseen left right (p # pending) seen)"
  by (intro card_mono finite_unseen) (auto simp: unseen_def)

lemma unseen_visit:
  assumes "p \<notin> set seen"
  shows "card (unseen left right (successors left right p @ pending) (p # seen))
    < card (unseen left right (p # pending) seen)"
proof (intro psubset_card_mono finite_unseen)
  have "p \<in> unseen left right (p # pending) seen" using assms by (simp add: unseen_def ahead_self)
  moreover have "(\<Union>q \<in> set (successors left right p). ahead (length left) (length right) q)
      \<subseteq> ahead (length left) (length right) p"
    using successors_ahead by blast
  then have "unseen left right (successors left right p @ pending) (p # seen)
      \<subseteq> unseen left right (p # pending) seen - {p}"
    by (auto simp: unseen_def)
  ultimately show "unseen left right (successors left right p @ pending) (p # seen)
      \<subset> unseen left right (p # pending) seen" by blast
qed

function walk_pairs :: "pattern_token list \<Rightarrow> pattern_token list \<Rightarrow> (nat \<times> nat) list \<Rightarrow> (nat \<times> nat) list \<Rightarrow> bool" where
  "walk_pairs left right [] seen = False"
| "walk_pairs left right (p # pending) seen =
     (if p \<in> set seen then walk_pairs left right pending seen
      else if p = (length left, length right) then True
      else walk_pairs left right (successors left right p @ pending) (p # seen))"
  by pat_completeness auto
termination
  by (relation "measures [\<lambda>(left, right, pending, seen). card (unseen left right pending seen),
      \<lambda>(left, right, pending, seen). length pending]")
    (use unseen_tail unseen_visit in \<open>auto simp: le_less simp del: set_append\<close>)

definition patterns_overlap :: "str \<Rightarrow> str \<Rightarrow> bool" where
  "patterns_overlap left right = walk_pairs (tokens left) (tokens right) [(0, 0)] []"

section \<open>What a pattern denotes\<close>

fun denotes :: "pattern_token list \<Rightarrow> uchar list \<Rightarrow> bool" where
  "denotes [] s \<longleftrightarrow> s = []"
| "denotes (Star # ts) [] \<longleftrightarrow> denotes ts []"
| "denotes (Star # ts) (c # s) \<longleftrightarrow> denotes ts (c # s) \<or> denotes (Star # ts) s"
| "denotes (tk # ts) [] \<longleftrightarrow> False"
| "denotes (tk # ts) (c # s) \<longleftrightarrow> accepts tk c \<and> denotes ts s"

lemma denotes_step: "tk \<noteq> Star \<Longrightarrow> denotes (tk # ts) s \<longleftrightarrow> (\<exists>c s'. s = c # s' \<and> accepts tk c \<and> denotes ts s')"
  by (cases tk; cases s) auto

lemma denotes_Star: "denotes (Star # ts) s \<longleftrightarrow> (\<exists>u v. s = u @ v \<and> denotes ts v)"
proof (induction s)
  case (Cons c s)
  show ?case
  proof
    assume "denotes (Star # ts) (c # s)"
    then consider "denotes ts (c # s)" | "denotes (Star # ts) s" by auto
    then show "\<exists>u v. c # s = u @ v \<and> denotes ts v"
    proof cases
      case 2
      then obtain u v where "s = u @ v" "denotes ts v" using Cons.IH by blast
      then show ?thesis by (intro exI [of _ "c # u"] exI [of _ v]) simp
    qed (metis append_Nil)
  next
    assume "\<exists>u v. c # s = u @ v \<and> denotes ts v"
    then obtain u v where "c # s = u @ v" "denotes ts v" by blast
    then show "denotes (Star # ts) (c # s)" using Cons.IH by (cases u) auto
  qed
qed simp

lemma denotes_append: "denotes (ts @ us) s \<longleftrightarrow> (\<exists>u v. s = u @ v \<and> denotes ts u \<and> denotes us v)"
proof (induction ts arbitrary: s)
  case (Cons tk ts)
  show ?case
  proof (cases "tk = Star")
    case True
    have "denotes (Star # (ts @ us)) s \<longleftrightarrow> (\<exists>w u v. s = w @ u @ v \<and> denotes ts u \<and> denotes us v)"
      by (simp add: denotes_Star Cons.IH) (metis append_assoc)
    also have "\<dots> \<longleftrightarrow> (\<exists>u v. s = u @ v \<and> denotes (Star # ts) u \<and> denotes us v)"
      by (simp add: denotes_Star) (metis append_assoc)
    finally show ?thesis using True by simp
  next
    case False
    have "denotes ((tk # ts) @ us) s \<longleftrightarrow> (\<exists>c u v. s = c # u @ v \<and> accepts tk c \<and> denotes ts u \<and> denotes us v)"
      using False by (simp add: denotes_step Cons.IH) blast
    also have "\<dots> \<longleftrightarrow> (\<exists>u v. s = u @ v \<and> denotes (tk # ts) u \<and> denotes us v)"
      using False by (simp add: denotes_step) (metis append_Cons)
    finally show ?thesis .
  qed
qed simp

lemma denotes_snoc_step:
  "tk \<noteq> Star \<Longrightarrow> denotes (ts @ [tk]) (s @ [c]) \<longleftrightarrow> accepts tk c \<and> denotes ts s"
proof -
  assume "tk \<noteq> Star"
  then have "denotes [tk] v \<longleftrightarrow> (\<exists>d. v = [d] \<and> accepts tk d)" for v by (simp add: denotes_step)
  then show ?thesis by (auto simp: denotes_append)
qed

lemma denotes_snoc_Star_Nil: "denotes (ts @ [Star]) [] \<longleftrightarrow> denotes ts []"
  by (simp add: denotes_append)

lemma denotes_snoc_Star:
  "denotes (ts @ [Star]) (s @ [c]) \<longleftrightarrow> denotes (ts @ [Star]) s \<or> denotes ts (s @ [c])"
proof -
  have star: "denotes [Star] v" for v by (simp add: denotes_Star)
  have "denotes (ts @ [Star]) (s @ [c]) \<longleftrightarrow> (\<exists>u v. s @ [c] = u @ v \<and> denotes ts u)"
    by (simp add: denotes_append star)
  also have "\<dots> \<longleftrightarrow> (\<exists>u v. s = u @ v \<and> denotes ts u) \<or> denotes ts (s @ [c])"
    by (metis append_assoc append_is_Nil_conv append_self_conv butlast_append butlast_snoc)
  finally show ?thesis by (simp add: denotes_append star)
qed

lemma denotes_snoc_Nil: "tk \<noteq> Star \<Longrightarrow> \<not> denotes (ts @ [tk]) []"
  by (auto simp: denotes_append denotes_step)

text \<open>The row after the tokens \<open>ts\<close>, from the prefix \<open>u\<close> of the path on: which
  prefixes they denote.\<close>

definition row_from :: "pattern_token list \<Rightarrow> uchar list \<Rightarrow> uchar list \<Rightarrow> bool list" where
  "row_from ts u rest = map (\<lambda>i. denotes ts (u @ take i rest)) [0..<Suc (length rest)]"

lemma row_from_Cons: "row_from ts u (c # rest) = denotes ts u # row_from ts (u @ [c]) rest"
  by (simp add: row_from_def upt_conv_Cons map_Suc_upt [symmetric] comp_def del: upt_Suc)

lemma row_from_Nil: "row_from ts u [] = [denotes ts u]"
  by (simp add: row_from_def)

lemma row_from_head: "row_from ts u rest = denotes ts u # tl (row_from ts u rest)"
  by (cases rest) (simp_all add: row_from_Nil row_from_Cons)

lemma last_row_from: "last (row_from ts u rest) = denotes ts (u @ rest)"
  by (simp add: row_from_def)

lemma next_cell_denotes:
  "next_cell tk (denotes (ts @ [tk]) u) (denotes ts u) (denotes ts (u @ [c])) c = denotes (ts @ [tk]) (u @ [c])"
  by (cases tk) (auto simp: next_cell_def denotes_snoc_Star denotes_snoc_step)

lemma next_cells_row:
  "denotes (ts @ [tk]) u # next_cells tk (denotes (ts @ [tk]) u) (row_from ts u rest) rest
     = row_from (ts @ [tk]) u rest"
proof (induction rest arbitrary: u)
  case (Cons c rest)
  have "next_cells tk (denotes (ts @ [tk]) u) (row_from ts u (c # rest)) (c # rest)
      = denotes (ts @ [tk]) (u @ [c]) # next_cells tk (denotes (ts @ [tk]) (u @ [c])) (row_from ts (u @ [c]) rest) rest"
  proof -
    obtain row where "row_from ts (u @ [c]) rest = denotes ts (u @ [c]) # row"
      using row_from_head by blast
    then show ?thesis by (simp add: row_from_Cons next_cell_denotes Let_def)
  qed
  then show ?case using Cons.IH [of "u @ [c]"] by (simp add: row_from_Cons)
qed (simp add: row_from_Nil)

lemma next_row_from: "next_row tk path (row_from ts [] path) = row_from (ts @ [tk]) [] path"
proof -
  have "(tk = Star \<and> hd (row_from ts [] path)) = denotes (ts @ [tk]) []"
    using row_from_head [of ts "[]" path] denotes_snoc_Nil [of tk ts] denotes_snoc_Star_Nil [of ts]
    by (metis list.sel(1))
  then show ?thesis using next_cells_row [of ts tk "[]" path] by (simp add: next_row_def Let_def)
qed

lemma fold_next_row:
  "fold (\<lambda>tk row. next_row tk path row) us (row_from ts [] path) = row_from (ts @ us) [] path"
  by (induction us arbitrary: ts) (simp_all add: next_row_from)

lemma first_row: "row_from [] [] path = True # replicate (length path) False"
proof -
  have "row_from [] (c # u) rest = replicate (Suc (length rest)) False" for c u rest
    by (simp add: row_from_def map_replicate_const)
  then show ?thesis by (cases path) (simp_all add: row_from_Nil row_from_Cons)
qed

lemma pattern_matches_denotes: "pattern_matches pattern path = denotes (tokens pattern) (utf8_chars path)"
  using fold_next_row [of "utf8_chars path" "tokens pattern" "[]"] last_row_from [of _ "[]"]
  by (simp add: pattern_matches_def Let_def first_row)

text \<open>C20: The row-by-row matcher decides exactly the paths the pattern denotes.\<close>

theorem matcher_exact: "pattern_matches pattern path \<longleftrightarrow> denotes (tokens pattern) (utf8_chars path)"
  by (rule pattern_matches_denotes)

section \<open>Intersection is exact\<close>

text \<open>Between two boundaries membership in a range does not change.\<close>

lemma range_unchanged:
  assumes "\<forall>b \<in> set (range_boundaries r). \<not> (g < b \<and> b \<le> ch)" and "g \<le> ch" and "ch \<le> 0x10FFFF"
  shows "(fst r \<le> g \<and> g \<le> snd r) \<longleftrightarrow> (fst r \<le> ch \<and> ch \<le> snd r)"
  using assms by (auto simp: range_boundaries_def split: if_splits)

lemma accepts_unchanged:
  assumes "\<forall>r \<in> set (token_ranges tk). \<forall>b \<in> set (range_boundaries r). \<not> (g < b \<and> b \<le> ch)"
    and "g \<le> ch" and "ch \<le> 0x10FFFF"
  shows "accepts tk g = accepts tk ch"
proof -
  have r: "(fst r \<le> g \<and> g \<le> snd r) \<longleftrightarrow> (fst r \<le> ch \<and> ch \<le> snd r)" if "r \<in> set (token_ranges tk)" for r
    using range_unchanged [OF bspec [OF assms(1) that] assms(2,3)] .
  show ?thesis
  proof (cases tk)
    case (Literal c)
    then show ?thesis using r [of "(c, c)"] by auto
  next
    case (Class negated ranges)
    then have "in_ranges g ranges = in_ranges ch ranges" using r by (auto simp: in_ranges_def)
    then show ?thesis using Class by simp
  qed simp_all
qed

lemma tokens_intersect_iff:
  "tokens_intersect l r \<longleftrightarrow> (\<exists>ch. scalar ch \<and> accepts l ch \<and> accepts r ch)"
proof
  assume "\<exists>ch. scalar ch \<and> accepts l ch \<and> accepts r ch"
  then obtain ch where ch: "scalar ch" "accepts l ch" "accepts r ch" by blast
  have top: "ch \<le> 0x10FFFF" using ch(1) by (auto simp: scalar_def)
  define B where "B = {b \<in> set (token_boundaries l r). b \<le> ch}"
  have "finite B" "0 \<in> B" by (simp_all add: B_def token_boundaries_def)
  define g where "g = Max B"
  have g: "g \<in> B" "\<And>b. b \<in> B \<Longrightarrow> b \<le> g"
    using Max_in [OF \<open>finite B\<close>] \<open>0 \<in> B\<close> Max_ge [OF \<open>finite B\<close>] by (auto simp: g_def)
  have le: "g \<le> ch" using g(1) by (simp add: B_def)
  have none: "\<not> (g < b \<and> b \<le> ch)" if "b \<in> set (token_boundaries l r)" for b
    using g(2) [of b] that by (auto simp: B_def)
  have "scalar g"
  proof (rule ccontr)
    assume "\<not> scalar g"
    then have "0xD800 \<le> g" "g < 0xE000" using le top by (auto simp: scalar_def)
    moreover have "\<not> (g < 0xE000 \<and> 0xE000 \<le> ch)" using none [of "0xE000"] by (simp add: token_boundaries_def)
    ultimately show False using ch(1) le by (auto simp: scalar_def)
  qed
  moreover have "accepts l g" "accepts r g"
    using accepts_unchanged [of l g ch] accepts_unchanged [of r g ch] none le top ch
    by (simp_all add: token_boundaries_def) blast+
  moreover have "g \<in> set (token_boundaries l r)" using g(1) by (simp add: B_def)
  ultimately show "tokens_intersect l r" by (auto simp: tokens_intersect_def list_ex_iff)
qed (auto simp: tokens_intersect_def list_ex_iff)

section \<open>The search is exact\<close>

lemma successors_mem:
  "q \<in> set (successors left right (a, b)) \<longleftrightarrow>
     (get_token left a = Some Star \<and> q = (a + 1, b)) \<or> (get_token right b = Some Star \<and> q = (a, b + 1)) \<or>
     (\<exists>l r. get_token left a = Some l \<and> get_token right b = Some r \<and> tokens_intersect l r \<and>
        q = (a + advance l, b + advance r))"
  by (cases "get_token left a"; cases "get_token right b") (auto simp: successors_def)

definition leads :: "pattern_token list \<Rightarrow> pattern_token list \<Rightarrow> nat \<times> nat \<Rightarrow> nat \<times> nat \<Rightarrow> bool" where
  "leads left right = (\<lambda>p q. q \<in> set (successors left right p))\<^sup>*\<^sup>*"

lemma leads_escapes:
  assumes "leads left right p f" and "p \<in> S" and "f \<notin> S"
    and "\<forall>s \<in> S. set (successors left right s) \<subseteq> S \<union> T"
  shows "\<exists>q \<in> T. leads left right q f"
  using assms(1,2) unfolding leads_def
proof (induction rule: converse_rtranclp_induct)
  case base
  then show ?case using assms(3) by simp
next
  case (step y z)
  show ?case
  proof (cases "z \<in> S")
    case True
    then show ?thesis using step.IH by blast
  next
    case False
    then have "z \<in> T" using assms(4) step by blast
    then show ?thesis using step.hyps(2) by blast
  qed
qed

lemma walk_pairs_iff:
  assumes "\<forall>s \<in> set seen. set (successors left right s) \<subseteq> set seen \<union> set pending"
    and "(length left, length right) \<notin> set seen"
  shows "walk_pairs left right pending seen \<longleftrightarrow>
    (\<exists>p \<in> set pending. leads left right p (length left, length right))"
  using assms
proof (induction left right pending seen rule: walk_pairs.induct)
  case (2 left right p pending seen)
  let ?f = "(length left, length right)"
  consider (again) "p \<in> set seen" | (found) "p \<notin> set seen" "p = ?f" | (visit) "p \<notin> set seen" "p \<noteq> ?f" by blast
  then show ?case
  proof cases
    case again
    then have closed: "\<forall>s \<in> set seen. set (successors left right s) \<subseteq> set seen \<union> set pending"
      using "2.prems"(1) by auto
    have "\<exists>q \<in> set pending. leads left right q ?f" if "leads left right p ?f"
      using leads_escapes [OF that again "2.prems"(2) closed] .
    then show ?thesis using "2.IH"(1) [OF again closed "2.prems"(2)] again by auto
  next
    case found
    then show ?thesis by (auto simp: leads_def)
  next
    case visit
    have ih: "walk_pairs left right (successors left right p @ pending) (p # seen) \<longleftrightarrow>
      (\<exists>q \<in> set (successors left right p @ pending). leads left right q ?f)"
      using "2.prems" visit by (intro "2.IH"(2)) auto
    have "leads left right p ?f \<longleftrightarrow> (\<exists>q \<in> set (successors left right p). leads left right q ?f)"
      using visit(2) unfolding leads_def
      by (auto elim: converse_rtranclpE intro: converse_rtranclp_into_rtranclp)
    then show ?thesis using ih visit by auto
  qed
qed simp

text \<open>The paths both remainders denote.\<close>

definition common :: "pattern_token list \<Rightarrow> pattern_token list \<Rightarrow> nat \<times> nat \<Rightarrow> uchar list \<Rightarrow> bool" where
  "common left right p s \<longleftrightarrow>
     list_all scalar s \<and> denotes (drop (fst p) left) s \<and> denotes (drop (snd p) right) s"

lemma drop_get_token:
  "get_token ts i = Some tk \<longleftrightarrow> i < length ts \<and> drop i ts = tk # drop (Suc i) ts"
  by (auto simp: get_token_def Cons_nth_drop_Suc) (metis Cons_nth_drop_Suc list.inject)

lemma denotes_advance:
  assumes "get_token ts i = Some tk" and "accepts tk c" and "denotes (drop (i + advance tk) ts) s"
  shows "denotes (drop i ts) (c # s)"
  using assms by (cases "tk = Star") (auto simp: drop_get_token advance_def denotes_step)

lemma leads_common:
  assumes "leads left right p (length left, length right)"
  shows "\<exists>s. common left right p s"
  using assms unfolding leads_def
proof (induction rule: converse_rtranclp_induct)
  case base
  show ?case by (intro exI [of _ "[]"]) (simp add: common_def)
next
  case (step p q)
  obtain a b where p: "p = (a, b)" by fastforce
  obtain s where s: "common left right q s" using step.IH by blast
  from step.hyps(1) consider
      (left) "get_token left a = Some Star" "q = (a + 1, b)"
    | (right) "get_token right b = Some Star" "q = (a, b + 1)"
    | (both) l r where "get_token left a = Some l" "get_token right b = Some r" "tokens_intersect l r"
        "q = (a + advance l, b + advance r)"
    unfolding p successors_mem by blast
  then show ?case
  proof cases
    case left
    then have "denotes (drop a left) s" using s
      by (auto simp: common_def drop_get_token denotes_Star intro: exI [of _ "[]"])
    then show ?thesis using s left by (auto simp: common_def p)
  next
    case right
    then have "denotes (drop b right) s" using s
      by (auto simp: common_def drop_get_token denotes_Star intro: exI [of _ "[]"])
    then show ?thesis using s right by (auto simp: common_def p)
  next
    case both
    obtain c where c: "scalar c" "accepts l c" "accepts r c" using both(3) tokens_intersect_iff by blast
    have "common left right p (c # s)"
      using s c denotes_advance [OF both(1) c(2)] denotes_advance [OF both(2) c(3)]
      by (simp add: common_def both(4) p)
    then show ?thesis by blast
  qed
qed

lemma denotes_cases:
  assumes "denotes (drop i ts) s" and "i \<le> length ts"
  obtains (finish) "i = length ts" "s = []"
  | (skip) "get_token ts i = Some Star" "denotes (drop (i + 1) ts) s"
  | (char) tk c s' where "get_token ts i = Some tk" "s = c # s'" "accepts tk c"
      "denotes (drop (i + advance tk) ts) s'"
proof (cases "i = length ts")
  case True
  then show ?thesis using assms(1) finish by simp
next
  case False
  then have i: "i < length ts" using assms(2) by simp
  then have d: "drop i ts = ts ! i # drop (Suc i) ts" by (simp add: Cons_nth_drop_Suc)
  show ?thesis
  proof (cases "ts ! i = Star")
    case True
    then consider "denotes (drop (Suc i) ts) s" | c s' where "s = c # s'" "denotes (drop i ts) s'"
      using assms(1) d by (cases s) auto
    then show ?thesis
      using skip [unfolded get_token_def] char [of Star] i True by cases (auto simp: get_token_def advance_def)
  next
    case False
    then show ?thesis using assms(1) d i char [of "ts ! i"] by (auto simp: denotes_step get_token_def advance_def)
  qed
qed

lemma leads_step: "q \<in> set (successors left right p) \<Longrightarrow> leads left right q f \<Longrightarrow> leads left right p f"
  unfolding leads_def by (rule converse_rtranclp_into_rtranclp)

lemma common_leads:
  assumes "common left right (a, b) s" and "a \<le> length left" and "b \<le> length right"
  shows "leads left right (a, b) (length left, length right)"
  using assms
proof (induction "length s + (length left - a) + (length right - b)" arbitrary: a b s rule: less_induct)
  case less
  note l = less.prems(1) [unfolded common_def fst_conv snd_conv]
  show ?case
  proof (rule denotes_cases [of a left s])
    show "denotes (drop a left) s" "a \<le> length left" using l less.prems by auto
  next
    assume skip: "get_token left a = Some Star" "denotes (drop (a + 1) left) s"
    then have "a < length left" by (simp add: drop_get_token)
    then have "leads left right (a + 1, b) (length left, length right)"
      using l skip less.prems by (intro less.hyps [of s]) (auto simp: common_def)
    moreover have "(a + 1, b) \<in> set (successors left right (a, b))" using skip(1) by (simp add: successors_mem)
      ultimately show ?case by (rule leads_step [rotated])
  next
    assume la: "a = length left" "s = []"
    show ?case
    proof (rule denotes_cases [of b right s])
      show "denotes (drop b right) s" "b \<le> length right" using l less.prems by auto
    next
      assume "b = length right"
      then show ?case using la by (simp add: leads_def)
    next
      assume skip: "get_token right b = Some Star" "denotes (drop (b + 1) right) s"
      then have "b < length right" by (simp add: drop_get_token)
      then have "leads left right (a, b + 1) (length left, length right)"
        using l skip less.prems by (intro less.hyps [of s]) (auto simp: common_def)
      moreover have "(a, b + 1) \<in> set (successors left right (a, b))" using skip(1) by (simp add: successors_mem)
      ultimately show ?case by (rule leads_step [rotated])
    qed (use la in simp)
  next
    fix tk c s'
    assume t: "get_token left a = Some tk" "s = c # s'" "accepts tk c" "denotes (drop (a + advance tk) left) s'"
    show ?case
    proof (rule denotes_cases [of b right s])
      show "denotes (drop b right) s" "b \<le> length right" using l less.prems by auto
    next
      assume "s = []"
      then show ?case using t by simp
    next
      assume skip: "get_token right b = Some Star" "denotes (drop (b + 1) right) s"
      then have "b < length right" by (simp add: drop_get_token)
      then have "leads left right (a, b + 1) (length left, length right)"
        using l skip less.prems by (intro less.hyps [of s]) (auto simp: common_def)
      moreover have "(a, b + 1) \<in> set (successors left right (a, b))" using skip(1) by (simp add: successors_mem)
      ultimately show ?case by (rule leads_step [rotated])
    next
      fix tk' c' s''
      assume u: "get_token right b = Some tk'" "s = c' # s''" "accepts tk' c'"
        "denotes (drop (b + advance tk') right) s''"
      have "tokens_intersect tk tk'"
        using tokens_intersect_iff t u l by (auto simp: list_all_iff)
      then have edge: "(a + advance tk, b + advance tk') \<in> set (successors left right (a, b))"
        using t(1) u(1) by (auto simp: successors_mem)
      have "a < length left" "b < length right" using t(1) u(1) by (simp_all add: drop_get_token)
      then have "leads left right (a + advance tk, b + advance tk') (length left, length right)"
        using l t u by (intro less.hyps [of s']) (auto simp: common_def advance_def)
      then show ?case using edge by (rule leads_step [rotated])
    qed
  qed
qed

lemma patterns_overlap_iff:
  "patterns_overlap left right \<longleftrightarrow>
     (\<exists>s. list_all scalar s \<and> denotes (tokens left) s \<and> denotes (tokens right) s)"
proof
  let ?l = "tokens left" and ?r = "tokens right"
  have walk: "patterns_overlap left right \<longleftrightarrow>
      leads ?l ?r (0, 0) (length ?l, length ?r)"
    using walk_pairs_iff [of "[]" ?l ?r "[(0, 0)]"] unfolding patterns_overlap_def by simp
  show "\<exists>s. list_all scalar s \<and> denotes ?l s \<and> denotes ?r s" if "patterns_overlap left right"
    using leads_common [of ?l ?r "(0, 0)"] walk that by (auto simp: common_def)
  show "patterns_overlap left right" if "\<exists>s. list_all scalar s \<and> denotes ?l s \<and> denotes ?r s"
    using common_leads [of ?l ?r 0 0] walk that by (auto simp: common_def)
qed

text \<open>C19: Two patterns are reported to overlap exactly when some path, any sequence of Unicode
  characters, matches both; the search of pairs of pattern positions always ends.\<close>

theorem overlap_exact:
  "patterns_overlap left right \<longleftrightarrow>
     (\<exists>s. list_all scalar s \<and> denotes (tokens left) s \<and> denotes (tokens right) s)"
  by (rule patterns_overlap_iff)

section \<open>The view\<close>

record applicability_input =
  ap_paths :: "str list"
  ap_routes :: "str list"
  ap_changed :: "str list"
  ap_selected :: "str list"
  ap_targets :: "str list"
  ap_posture :: str

definition de_applicability :: "json \<Rightarrow> applicability_input option" where
  "de_applicability v = do {
     f \<leftarrow> struct_fields True [''paths'', ''routes'', ''changed_paths'', ''selected_routes'',
       ''target_patterns'', ''route_posture''] v;
     paths \<leftarrow> req de_strs f ''paths'';
     routes \<leftarrow> req de_strs f ''routes'';
     changed \<leftarrow> req de_strs f ''changed_paths'';
     selected \<leftarrow> req de_strs f ''selected_routes'';
     targets \<leftarrow> dflt de_strs [] f ''target_patterns'';
     posture \<leftarrow> req de_str f ''route_posture'';
     Some \<lparr>ap_paths = paths, ap_routes = routes, ap_changed = changed, ap_selected = selected,
       ap_targets = targets, ap_posture = posture\<rparr> }"

text \<open>\<open>trim().trim_matches('/')\<close>.\<close>

definition route_text :: "str \<Rightarrow> str" where
  "route_text r =
     rev (dropWhile (\<lambda>c. c = CHR 0x2F) (rev (dropWhile (\<lambda>c. c = CHR 0x2F) (trim r))))"

definition without_wildcard :: "str \<Rightarrow> str" where
  "without_wildcard r = (case strip_suffix r ''/**'' of Some p \<Rightarrow> p | None \<Rightarrow> r)"

definition selector_matches :: "str \<Rightarrow> str \<Rightarrow> bool" where
  "selector_matches selector route =
     (case strip_suffix selector ''/**'' of
        None \<Rightarrow> route = selector
      | Some prefix \<Rightarrow> route = prefix \<or> starts_with route (fmt [prefix, ''/'']))"

definition slashed :: "str \<Rightarrow> str" where
  "slashed p = map (\<lambda>c. if c = CHR 0x5C then CHR 0x2F else c) p"

definition matched_paths :: "applicability_input \<Rightarrow> str list" where
  "matched_paths i =
     sort_dedup (filter (\<lambda>p. \<exists>pattern \<in> set (ap_paths i). pattern_matches pattern p) (map slashed (ap_changed i)))"

definition path_applies :: "applicability_input \<Rightarrow> bool" where
  "path_applies i \<longleftrightarrow>
     ap_paths i = [] \<or> matched_paths i \<noteq> [] \<or>
     (\<exists>p \<in> set (ap_paths i). \<exists>t \<in> set (ap_targets i). patterns_overlap p t)"

definition route_applies :: "applicability_input \<Rightarrow> bool" where
  "route_applies i \<longleftrightarrow>
     ap_routes i = [] \<or>
     (ap_posture i = ''selected'' \<and>
      (\<exists>selector \<in> set (map route_text (ap_routes i)). \<exists>route \<in> set (map route_text (ap_selected i)).
         selector_matches selector route))"

definition path_reason :: "applicability_input \<Rightarrow> str" where
  "path_reason i =
     (if ap_paths i = [] then ''global path scope''
      else (case matched_paths i of
          p # _ \<Rightarrow> fmt [p, '' matches '',
            case find (\<lambda>pattern. pattern_matches pattern p) (ap_paths i) of Some pattern \<Rightarrow> pattern | None \<Rightarrow> '''']
        | [] \<Rightarrow> ''resource destination intersects declared path scope''))"

definition applicability_reasons :: "applicability_input \<Rightarrow> str list" where
  "applicability_reasons i =
     (if path_applies i \<and> route_applies i
      then path_reason i #
        (if ap_routes i = [] then []
         else [fmt [''selected semantic route matches '', join_with '', '' (ap_routes i)]])
      else
        (if path_applies i then []
         else [fmt [''no changed or target path matches '', join_with '', '' (ap_paths i)]]) @
        (if route_applies i then []
         else if ap_posture i \<noteq> ''selected'' then [fmt [''semantic route selection is '', ap_posture i]]
         else [fmt [''no selected semantic route matches '', join_with '', '' (ap_routes i)]]))"

definition applicability_status :: "applicability_input \<Rightarrow> str" where
  "applicability_status i =
     (if path_applies i \<and> ap_routes i \<noteq> [] \<and> ap_posture i = ''unresolved'' then ''unresolved''
      else if path_applies i \<and> route_applies i then ''applicable'' else ''not-applicable'')"

text \<open>The checked-in schema file is an argument.\<close>

definition applicability_view :: "host \<Rightarrow> json \<Rightarrow> json \<Rightarrow> json res" where
  "applicability_view H schema v =
     and_then (schema_validator H schema ''instruction applicability'') (\<lambda>valid.
     if \<not> valid v then Inl (err ''schema violation'')
     else
     and_then (decoded (de_applicability v)) (\<lambda>i.
     and_then (route_ids (map route_text (ap_selected i)) ''instruction selected routes'') (\<lambda>_.
     and_then (route_ids (map (without_wildcard \<circ> route_text) (ap_routes i)) ''instruction selectors'') (\<lambda>_.
     Inr (obj [(''status'', JStr (applicability_status i)),
       (''applies'', JBool (path_applies i \<and> route_applies i)),
       (''path_applies'', JBool (path_applies i)), (''route_applies'', JBool (route_applies i)),
       (''reason'', JStr (join_with ''; '' (applicability_reasons i))),
       (''matched_paths'', jstrs (matched_paths i))])))))"

lemma applicability_view_Inr:
  "applicability_view H schema v = Inr out \<longleftrightarrow>
     (\<exists>valid i. schema_validator H schema ''instruction applicability'' = Inr valid \<and> valid v \<and>
        de_applicability v = Some i \<and>
        (\<exists>rs. route_ids (map route_text (ap_selected i)) ''instruction selected routes'' = Inr rs) \<and>
        (\<exists>rs. route_ids (map (without_wildcard \<circ> route_text) (ap_routes i)) ''instruction selectors'' = Inr rs) \<and>
        out = obj [(''status'', JStr (applicability_status i)),
          (''applies'', JBool (path_applies i \<and> route_applies i)),
          (''path_applies'', JBool (path_applies i)), (''route_applies'', JBool (route_applies i)),
          (''reason'', JStr (join_with ''; '' (applicability_reasons i))),
          (''matched_paths'', jstrs (matched_paths i))])"
  by (auto simp: applicability_view_def and_then_Inr_iff decoded_Inr_iff split: if_splits)

lemma matched_paths_mem:
  "p \<in> set (matched_paths i) \<longleftrightarrow>
     (\<exists>c \<in> set (ap_changed i). p = slashed c) \<and>
     (\<exists>pattern \<in> set (ap_paths i). denotes (tokens pattern) (utf8_chars p))"
  by (auto simp: matched_paths_def pattern_matches_denotes)

lemma path_applies_iff:
  "path_applies i \<longleftrightarrow>
     ap_paths i = [] \<or>
     (\<exists>c \<in> set (ap_changed i). \<exists>pattern \<in> set (ap_paths i). denotes (tokens pattern) (utf8_chars (slashed c))) \<or>
     (\<exists>pattern \<in> set (ap_paths i). \<exists>t \<in> set (ap_targets i).
        \<exists>s. list_all scalar s \<and> denotes (tokens pattern) s \<and> denotes (tokens t) s)"
proof -
  have "matched_paths i \<noteq> [] \<longleftrightarrow>
      (\<exists>c \<in> set (ap_changed i). \<exists>pattern \<in> set (ap_paths i). denotes (tokens pattern) (utf8_chars (slashed c)))"
    using matched_paths_mem [of _ i] by (metis (no_types, lifting) list.set_intros(1) list.set_sel(1) list.exhaust_sel list.set(1) empty_iff)
  then show ?thesis by (simp add: path_applies_def patterns_overlap_iff)
qed

lemma strip_suffix_None_iff: "strip_suffix s p = None \<longleftrightarrow> (\<nexists>r. s = r @ p)"
  by (metis not_None_eq strip_suffix_Some_iff)

text \<open>C21: An instruction is reported to apply exactly when its declared path scope is empty,
  denotes a changed path, or has a path in common with a target, and its route scope is
  empty or a selected route is a selector or below a selector's prefix; the changed paths
  reported are exactly those its patterns denote, each once.\<close>

theorem applicability_exact:
  assumes "applicability_view H schema v = Inr out" and "de_applicability v = Some i"
  shows "(ix out ''applies'' = JBool True \<longleftrightarrow>
      (ap_paths i = [] \<or>
       (\<exists>c \<in> set (ap_changed i). \<exists>pattern \<in> set (ap_paths i). denotes (tokens pattern) (utf8_chars (slashed c))) \<or>
       (\<exists>pattern \<in> set (ap_paths i). \<exists>t \<in> set (ap_targets i).
          \<exists>s. list_all scalar s \<and> denotes (tokens pattern) s \<and> denotes (tokens t) s)) \<and>
      (ap_routes i = [] \<or> ap_posture i = ''selected'' \<and>
       (\<exists>selector \<in> set (map route_text (ap_routes i)). \<exists>route \<in> set (map route_text (ap_selected i)).
          route = selector \<and> (\<nexists>p. selector = p @ ''/**'') \<or>
          (\<exists>p rest. selector = p @ ''/**'' \<and> (route = p \<or> route = p @ ''/'' @ rest))))) \<and>
    (\<exists>ms. ix out ''matched_paths'' = jstrs ms \<and> distinct ms \<and>
       (\<forall>p. p \<in> set ms \<longleftrightarrow> (\<exists>c \<in> set (ap_changed i). p = slashed c) \<and>
          (\<exists>pattern \<in> set (ap_paths i). denotes (tokens pattern) (utf8_chars p))))"
proof -
  have out: "ix out ''applies'' = JBool (path_applies i \<and> route_applies i)"
    "ix out ''matched_paths'' = jstrs (matched_paths i)"
    using assms by (auto simp: applicability_view_Inr)
  have sm: "selector_matches selector route \<longleftrightarrow>
      route = selector \<and> (\<nexists>p. selector = p @ ''/**'') \<or>
      (\<exists>p rest. selector = p @ ''/**'' \<and> (route = p \<or> route = p @ ''/'' @ rest))" for selector route
  proof (cases "strip_suffix selector ''/**''")
    case None
    then show ?thesis
      using strip_suffix_None_iff [THEN iffD1, OF None] by (auto simp: selector_matches_def None)
  next
    case (Some p)
    then show ?thesis
      using strip_suffix_Some_iff [THEN iffD1, OF Some]
      by (auto simp: selector_matches_def Some starts_with_iff fmt_def)
  qed
  have "distinct (matched_paths i)" by (simp add: matched_paths_def)
  then have ex: "\<exists>ms. jstrs (matched_paths i) = jstrs ms \<and> distinct ms \<and>
       (\<forall>p. p \<in> set ms \<longleftrightarrow> (\<exists>c \<in> set (ap_changed i). p = slashed c) \<and>
          (\<exists>pattern \<in> set (ap_paths i). denotes (tokens pattern) (utf8_chars p)))"
    using matched_paths_mem [of _ i] by (intro exI [of _ "matched_paths i"]) blast
  show ?thesis
    unfolding out(1) json.inject path_applies_iff route_applies_def sm
    unfolding out(2) using ex by (intro conjI) simp_all
qed

text \<open>The verdict is unresolved exactly when the paths apply and the routes the scope
  names are yet to be selected; otherwise it is applicable exactly when both scopes apply,
  and an unresolved instruction is never reported to apply.\<close>

theorem applicability_verdict:
  assumes "applicability_view H schema v = Inr out" and "de_applicability v = Some i"
  shows "(ix out ''status'' = JStr ''unresolved'' \<longleftrightarrow>
      ix out ''path_applies'' = JBool True \<and> ap_routes i \<noteq> [] \<and> ap_posture i = ''unresolved'') \<and>
    (ix out ''status'' = JStr ''applicable'' \<longleftrightarrow> ix out ''applies'' = JBool True) \<and>
    (ix out ''status'' = JStr ''unresolved'' \<longrightarrow> ix out ''applies'' = JBool False)"
proof -
  have out: "ix out ''status'' = JStr (applicability_status i)"
    "ix out ''applies'' = JBool (path_applies i \<and> route_applies i)"
    "ix out ''path_applies'' = JBool (path_applies i)"
    using assms by (auto simp: applicability_view_Inr)
  have "\<not> route_applies i" if "ap_routes i \<noteq> []" "ap_posture i = ''unresolved''"
    using that by (simp add: route_applies_def)
  then show ?thesis unfolding out by (auto simp: applicability_status_def)
qed

end
