(* ===== verification/Request.thy ===== *)
theory Request
  imports Capability Routes
begin

text \<open>
  Public requests (\<open>normalize_public_request\<close>, \<open>prepare_request_value\<close> and
  \<open>answer_decision_value\<close> of \<open>src/src/core/src/lib.rs\<close>). A client sends back the
  request an owner issued; it is admitted only for the capability contract, the work
  and the owner revision it was issued for, and its arguments only as the declared
  schema allows.
\<close>

section \<open>The envelope\<close>

record public_request_input =
  pri_kind :: str
  pri_id :: str
  pri_owner :: str
  pri_owner_revision :: str
  pri_source_revision :: str
  pri_request_kind :: str
  pri_capability_revision :: str
  pri_task_identity :: work_identity
  pri_arguments :: json

definition de_public_request :: "json \<Rightarrow> public_request_input option" where
  "de_public_request v = do {
     f \<leftarrow> struct_fields True
       [''kind'', ''id'', ''owner'', ''owner_revision'', ''source_revision'', ''request_kind'',
        ''capability_revision'', ''task_identity'', ''arguments''] v;
     kind \<leftarrow> req de_str f ''kind'';
     id \<leftarrow> req de_str f ''id'';
     owner \<leftarrow> req de_str f ''owner'';
     owner_revision \<leftarrow> req de_str f ''owner_revision'';
     source_revision \<leftarrow> req de_str f ''source_revision'';
     request_kind \<leftarrow> req de_str f ''request_kind'';
     capability_revision \<leftarrow> req de_str f ''capability_revision'';
     task_identity \<leftarrow> req de_work f ''task_identity'';
     arguments \<leftarrow> req de_any f ''arguments'';
     Some \<lparr>pri_kind = kind, pri_id = id, pri_owner = owner, pri_owner_revision = owner_revision,
       pri_source_revision = source_revision, pri_request_kind = request_kind,
       pri_capability_revision = capability_revision, pri_task_identity = task_identity,
       pri_arguments = arguments\<rparr> }"

record public_request =
  pr_id :: str
  pr_identity :: str
  pr_owner :: str
  pr_owner_revision :: str
  pr_source_revision :: str
  pr_request_kind :: str
  pr_result_kind :: str
  pr_capability_revision :: str
  pr_task_identity :: work_identity
  pr_arguments :: json

definition PUBLIC_REQUEST_KIND :: str where
  "PUBLIC_REQUEST_KIND = ''agentic-workspace/public-request/v1''"

text \<open>The fields a client sees; \<open>en_public_request\<close> adds the two derived ones.\<close>

definition request_fields :: "public_request \<Rightarrow> (str \<times> json) list" where
  "request_fields r =
     [(''kind'', JStr PUBLIC_REQUEST_KIND), (''id'', JStr (pr_id r)), (''owner'', JStr (pr_owner r)),
      (''owner_revision'', JStr (pr_owner_revision r)),
      (''source_revision'', JStr (pr_source_revision r)),
      (''request_kind'', JStr (pr_request_kind r)),
      (''capability_revision'', JStr (pr_capability_revision r)),
      (''task_identity'', en_work (pr_task_identity r)), (''arguments'', pr_arguments r)]"

definition en_public_request :: "public_request \<Rightarrow> json" where
  "en_public_request r = obj
     (request_fields r @ [(''identity'', JStr (pr_identity r)), (''result_kind'', JStr (pr_result_kind r))])"

datatype public_request_shape = SetShape | Envelope | Arguments

definition invalid_public_request :: "public_request_shape \<Rightarrow> core_error" where
  "invalid_public_request shape = err (case shape of
     SetShape \<Rightarrow> ''request: expected a returned public-request object or array of requests. For a carried reference answer, pass carriage with reference and answer, not the full presentation.''
   | Envelope \<Rightarrow> ''request: expected the unchanged owner-issued public-request envelope with only its advertised arguments filled in; resolve a fresh request through start.''
   | Arguments \<Rightarrow> ''request.arguments violate input_schema: use the advertised fields and bounded choices in the current owner-issued request; resolve a fresh request through start.'')"

section \<open>Admission of a request\<close>

definition request_identity ::
  "host \<Rightarrow> str \<Rightarrow> str \<Rightarrow> str \<Rightarrow> str \<Rightarrow> str \<Rightarrow> request_shape \<Rightarrow> str \<Rightarrow> work_identity \<Rightarrow> json \<Rightarrow> str" where
  "request_identity H rid owner owner_revision source_revision request_kind shape capability_revision
     current arguments = digest H (obj
       [(''id'', JStr rid), (''owner'', JStr owner), (''owner_revision'', JStr owner_revision),
        (''source_revision'', JStr source_revision), (''request_kind'', JStr request_kind),
        (''request_contract'', en_request_shape shape),
        (''capability_revision'', JStr capability_revision),
        (''task_identity'', en_work current), (''arguments'', arguments)])"

definition arguments_valid :: "host \<Rightarrow> json \<Rightarrow> json \<Rightarrow> bool res" where
  "arguments_valid H schema arguments =
     (if \<not> is_object arguments then Inr False
      else and_then (schema_validator H schema ''public request'') (\<lambda>valid. Inr (valid arguments)))"

text \<open>The checks of an envelope against the contract and the intent.\<close>

definition admit_public_request ::
  "host \<Rightarrow> capability_contract \<Rightarrow> json \<Rightarrow> json \<Rightarrow> public_request res" where
  "admit_public_request H cc intent value =
     and_then (ok_or (de_public_request value) (invalid_public_request Envelope)) (\<lambda>parsed.
     if pri_kind parsed \<noteq> PUBLIC_REQUEST_KIND
     then Inl (err (fmt [''intent.public_request.kind must be '', PUBLIC_REQUEST_KIND]))
     else
     and_then (require_text (pri_id parsed) ''intent.public_request.id'') (\<lambda>id.
     and_then (require_text (pri_owner parsed) ''intent.public_request.owner'') (\<lambda>owner.
     and_then (require_text (pri_owner_revision parsed)
       ''intent.public_request.owner_revision'') (\<lambda>owner_revision.
     and_then (require_text (pri_source_revision parsed)
       ''intent.public_request.source_revision'') (\<lambda>source_revision.
     and_then (require_text (pri_request_kind parsed)
       ''intent.public_request.request_kind'') (\<lambda>request_kind.
     if pri_capability_revision parsed \<noteq> cc_revision cc
     then Inl (err ''public request is stale for the current capability contract revision'')
     else
     and_then (current_work intent) (\<lambda>work.
     and_then (ok_or work (err ''intent.public_request requires intent.current_work'')) (\<lambda>current.
     if pri_task_identity parsed \<noteq> current
     then Inl (err ''public request is stale for the current task identity'')
     else
     and_then (ok_or (om_get (cc_owners cc) owner)
       (err ''public request names unknown capability owner; use a current owner-issued request'')) (\<lambda>co.
     if owner_revision \<noteq> co_revision co
     then Inl (err ''public request is stale for capability owner; resolve a fresh request through start'')
     else
     and_then (ok_or (om_get (co_requests co) request_kind)
       (err ''public request names undeclared request kind; use a current owner-issued request'')) (\<lambda>shape.
     and_then (arguments_valid H (rs_input_schema shape) (pri_arguments parsed)) (\<lambda>valid.
     if \<not> valid then Inl (invalid_public_request Arguments)
     else Inr
       \<lparr>pr_id = id,
        pr_identity = fmt [''request:'', request_identity H id owner owner_revision source_revision
          request_kind shape (cc_revision cc) current (pri_arguments parsed)],
        pr_owner = owner, pr_owner_revision = owner_revision, pr_source_revision = source_revision,
        pr_request_kind = request_kind, pr_result_kind = rs_result_kind shape,
        pr_capability_revision = cc_revision cc, pr_task_identity = current,
        pr_arguments = pri_arguments parsed\<rparr>)))))))))))"

definition normalize_public_request ::
  "host \<Rightarrow> json \<Rightarrow> capability_contract option \<Rightarrow> (public_request option \<times> json) res" where
  "normalize_public_request H intent capabilities =
     (case jget intent ''public_request'' of
        None \<Rightarrow> Inr (None, intent)
      | Some value \<Rightarrow>
          and_then (ok_or capabilities
            (err ''intent.public_request requires a current capability_contract'')) (\<lambda>cc.
          and_then (admit_public_request H cc intent value) (\<lambda>r.
          Inr (Some r, jset ''public_request'' (en_public_request r) intent))))"

section \<open>Preparing and answering\<close>

definition prepare_request ::
  "host \<Rightarrow> json \<Rightarrow> json \<Rightarrow> capability_contract_input \<Rightarrow> json res" where
  "prepare_request H request work contract =
     and_then (normalize_capability_contract H contract) (\<lambda>cc.
     and_then (admit_public_request H cc
       (obj [(''public_request'', request), (''current_work'', work)]) request) (\<lambda>r.
     Inr (obj [(''request'', obj (request_fields r)), (''identity'', JStr (pr_identity r)),
       (''result_kind'', JStr (pr_result_kind r))])))"

definition prepare_request_value :: "host \<Rightarrow> json \<Rightarrow> json res" where
  "prepare_request_value H v =
     and_then (decoded (do {
       f \<leftarrow> struct_fields True [''request'', ''current_work'', ''capability_contract''] v;
       request \<leftarrow> req de_any f ''request'';
       work \<leftarrow> req de_any f ''current_work'';
       contract \<leftarrow> req de_capability_contract f ''capability_contract'';
       Some (request, work, contract) })) (\<lambda>(request, work, contract).
     prepare_request H request work contract)"

text \<open>Writing \<open>answer\<close> into the arguments of the request; other fields stay. (A response
  request that is neither an object nor \<open>null\<close> makes \<open>IndexMut\<close> panic; here it is the
  error of an absent one.)\<close>

definition fill_answer :: "json \<Rightarrow> json \<Rightarrow> json res" where
  "fill_answer request answer =
     (if is_object (ix request ''arguments'')
      then Inr (jset ''arguments'' (jset ''answer'' answer (ix request ''arguments'')) request)
      else Inl (err ''current decision has no response request''))"

definition bounded_choice :: "json \<Rightarrow> json \<Rightarrow> bool" where
  "bounded_choice question answer \<longleftrightarrow>
     elements (ix question ''choices'') = [] \<or>
     (\<exists>item \<in> set (elements (ix question ''choices'')). ix item ''id'' = answer)"

definition answer_decision ::
  "host \<Rightarrow> json \<Rightarrow> str \<Rightarrow> json \<Rightarrow> json \<Rightarrow> json res" where
  "answer_decision H decision question_id answer contract =
     and_then (ok_or (find (\<lambda>item. ix item ''consequence_id'' = JStr question_id)
         (elements (ix (ix decision ''pending_consequences'') ''decisions'')))
       (err ''answer references a stale or absent decision'')) (\<lambda>question.
     if \<not> bounded_choice question answer
     then Inl (err ''answer is not a returned bounded choice'')
     else
     and_then (fill_answer (ix question ''response_request'') answer) (\<lambda>request.
     prepare_request_value H (obj
       [(''current_work'', ix request ''task_identity''), (''request'', request),
        (''capability_contract'', contract)])))"

definition answer_decision_value :: "host \<Rightarrow> json \<Rightarrow> json res" where
  "answer_decision_value H v =
     and_then (decoded (do {
       f \<leftarrow> struct_fields True [''decision'', ''question'', ''answer'', ''capability_contract''] v;
       decision \<leftarrow> req de_any f ''decision'';
       question \<leftarrow> req de_str f ''question'';
       answer \<leftarrow> req de_any f ''answer'';
       contract \<leftarrow> req de_any f ''capability_contract'';
       Some (decision, question, answer, contract) })) (\<lambda>(decision, question, answer, contract).
     answer_decision H decision question answer contract)"

section \<open>What an admitted request is bound to\<close>

lemma arguments_valid_Inr_iff [result_simps]:
  "arguments_valid H schema a = Inr b \<longleftrightarrow>
     (if is_object a then \<exists>valid. schema_validator H schema ''public request'' = Inr valid \<and> b = valid a
      else \<not> b)"
  by (auto simp: arguments_valid_def result_simps)

lemma current_work_Some_iff [result_simps]:
  "current_work intent = Inr (Some w) \<longleftrightarrow>
     (\<exists>v. jget intent ''current_work'' = Some v \<and> checked_work v = Inr w)"
  by (auto simp: current_work_def opt_try_def and_then_Inr_iff split: option.splits)

definition request_current ::
  "host \<Rightarrow> capability_contract \<Rightarrow> json \<Rightarrow> public_request_input \<Rightarrow> public_request \<Rightarrow> bool" where
  "request_current H cc intent parsed r \<longleftrightarrow>
     (\<exists>co shape valid.
        pri_kind parsed = PUBLIC_REQUEST_KIND \<and> pri_capability_revision parsed = cc_revision cc \<and>
        current_work intent = Inr (Some (pr_task_identity r)) \<and>
        pri_task_identity parsed = pr_task_identity r \<and>
        pr_owner r = trim (pri_owner parsed) \<and> om_get (cc_owners cc) (pr_owner r) = Some co \<and>
        pr_owner_revision r = trim (pri_owner_revision parsed) \<and>
        pr_owner_revision r = co_revision co \<and>
        pr_request_kind r = trim (pri_request_kind parsed) \<and>
        om_get (co_requests co) (pr_request_kind r) = Some shape \<and>
        pr_arguments r = pri_arguments parsed \<and> is_object (pr_arguments r) \<and>
        schema_validator H (rs_input_schema shape) ''public request'' = Inr valid \<and>
        valid (pr_arguments r) \<and> pr_result_kind r = rs_result_kind shape)"

lemma admit_public_request_current:
  assumes "admit_public_request H cc intent value = Inr r"
  shows "\<exists>parsed. de_public_request value = Some parsed \<and> request_current H cc intent parsed r"
  using assms unfolding admit_public_request_def request_current_def
  by (elim and_then_InrE) (auto simp: result_simps split: if_splits elim!: and_then_InrE)

lemma prepare_request_value_obj:
  "prepare_request_value H (obj
      [(''current_work'', w), (''request'', q), (''capability_contract'', c)]) =
   and_then (decoded (de_capability_contract c)) (\<lambda>contract. prepare_request H q w contract)"
  by (cases "de_capability_contract c")
    (auto simp: prepare_request_value_def struct_fields_def obj_def om_of_def req_def de_any_def
      decoded_def ok_or_def split: option.splits)

lemma fill_answer_Inr:
  assumes "fill_answer request answer = Inr r"
  shows "\<And>k. k \<noteq> ''arguments'' \<Longrightarrow> ix r k = ix request k"
    and "\<And>k. k \<noteq> ''answer'' \<Longrightarrow> ix (ix r ''arguments'') k = ix (ix request ''arguments'') k"
    and "ix (ix r ''arguments'') ''answer'' = answer"
  using assms
  by (auto simp: fill_answer_def ix_jset is_object_iff ix_def jget_def jset_def omap_simps
      split: if_splits json.splits option.splits)

end
