(* ===== verification/Assignment.thy ===== *)
theory Assignment
  imports Request Unicode Capability
begin

text \<open>
  Assignment of work to executors (\<open>src/src/core/src/assignment.rs\<close>): attribution of an
  outcome, feasible execution configurations and the choice among them, replacement of an
  assignment under a new sealed packet, and admission of a packet.
\<close>

section \<open>Outcome attribution\<close>

record outcome_evidence =
  oe_admitted :: "bool option"
  oe_target_executed :: "bool option"
  oe_context_sufficient :: "bool option"
  oe_transport_sufficient :: "bool option"
  oe_worker_succeeded :: "bool option"
  oe_changed_intent :: "bool option"
  oe_mixed :: "bool option"
  oe_censored :: "bool option"
  oe_repo_owned :: "bool option"
  oe_failure_stage :: "str option"
  oe_stage :: "str option"
  oe_slice_id :: "str option"
  oe_semantic_revision :: "str option"
  oe_task_class :: "str option"
  oe_assignment_id :: "str option"
  oe_assignment_revision :: "str option"
  oe_run_id :: "str option"
  oe_target :: "str option"
  oe_source_owner :: "str option"

definition OUTCOME_FIELDS :: "str list" where
  "OUTCOME_FIELDS =
     [''admitted'', ''target_executed'', ''context_sufficient'', ''transport_sufficient'',
      ''worker_succeeded'', ''changed_intent'', ''mixed'', ''censored'', ''repo_owned'',
      ''failure_stage'', ''stage'', ''slice_id'', ''semantic_revision'', ''task_class'',
      ''assignment_id'', ''assignment_revision'', ''run_id'', ''target'', ''source_owner'']"

definition de_outcome_evidence :: "json \<Rightarrow> outcome_evidence option" where
  "de_outcome_evidence v = do {
     f \<leftarrow> struct_fields True OUTCOME_FIELDS v;
     admitted \<leftarrow> opt de_bool f ''admitted'';
     executed \<leftarrow> opt de_bool f ''target_executed'';
     ctxt \<leftarrow> opt de_bool f ''context_sufficient'';
     transport \<leftarrow> opt de_bool f ''transport_sufficient'';
     succeeded \<leftarrow> opt de_bool f ''worker_succeeded'';
     intent \<leftarrow> opt de_bool f ''changed_intent'';
     mixed \<leftarrow> opt de_bool f ''mixed'';
     censored \<leftarrow> opt de_bool f ''censored'';
     repo \<leftarrow> opt de_bool f ''repo_owned'';
     failure \<leftarrow> opt de_str f ''failure_stage'';
     stage \<leftarrow> opt de_str f ''stage'';
     slice \<leftarrow> opt de_str f ''slice_id'';
     semantic \<leftarrow> opt de_str f ''semantic_revision'';
     task \<leftarrow> opt de_str f ''task_class'';
     aid \<leftarrow> opt de_str f ''assignment_id'';
     arev \<leftarrow> opt de_str f ''assignment_revision'';
     run \<leftarrow> opt de_str f ''run_id'';
     target \<leftarrow> opt de_str f ''target'';
     owner \<leftarrow> opt de_str f ''source_owner'';
     Some \<lparr>oe_admitted = admitted, oe_target_executed = executed, oe_context_sufficient = ctxt,
       oe_transport_sufficient = transport, oe_worker_succeeded = succeeded,
       oe_changed_intent = intent, oe_mixed = mixed, oe_censored = censored, oe_repo_owned = repo,
       oe_failure_stage = failure, oe_stage = stage, oe_slice_id = slice,
       oe_semantic_revision = semantic, oe_task_class = task, oe_assignment_id = aid,
       oe_assignment_revision = arev, oe_run_id = run, oe_target = target, oe_source_owner = owner\<rparr> }"

definition outcome_stage :: "outcome_evidence \<Rightarrow> str" where
  "outcome_stage item =
     (case oe_failure_stage item of
        Some s \<Rightarrow> if s \<noteq> '''' then s else (case oe_stage item of Some t \<Rightarrow> t | None \<Rightarrow> '''')
      | None \<Rightarrow> (case oe_stage item of Some t \<Rightarrow> t | None \<Rightarrow> ''''))"

definition responsibility :: "outcome_evidence \<Rightarrow> str" where
  "responsibility item =
     (let stage = outcome_stage item in
      if oe_admitted item \<noteq> Some True then ''censored''
      else if oe_mixed item = Some True \<or> oe_censored item = Some True then ''mixed-or-unknown''
      else if oe_changed_intent item = Some True then ''changed-human-intent''
      else if stage \<in> {''planning'', ''decomposition'', ''task-specification''}
      then ''planning-decomposition''
      else if oe_context_sufficient item = Some False \<or> stage \<in> {''context'', ''context-selection''}
      then ''context-selection''
      else if oe_transport_sufficient item = Some False \<or> stage \<in> {''transport'', ''context-inflation''}
      then ''transport-context-inflation''
      else if oe_worker_succeeded item = Some True \<and> stage \<in> {''return'', ''admission'', ''integration''}
      then ''return-admission-integration''
      else if oe_worker_succeeded item = Some True \<and> stage \<in> {''proof'', ''validation'', ''review''}
      then ''proof-validation-review''
      else if stage \<in> {''environment'', ''tooling''} then ''environment-tooling''
      else if oe_target_executed item = Some True \<and> oe_context_sufficient item = Some True
        \<and> oe_transport_sufficient item = Some True
        \<and> (stage \<in> {''target'', ''target-execution'', ''execution''}
           \<or> (stage = '''' \<and> oe_worker_succeeded item = Some True))
      then ''target-execution''
      else ''mixed-or-unknown'')"

definition attribution :: "outcome_evidence \<Rightarrow> json" where
  "attribution item =
     (let r = responsibility item; authoritative = (r = ''target-execution'');
          friction = (oe_repo_owned item = Some True
            \<and> r \<in> {''context-selection'', ''proof-validation-review'', ''planning-decomposition''}) in
      obj
       [(''kind'', JStr ''agentic-workspace/orchestration-outcome-attribution/v1''),
        (''status'', JStr (if r \<in> {''mixed-or-unknown'', ''censored''} then ''non-authoritative'' else ''attributed'')),
        (''responsibility'', JStr r),
        (''semantic_identity'', obj
          [(''slice_id'', jopt JStr (oe_slice_id item)),
           (''semantic_revision'', jopt JStr (oe_semantic_revision item)),
           (''task_class'', jopt JStr (oe_task_class item))]),
        (''attempt_identity'', obj
          [(''assignment_id'', jopt JStr (oe_assignment_id item)),
           (''assignment_revision'', jopt JStr (oe_assignment_revision item)),
           (''run_id'', jopt JStr (oe_run_id item)), (''target'', jopt JStr (oe_target item))]),
        (''routing_effect'', obj
          [(''target_evidence_allowed'', JBool authoritative),
           (''target_evidence_owner'', if authoritative then JStr ''target-outcome-evidence'' else JNull),
           (''source_owner_adaptation_pressure'', JBool friction),
           (''source_owner'', if friction then jopt JStr (oe_source_owner item) else JNull)]),
        (''hard_gates_remain_prior'', JBool True), (''raw_trajectory_retained'', JBool False)])"

definition attribute_outcome :: "json \<Rightarrow> json res" where
  "attribute_outcome v =
     and_then (ok_or (de_outcome_evidence v) (err ''invalid-outcome-evidence'')) (\<lambda>item.
     Inr (attribution item))"

text \<open>Evidence about a target is allowed only for an admitted outcome that is neither
  mixed nor censored nor a change of intent, whose target ran with sufficient context and
  transport, and that no other stage answers for; and then no owner is put under pressure.\<close>

theorem target_evidence_sound:
  assumes "attribute_outcome v = Inr out" and "de_outcome_evidence v = Some item"
    and "ix (ix out ''routing_effect'') ''target_evidence_allowed'' = JBool True"
  shows "oe_admitted item = Some True \<and> oe_mixed item \<noteq> Some True \<and> oe_censored item \<noteq> Some True \<and>
    oe_changed_intent item \<noteq> Some True \<and> oe_target_executed item = Some True \<and>
    oe_context_sufficient item = Some True \<and> oe_transport_sufficient item = Some True \<and>
    (outcome_stage item \<in> {''target'', ''target-execution'', ''execution''} \<or>
     outcome_stage item = '''' \<and> oe_worker_succeeded item = Some True) \<and>
    ix (ix out ''routing_effect'') ''source_owner_adaptation_pressure'' = JBool False \<and>
    ix out ''status'' = JStr ''attributed''"
proof -
  have out: "out = attribution item" using assms(1,2) by (simp add: attribute_outcome_def ok_or_def)
  have r: "responsibility item = ''target-execution''"
    using assms(3) unfolding out attribution_def Let_def by simp
  have "oe_admitted item = Some True \<and> oe_mixed item \<noteq> Some True \<and> oe_censored item \<noteq> Some True \<and>
    oe_changed_intent item \<noteq> Some True \<and> oe_target_executed item = Some True \<and>
    oe_context_sufficient item = Some True \<and> oe_transport_sufficient item = Some True \<and>
    (outcome_stage item \<in> {''target'', ''target-execution'', ''execution''} \<or>
     outcome_stage item = '''' \<and> oe_worker_succeeded item = Some True)"
    using r unfolding responsibility_def Let_def by (simp only: split: if_splits) simp_all
  then show ?thesis unfolding out attribution_def Let_def r by simp
qed

section \<open>Execution configurations\<close>

record execution_candidate =
  ec_id :: str
  ec_target :: str
  ec_transport :: str
  ec_capability_revision :: str
  ec_current :: bool
  ec_authorized :: bool
  ec_safe :: bool
  ec_constructible :: bool
  ec_result_classes :: "str list"
  ec_proof_classes :: "str list"
  ec_independent_context :: bool
  ec_concurrency_available :: bool
  ec_execution_guarantees :: "str list"
  ec_execution :: json

record configuration_selection =
  cs_revision :: str
  cs_candidate :: str

record configurations_input =
  cf_work :: json
  cf_required_results :: "str list"
  cf_required_proof :: "str list"
  cf_independent_context :: bool
  cf_required_guarantees :: "str list"
  cf_candidates :: "execution_candidate list"
  cf_selection :: "configuration_selection option"

definition de_candidate :: "json \<Rightarrow> execution_candidate option" where
  "de_candidate v = do {
     f \<leftarrow> struct_fields True [''id'', ''target'', ''transport'', ''capability_revision'', ''current'',
       ''authorized'', ''safe'', ''constructible'', ''result_classes'', ''proof_classes'',
       ''independent_context'', ''concurrency_available'', ''execution_guarantees'', ''execution''] v;
     i \<leftarrow> req de_str f ''id'';
     target \<leftarrow> req de_str f ''target'';
     transport \<leftarrow> req de_str f ''transport'';
     revision \<leftarrow> req de_str f ''capability_revision'';
     current \<leftarrow> req de_bool f ''current'';
     authorized \<leftarrow> req de_bool f ''authorized'';
     safe \<leftarrow> req de_bool f ''safe'';
     constructible \<leftarrow> req de_bool f ''constructible'';
     results \<leftarrow> req de_strs f ''result_classes'';
     proof_classes \<leftarrow> req de_strs f ''proof_classes'';
     independent \<leftarrow> req de_bool f ''independent_context'';
     concurrency \<leftarrow> req de_bool f ''concurrency_available'';
     guarantees \<leftarrow> dflt de_strs [] f ''execution_guarantees'';
     execution \<leftarrow> req de_any f ''execution'';
     Some \<lparr>ec_id = i, ec_target = target, ec_transport = transport, ec_capability_revision = revision,
       ec_current = current, ec_authorized = authorized, ec_safe = safe, ec_constructible = constructible,
       ec_result_classes = results, ec_proof_classes = proof_classes, ec_independent_context = independent,
       ec_concurrency_available = concurrency, ec_execution_guarantees = guarantees,
       ec_execution = execution\<rparr> }"

definition en_candidate :: "execution_candidate \<Rightarrow> json" where
  "en_candidate c = obj
     [(''id'', JStr (ec_id c)), (''target'', JStr (ec_target c)), (''transport'', JStr (ec_transport c)),
      (''capability_revision'', JStr (ec_capability_revision c)), (''current'', JBool (ec_current c)),
      (''authorized'', JBool (ec_authorized c)), (''safe'', JBool (ec_safe c)),
      (''constructible'', JBool (ec_constructible c)), (''result_classes'', jstrs (ec_result_classes c)),
      (''proof_classes'', jstrs (ec_proof_classes c)),
      (''independent_context'', JBool (ec_independent_context c)),
      (''concurrency_available'', JBool (ec_concurrency_available c)),
      (''execution_guarantees'', jstrs (ec_execution_guarantees c)), (''execution'', ec_execution c)]"

definition de_selection :: "json \<Rightarrow> configuration_selection option" where
  "de_selection v = do {
     f \<leftarrow> struct_fields True [''revision'', ''candidate''] v;
     revision \<leftarrow> req de_str f ''revision'';
     candidate \<leftarrow> req de_str f ''candidate'';
     Some \<lparr>cs_revision = revision, cs_candidate = candidate\<rparr> }"

definition de_configurations :: "json \<Rightarrow> configurations_input option" where
  "de_configurations v = do {
     f \<leftarrow> struct_fields True [''work'', ''required_result_classes'', ''required_proof_classes'',
       ''independent_context'', ''required_execution_guarantees'', ''candidates'', ''selection''] v;
     work \<leftarrow> req de_any f ''work'';
     results \<leftarrow> req de_strs f ''required_result_classes'';
     proof_classes \<leftarrow> req de_strs f ''required_proof_classes'';
     independent \<leftarrow> req de_bool f ''independent_context'';
     guarantees \<leftarrow> dflt de_strs [] f ''required_execution_guarantees'';
     candidates \<leftarrow> req (de_list de_candidate) f ''candidates'';
     selection \<leftarrow> opt de_selection f ''selection'';
     Some \<lparr>cf_work = work, cf_required_results = results, cf_required_proof = proof_classes,
       cf_independent_context = independent, cf_required_guarantees = guarantees,
       cf_candidates = candidates, cf_selection = selection\<rparr> }"

definition assignment_blocked :: "str \<Rightarrow> json" where
  "assignment_blocked reason = obj [(''status'', JStr ''blocked''), (''reason_code'', JStr reason),
     (''implementation_allowed'', JBool False), (''silent_local_fallback_allowed'', JBool False)]"

definition nonempty :: "json \<Rightarrow> bool" where
  "nonempty v \<longleftrightarrow> (case as_str v of Some s \<Rightarrow> s \<noteq> [] | None \<Rightarrow> False)"

definition guarantees_invalid :: "str list \<Rightarrow> bool" where
  "guarantees_invalid gs \<longleftrightarrow> 32 < length gs \<or> (\<exists>g \<in> set gs. g = '''' \<or> 128 < length g)"

definition candidate_invalid :: "str list \<Rightarrow> execution_candidate \<Rightarrow> bool" where
  "candidate_invalid seen c \<longleftrightarrow>
     ec_id c = '''' \<or> ec_id c \<in> set seen \<or> ec_target c = '''' \<or> ec_transport c = '''' \<or>
     ec_capability_revision c = '''' \<or> guarantees_invalid (ec_execution_guarantees c) \<or>
     \<not> is_object (ec_execution c)"

text \<open>What two attempts may be compared by: no reference to the work or to a lineage.\<close>

definition comparable_execution :: "json \<Rightarrow> json" where
  "comparable_execution execution =
     (let fields = fold jremove [''comparison_context'', ''semantic_work'', ''source_revision'',
          ''authority_revision''] execution in
      if is_object (ix fields ''continuity'')
      then jset ''continuity''
        (fold jremove [''reference'', ''semantic_scope'', ''lineage_revision''] (ix fields ''continuity'')) fields
      else fields)"

definition comparison_context :: "host \<Rightarrow> execution_candidate \<Rightarrow> str" where
  "comparison_context H c = digest H (obj
     [(''target'', JStr (ec_target c)), (''transport'', JStr (ec_transport c)),
      (''capability_revision'', JStr (ec_capability_revision c)),
      (''execution'', comparable_execution (ec_execution c))])"

definition candidate_gates :: "configurations_input \<Rightarrow> execution_candidate \<Rightarrow> (bool \<times> str) list" where
  "candidate_gates i c =
     [(ec_current c, ''capability-not-current''),
      (set (cf_required_guarantees i) \<subseteq> set (ec_execution_guarantees c),
       ''required-execution-guarantee-unavailable''),
      (ec_authorized c, ''transport-not-authorized''),
      (ec_safe c, ''independent-safety-ceiling''),
      (ec_constructible c, ''execution-return-unconstructible''),
      (ec_concurrency_available c, ''exclusive-lineage-unavailable''),
      (\<not> cf_independent_context i \<or> ec_independent_context c, ''independent-context-required''),
      (set (cf_required_results i) \<subseteq> set (ec_result_classes c), ''result-class-unavailable''),
      (set (cf_required_proof i) \<subseteq> set (ec_proof_classes c), ''proof-class-unavailable'')]"

definition configuration_row :: "host \<Rightarrow> configurations_input \<Rightarrow> execution_candidate \<Rightarrow> json" where
  "configuration_row H i c =
     (let execution = jset ''comparison_context'' (JStr (comparison_context H c)) (ec_execution c);
          reasons = map snd (filter (\<lambda>g. \<not> fst g) (candidate_gates i c)) in
      obj [(''configuration'', en_candidate (c\<lparr>ec_execution := execution\<rparr>)),
        (''eligible'', JBool (reasons = [])), (''reasons'', jstrs reasons)])"

text \<open>The loop over the candidates; its early return carries the answer.\<close>

definition candidate_row ::
  "host \<Rightarrow> configurations_input \<Rightarrow> execution_candidate \<Rightarrow> str list \<times> json list \<Rightarrow> json + (str list \<times> json list)" where
  "candidate_row H i c = (\<lambda>(seen, rows).
     if candidate_invalid seen c then Inl (assignment_blocked ''assignment-configuration-identity-invalid'')
     else Inr (ec_id c # seen, rows @ [configuration_row H i c]))"

definition configurations_revision :: "host \<Rightarrow> configurations_input \<Rightarrow> json list \<Rightarrow> str" where
  "configurations_revision H i rows = digest H (obj
     [(''work'', cf_work i),
      (''requirements'', obj
        [(''results'', jstrs (cf_required_results i)), (''proof'', jstrs (cf_required_proof i)),
         (''independent_context'', JBool (cf_independent_context i)),
         (''execution_guarantees'', jstrs (cf_required_guarantees i))]),
      (''candidates'', JArr rows)])"

definition select_configuration :: "str \<Rightarrow> json list \<Rightarrow> configuration_selection option \<Rightarrow> json + json" where
  "select_configuration revision rows selection =
     (case selection of
        None \<Rightarrow> Inr JNull
      | Some s \<Rightarrow>
          if cs_revision s \<noteq> revision then Inl (assignment_blocked ''assignment-configuration-choice-stale'')
          else (case find (\<lambda>row. ix (ix row ''configuration'') ''id'' = JStr (cs_candidate s)) rows of
              Some row \<Rightarrow>
                if ix row ''eligible'' = JBool True then Inr (ix row ''configuration'')
                else Inl (assignment_blocked ''assignment-configuration-choice-ineligible'')
            | None \<Rightarrow> Inl (assignment_blocked ''assignment-configuration-choice-ineligible'')))"

definition either_way :: "json + json \<Rightarrow> json" where
  "either_way r = (case r of Inl v \<Rightarrow> v | Inr v \<Rightarrow> v)"

definition configurations_of :: "host \<Rightarrow> configurations_input \<Rightarrow> json" where
  "configurations_of H i = either_way
     (if \<not> nonempty (ix (cf_work i) ''id'') \<or> \<not> nonempty (ix (cf_work i) ''revision'')
      then Inl (assignment_blocked ''assignment-work-identity-required'')
      else if guarantees_invalid (cf_required_guarantees i)
      then Inl (assignment_blocked ''assignment-execution-guarantees-invalid'')
      else
      and_then (fold_try (candidate_row H i) (cf_candidates i) ([], [])) (\<lambda>(seen, rows).
      let revision = configurations_revision H i rows in
      and_then (select_configuration revision rows (cf_selection i)) (\<lambda>selected.
      Inr (obj [(''kind'', JStr ''agentic-workspace/execution-configurations/v1''),
        (''revision'', JStr revision), (''candidates'', JArr rows), (''selected'', selected),
        (''selection_authority'', JStr ''acting-orchestrator''),
        (''claim_boundary'', JStr ''feasibility only; no launch, proof or completion authority'')]))))"

definition configurations :: "host \<Rightarrow> json \<Rightarrow> json res" where
  "configurations H v = and_then (decoded (de_configurations v)) (\<lambda>i. Inr (configurations_of H i))"

lemma candidate_row_pair:
  "candidate_row H i c (seen, rows) =
     (if candidate_invalid seen c then Inl (assignment_blocked ''assignment-configuration-identity-invalid'')
      else Inr (ec_id c # seen, rows @ [configuration_row H i c]))"
  by (simp add: candidate_row_def)

lemma fold_candidate_rows:
  "fold_try (candidate_row H i) cs (seen, rows) = Inr (seen', rows') \<Longrightarrow>
     rows' = rows @ map (configuration_row H i) cs \<and> distinct (map ec_id cs) \<and>
     set (map ec_id cs) \<inter> set seen = {} \<and> (\<forall>c \<in> set cs. is_object (ec_execution c))"
proof (induction cs arbitrary: seen rows)
  case (Cons c cs)
  then have v: "\<not> candidate_invalid seen c"
    and r: "fold_try (candidate_row H i) cs (ec_id c # seen, rows @ [configuration_row H i c]) = Inr (seen', rows')"
    by (auto simp: candidate_row_pair split: if_splits)
  show ?case using Cons.IH [OF r] v by (auto simp: candidate_invalid_def)
qed simp

lemma fold_candidate_Inl: "fold_try (candidate_row H i) cs s = Inl e \<Longrightarrow> \<exists>r. e = assignment_blocked r"
proof (induction cs arbitrary: s)
  case (Cons c cs)
  then show ?case by (cases "candidate_row H i c s") (auto simp: candidate_row_def split: prod.splits if_splits)
qed simp

lemma select_configuration_Inl: "select_configuration revision rows s = Inl e \<Longrightarrow> \<exists>r. e = assignment_blocked r"
  by (auto simp: select_configuration_def split: option.splits if_splits)

lemma configuration_row_fields [simp]:
  "ix (ix (configuration_row H i c) ''configuration'') ''id'' = JStr (ec_id c)"
  "ix (configuration_row H i c) ''eligible'' = JBool (\<forall>g \<in> set (candidate_gates i c). fst g)"
  by (simp_all add: configuration_row_def en_candidate_def Let_def filter_empty_conv)

lemma en_candidate_not_null: "en_candidate c \<noteq> JNull"
  by (simp add: en_candidate_def)

lemma selected_feasible:
  assumes "configurations H v = Inr out" and "de_configurations v = Some i"
    and "ix out ''selected'' \<noteq> JNull"
  shows "\<exists>c s. c \<in> set (cf_candidates i) \<and> cf_selection i = Some s \<and> ec_id c = cs_candidate s \<and>
    JStr (cs_revision s) = ix out ''revision'' \<and>
    ix out ''selected'' = ix (configuration_row H i c) ''configuration'' \<and>
    ec_current c \<and> ec_authorized c \<and> ec_safe c \<and> ec_constructible c \<and> ec_concurrency_available c \<and>
    (cf_independent_context i \<longrightarrow> ec_independent_context c) \<and>
    set (cf_required_guarantees i) \<subseteq> set (ec_execution_guarantees c) \<and>
    set (cf_required_results i) \<subseteq> set (ec_result_classes c) \<and>
    set (cf_required_proof i) \<subseteq> set (ec_proof_classes c)"
proof -
  have out: "out = configurations_of H i" using assms(1,2) by (simp add: configurations_def)
  have nb: "ix (assignment_blocked r) ''selected'' = JNull" for r by (simp add: assignment_blocked_def)
  obtain seen rows selected where f: "fold_try (candidate_row H i) (cf_candidates i) ([], []) = Inr (seen, rows)"
    and s: "select_configuration (configurations_revision H i rows) rows (cf_selection i) = Inr selected"
    and o': "ix out ''revision'' = JStr (configurations_revision H i rows)" "ix out ''selected'' = selected"
  proof -
    have ne: "out \<noteq> assignment_blocked r" for r using assms(3) nb by metis
    obtain seen rows where f: "fold_try (candidate_row H i) (cf_candidates i) ([], []) = Inr (seen, rows)"
    proof (cases "fold_try (candidate_row H i) (cf_candidates i) ([], [])")
      case (Inl e)
      then have "\<exists>r. out = assignment_blocked r"
        using fold_candidate_Inl [OF Inl] unfolding out configurations_of_def either_way_def by auto
      then show ?thesis using ne by blast
    qed (use that in auto)
    obtain selected where s: "select_configuration (configurations_revision H i rows) rows (cf_selection i) = Inr selected"
    proof (cases "select_configuration (configurations_revision H i rows) rows (cf_selection i)")
      case (Inl e)
      then have "\<exists>r. out = assignment_blocked r"
        using select_configuration_Inl [OF Inl] f unfolding out configurations_of_def either_way_def
        by (auto simp: Let_def)
      then show ?thesis using ne by blast
    qed (use that in auto)
    have work: "\<not> (\<not> nonempty (ix (cf_work i) ''id'') \<or> \<not> nonempty (ix (cf_work i) ''revision''))"
    proof
      assume "\<not> nonempty (ix (cf_work i) ''id'') \<or> \<not> nonempty (ix (cf_work i) ''revision'')"
      then have "out = assignment_blocked ''assignment-work-identity-required''"
        unfolding out configurations_of_def either_way_def by simp
      then show False using ne by blast
    qed
    have "\<not> guarantees_invalid (cf_required_guarantees i)"
    proof
      assume "guarantees_invalid (cf_required_guarantees i)"
      then have "out = assignment_blocked ''assignment-execution-guarantees-invalid''"
        using work unfolding out configurations_of_def either_way_def by simp
      then show False using ne by blast
    qed
    then have "ix out ''revision'' = JStr (configurations_revision H i rows)" "ix out ''selected'' = selected"
      using f s work unfolding out configurations_of_def either_way_def by (simp_all add: Let_def)
    then show ?thesis using that f s by blast
  qed
  obtain cs where cs: "cf_selection i = Some cs" using s assms(3) o' by (auto simp: select_configuration_def split: option.splits)
  obtain row where row: "find (\<lambda>row. ix (ix row ''configuration'') ''id'' = JStr (cs_candidate cs)) rows = Some row"
    "ix row ''eligible'' = JBool True" "selected = ix row ''configuration''"
    "cs_revision cs = configurations_revision H i rows"
    using s by (auto simp: select_configuration_def cs split: option.splits if_splits)
  have rows: "rows = map (configuration_row H i) (cf_candidates i)" using fold_candidate_rows [OF f] by simp
  obtain c where c: "c \<in> set (cf_candidates i)" "row = configuration_row H i c" "ec_id c = cs_candidate cs"
  proof -
    have "row \<in> set rows" "ix (ix row ''configuration'') ''id'' = JStr (cs_candidate cs)"
      using row(1) by (auto simp: find_Some_iff)
    then show ?thesis using that by (auto simp: rows)
  qed
  have g: "\<forall>g \<in> set (candidate_gates i c). fst g" using row(2) c(2) by simp
  show ?thesis
    using c cs row(3,4) o' g by (intro exI [of _ c] exI [of _ cs]) (auto simp: candidate_gates_def)
qed

text \<open>C26: The selected configuration is the one the current choice names, made over exactly these
  work, requirements and candidates, and it passes every hard gate: current, authorized,
  safe, constructible, free, and with every required guarantee, context, result class
  and proof class.\<close>

theorem selected_configuration_feasible:
  assumes "configurations H v = Inr out" and "de_configurations v = Some i"
    and "ix out ''selected'' \<noteq> JNull"
  shows "\<exists>c s. c \<in> set (cf_candidates i) \<and> cf_selection i = Some s \<and> ec_id c = cs_candidate s \<and>
    JStr (cs_revision s) = ix out ''revision'' \<and>
    ix out ''selected'' = ix (configuration_row H i c) ''configuration'' \<and>
    ec_current c \<and> ec_authorized c \<and> ec_safe c \<and> ec_constructible c \<and> ec_concurrency_available c \<and>
    (cf_independent_context i \<longrightarrow> ec_independent_context c) \<and>
    set (cf_required_guarantees i) \<subseteq> set (ec_execution_guarantees c) \<and>
    set (cf_required_results i) \<subseteq> set (ec_result_classes c) \<and>
    set (cf_required_proof i) \<subseteq> set (ec_proof_classes c)"
  using selected_feasible [OF assms] .

section \<open>Replacement\<close>

text \<open>\<open>v["a"]["b"] = x\<close>: the nested assignment makes the objects on the way.\<close>

fun jset_in :: "str list \<Rightarrow> json \<Rightarrow> json \<Rightarrow> json" where
  "jset_in [] x v = x"
| "jset_in (k # ks) x v = jset k (jset_in ks x (ix v k)) v"

record replacement_request =
  rq_assignment_revision :: str
  rq_target :: str
  rq_transport :: str

record replacement_input =
  ri_current :: json
  ri_work :: json
  ri_source :: json
  ri_admission :: "json option"
  ri_eligibility :: "json option"
  ri_execution :: json
  ri_request :: replacement_request

definition de_replacement_request :: "json \<Rightarrow> replacement_request option" where
  "de_replacement_request v = do {
     f \<leftarrow> struct_fields True [''assignment_revision'', ''target'', ''transport''] v;
     revision \<leftarrow> req de_str f ''assignment_revision'';
     target \<leftarrow> req de_str f ''target'';
     transport \<leftarrow> req de_str f ''transport'';
     Some \<lparr>rq_assignment_revision = revision, rq_target = target, rq_transport = transport\<rparr> }"

definition de_replacement :: "json \<Rightarrow> replacement_input option" where
  "de_replacement v = do {
     f \<leftarrow> struct_fields True [''current'', ''work'', ''source'', ''admission'', ''eligibility'', ''execution'',
       ''request''] v;
     current \<leftarrow> req de_any f ''current'';
     work \<leftarrow> req de_any f ''work'';
     source \<leftarrow> req de_any f ''source'';
     admission \<leftarrow> opt de_any f ''admission'';
     eligibility \<leftarrow> opt de_any f ''eligibility'';
     execution \<leftarrow> req de_any f ''execution'';
     request \<leftarrow> req de_replacement_request f ''request'';
     Some \<lparr>ri_current = current, ri_work = work, ri_source = source, ri_admission = admission,
       ri_eligibility = eligibility, ri_execution = execution, ri_request = request\<rparr> }"

definition override_restriction :: "json \<Rightarrow> str option" where
  "override_restriction source =
     (let policy = as_str (ix source ''human_override_policy'') in
      if policy = Some ''explicit-only'' then None
      else if policy = Some ''allowed-with-recorded-reason'' then
        (if (case as_str (ix source ''recorded_reason'') of Some s \<Rightarrow> trim s \<noteq> '''' | None \<Rightarrow> False)
         then None else Some ''assignment-override-reason-required'')
      else Some ''assignment-override-authority-unavailable'')"

text \<open>The former subject: the seals emptied. The worker context is only looked at when there.\<close>

definition clear_identity :: "str list \<Rightarrow> json \<Rightarrow> json + json" where
  "clear_identity path subject =
     (case jget (fold (\<lambda>k v. ix v k) path subject) ''required_identity'' of
        None \<Rightarrow> Inr subject
      | Some identity \<Rightarrow>
          if \<not> is_object identity then Inl (assignment_blocked ''assignment-return-contract-unavailable'')
          else Inr (jset_in (path @ [''required_identity'', ''packet_integrity'']) (JStr '''') subject))"

definition former_subject :: "json \<Rightarrow> json + json" where
  "former_subject current =
     (if \<not> is_object current then Inl (assignment_blocked ''assignment-not-current'')
      else
      and_then (clear_identity [''return_contract''] (jset ''packet_integrity'' (JStr '''') current)) (\<lambda>subject.
      clear_identity [''worker_context'', ''return_contract''] subject))"

definition former_seal :: "host \<Rightarrow> json \<Rightarrow> json \<Rightarrow> str" where
  "former_seal H current subject =
     (if jget current ''replacement'' \<noteq> None then digest H subject
      else ''sha256:'' @ sha256_hex H (ascii_json 0x80 (to_vec H subject)))"

text \<open>The first check that fails names the refusal.\<close>

definition replacement_refusal :: "replacement_input \<Rightarrow> json \<Rightarrow> str \<Rightarrow> str option" where
  "replacement_refusal i admission old_seal =
     (let current = ri_current i; work = ri_work i; source = ri_source i; execution = ri_execution i;
          request = ri_request i in
      if ix admission ''packet_integrity'' \<noteq> ix current ''packet_integrity''
        \<or> ix current ''packet_integrity'' \<noteq> JStr old_seal
      then Some ''assignment-override-packet-mismatch''
      else if \<not> is_object current \<or> \<not> nonempty (ix current ''assignment_id'')
        \<or> \<not> nonempty (ix current ''assignment_revision'')
      then Some ''assignment-not-current''
      else if ix admission ''assignment_id'' \<noteq> ix current ''assignment_id''
        \<or> ix admission ''assignment_revision'' \<noteq> ix current ''assignment_revision''
        \<or> ix admission ''work'' \<noteq> work
        \<or> ix work ''id'' \<noteq> ix (ix current ''assignment_identity'') ''slice_id''
        \<or> ix work ''revision'' \<noteq> ix (ix current ''assignment_identity'') ''plan_revision''
        \<or> \<not> nonempty (ix work ''revision'') \<or> \<not> nonempty (ix work ''id'')
      then Some ''assignment-override-stale-work''
      else if \<not> nonempty (ix source ''reference'') \<or> \<not> nonempty (ix source ''revision'')
        \<or> ix admission ''source'' \<noteq> source
      then Some ''assignment-override-stale-source''
      else (case override_restriction source of
          Some reason \<Rightarrow> Some reason
        | None \<Rightarrow>
            if \<not> is_object execution \<or> ix admission ''execution'' \<noteq> execution
              \<or> \<not> nonempty (ix execution ''target'') \<or> \<not> nonempty (ix execution ''target_identity_ref'')
              \<or> \<not> nonempty (ix execution ''target_revision'') \<or> \<not> is_object (ix execution ''adapter'')
              \<or> as_str (ix execution ''transport'') \<notin> {Some ''internal'', Some ''manual'', Some ''cli'', Some ''api''}
            then Some ''assignment-replacement-configuration-mismatch''
            else if JStr (rq_assignment_revision request) \<noteq> ix current ''assignment_revision''
              \<or> JStr (rq_target request) \<noteq> ix execution ''target''
              \<or> JStr (rq_transport request) \<noteq> ix execution ''transport''
            then Some ''assignment-replacement-intention-mismatch''
            else (case ri_eligibility i of
                None \<Rightarrow> Some ''assignment-replacement-eligibility-unavailable''
              | Some eligibility \<Rightarrow>
                  if ix eligibility ''owner'' \<noteq> JStr ''assignment''
                    \<or> ix eligibility ''eligible'' \<noteq> JBool True
                    \<or> ix eligibility ''work'' \<noteq> work \<or> ix eligibility ''execution'' \<noteq> execution
                    \<or> ix eligibility ''packet_integrity'' \<noteq> ix current ''packet_integrity''
                  then Some ''assignment-replacement-ineligible'' else None)))"

definition replacement_revision :: "host \<Rightarrow> replacement_input \<Rightarrow> json \<Rightarrow> str" where
  "replacement_revision H i eligibility = digest H (obj
     [(''previous'', ix (ri_current i) ''assignment_revision''), (''work'', ri_work i),
      (''source'', ri_source i), (''execution'', ri_execution i), (''eligibility'', eligibility)])"

definition replacement_run :: "str \<Rightarrow> str" where
  "replacement_run revision = fmt [''replacement-'', strip_front [''sha256:''] revision]"

definition replacement_identity :: "replacement_input \<Rightarrow> str \<Rightarrow> json" where
  "replacement_identity i revision =
     (let execution = ri_execution i; manual = (ix execution ''transport'' = JStr ''manual'') in
      fold (\<lambda>(k, x). jset k x)
       [(''target'', ix execution ''target''),
        (''target_identity_ref'', ix execution ''target_identity_ref''),
        (''target_revision'', ix execution ''target_revision''),
        (''dispatch_adapter'', ix execution ''adapter''),
        (''handoff_run_id'', JStr (replacement_run revision)), (''revision'', JStr revision),
        (''assignment_decision_revision'', JStr revision), (''proof_obligation_revision'', JStr revision),
        (''gate_status'', JStr (if manual then ''handoff-required'' else ''dispatch-required'')),
        (''required_next_action'', JStr (if manual then ''export-assigned-target'' else ''dispatch-assigned-target''))]
       (ix (ri_current i) ''assignment_identity''))"

text \<open>Required fields are appended when they are not there yet.\<close>

definition with_fields :: "str list \<Rightarrow> json list \<Rightarrow> json list" where
  "with_fields names fs = fold (\<lambda>n fs. if JStr n \<in> set fs then fs else fs @ [JStr n]) names fs"

definition replacement_contract :: "replacement_input \<Rightarrow> str \<Rightarrow> json" where
  "replacement_contract i revision =
     (let current = ri_current i;
          required = obj [(''assignment_id'', ix current ''assignment_id''),
            (''assignment_revision'', JStr revision), (''run_id'', JStr (replacement_run revision)),
            (''target'', ix (ri_execution i) ''target''), (''packet_integrity'', JStr '''')];
          contract = jset ''required_identity'' required (ix current ''return_contract'') in
      jset ''required_fields'' (JArr (with_fields [''assignment_id'', ''assignment_revision'', ''run_id'',
          ''target'', ''packet_integrity'', ''result_delivery''] (elements (ix contract ''required_fields'')))) contract)"

definition replacement_packet :: "replacement_input \<Rightarrow> json \<Rightarrow> str \<Rightarrow> json" where
  "replacement_packet i eligibility revision =
     (let current = ri_current i; execution = ri_execution i;
          identity = replacement_identity i revision in
      obj
       [(''kind'', JStr ''agentic-workspace/assignment-export-packet/v1''),
        (''assignment_id'', ix current ''assignment_id''), (''assignment_revision'', JStr revision),
        (''run_id'', JStr (replacement_run revision)), (''target'', ix execution ''target''),
        (''transport'', ix execution ''transport''), (''scope'', ix identity ''allowed_paths''),
        (''assignment_identity'', identity), (''return_contract'', replacement_contract i revision),
        (''authority_refs'', ix current ''authority_refs''),
        (''replacement'', obj
          [(''previous_run_id'', ix current ''run_id''), (''previous_revision'', ix current ''assignment_revision''),
           (''work'', ri_work i), (''source'', ri_source i), (''execution'', execution),
           (''eligibility'', eligibility)]),
        (''dispatch_contract'', obj
          [(''transport'', ix execution ''transport''), (''adapter_authority'', JStr ''execution-only''),
           (''semantic_authority'', JStr ''assignment_identity''), (''dispatch_input'', JStr ''this exact packet''),
           (''silent_local_fallback_allowed'', JBool False)]),
        (''packet_integrity'', JStr '''')])"

definition sealed_packet :: "host \<Rightarrow> json \<Rightarrow> json" where
  "sealed_packet H packet =
     (let seal = JStr (digest H packet) in
      jset_in [''return_contract'', ''required_identity'', ''packet_integrity''] seal
       (jset ''packet_integrity'' seal packet))"

definition structural_receipt :: "host \<Rightarrow> replacement_input \<Rightarrow> json \<Rightarrow> str \<Rightarrow> json \<Rightarrow> json" where
  "structural_receipt H i eligibility revision packet = obj
     [(''kind'', JStr ''agentic-workspace/assignment-structural-proof-receipt/v1''),
      (''result'', JStr ''passed''), (''verified_by'', JStr ''aw''),
      (''assignment_id'', ix packet ''assignment_id''), (''assignment_revision'', JStr revision),
      (''assignment_decision_revision'', JStr revision),
      (''mutation_baseline'', ix (ix packet ''assignment_identity'') ''mutation_baseline''),
      (''packet_integrity'', ix packet ''packet_integrity''),
      (''execution_configuration'', ri_execution i), (''eligibility_revision'', JStr (digest H eligibility)),
      (''claim_boundary'', JStr ''current assignment identity, source admission and hard eligibility only; task proof and completion remain unproved'')]"

definition replace_assignment :: "host \<Rightarrow> replacement_input \<Rightarrow> json" where
  "replace_assignment H i = either_way
     (case ri_admission i of
        None \<Rightarrow> Inl (assignment_blocked ''assignment-override-authority-unavailable'')
      | Some admission \<Rightarrow>
          and_then (former_subject (ri_current i)) (\<lambda>subject.
          case replacement_refusal i admission (former_seal H (ri_current i) subject) of
            Some reason \<Rightarrow> Inl (assignment_blocked reason)
          | None \<Rightarrow>
              let eligibility = (case ri_eligibility i of Some e \<Rightarrow> e | None \<Rightarrow> JNull);
                  revision = replacement_revision H i eligibility in
              if \<not> is_object (ix (ri_current i) ''assignment_identity'')
              then Inl (assignment_blocked ''assignment-not-current'')
              else if \<not> is_object (ix (ri_current i) ''return_contract'')
              then Inl (assignment_blocked ''assignment-return-contract-unavailable'')
              else
              let packet = sealed_packet H (replacement_packet i eligibility revision) in
              Inr (obj [(''status'', JStr ''replaced''), (''packet'', packet),
                (''structural_proof_receipt'', structural_receipt H i eligibility revision packet),
                (''implementation_allowed'', JBool False), (''silent_local_fallback_allowed'', JBool False)])))"

definition replace_assignment_value :: "host \<Rightarrow> json \<Rightarrow> json res" where
  "replace_assignment_value H v =
     and_then (decoded (de_replacement v)) (\<lambda>i. Inr (replace_assignment H i))"

section \<open>Admission of a packet\<close>

definition admit_packet :: "host \<Rightarrow> json \<Rightarrow> json" where
  "admit_packet H v =
     (let packet = ix v ''packet''; canonical = ix v ''canonical'';
          seal = (case as_str (ix packet ''packet_integrity'') of Some s \<Rightarrow> s | None \<Rightarrow> '''');
          subject = jset_in [''return_contract'', ''required_identity'', ''packet_integrity''] (JStr '''')
            (jset ''packet_integrity'' (JStr '''') packet) in
      if \<not> is_object packet \<or> packet \<noteq> canonical
        \<or> \<not> is_object (ix (ix packet ''return_contract'') ''required_identity'')
      then assignment_blocked ''assignment-packet-not-current''
      else if digest H subject \<noteq> seal then assignment_blocked ''assignment-packet-integrity-mismatch''
      else if ix (ix packet ''replacement'') ''source'' \<noteq> ix v ''source''
      then assignment_blocked ''assignment-override-stale-source''
      else (case override_restriction (ix v ''source'') of
          Some reason \<Rightarrow> assignment_blocked reason
        | None \<Rightarrow>
            if ix (ix packet ''replacement'') ''work'' \<noteq> ix v ''work''
            then assignment_blocked ''assignment-override-stale-work''
            else if ix (ix packet ''replacement'') ''execution'' \<noteq> ix v ''execution''
            then assignment_blocked ''assignment-replacement-configuration-mismatch''
            else obj [(''status'', JStr ''current''), (''packet'', packet),
              (''implementation_allowed'', JBool False), (''silent_local_fallback_allowed'', JBool False)]))"


text \<open>Updates of a map: the later one of two under the same key wins, and updates under different
  keys commute.\<close>

lemma om_put_twice [simp]: "om_put k v (om_put k w m) = om_put k v m"
  by (induction k w m rule: om_put.induct) auto

lemma om_put_swap: "j \<noteq> k \<Longrightarrow> om_put j v (om_put k w m) = om_put k w (om_put j v m)"
  by (induction k w m rule: om_put.induct) (auto simp: less_le_not_le)

lemma om_put_same:
  assumes "om_ok m" and "om_get m k = Some v"
  shows "om_put k v m = m"
proof (rule om_ext)
  show "om_get (om_put k v m) = om_get m" using assms(2) by (auto simp: fun_eq_iff omap_simps)
qed (use assms(1) in \<open>simp_all add: om_ok_put\<close>)

lemma jset_twice [simp]: "is_object v \<Longrightarrow> jset k x (jset k y v) = jset k x v"
  by (auto simp: jset_def json_simps)

lemma jset_swap: "is_object v \<Longrightarrow> j \<noteq> k \<Longrightarrow> jset j x (jset k y v) = jset k y (jset j x v)"
  by (auto simp: jset_def json_simps om_put_swap)

lemma jset_obj_same: "map_of kvs k = Some x \<Longrightarrow> jset k x (obj kvs) = obj kvs"
  by (simp add: jset_def obj_def om_put_same om_get_of)

lemma ix_jset_obj [simp]: "ix (jset k x (obj kvs)) k' = (if k' = k then x else ix (obj kvs) k')"
  by (simp add: ix_jset)

lemma replacement_contract_facts:
  assumes "is_object (ix (ri_current i) ''return_contract'')"
    and c: "c = replacement_contract i revision"
  shows "is_object c" and "is_object (ix c ''required_identity'')"
    and "jset ''required_identity'' (jset ''packet_integrity'' (JStr '''') (ix c ''required_identity'')) c = c"
  using assms(1)
  by (simp_all add: c replacement_contract_def Let_def ix_jset jset_obj_same
      jset_swap [of _ "''required_identity''" "''required_fields''"])


lemma sealed_packet_integrity [simp]:
  "ix (sealed_packet H (replacement_packet i e revision)) ''packet_integrity'' =
     JStr (digest H (replacement_packet i e revision))"
  by (simp add: sealed_packet_def replacement_packet_def Let_def ix_jset)

text \<open>Clearing the two seals of the sealed packet gives back what was digested.\<close>

lemma sealed_packet_cleared:
  assumes "is_object (ix (ri_current i) ''return_contract'')" and P_def: "P = replacement_packet i e revision"
  shows "jset_in [''return_contract'', ''required_identity'', ''packet_integrity''] (JStr '''')
      (jset ''packet_integrity'' (JStr '''') (sealed_packet H P)) = P"
proof -
  let ?pi = "''packet_integrity''" and ?rc = "''return_contract''" and ?ri = "''required_identity''"
  define c where "c = replacement_contract i revision"
  have P: "is_object P" "ix P ?rc = c" "jset ?pi (JStr '''') P = P" "jset ?rc c P = P"
    by (simp_all add: P_def replacement_packet_def Let_def c_def jset_obj_same)
  note c = replacement_contract_facts [OF assms(1) c_def]
  have "jset_in [?rc, ?ri, ?pi] (JStr '''') (jset ?pi (JStr '''') (sealed_packet H P)) =
      jset ?rc (jset ?ri (jset ?pi (JStr '''') (ix c ?ri)) c) (jset ?pi (JStr '''') P)"
    using P(1,2) c(1,2)
    by (simp add: sealed_packet_def Let_def ix_jset jset_swap [of _ ?pi ?rc])
  then show ?thesis using P c(3) by simp
qed

lemma blocked_status [simp]: "ix (assignment_blocked r) ''status'' = JStr ''blocked''"
  by (simp add: assignment_blocked_def)

lemma former_subject_Inl: "former_subject v = Inl e \<Longrightarrow> \<exists>r. e = assignment_blocked r"
  by (auto simp: former_subject_def clear_identity_def and_then_def split: if_splits option.splits sum.splits)

lemma first_refusal: "(if b then Some x else y) = None \<longleftrightarrow> \<not> b \<and> y = None"
  by simp

lemma not_refused:
  assumes "replacement_refusal i admission seal = None"
  shows "override_restriction (ri_source i) = None"
proof (cases "override_restriction (ri_source i)")
  case (Some r)
  show ?thesis using assms
    unfolding replacement_refusal_def Let_def first_refusal Some option.simps by (elim conjE)
qed

lemma replaced_packet:
  assumes "ix (replace_assignment H i) ''status'' = JStr ''replaced''"
  shows "\<exists>e revision. ix (replace_assignment H i) ''packet'' = sealed_packet H (replacement_packet i e revision)
    \<and> is_object (ix (ri_current i) ''return_contract'') \<and> override_restriction (ri_source i) = None"
proof (cases "ri_admission i")
  case None
  then show ?thesis using assms by (simp add: replace_assignment_def either_way_def)
next
  case (Some admission)
  show ?thesis
  proof (cases "former_subject (ri_current i)")
    case (Inl e)
    then show ?thesis using assms former_subject_Inl [OF Inl] Some
      by (auto simp: replace_assignment_def either_way_def)
  next
    case (Inr subject)
    show ?thesis
    proof (cases "replacement_refusal i admission (former_seal H (ri_current i) subject)")
      case None
      from not_refused [OF this] show ?thesis
        using assms Some Inr None
        by (auto simp: replace_assignment_def either_way_def Let_def split: if_splits)
    qed (use assms Some Inr in \<open>simp add: replace_assignment_def either_way_def\<close>)
  qed
qed

text \<open>A replacement the assignment owner issues is admitted: its packet carries the seal of its
  own content and the source, work and execution it was issued for.\<close>

theorem replacement_admitted:
  assumes "ix (replace_assignment H i) ''status'' = JStr ''replaced''"
    and "packet = ix (replace_assignment H i) ''packet''"
  shows "admit_packet H (obj [(''packet'', packet), (''canonical'', packet), (''source'', ri_source i),
      (''work'', ri_work i), (''execution'', ri_execution i)]) =
    obj [(''status'', JStr ''current''), (''packet'', packet),
      (''implementation_allowed'', JBool False), (''silent_local_fallback_allowed'', JBool False)]"
proof -
  obtain e revision where p: "packet = sealed_packet H (replacement_packet i e revision)"
    and rc: "is_object (ix (ri_current i) ''return_contract'')" and none: "override_restriction (ri_source i) = None"
    using replaced_packet [OF assms(1)] assms(2) by blast
  let ?P = "replacement_packet i e revision"
  note cleared = sealed_packet_cleared [OF rc refl, of H e revision]
  have f: "is_object packet" "is_object (ix (ix packet ''return_contract'') ''required_identity'')"
    "ix packet ''packet_integrity'' = JStr (digest H ?P)"
    "ix (ix packet ''replacement'') ''source'' = ri_source i"
    "ix (ix packet ''replacement'') ''work'' = ri_work i"
    "ix (ix packet ''replacement'') ''execution'' = ri_execution i"
    using replacement_contract_facts [OF rc, of _ revision]
    by (simp_all add: p sealed_packet_def replacement_packet_def Let_def ix_jset)
  show ?thesis
    using f cleared none unfolding admit_packet_def Let_def by (simp add: p del: jset_in.simps)
qed

end
