(* ===== verification/Assessment.thy ===== *)
theory Assessment
  imports Assignment
begin

text \<open>
  The comparative judgment of an assignment (\<open>src/src/core/src/assignment.rs\<close>, function
  \<open>comparative_assessment\<close>): which alternatives are admitted, when the standing policy
  settles the choice without a judgment, and when a choice becomes an assignment.
\<close>

definition at :: "str list \<Rightarrow> json \<Rightarrow> json" where
  "at path v = fold (\<lambda>k v. ix v k) path v"

lemma at_simps [simp]: "at [] v = v" "at (k # ks) v = at ks (ix v k)"
  by (simp_all add: at_def)

definition assessment_revision :: "host \<Rightarrow> json \<Rightarrow> str" where
  "assessment_revision H i = digest H (obj
     [(''work'', ix i ''work''), (''policy'', ix i ''policy''),
      (''requirements'', ix i ''requirements''), (''execution'', ix i ''execution'')])"

definition configuration_rows :: "json \<Rightarrow> json list" where
  "configuration_rows i = elements (at [''execution'', ''configurations'', ''candidates''] i)"

definition matched_preferences :: "json \<Rightarrow> json \<Rightarrow> json list" where
  "matched_preferences i row =
     filter (\<lambda>v. case as_array (at [''configuration'', ''execution_guarantees''] row) of
         Some tags \<Rightarrow> v \<in> set tags | None \<Rightarrow> False)
       (elements (at [''requirements'', ''execution_posture'', ''preferred_execution_guarantees''] i))"

definition eligible_alternatives :: "json \<Rightarrow> json list" where
  "eligible_alternatives i =
     map (\<lambda>row. obj [(''id'', at [''configuration'', ''id''] row), (''target'', at [''configuration'', ''target''] row),
         (''status'', JStr ''eligible-configuration''),
         (''matched_preferences'', JArr (matched_preferences i row))])
       (filter (\<lambda>row. ix row ''eligible'' = JBool True) (configuration_rows i))"

definition unresolved_targets :: "json \<Rightarrow> json list" where
  "unresolved_targets i =
     elements (at [''execution'', ''unavailable_adapters''] i) @
     filter (\<lambda>manual. ix manual ''source_policy_eligible'' = JBool True
         \<and> ix manual ''required_result_classes_supported'' \<noteq> JBool False
         \<and> (\<forall>a \<in> set (eligible_alternatives i). ix a ''target'' \<noteq> ix manual ''target''))
       (elements (at [''execution'', ''manual_targets''] i))"

definition unresolved_id :: "json \<Rightarrow> str" where
  "unresolved_id item = fmt [''unresolved-target:'',
     case as_str (ix item ''target'') of Some t \<Rightarrow> t | None \<Rightarrow> ''unknown'']"

definition add_unresolved :: "json \<Rightarrow> json list \<Rightarrow> json list" where
  "add_unresolved item alternatives =
     (if \<exists>a \<in> set alternatives. ix a ''id'' = JStr (unresolved_id item) then alternatives
      else alternatives @ [obj [(''id'', JStr (unresolved_id item)), (''target'', ix item ''target''),
        (''status'', JStr ''unresolved-target''),
        (''gap'', JStr ''current-execution-or-handoff-owner-required'')]])"

definition alternatives_of :: "json \<Rightarrow> json list" where
  "alternatives_of i = fold add_unresolved (unresolved_targets i) (eligible_alternatives i)"

text \<open>The schema of a judgment is a part of the checked-in decision schema.\<close>

definition check_judgment :: "host \<Rightarrow> json \<Rightarrow> json \<Rightarrow> unit res" where
  "check_judgment H schema judgment =
     (if judgment = JNull then Inr ()
      else
      and_then (schema_validator H (jset ''$schema'' (ix schema ''$schema'')
          (at [''$defs'', ''assignment_comparative_judgment''] schema)) ''assignment comparative judgment'') (\<lambda>valid.
      if valid judgment then Inr () else Inl (err ''schema violation'')))"

definition assessment_ready :: "json \<Rightarrow> bool" where
  "assessment_ready i \<longleftrightarrow>
     at [''requirements'', ''status''] i = JStr ''resolved'' \<and>
     at [''policy'', ''enforceable''] i = JBool True \<and>
     at [''execution'', ''gaps''] i = JArr [] \<and> unresolved_targets i = []"

section \<open>Settling the choice by the standing policy\<close>

definition policy_candidates :: "json \<Rightarrow> json list \<Rightarrow> json list" where
  "policy_candidates i alternatives =
     filter (\<lambda>a. at [''policy'', ''assignment_policy''] i \<noteq> JStr ''local-preferred''
         \<or> ix a ''target'' = at [''policy'', ''current_profile'', ''name''] i) alternatives"

definition dominates :: "json list \<Rightarrow> json \<Rightarrow> bool" where
  "dominates candidates candidate \<longleftrightarrow>
     (let matched = elements (ix candidate ''matched_preferences'') in
      matched \<noteq> [] \<and>
      (\<forall>other \<in> set candidates. ix other ''id'' = ix candidate ''id'' \<or>
         (let peer = elements (ix other ''matched_preferences'') in
          length peer < length matched \<and> set peer \<subseteq> set matched)))"

definition settle :: "json \<Rightarrow> json list \<Rightarrow> json option \<times> str" where
  "settle i candidates =
     (case candidates of
        [c] \<Rightarrow> (Some c, ''sole-eligible-configuration'')
      | _ \<Rightarrow>
          if candidates \<noteq> [] \<and> (\<forall>a \<in> set candidates. ix a ''target'' = ix (hd candidates) ''target'')
          then (find (\<lambda>a. ix a ''id'' = at [''execution'', ''configurations'', ''selected'', ''id''] i) candidates,
            ''sole-eligible-executor-selected-transport'')
          else (case find (dominates candidates) candidates of
              Some c \<Rightarrow> (Some c, ''standing-execution-preferences'')
            | None \<Rightarrow> (None, ''comparative-judgment-required'')))"

text \<open>With a judgment, the choice it names; without one, what the policy settles.\<close>

definition judged :: "host \<Rightarrow> json \<Rightarrow> json list \<Rightarrow> json res" where
  "judged H i alternatives =
     (let judgment = ix i ''judgment''; prior = at [''execution'', ''configurations'', ''selected''] i in
      if ix judgment ''revision'' \<noteq> JStr (assessment_revision H i)
      then Inl (err ''assignment comparative judgment stale; current work, policy, requirements or candidates changed'')
      else
      and_then (ok_or (find (\<lambda>a. ix a ''id'' = ix judgment ''alternative'') alternatives)
        (err ''assignment comparative alternative is not currently admitted'')) (\<lambda>selected.
      if prior \<noteq> JNull \<and> ix prior ''id'' \<noteq> ix selected ''id''
      then Inl (err ''assignment comparison conflicts with current execution configuration choice'')
      else if (case as_str (ix judgment ''reason'') of Some s \<Rightarrow> trim s = '''' | None \<Rightarrow> True)
      then Inl (err ''assignment comparative reason required'')
      else Inr selected))"

definition choose_alternative :: "host \<Rightarrow> json \<Rightarrow> (json \<times> str) res" where
  "choose_alternative H i =
     (let alternatives = alternatives_of i in
      if ix i ''judgment'' \<noteq> JNull
      then and_then (judged H i alternatives) (\<lambda>selected. Inr (selected, ''acting-orchestrator-comparison''))
      else if assessment_ready i then
        (case settle i (policy_candidates i alternatives) of
           (Some c, determination) \<Rightarrow> Inr (c, determination)
         | (None, determination) \<Rightarrow> Inr (JNull, determination))
      else Inr (JNull, ''comparative-judgment-required''))"

text \<open>The configuration of the chosen alternative is attached to it.\<close>

definition row_of :: "json \<Rightarrow> json \<Rightarrow> json option" where
  "row_of i selected =
     find (\<lambda>r. at [''configuration'', ''id''] r = ix selected ''id'' \<and> ix r ''eligible'' = JBool True) (configuration_rows i)"

definition with_configuration :: "json \<Rightarrow> json \<Rightarrow> json" where
  "with_configuration i selected =
     (case row_of i selected of
        Some row \<Rightarrow> jset ''configuration'' (ix row ''configuration'') selected
      | None \<Rightarrow> selected)"

definition assigned_locally :: "json \<Rightarrow> json \<Rightarrow> bool" where
  "assigned_locally i selected \<longleftrightarrow>
     at [''configuration'', ''transport''] selected = JStr ''internal'' \<and>
     ix selected ''target'' = at [''policy'', ''current_profile'', ''name''] i"

definition assessment_status :: "json \<Rightarrow> json \<Rightarrow> str" where
  "assessment_status i selected =
     (if selected = JNull then ''assessment-required''
      else if \<not> assessment_ready i \<or> ix selected ''status'' = JStr ''unresolved-target'' then ''unresolved-assessment''
      else if assigned_locally i selected then ''assigned-current-target''
      else ''assigned-nonlocal-handoff-required'')"

definition assigned_statuses :: "str set" where
  "assigned_statuses = {''assigned-current-target'', ''assigned-nonlocal-handoff-required''}"

definition assessment_value :: "host \<Rightarrow> json \<Rightarrow> json \<Rightarrow> str \<Rightarrow> json" where
  "assessment_value H i selected determination =
     (let status = assessment_status i selected; assigned = (status \<in> assigned_statuses);
          revision = JStr (assessment_revision H i) in
      obj
       [(''kind'', JStr ''agentic-workspace/assignment-decision/v1''), (''revision'', revision),
        (''status'', JStr status), (''alternatives'', JArr (alternatives_of i)),
        (''unresolved_alternatives'', JArr (unresolved_targets i)), (''selected'', selected),
        (''judgment'', ix i ''judgment''), (''determination'', JStr determination),
        (''binding'', JBool (at [''policy'', ''binding''] i = JBool True)),
        (''local_assignment_satisfied'', JBool (assigned \<and> assigned_locally i selected)),
        (''assignment_identity'',
          if assigned then obj
            [(''work'', ix i ''work''), (''requirements_revision'', at [''requirements'', ''revision''] i),
             (''policy_revision'', at [''policy'', ''revision''] i),
             (''configuration_revision'', at [''execution'', ''configurations'', ''revision''] i),
             (''assignment_decision_revision'', JStr (digest H (obj
               [(''assessment_revision'', revision), (''judgment'', ix i ''judgment''), (''selected'', selected)]))),
             (''selected'', selected)]
          else JNull),
        (''claim_boundary'', JStr ''Current comparative judgment only; no dispatch, sealed handoff, evidence, completion or override authority.'')])"

definition comparative_assessment :: "host \<Rightarrow> json \<Rightarrow> json \<Rightarrow> json res" where
  "comparative_assessment H schema i =
     and_then (check_judgment H schema (ix i ''judgment'')) (\<lambda>_.
     and_then (choose_alternative H i) (\<lambda>(choice, determination).
     let selected = with_configuration i choice; prior = at [''execution'', ''configurations'', ''selected''] i in
     if selected \<noteq> JNull \<and> prior \<noteq> JNull \<and> ix prior ''id'' \<noteq> ix selected ''id''
     then Inl (err ''standing policy conflicts with current execution configuration choice; resolve the bounded comparison'')
     else Inr (assessment_value H i selected determination)))"

section \<open>What is assigned\<close>

lemma eligible_alternative:
  "a \<in> set (eligible_alternatives i) \<Longrightarrow>
     \<exists>row \<in> set (configuration_rows i). ix row ''eligible'' = JBool True \<and>
       ix a ''id'' = at [''configuration'', ''id''] row \<and>
       elements (ix a ''matched_preferences'') = matched_preferences i row \<and> is_object a"
  by (auto simp: eligible_alternatives_def)

lemma ready_alternatives: "assessment_ready i \<Longrightarrow> alternatives_of i = eligible_alternatives i"
  by (simp add: assessment_ready_def alternatives_of_def)

lemma judged_Inr:
  assumes "judged H i alternatives = Inr selected"
  shows "selected \<in> set alternatives \<and> ix selected ''id'' = ix (ix i ''judgment'') ''alternative'' \<and>
    ix (ix i ''judgment'') ''revision'' = JStr (assessment_revision H i) \<and>
    (\<exists>s. ix (ix i ''judgment'') ''reason'' = JStr s \<and> trim s \<noteq> '''')"
  using assms
  by (auto simp: judged_def Let_def and_then_Inr_iff ok_or_Inr_iff find_Some_iff json_simps
      split: if_splits option.splits)

lemma settle_choice: "settle i candidates = (Some c, d) \<Longrightarrow> c \<in> set candidates"
  by (auto simp: settle_def find_Some_iff split: list.splits if_splits option.splits)

lemma settle_dominates:
  "settle i candidates = (r, ''standing-execution-preferences'') \<Longrightarrow>
     \<exists>c. r = Some c \<and> c \<in> set candidates \<and> dominates candidates c"
  by (auto simp: settle_def find_Some_iff split: list.splits if_splits option.splits)

lemma choose_alternative_Inr:
  assumes "choose_alternative H i = Inr (choice, determination)"
  shows "choice = JNull \<or> choice \<in> set (alternatives_of i)"
    and "ix i ''judgment'' \<noteq> JNull \<Longrightarrow> judged H i (alternatives_of i) = Inr choice"
    and "ix i ''judgment'' = JNull \<Longrightarrow> choice \<noteq> JNull \<Longrightarrow> assessment_ready i \<and>
      settle i (policy_candidates i (alternatives_of i)) = (Some choice, determination)"
    and "determination = ''standing-execution-preferences'' \<Longrightarrow> choice \<noteq> JNull \<and> ix i ''judgment'' = JNull"
proof -
  note c = assms [unfolded choose_alternative_def Let_def]
  show "ix i ''judgment'' \<noteq> JNull \<Longrightarrow> judged H i (alternatives_of i) = Inr choice"
    using c by (auto simp: and_then_Inr_iff)
  show s: "assessment_ready i \<and> settle i (policy_candidates i (alternatives_of i)) = (Some choice, determination)"
    if "ix i ''judgment'' = JNull" "choice \<noteq> JNull"
    using c that by (auto split: prod.splits option.splits if_splits)
  show "choice = JNull \<or> choice \<in> set (alternatives_of i)"
  proof (cases "ix i ''judgment'' = JNull")
    case True
    then show ?thesis using s settle_choice by (fastforce simp: policy_candidates_def)
  next
    case False
    then show ?thesis using c judged_Inr by (auto simp: and_then_Inr_iff)
  qed
  show "choice \<noteq> JNull \<and> ix i ''judgment'' = JNull" if d: "determination = ''standing-execution-preferences''"
  proof (cases "ix i ''judgment'' = JNull")
    case True
    then have r: "assessment_ready i" using c d by (auto split: if_splits)
    obtain r where "settle i (policy_candidates i (alternatives_of i)) = (r, determination)"
      "choice = (case r of Some x \<Rightarrow> x | None \<Rightarrow> JNull)"
      using c True r by (auto split: prod.splits option.splits)
    moreover from this obtain x where "r = Some x" "x \<in> set (alternatives_of i)"
      using settle_dominates d by (fastforce simp: policy_candidates_def)
    ultimately show ?thesis
      using True ready_alternatives [OF r] eligible_alternative [of choice i] by (auto simp: json_simps)
  qed (use c d in \<open>auto simp: and_then_Inr_iff\<close>)
qed

lemma row_of_Some:
  "row_of i c = Some row \<Longrightarrow> row \<in> set (configuration_rows i) \<and> ix row ''eligible'' = JBool True \<and>
     at [''configuration'', ''id''] row = ix c ''id''"
  by (auto simp: row_of_def find_Some_iff)

lemma row_of_eligible:
  assumes "c \<in> set (eligible_alternatives i)"
  shows "\<exists>row. row_of i c = Some row"
proof -
  have "row_of i c \<noteq> None"
    using eligible_alternative [OF assms] unfolding row_of_def find_None_iff by metis
  then show ?thesis by simp
qed

lemma with_configuration_row:
  assumes "row_of i c = Some row" and "c = JNull \<or> is_object c"
  shows "ix (with_configuration i c) ''configuration'' = ix row ''configuration'' \<and>
    (\<forall>k. k \<noteq> ''configuration'' \<longrightarrow> ix (with_configuration i c) k = ix c k) \<and> with_configuration i c \<noteq> JNull"
  using assms
  by (auto simp: with_configuration_def jset_def ix_def jget_def json_simps omap_simps split: if_splits)

lemma assessment_Inr:
  assumes "comparative_assessment H schema i = Inr out"
  obtains choice determination where "choose_alternative H i = Inr (choice, determination)"
    and "out = assessment_value H i (with_configuration i choice) determination"
    and "with_configuration i choice \<noteq> JNull \<Longrightarrow> at [''execution'', ''configurations'', ''selected''] i \<noteq> JNull \<Longrightarrow>
      ix (at [''execution'', ''configurations'', ''selected''] i) ''id'' = ix (with_configuration i choice) ''id''"
proof -
  obtain u where u: "check_judgment H schema (ix i ''judgment'') = Inr u"
    using assms unfolding comparative_assessment_def by (elim and_then_InrE)
  obtain c d where c: "choose_alternative H i = Inr (c, d)"
    using assms unfolding comparative_assessment_def u and_then_simps by (elim and_then_InrE) auto
  show thesis
    using assms that [OF c] unfolding comparative_assessment_def u c and_then_simps Let_def prod.case
    by (metis Inl_Inr_False sum.inject(2))
qed

lemma assessment_value_fields [simp]:
  "ix (assessment_value H i selected d) ''selected'' = selected"
  "ix (assessment_value H i selected d) ''status'' = JStr (assessment_status i selected)"
  "ix (assessment_value H i selected d) ''revision'' = JStr (assessment_revision H i)"
  "ix (assessment_value H i selected d) ''determination'' = JStr d"
  "ix (assessment_value H i selected d) ''alternatives'' = JArr (alternatives_of i)"
  "ix (assessment_value H i selected d) ''unresolved_alternatives'' = JArr (unresolved_targets i)"
  "ix (assessment_value H i selected d) ''assignment_identity'' \<noteq> JNull \<longleftrightarrow>
     assessment_status i selected \<in> assigned_statuses"
  by (simp_all add: assessment_value_def Let_def)

lemma assigned_status:
  "assessment_status i selected \<in> assigned_statuses \<Longrightarrow> selected \<noteq> JNull \<and> assessment_ready i"
  by (auto simp: assessment_status_def assigned_statuses_def split: if_splits)

text \<open>C27: An assignment identity is issued only when the requirements are resolved, the policy
  is enforceable, nothing about the alternatives is unresolved, the selected alternative is
  one of the eligible configurations and agrees with the configuration already chosen, and
  a judgment, where there is one, is about exactly this work, policy, requirements and
  execution, names that alternative and gives a reason.\<close>

theorem assignment_identity_sound:
  assumes "comparative_assessment H schema i = Inr out" and "ix out ''assignment_identity'' \<noteq> JNull"
  defines "selected \<equiv> ix out ''selected''"
  shows "at [''requirements'', ''status''] i = JStr ''resolved'' \<and>
    at [''policy'', ''enforceable''] i = JBool True \<and> at [''execution'', ''gaps''] i = JArr [] \<and>
    ix out ''unresolved_alternatives'' = JArr [] \<and>
    (\<exists>row \<in> set (configuration_rows i). ix row ''eligible'' = JBool True \<and>
       at [''configuration'', ''id''] row = ix selected ''id'' \<and>
       ix selected ''configuration'' = ix row ''configuration'') \<and>
    (at [''execution'', ''configurations'', ''selected''] i \<noteq> JNull \<longrightarrow>
       at [''execution'', ''configurations'', ''selected'', ''id''] i = ix selected ''id'') \<and>
    (ix i ''judgment'' \<noteq> JNull \<longrightarrow>
       ix (ix i ''judgment'') ''revision'' = ix out ''revision'' \<and>
       ix (ix i ''judgment'') ''alternative'' = ix selected ''id'' \<and>
       (\<exists>s. ix (ix i ''judgment'') ''reason'' = JStr s \<and> trim s \<noteq> ''''))"
proof -
  obtain c d where c: "choose_alternative H i = Inr (c, d)"
    and out: "out = assessment_value H i (with_configuration i c) d"
    and prior: "with_configuration i c \<noteq> JNull \<Longrightarrow> at [''execution'', ''configurations'', ''selected''] i \<noteq> JNull \<Longrightarrow>
      ix (at [''execution'', ''configurations'', ''selected''] i) ''id'' = ix (with_configuration i c) ''id''"
    using assessment_Inr [OF assms(1)] by blast
  have s: "selected = with_configuration i c" by (simp add: selected_def out)
  have r: "assessment_ready i" "selected \<noteq> JNull"
    using assigned_status assms(2) by (simp_all add: out s)
  note mem = choose_alternative_Inr(1) [OF c, unfolded ready_alternatives [OF r(1)]]
  have obj: "c = JNull \<or> is_object c" using mem eligible_alternative by blast
  obtain row where row: "row_of i c = Some row"
  proof (cases "c = JNull")
    case True
    then show ?thesis using r(2) that by (cases "row_of i c") (auto simp: s with_configuration_def)
  qed (use mem row_of_eligible that in blast)
  note w = with_configuration_row [OF row obj] and e = row_of_Some [OF row]
  have "ix selected ''id'' = ix c ''id''" using w by (simp add: s)
  then show ?thesis
    using r prior w e judged_Inr [OF choose_alternative_Inr(2) [OF c]]
    by (auto simp: assessment_ready_def s out)
qed

lemma filter_strict_subset:
  assumes "length (filter q xs) < length (filter p xs)" and "set (filter q xs) \<subseteq> set (filter p xs)"
  shows "set (filter q xs) \<subset> set (filter p xs)"
proof -
  have "filter q xs = filter p xs" if "set (filter q xs) = set (filter p xs)"
    using that by (intro filter_cong refl) auto
  then show ?thesis using assms by auto
qed

text \<open>When the standing preferences settle the choice, nobody judged, and every other
  alternative the policy admits matches a strict subset of the preferences the selected
  one matches; under a local-preferred policy a choice made without a judgment stays with
  the current profile.\<close>

theorem standing_preferences_dominate:
  assumes "comparative_assessment H schema i = Inr out"
  defines "selected \<equiv> ix out ''selected''"
    and "admitted \<equiv> (\<lambda>a. at [''policy'', ''assignment_policy''] i \<noteq> JStr ''local-preferred'' \<or>
      ix a ''target'' = at [''policy'', ''current_profile'', ''name''] i)"
  shows "(ix out ''determination'' = JStr ''standing-execution-preferences'' \<longrightarrow>
      ix i ''judgment'' = JNull \<and>
      (\<forall>a \<in> set (elements (ix out ''alternatives'')). admitted a \<and> ix a ''id'' \<noteq> ix selected ''id'' \<longrightarrow>
         set (elements (ix a ''matched_preferences'')) \<subset> set (elements (ix selected ''matched_preferences'')))) \<and>
    (ix i ''judgment'' = JNull \<and> ix out ''assignment_identity'' \<noteq> JNull \<and> ix selected ''id'' \<noteq> JNull \<longrightarrow> admitted selected)"
proof -
  obtain c d where c: "choose_alternative H i = Inr (c, d)"
    and out: "out = assessment_value H i (with_configuration i c) d"
    using assessment_Inr [OF assms(1)] by blast
  have s: "selected = with_configuration i c" by (simp add: selected_def out)
  have keep: "ix selected ''id'' = ix c ''id''" "ix selected ''target'' = ix c ''target''"
    "ix selected ''matched_preferences'' = ix c ''matched_preferences''"
    if "c = JNull \<or> is_object c"
    using with_configuration_row [OF _ that] by (cases "row_of i c"; simp add: s with_configuration_def)+
  have settled: "assessment_ready i \<and> settle i (policy_candidates i (eligible_alternatives i)) = (Some c, d) \<and>
      c \<in> set (eligible_alternatives i) \<and> is_object c"
    if "ix i ''judgment'' = JNull" "c \<noteq> JNull"
    using choose_alternative_Inr(1,3) [OF c] that eligible_alternative by (auto simp: ready_alternatives)
  have "ix i ''judgment'' = JNull \<and>
      (\<forall>a \<in> set (elements (ix out ''alternatives'')). admitted a \<and> ix a ''id'' \<noteq> ix selected ''id'' \<longrightarrow>
         set (elements (ix a ''matched_preferences'')) \<subset> set (elements (ix selected ''matched_preferences'')))"
    if d: "d = ''standing-execution-preferences''"
  proof (intro conjI ballI impI)
    show j: "ix i ''judgment'' = JNull" using choose_alternative_Inr(4) [OF c d] by simp
    fix a assume a: "a \<in> set (elements (ix out ''alternatives''))" "admitted a \<and> ix a ''id'' \<noteq> ix selected ''id''"
    note t = settled [OF j choose_alternative_Inr(4) [OF c d, THEN conjunct1]]
    have a': "a \<in> set (eligible_alternatives i)" using a(1) t by (simp add: out ready_alternatives)
    then have "a \<in> set (policy_candidates i (eligible_alternatives i))"
      using a(2) by (simp add: policy_candidates_def admitted_def)
    moreover have "dominates (policy_candidates i (eligible_alternatives i)) c" using t d settle_dominates by fastforce
    moreover have "ix a ''id'' \<noteq> ix c ''id''" using a(2) keep t by simp
    ultimately have len: "length (elements (ix a ''matched_preferences'')) < length (elements (ix c ''matched_preferences''))"
      "set (elements (ix a ''matched_preferences'')) \<subseteq> set (elements (ix c ''matched_preferences''))"
      by (auto simp: dominates_def Let_def)
    have m: "\<exists>p. elements (ix x ''matched_preferences'') =
        filter p (elements (at [''requirements'', ''execution_posture'', ''preferred_execution_guarantees''] i))"
      if "x \<in> set (eligible_alternatives i)" for x
      using eligible_alternative [OF that] by (auto simp: matched_preferences_def)
    show "set (elements (ix a ''matched_preferences'')) \<subset> set (elements (ix selected ''matched_preferences''))"
      using len m [OF a'] m [of c] t keep filter_strict_subset by (metis (no_types, lifting))
  qed
  moreover have "admitted selected"
    if j: "ix i ''judgment'' = JNull" and n: "ix selected ''id'' \<noteq> JNull"
  proof -
    have "c \<noteq> JNull" using n keep by (auto simp: ix_def jget_def)
    note t = settled [OF j this]
    then have "c \<in> set (policy_candidates i (eligible_alternatives i))" using settle_choice by blast
    then show ?thesis using keep t by (simp add: policy_candidates_def admitted_def)
  qed
  ultimately show ?thesis by (simp add: out)
qed

end
