(* ===== verification/Patch.thy ===== *)
theory Patch
  imports Dependency Applicability Assessment
begin

text \<open>
  Text deltas of an assignment (\<open>src/src/core/src/native_patch.rs\<close>): the strict positional
  application of a returned patch to the captured baseline, the admission of a delta, and its
  merge into the current text. The patch parser and printer and the three-way merge of the
  \<open>diffy\<close> crate are arguments; a parsed patch is its headers and hunks.
\<close>

section \<open>Patches\<close>

datatype patch_line = Context (line_text: str) | Delete (line_text: str) | Insert (line_text: str)

record hunk =
  hk_old_start :: nat
  hk_old_len :: nat
  hk_new_start :: nat
  hk_new_len :: nat
  hk_lines :: "patch_line list"

record file_patch =
  fp_original :: "str option"
  fp_modified :: "str option"
  fp_hunks :: "hunk list"

text \<open>\<open>pe_alias\<close> is the identity, or lower case on Windows.\<close>

record patch_env =
  pe_parse :: "str \<Rightarrow> file_patch option"
  pe_text :: "file_patch \<Rightarrow> str"
  pe_merge :: "str \<Rightarrow> str \<Rightarrow> str \<Rightarrow> str option"
  pe_json :: "str \<Rightarrow> json option"
  pe_alias :: "str \<Rightarrow> str"

definition PATCH_BYTES :: nat where
  "PATCH_BYTES = 262144"

section \<open>Paths and texts\<close>

definition ascii_lowercase :: "str \<Rightarrow> str" where
  "ascii_lowercase s =
     map (\<lambda>c. if CHR ''A'' \<le> c \<and> c \<le> CHR ''Z'' then char_of (of_char c + 32 :: nat) else c) s"

definition owned_directory :: "str \<Rightarrow> bool" where
  "owned_directory part \<longleftrightarrow> ascii_lowercase part \<in> {''.agentic-workspace'', ''.git''}"

definition selector_path :: "str \<Rightarrow> bool" where
  "selector_path path \<longleftrightarrow>
     256 < length path \<or> (\<exists>c \<in> set path. c \<in> {CHR ''*'', CHR ''?'', CHR ''['', CHR '']'', CHR 0x0D, CHR 0x09}) \<or>
     (\<exists>part \<in> set (split_on CHR 0x2F path). part \<noteq> '''' \<and> last part \<in> {CHR ''.'', CHR '' ''})"

definition concrete_path :: "str \<Rightarrow> unit res" where
  "concrete_path path =
     and_then (relative_reference path) (\<lambda>_.
     if owned_directory (hd (split_on CHR 0x2F path))
     then Inl (err ''AW-owned sources and custody require their dedicated owner operation'')
     else if selector_path path
     then Inl (err ''patch subjects require concrete relative paths, not selectors'')
     else Inr ())"

definition normalize_text :: "str \<Rightarrow> str res" where
  "normalize_text text' =
     (if PATCH_BYTES < length text' \<or> CHR 0x00 \<in> set text'
      then Inl (err ''patch text exceeds the bounded UTF-8 text contract'')
      else if CHR 0x0D \<in> set (replace_crlf text')
      then Inl (err ''bare carriage returns are outside the patch text contract'')
      else Inr (replace_crlf text'))"

text \<open>\<open>split_inclusive('\n')\<close>.\<close>

fun split_lines :: "str \<Rightarrow> str list" where
  "split_lines [] = []"
| "split_lines (c # cs) =
     (if c = CHR 0x0A then [c] # split_lines cs
      else (case split_lines cs of [] \<Rightarrow> [[c]] | l # ls \<Rightarrow> (c # l) # ls))"

section \<open>Application\<close>

text \<open>The index a range starts at; an empty range stands after its line.\<close>

definition range_start :: "nat \<Rightarrow> nat \<Rightarrow> str \<Rightarrow> nat res" where
  "range_start start len failure =
     (if len = 0 then Inr start else if start = 0 then Inl (err failure) else Inr (start - 1))"

definition take_line :: "str list \<Rightarrow> str \<Rightarrow> nat \<Rightarrow> nat res" where
  "take_line lines t position =
     (if position < length lines \<and> lines ! position = t then Inr (Suc position)
      else Inl (err ''patch hunk differs from the exact captured baseline''))"

definition apply_line :: "str list \<Rightarrow> patch_line \<Rightarrow> nat \<times> str \<Rightarrow> (nat \<times> str) res" where
  "apply_line lines line = (\<lambda>(position, out).
     case line of
       Context t \<Rightarrow> and_then (take_line lines t position) (\<lambda>p. Inr (p, out @ t))
     | Delete t \<Rightarrow> and_then (take_line lines t position) (\<lambda>p. Inr (p, out))
     | Insert t \<Rightarrow> Inr (position, out @ t))"

definition apply_hunk :: "str list \<Rightarrow> hunk \<Rightarrow> nat \<times> str \<Rightarrow> (nat \<times> str) res" where
  "apply_hunk lines h = (\<lambda>(position, out).
     and_then (range_start (hk_old_start h) (hk_old_len h) ''invalid patch line zero'') (\<lambda>start.
     if start < position \<or> length lines < start
     then Inl (err ''patch hunks overlap or exceed the captured baseline'')
     else
     let out' = out @ concat (take (start - position) (drop position lines)) in
     and_then (range_start (hk_new_start h) (hk_new_len h) ''invalid new patch line zero'') (\<lambda>expected.
     if length (split_lines out') \<noteq> expected
     then Inl (err ''patch new hunk position differs from its exact delta'')
     else
     and_then (fold_try (apply_line lines) (hk_lines h) (start, out')) (\<lambda>(p, out'').
     if PATCH_BYTES < length out'' then Inl (err ''patch postimage exceeds the text bound'')
     else Inr (p, out'')))))"

definition apply_exact :: "str \<Rightarrow> file_patch \<Rightarrow> str res" where
  "apply_exact base patch =
     (let lines = split_lines base in
      and_then (fold_try (apply_hunk lines) (fp_hunks patch) (0, '''')) (\<lambda>(position, out).
      let out' = out @ concat (drop position lines) in
      if PATCH_BYTES < length out' then Inl (err ''patch postimage exceeds the text bound'')
      else Inr out'))"

section \<open>Merge\<close>

fun drop_crlf :: "str \<Rightarrow> str" where
  "drop_crlf (a # b # s) = (if a = CHR 0x0D \<and> b = CHR 0x0A then drop_crlf s else a # drop_crlf (b # s))"
| "drop_crlf s = s"

fun has_crlf :: "str \<Rightarrow> bool" where
  "has_crlf (a # b # s) \<longleftrightarrow> a = CHR 0x0D \<and> b = CHR 0x0A \<or> has_crlf (b # s)"
| "has_crlf s \<longleftrightarrow> False"

definition with_crlf :: "str \<Rightarrow> str" where
  "with_crlf s = concat (map (\<lambda>c. if c = CHR 0x0A then [CHR 0x0D, CHR 0x0A] else [c]) s)"

definition merge_text :: "patch_env \<Rightarrow> str \<Rightarrow> str \<Rightarrow> str \<Rightarrow> str res" where
  "merge_text E before after current =
     and_then (normalize_text before) (\<lambda>base.
     and_then (normalize_text current) (\<lambda>ours.
     and_then (normalize_text after) (\<lambda>theirs.
     if has_crlf current \<and> CHR 0x0A \<in> set (drop_crlf current)
     then Inl (err ''mixed current line endings require a bounded repair'')
     else
     and_then (ok_or (pe_merge E base ours theirs) (err ''assignment delta overlaps divergent current work'')) (\<lambda>merged.
     let out = (if has_crlf current then with_crlf merged else merged) in
     if PATCH_BYTES < length out then Inl (err ''merged patch postimage exceeds the text bound'')
     else Inr out))))"

section \<open>The delta of a returned patch\<close>

text \<open>What the loop over the items keeps: the paths, the aliases, the files and the bytes.\<close>

record patch_state =
  ps_paths :: "str list"
  ps_aliases :: "str list"
  ps_files :: "json list"
  ps_total :: nat

definition no_patches :: patch_state where
  "no_patches = \<lparr>ps_paths = [], ps_aliases = [], ps_files = [], ps_total = 0\<rparr>"

definition in_scope :: "json \<Rightarrow> str \<Rightarrow> bool" where
  "in_scope packet path \<longleftrightarrow>
     JStr path \<in> set (elements (at [''assignment_identity'', ''mutation_paths''] packet)) \<and>
     (\<exists>v \<in> set (elements (ix packet ''scope'')). case as_str v of None \<Rightarrow> False | Some p \<Rightarrow> pattern_matches p path)"

definition baseline_of :: "json \<Rightarrow> str \<Rightarrow> json option" where
  "baseline_of packet path =
     find (\<lambda>i. ix i ''reference'' = JStr path) (elements (at [''assignment_identity'', ''input_capsule''] packet))"

definition patched :: "patch_env \<Rightarrow> str \<Rightarrow> str \<Rightarrow> str res" where
  "patched E normalized diff =
     and_then (ok_or (pe_parse E diff) (err ''patch'')) (\<lambda>patch.
     if pe_text E patch \<noteq> diff \<or> fp_original patch \<noteq> Some ''original'' \<or> fp_modified patch \<noteq> Some ''modified''
       \<or> fp_hunks patch = []
     then Inl (err ''file diff requires canonical original/modified headers, complete hunks, and no trailing material'')
     else
     and_then (apply_exact normalized patch) (\<lambda>after.
     if after = normalized
     then Inl (err ''patch must describe an actual assignment-specific change'') else Inr after))"

definition delta_file :: "str \<Rightarrow> json \<Rightarrow> str \<Rightarrow> str \<Rightarrow> json" where
  "delta_file path revision before after = obj
     [(''path'', JStr path), (''baseline_revision'', revision), (''before'', JStr before), (''after'', JStr after)]"

definition two_fields :: "json \<Rightarrow> bool" where
  "two_fields item \<longleftrightarrow>
     (case as_object item of
        None \<Rightarrow> False
      | Some m \<Rightarrow> length m = 2 \<and> om_get m ''path'' \<noteq> None \<and> om_get m ''diff'' \<noteq> None)"

definition delta_item :: "patch_env \<Rightarrow> json \<Rightarrow> json \<Rightarrow> patch_state \<Rightarrow> patch_state res" where
  "delta_item E packet item st =
     (if \<not> two_fields item then Inl (err ''each file delta contains only path and diff'')
      else
      and_then (ok_or (as_str (ix item ''path'')) (err ''patch path required'')) (\<lambda>path.
      and_then (concrete_path path) (\<lambda>_.
      if pe_alias E path \<in> set (ps_aliases st)
      then Inl (err ''patch subjects alias the same concrete path'')
      else if path \<in> set (ps_paths st) \<or> \<not> in_scope packet path
      then Inl (err ''patch path is duplicate or outside the sealed concrete mutation scope'')
      else
      and_then (ok_or (baseline_of packet path) (err ''patch lacks owner-captured baseline'')) (\<lambda>baseline.
      and_then (ok_or (as_str (ix baseline ''content'')) (err ''patch baseline must be captured UTF-8 text'')) (\<lambda>before.
      and_then (normalize_text before) (\<lambda>normalized.
      and_then (ok_or (as_str (ix item ''diff'')) (err ''unified file diff required'')) (\<lambda>raw.
      and_then (normalize_text raw) (\<lambda>diff.
      and_then (patched E normalized diff) (\<lambda>after.
      let total = ps_total st + length before + length after in
      if PATCH_BYTES < total then Inl (err ''combined patch subject exceeds the text bound'')
      else Inr \<lparr>ps_paths = path # ps_paths st, ps_aliases = pe_alias E path # ps_aliases st,
        ps_files = ps_files st @ [delta_file path (ix baseline ''revision'') before after],
        ps_total = total\<rparr>)))))))))"

definition returned_patches :: "patch_env \<Rightarrow> json \<Rightarrow> json list res" where
  "returned_patches E returned =
     and_then (ok_or (as_str (ix returned ''patch'')) (err ''patch text required'')) (\<lambda>encoded.
     if PATCH_BYTES < length encoded then Inl (err ''patch return exceeds the bounded transport'')
     else
     and_then (ok_or (pe_json E encoded) (err ''json'')) (\<lambda>v.
     case as_array v of
       Some items \<Rightarrow>
         if length items \<le> 8 then Inr items else Inl (err ''patch must contain at most eight file deltas'')
     | None \<Rightarrow> Inl (err ''patch must contain at most eight file deltas'')))"

definition delta_value :: "host \<Rightarrow> json \<Rightarrow> json list \<Rightarrow> str list \<Rightarrow> json" where
  "delta_value H packet files paths = obj
     [(''kind'', JStr ''agentic-workspace/assignment-delta/v1''),
      (''revision'', JStr (digest H (obj [(''assignment'', ix packet ''assignment_revision''), (''files'', JArr files)]))),
      (''files'', JArr files), (''changed_paths'', jstrs paths),
      (''proof_authority'', JBool False), (''completion_authority'', JBool False)]"

definition patch_delta :: "host \<Rightarrow> patch_env \<Rightarrow> json \<Rightarrow> json \<Rightarrow> json res" where
  "patch_delta H E packet returned =
     and_then (returned_patches E returned) (\<lambda>items.
     and_then (fold_try (delta_item E packet) items no_patches) (\<lambda>st.
     and_then (ok_or (as_array (ix returned ''changed_paths'')) (err ''concrete changed paths required'')) (\<lambda>changed.
     and_then (collect (\<lambda>v. ok_or (as_str v) (err ''changed path must be text'')) changed) (\<lambda>declared.
     if set declared \<noteq> set (ps_paths st) \<or> length changed \<noteq> length (ps_paths st)
     then Inl (err ''changed paths differ from the exact file deltas'')
     else Inr (delta_value H packet
       (sort_key (\<lambda>f. case as_str (ix f ''path'') of None \<Rightarrow> '''' | Some s \<Rightarrow> s) (ps_files st))
       (sort_dedup (ps_paths st)))))))"

section \<open>Lines\<close>

definition whole_line :: "str \<Rightarrow> bool" where
  "whole_line l \<longleftrightarrow> (\<exists>s. l = s @ [CHR 0x0A] \<and> CHR 0x0A \<notin> set s)"

definition whole_text :: "str \<Rightarrow> bool" where
  "whole_text s \<longleftrightarrow> s = '''' \<or> last s = CHR 0x0A"

definition whole_patch :: "file_patch \<Rightarrow> bool" where
  "whole_patch p \<longleftrightarrow> (\<forall>h \<in> set (fp_hunks p). \<forall>l \<in> set (hk_lines h). whole_line (line_text l))"

lemma concat_split_lines [simp]: "concat (split_lines s) = s"
  by (induction s) (auto split: list.splits)

lemma split_lines_line: "CHR 0x0A \<notin> set s \<Longrightarrow> split_lines (s @ CHR 0x0A # t) = (s @ [CHR 0x0A]) # split_lines t"
  by (induction s) auto

lemma split_lines_concat:
  "list_all whole_line ls \<Longrightarrow> split_lines (concat ls @ t) = ls @ split_lines t"
  by (induction ls) (auto simp: whole_line_def split_lines_line)

lemma split_lines_whole: "whole_text s \<Longrightarrow> list_all whole_line (split_lines s)"
proof (induction s)
  case (Cons c cs)
  show ?case
  proof (cases "c = CHR 0x0A")
    case True
    then have "whole_text cs" using Cons.prems by (auto simp: whole_text_def split: if_splits)
    then show ?thesis using Cons.IH True by (simp add: whole_line_def)
  next
    case False
    then have t: "whole_text cs" "cs \<noteq> []" using Cons.prems by (auto simp: whole_text_def split: if_splits)
    then obtain l ls where l: "split_lines cs = l # ls" by (cases "split_lines cs") (metis concat.simps(1) concat_split_lines)+
    have "whole_line (c # l)" if "whole_line l"
      using that False unfolding whole_line_def by (metis append_Cons set_ConsD)
    then show ?thesis using Cons.IH [OF t(1)] False by (simp add: l)
  qed
qed simp

lemma whole_text_concat: "list_all whole_line ls \<Longrightarrow> whole_text (concat ls)"
proof (induction ls rule: rev_induct)
  case (snoc l ls)
  then show ?case by (auto simp: whole_line_def whole_text_def)
qed (simp add: whole_text_def)

section \<open>What a patch says\<close>

text \<open>The lines a hunk reads and the lines it leaves in their place.\<close>

definition old_side :: "patch_line list \<Rightarrow> str list" where
  "old_side ls = concat (map (\<lambda>l. case l of Insert _ \<Rightarrow> [] | _ \<Rightarrow> [line_text l]) ls)"

definition new_side :: "patch_line list \<Rightarrow> str list" where
  "new_side ls = concat (map (\<lambda>l. case l of Delete _ \<Rightarrow> [] | _ \<Rightarrow> [line_text l]) ls)"

definition range_at :: "nat \<Rightarrow> nat \<Rightarrow> nat \<Rightarrow> bool" where
  "range_at start len i \<longleftrightarrow> (if len = 0 then start = i else start = Suc i)"

text \<open>
  \<open>patches hs i j xs ys\<close>: the hunks turn the old lines \<open>xs\<close>, which start at line \<open>i\<close>, into the
  new lines \<open>ys\<close>, which start at line \<open>j\<close>: each hunk stands exactly at its two ranges and
  replaces its old side by its new side, and all lines between hunks stay.
\<close>

inductive patches :: "hunk list \<Rightarrow> nat \<Rightarrow> nat \<Rightarrow> str list \<Rightarrow> str list \<Rightarrow> bool" where
  rest: "patches [] i j xs xs"
| hunk: "range_at (hk_old_start h) (hk_old_len h) (i + length c) \<Longrightarrow>
    range_at (hk_new_start h) (hk_new_len h) (j + length c) \<Longrightarrow>
    patches hs (i + length c + length (old_side (hk_lines h))) (j + length c + length (new_side (hk_lines h))) xs ys \<Longrightarrow>
    patches (h # hs) i j (c @ old_side (hk_lines h) @ xs) (c @ new_side (hk_lines h) @ ys)"

inductive_cases patches_NilE: "patches [] i j xs ys"
inductive_cases patches_ConsE: "patches (h # hs) i j xs ys"

lemma range_start_Inr: "range_start start len e = Inr i \<longleftrightarrow> range_at start len i"
  by (auto simp: range_start_def range_at_def)

lemma take_line_Inr: "take_line lines t p = Inr q \<longleftrightarrow> q = Suc p \<and> (\<exists>rest'. drop p lines = t # rest')"
proof -
  have "p < length lines \<and> lines ! p = t \<longleftrightarrow> (\<exists>rest'. drop p lines = t # rest')"
    by (metis Cons_nth_drop_Suc drop_eq_Nil2 linorder_not_le list.distinct(1) list.inject)
  then show ?thesis by (auto simp: take_line_def)
qed

lemma sides_simps [simp]:
  "old_side [] = []" "new_side [] = []"
  "old_side (Context t # ls) = t # old_side ls" "new_side (Context t # ls) = t # new_side ls"
  "old_side (Delete t # ls) = t # old_side ls" "new_side (Delete t # ls) = new_side ls"
  "old_side (Insert t # ls) = old_side ls" "new_side (Insert t # ls) = t # new_side ls"
  by (simp_all add: old_side_def new_side_def)

lemma apply_line_Inr:
  "apply_line lines l (p, out) = Inr s \<longleftrightarrow>
     (\<exists>rest'. drop p lines = old_side [l] @ rest') \<and> s = (p + length (old_side [l]), out @ concat (new_side [l]))"
  by (cases l) (auto simp: apply_line_def result_simps take_line_Inr)

lemma sides_Cons: "old_side (l # ls) = old_side [l] @ old_side ls" "new_side (l # ls) = new_side [l] @ new_side ls"
  by (cases l; simp)+

lemma apply_lines_Inr:
  "fold_try (apply_line lines) ls (p, out) = Inr (q, out') \<longleftrightarrow>
     drop p lines = old_side ls @ drop q lines \<and> q = p + length (old_side ls) \<and> out' = out @ concat (new_side ls)"
proof (induction ls arbitrary: p out)
  case (Cons l ls)
  let ?o = "old_side [l]"
  have "(\<exists>rest'. drop p lines = ?o @ rest') \<and> drop (p + length ?o) lines = old_side ls @ drop q lines \<longleftrightarrow>
      drop p lines = ?o @ old_side ls @ drop q lines"
    by (metis add.commute append_eq_conv_conj drop_drop)
  then show ?case
    unfolding sides_Cons [of l ls] fold_try.simps and_then_Inr_iff apply_line_Inr using Cons.IH by auto
qed auto

lemma if_Inl_Inr: "(if b then Inl e else m) = Inr x \<longleftrightarrow> \<not> b \<and> m = Inr x"
  by simp

lemma apply_hunk_Inr:
  assumes "list_all whole_line lines" and "list_all whole_line ol" and "i \<le> length lines"
  shows "apply_hunk lines h (i, concat ol) = Inr (q, out) \<longleftrightarrow>
    (\<exists>c. drop i lines = c @ old_side (hk_lines h) @ drop q lines \<and>
       range_at (hk_old_start h) (hk_old_len h) (i + length c) \<and>
       range_at (hk_new_start h) (hk_new_len h) (length ol + length c) \<and>
       q = i + length c + length (old_side (hk_lines h)) \<and>
       out = concat (ol @ c @ new_side (hk_lines h)) \<and> length out \<le> PATCH_BYTES)"
    (is "?run \<longleftrightarrow> (\<exists>c. ?at c)")
proof -
  have whole: "list_all whole_line (take n (drop i lines))" for n
    using assms(1) by (auto simp: list_all_iff dest: in_set_takeD in_set_dropD)
  have count: "split_lines (concat ol @ concat (take n (drop i lines))) = ol @ take n (drop i lines)" for n
    using split_lines_concat [of "ol @ take n (drop i lines)" "''''"] assms(2) whole by simp
  have run: "?run \<longleftrightarrow> (\<exists>start. range_at (hk_old_start h) (hk_old_len h) start \<and> i \<le> start \<and> start \<le> length lines \<and>
      range_at (hk_new_start h) (hk_new_len h) (length ol + (start - i)) \<and>
      drop start lines = old_side (hk_lines h) @ drop q lines \<and> q = start + length (old_side (hk_lines h)) \<and>
      out = concat ol @ concat (take (start - i) (drop i lines)) @ concat (new_side (hk_lines h)) \<and>
      length out \<le> PATCH_BYTES)"
  proof -
    have "?run \<longleftrightarrow> (\<exists>start. range_at (hk_old_start h) (hk_old_len h) start \<and> i \<le> start \<and> start \<le> length lines \<and>
        range_at (hk_new_start h) (hk_new_len h) (length ol + (start - i)) \<and>
        fold_try (apply_line lines) (hk_lines h) (start, concat ol @ concat (take (start - i) (drop i lines))) = Inr (q, out) \<and>
        length out \<le> PATCH_BYTES)"
      unfolding apply_hunk_def prod.case Let_def count and_then_Inr_iff range_start_Inr if_Inl_Inr
      by (rule ex_cong1) (auto simp: not_less not_le split: prod.splits cong: conj_cong)
    then show ?thesis unfolding apply_lines_Inr append_assoc conj_assoc .
  qed
  show ?thesis
  proof
    assume ?run
    then obtain start where start: "range_at (hk_old_start h) (hk_old_len h) start" "i \<le> start" "start \<le> length lines"
      "range_at (hk_new_start h) (hk_new_len h) (length ol + (start - i))"
      "drop start lines = old_side (hk_lines h) @ drop q lines" "q = start + length (old_side (hk_lines h))"
      "out = concat ol @ concat (take (start - i) (drop i lines)) @ concat (new_side (hk_lines h))"
      "length out \<le> PATCH_BYTES" using run by blast
    have "drop i lines = take (start - i) (drop i lines) @ drop start lines"
      using start(2) append_take_drop_id [of "start - i" "drop i lines"] by simp
    then have "?at (take (start - i) (drop i lines))" using start by simp
    then show "\<exists>c. ?at c" by blast
  next
    assume "\<exists>c. ?at c"
    then obtain c where c: "?at c" by blast
    define start where "start = i + length c"
    have split: "drop i lines = c @ old_side (hk_lines h) @ drop q lines" using c by blast
    have len: "start \<le> length lines" using arg_cong [OF split, of length] assms(3) by (simp add: start_def)
    have "drop (length c) (drop i lines) = old_side (hk_lines h) @ drop q lines"
      "take (length c) (drop i lines) = c"
      unfolding split by simp_all
    then have d: "drop start lines = old_side (hk_lines h) @ drop q lines" "take (start - i) (drop i lines) = c"
      by (simp_all add: start_def add.commute)
    have "i \<le> start" "length ol + (start - i) = length ol + length c" by (simp_all add: start_def)
    moreover have "range_at (hk_old_start h) (hk_old_len h) start"
      "range_at (hk_new_start h) (hk_new_len h) (length ol + length c)"
      "q = start + length (old_side (hk_lines h))"
      "out = concat ol @ concat c @ concat (new_side (hk_lines h))" "length out \<le> PATCH_BYTES"
      using c unfolding start_def concat_append by blast+
    ultimately show ?run
      unfolding run d(2) by (intro exI [of _ start] conjI) (assumption | simp only: d len)+
  qed
qed

lemma whole_sides:
  "\<forall>l \<in> set ls. whole_line (line_text l) \<Longrightarrow> list_all whole_line (new_side ls) \<and> list_all whole_line (old_side ls)"
  by (auto simp: list_all_iff new_side_def old_side_def split: patch_line.splits)

lemma apply_hunks_patches:
  assumes "fold_try (apply_hunk lines) hs (i, concat ol) = Inr (q, out)" and "list_all whole_line lines"
    and "list_all whole_line ol" and "i \<le> length lines" and "\<forall>h \<in> set hs. \<forall>l \<in> set (hk_lines h). whole_line (line_text l)"
  shows "\<exists>ys. patches hs i (length ol) (drop i lines) (ys @ drop q lines) \<and> out = concat (ol @ ys) \<and>
    list_all whole_line ys \<and> q \<le> length lines"
  using assms
proof (induction hs arbitrary: i ol)
  case Nil
  then show ?case by (intro exI [of _ "[]"]) (auto intro: patches.rest)
next
  case (Cons h hs)
  obtain p out1 where p: "apply_hunk lines h (i, concat ol) = Inr (p, out1)"
    "fold_try (apply_hunk lines) hs (p, out1) = Inr (q, out)"
    using Cons.prems(1) by (auto simp: and_then_Inr_iff)
  let ?o = "old_side (hk_lines h)" and ?n = "new_side (hk_lines h)"
  obtain c where c: "drop i lines = c @ ?o @ drop p lines" "range_at (hk_old_start h) (hk_old_len h) (i + length c)"
    "range_at (hk_new_start h) (hk_new_len h) (length ol + length c)" "p = i + length c + length ?o"
    "out1 = concat (ol @ c @ ?n)"
    using p(1) unfolding apply_hunk_Inr [OF Cons.prems(2-4)] by blast
  have "list_all whole_line (drop i lines)" using Cons.prems(2) by (auto simp: list_all_iff dest: in_set_dropD)
  then have w: "list_all whole_line (ol @ c @ ?n)"
    using Cons.prems(3,5) whole_sides [of "hk_lines h"] c(1) by simp
  have len: "p \<le> length lines" using arg_cong [OF c(1), of length] Cons.prems(4) c(4) by simp
  obtain ys where ys: "patches hs p (length (ol @ c @ ?n)) (drop p lines) (ys @ drop q lines)"
    "out = concat ((ol @ c @ ?n) @ ys)" "list_all whole_line ys" "q \<le> length lines"
    using Cons.IH [OF p(2) [unfolded c(5)] Cons.prems(2) w len] Cons.prems(5) by auto
  have "patches (h # hs) i (length ol) (c @ ?o @ drop p lines) (c @ ?n @ ys @ drop q lines)"
    by (rule patches.hunk [OF c(2,3)]) (use ys(1) c(4) in \<open>simp add: add.assoc\<close>)
  then have "patches (h # hs) i (length ol) (drop i lines) ((c @ ?n @ ys) @ drop q lines)"
    unfolding c(1) append_assoc .
  moreover have "list_all whole_line (c @ ?n @ ys)" using w ys(3) by simp
  ultimately show ?case using ys(2,4) by (intro exI [of _ "c @ ?n @ ys"]) simp
qed

lemma patches_apply_hunks:
  assumes "patches hs i (length ol) (drop i lines) zs" and "list_all whole_line lines"
    and "list_all whole_line ol" and "i \<le> length lines" and "\<forall>h \<in> set hs. \<forall>l \<in> set (hk_lines h). whole_line (line_text l)"
    and "length (concat (ol @ zs)) \<le> PATCH_BYTES"
  shows "\<exists>q ys. fold_try (apply_hunk lines) hs (i, concat ol) = Inr (q, concat (ol @ ys)) \<and> zs = ys @ drop q lines"
  using assms
proof (induction hs arbitrary: i ol zs)
  case Nil
  then show ?case by (auto elim: patches_NilE)
next
  case (Cons h hs)
  let ?o = "old_side (hk_lines h)" and ?n = "new_side (hk_lines h)"
  obtain c xs zs' where c: "drop i lines = c @ ?o @ xs" "zs = c @ ?n @ zs'"
    "range_at (hk_old_start h) (hk_old_len h) (i + length c)"
    "range_at (hk_new_start h) (hk_new_len h) (length ol + length c)"
    "patches hs (i + length c + length ?o) (length ol + length c + length ?n) xs zs'"
    using Cons.prems(1) by (elim patches_ConsE) blast
  define p where "p = i + length c + length ?o"
  have "xs = drop (length (c @ ?o)) (drop i lines)" unfolding c(1) by simp
  then have xs: "xs = drop p lines" by (simp add: p_def ac_simps)
  have "list_all whole_line (drop i lines)" using Cons.prems(2) by (auto simp: list_all_iff dest: in_set_dropD)
  then have w: "list_all whole_line (ol @ c @ ?n)"
    using Cons.prems(3,5) whole_sides [of "hk_lines h"] c(1) by simp
  have len: "p \<le> length lines" using arg_cong [OF c(1), of length] Cons.prems(4) p_def by simp
  have short: "length (concat (ol @ c @ ?n)) \<le> PATCH_BYTES" using Cons.prems(6) c(2) by simp
  have "apply_hunk lines h (i, concat ol) = Inr (p, concat (ol @ c @ ?n))"
    unfolding apply_hunk_Inr [OF Cons.prems(2-4)] using c(1,3,4) xs short p_def by blast
  moreover obtain q ys where "fold_try (apply_hunk lines) hs (p, concat (ol @ c @ ?n)) = Inr (q, concat ((ol @ c @ ?n) @ ys))"
    "zs' = ys @ drop q lines"
    using Cons.IH [of p "ol @ c @ ?n" zs'] c(2,5) Cons.prems(2,5,6) w len xs p_def by (auto simp: add.assoc)
  ultimately show ?case using c(2) by (intro exI [of _ q] exI [of _ "c @ ?n @ ys"]) simp
qed

text \<open>A patch of whole lines over a whole text: exactly what its hunks say.\<close>

lemma apply_exact_iff:
  assumes "whole_text base" and "whole_patch p"
  shows "apply_exact base p = Inr out \<longleftrightarrow>
    whole_text out \<and> length out \<le> PATCH_BYTES \<and> patches (fp_hunks p) 0 0 (split_lines base) (split_lines out)"
proof
  note w = split_lines_whole [OF assms(1)] and hs = assms(2) [unfolded whole_patch_def]
  {
    assume "apply_exact base p = Inr out"
    then obtain q out1 where r: "fold_try (apply_hunk (split_lines base)) (fp_hunks p) (0, concat []) = Inr (q, out1)"
      "out = out1 @ concat (drop q (split_lines base))" "length out \<le> PATCH_BYTES"
      by (auto simp: apply_exact_def Let_def and_then_Inr_iff split: if_splits)
    obtain ys where ys: "patches (fp_hunks p) 0 0 (split_lines base) (ys @ drop q (split_lines base))"
      "out1 = concat ys" "list_all whole_line ys"
      using apply_hunks_patches [OF r(1) w _ _ hs] by auto
    have l: "list_all whole_line (ys @ drop q (split_lines base))"
      using ys(3) w by (auto simp: list_all_iff dest: in_set_dropD)
    have o: "out = concat (ys @ drop q (split_lines base))" using r(2) ys(2) by simp
    have "split_lines out = ys @ drop q (split_lines base)"
      using split_lines_concat [OF l, of "''''"] o by simp
    then show "whole_text out \<and> length out \<le> PATCH_BYTES \<and>
        patches (fp_hunks p) 0 0 (split_lines base) (split_lines out)"
      using r(3) ys(1) whole_text_concat [OF l] o by simp
  next
    assume o: "whole_text out \<and> length out \<le> PATCH_BYTES \<and>
        patches (fp_hunks p) 0 0 (split_lines base) (split_lines out)"
    obtain q ys where "fold_try (apply_hunk (split_lines base)) (fp_hunks p) (0, concat []) = Inr (q, concat ([] @ ys))"
      "split_lines out = ys @ drop q (split_lines base)"
      using patches_apply_hunks [of "fp_hunks p" 0 "[]" "split_lines base" "split_lines out"] o w hs by auto
    moreover from this(2) have "out = concat ys @ concat (drop q (split_lines base))"
      by (metis concat_append concat_split_lines)
    ultimately show "apply_exact base p = Inr out" using o by (simp add: apply_exact_def Let_def)
  }
qed

section \<open>Properties\<close>

text \<open>The patch that undoes a patch.\<close>

definition reversed_line :: "patch_line \<Rightarrow> patch_line" where
  "reversed_line l = (case l of Context t \<Rightarrow> Context t | Delete t \<Rightarrow> Insert t | Insert t \<Rightarrow> Delete t)"

definition reversed_hunk :: "hunk \<Rightarrow> hunk" where
  "reversed_hunk h = \<lparr>hk_old_start = hk_new_start h, hk_old_len = hk_new_len h, hk_new_start = hk_old_start h,
     hk_new_len = hk_old_len h, hk_lines = map reversed_line (hk_lines h)\<rparr>"

definition reversed :: "file_patch \<Rightarrow> file_patch" where
  "reversed p = \<lparr>fp_original = fp_modified p, fp_modified = fp_original p, fp_hunks = map reversed_hunk (fp_hunks p)\<rparr>"

lemma reversed_sides [simp]:
  "old_side (map reversed_line ls) = new_side ls" "new_side (map reversed_line ls) = old_side ls"
  by (induction ls) (auto simp: old_side_def new_side_def reversed_line_def split: patch_line.splits)

lemma reversed_hunk_simps [simp]:
  "hk_old_start (reversed_hunk h) = hk_new_start h" "hk_old_len (reversed_hunk h) = hk_new_len h"
  "hk_new_start (reversed_hunk h) = hk_old_start h" "hk_new_len (reversed_hunk h) = hk_old_len h"
  "hk_lines (reversed_hunk h) = map reversed_line (hk_lines h)"
  by (simp_all add: reversed_hunk_def)

lemma patches_reversed: "patches hs i j xs ys \<Longrightarrow> patches (map reversed_hunk hs) j i ys xs"
proof (induction rule: patches.induct)
  case (hunk h i c j hs xs ys)
  then show ?case
    using patches.hunk [of "reversed_hunk h" j c i "map reversed_hunk hs" ys xs] by simp
qed (simp add: patches.rest)

lemma whole_reversed: "whole_patch p \<Longrightarrow> whole_patch (reversed p)"
proof -
  have "line_text (reversed_line l) = line_text l" for l by (cases l) (simp_all add: reversed_line_def)
  then show "whole_patch p \<Longrightarrow> whole_patch (reversed p)"
    by (simp add: whole_patch_def reversed_def)
qed

text \<open>C22: Over whole lines, applying a patch succeeds exactly when every hunk stands exactly at its
  two line ranges and its old side is what the baseline holds there; the result is then the
  only text that differs from the baseline by just these hunks, and within the text bound.\<close>

theorem patch_applied_exactly:
  assumes "whole_text base" and "whole_patch p"
  shows "apply_exact base p = Inr out \<longleftrightarrow>
    whole_text out \<and> length out \<le> PATCH_BYTES \<and> patches (fp_hunks p) 0 0 (split_lines base) (split_lines out)"
  using assms by (rule apply_exact_iff)


text \<open>Without that, an insertion after an unterminated last line is glued to it.\<close>

lemma insertion_glued:
  "apply_exact ''a'' \<lparr>fp_original = None, fp_modified = None, fp_hunks = [\<lparr>hk_old_start = 1, hk_old_len = 0,
     hk_new_start = 2, hk_new_len = 1, hk_lines = [Insert [CHR ''b'', CHR 0x0A]]\<rparr>]\<rparr> = Inr [CHR ''a'', CHR ''b'', CHR 0x0A]"
  by (simp add: apply_exact_def apply_hunk_def range_start_def apply_line_def PATCH_BYTES_def)

lemma delta_item_Inr:
  assumes "delta_item E packet item st = Inr st'"
  obtains path before normalized diff patch after baseline where "concrete_path path = Inr ()"
    and "path \<notin> set (ps_paths st)" and "in_scope packet path" and "baseline_of packet path = Some baseline"
    and "ix baseline ''content'' = JStr before" and "normalize_text before = Inr normalized"
    and "pe_parse E diff = Some patch" and "apply_exact normalized patch = Inr after" and "after \<noteq> normalized"
    and "ps_paths st' = path # ps_paths st"
    and "ps_files st' = ps_files st @ [delta_file path (ix baseline ''revision'') before after]"
    and "ps_total st' = ps_total st + length before + length after" and "ps_total st' \<le> PATCH_BYTES"
proof -
  obtain path u baseline before normalized diff patch after where x: "concrete_path path = Inr u"
    "\<not> (path \<in> set (ps_paths st) \<or> \<not> in_scope packet path)" "baseline_of packet path = Some baseline"
    "as_str (ix baseline ''content'') = Some before" "normalize_text before = Inr normalized"
    "pe_parse E diff = Some patch" "apply_exact normalized patch = Inr after" "after \<noteq> normalized"
    "\<not> PATCH_BYTES < ps_total st + length before + length after"
    "st' = \<lparr>ps_paths = path # ps_paths st, ps_aliases = pe_alias E path # ps_aliases st,
        ps_files = ps_files st @ [delta_file path (ix baseline ''revision'') before after],
        ps_total = ps_total st + length before + length after\<rparr>"
  proof -
    have "\<exists>path u baseline before normalized diff patch after. concrete_path path = Inr u \<and>
        \<not> (path \<in> set (ps_paths st) \<or> \<not> in_scope packet path) \<and> baseline_of packet path = Some baseline \<and>
        as_str (ix baseline ''content'') = Some before \<and> normalize_text before = Inr normalized \<and>
        pe_parse E diff = Some patch \<and> apply_exact normalized patch = Inr after \<and> after \<noteq> normalized \<and>
        \<not> PATCH_BYTES < ps_total st + length before + length after \<and>
        st' = \<lparr>ps_paths = path # ps_paths st, ps_aliases = pe_alias E path # ps_aliases st,
          ps_files = ps_files st @ [delta_file path (ix baseline ''revision'') before after],
          ps_total = ps_total st + length before + length after\<rparr>"
      using assms unfolding delta_item_def patched_def Let_def if_Inl_Inr and_then_Inr_iff ok_or_Inr_iff sum.inject
      by (elim exE conjE, hypsubst) (intro exI conjI, assumption+, rule refl)
    then show ?thesis using that by blast
  qed
  show ?thesis
    by (rule that [OF _ _ _ x(3) _ x(5-8)]) (use x in \<open>simp_all add: as_str_Some_iff\<close>)
qed

text \<open>A file of a delta: its baseline is the captured one, its result the exact application of a
  patch to it.\<close>

definition justified :: "patch_env \<Rightarrow> json \<Rightarrow> json \<Rightarrow> bool" where
  "justified E packet f \<longleftrightarrow>
     (\<exists>path baseline before normalized diff patch after.
        f = delta_file path (ix baseline ''revision'') before after \<and> concrete_path path = Inr () \<and>
        in_scope packet path \<and> baseline_of packet path = Some baseline \<and> ix baseline ''content'' = JStr before \<and>
        normalize_text before = Inr normalized \<and> pe_parse E diff = Some patch \<and>
        apply_exact normalized patch = Inr after \<and> after \<noteq> normalized)"

definition file_bytes_of :: "json \<Rightarrow> nat" where
  "file_bytes_of f = length (the (as_str (ix f ''before''))) + length (the (as_str (ix f ''after'')))"

definition delta_state :: "patch_env \<Rightarrow> json \<Rightarrow> patch_state \<Rightarrow> bool" where
  "delta_state E packet st \<longleftrightarrow>
     distinct (ps_paths st) \<and> map (\<lambda>f. ix f ''path'') (ps_files st) = map JStr (rev (ps_paths st)) \<and>
     (\<forall>f \<in> set (ps_files st). justified E packet f) \<and>
     sum_list (map file_bytes_of (ps_files st)) = ps_total st \<and> ps_total st \<le> PATCH_BYTES"

lemma delta_item_state:
  assumes "delta_item E packet item st = Inr st'" and "delta_state E packet st"
  shows "delta_state E packet st'"
proof -
  obtain path before normalized diff patch after baseline where x: "concrete_path path = Inr ()"
    "path \<notin> set (ps_paths st)" "in_scope packet path" "baseline_of packet path = Some baseline"
    "ix baseline ''content'' = JStr before" "normalize_text before = Inr normalized"
    "pe_parse E diff = Some patch" "apply_exact normalized patch = Inr after" "after \<noteq> normalized"
    "ps_paths st' = path # ps_paths st"
    "ps_files st' = ps_files st @ [delta_file path (ix baseline ''revision'') before after]"
    "ps_total st' = ps_total st + length before + length after" "ps_total st' \<le> PATCH_BYTES"
    by (rule delta_item_Inr [OF assms(1)])
  have "justified E packet (delta_file path (ix baseline ''revision'') before after)"
    unfolding justified_def using x(1,3-9) by blast
  moreover have "file_bytes_of (delta_file path (ix baseline ''revision'') before after) = length before + length after"
    "ix (delta_file path (ix baseline ''revision'') before after) ''path'' = JStr path"
    by (simp_all add: file_bytes_of_def delta_file_def)
  ultimately show ?thesis
    using assms(2) x(2,10-13) unfolding delta_state_def by (auto simp: add.assoc)
qed

lemma patch_delta_Inr:
  assumes "patch_delta H E packet returned = Inr out"
  obtains st changed where "delta_state E packet st" and "ix returned ''changed_paths'' = JArr changed"
    and "set changed = JStr ` set (ps_paths st)" and "length changed = length (ps_paths st)"
    and "out = delta_value H packet
       (sort_key (\<lambda>f. case as_str (ix f ''path'') of None \<Rightarrow> '''' | Some s \<Rightarrow> s) (ps_files st))
       (sort_dedup (ps_paths st))"
proof -
  obtain items st changed declared where s: "fold_try (delta_item E packet) items no_patches = Inr st"
    "as_array (ix returned ''changed_paths'') = Some changed"
    "collect (\<lambda>v. ok_or (as_str v) (err ''changed path must be text'')) changed = Inr declared"
    "set declared = set (ps_paths st)" "length changed = length (ps_paths st)"
    "out = delta_value H packet
       (sort_key (\<lambda>f. case as_str (ix f ''path'') of None \<Rightarrow> '''' | Some s \<Rightarrow> s) (ps_files st))
       (sort_dedup (ps_paths st))"
    using assms unfolding patch_delta_def by (auto simp: and_then_Inr_iff ok_or_Inr_iff split: if_splits)
  have "delta_state E packet no_patches" by (simp add: delta_state_def no_patches_def)
  with s(1) have st: "delta_state E packet st" by (rule fold_try_invariant) (rule delta_item_state)
  have "changed = map JStr declared"
    using s(3) by (induction changed arbitrary: declared) (auto simp: and_then_Inr_iff ok_or_Inr_iff as_str_Some_iff)
  then have "set changed = JStr ` set (ps_paths st)" using s(4) by simp
  then show ?thesis using that st s(2,5,6) by (simp add: as_array_Some_iff)
qed

text \<open>C24: A delta that is admitted describes, for distinct concrete paths within the sealed mutation
  scope, the captured baseline of each path and the exact result of a patch that changes it;
  the changed paths the worker declared are these paths and no others, all texts together stay
  within the bound, and the delta carries no authority over proof or completion.\<close>

theorem delta_sound:
  assumes "patch_delta H E packet returned = Inr out"
  shows "\<exists>files paths changed. ix out ''files'' = JArr files \<and> ix out ''changed_paths'' = jstrs paths \<and>
    sorted_wrt (<) paths \<and> map (\<lambda>f. ix f ''path'') files = map JStr paths \<and>
    (\<forall>f \<in> set files. justified E packet f) \<and> sum_list (map file_bytes_of files) \<le> PATCH_BYTES \<and>
    ix returned ''changed_paths'' = JArr changed \<and> set changed = JStr ` set paths \<and> distinct changed \<and>
    ix out ''proof_authority'' = JBool False \<and> ix out ''completion_authority'' = JBool False"
proof -
  define key where "key f = (case as_str (ix f ''path'') of None \<Rightarrow> '''' | Some s \<Rightarrow> s)" for f :: json
  obtain st changed where st: "delta_state E packet st" and c: "ix returned ''changed_paths'' = JArr changed"
    "set changed = JStr ` set (ps_paths st)" "length changed = length (ps_paths st)"
    "out = delta_value H packet (sort_key key (ps_files st)) (sort_dedup (ps_paths st))"
    by (rule patch_delta_Inr [OF assms, folded key_def])
  let ?files = "sort_key key (ps_files st)"
  have names: "map (\<lambda>f. ix f ''path'') (ps_files st) = map JStr (rev (ps_paths st))" and d: "distinct (ps_paths st)"
    using st by (simp_all add: delta_state_def)
  have key: "map key (ps_files st) = rev (ps_paths st)"
  proof -
    have "map key (ps_files st) = map (\<lambda>v. case as_str v of None \<Rightarrow> '''' | Some s \<Rightarrow> s) (map (\<lambda>f. ix f ''path'') (ps_files st))"
      by (simp add: key_def)
    then show ?thesis unfolding names by (simp add: comp_def)
  qed
  have "sorted (map key ?files)" by simp
  moreover have "mset (map key ?files) = mset (ps_paths st)"
    using arg_cong [OF key, of mset] by (simp only: mset_map mset_sort mset_rev)
  ultimately have "map key ?files = sort (ps_paths st)" by (metis properties_for_sort)
  then have sorted_names: "map key ?files = sort_dedup (ps_paths st)"
    using d by (simp add: sort_dedup_def remdups_adj_distinct)
  have path: "ix f ''path'' = JStr (key f)" if "f \<in> set ?files" for f
  proof -
    have "ix f ''path'' \<in> JStr ` set (ps_paths st)"
      using that arg_cong [OF names, of set] unfolding set_map set_rev set_sort by blast
    then show ?thesis by (auto simp: key_def)
  qed
  have "map (\<lambda>f. ix f ''path'') ?files = map JStr (sort_dedup (ps_paths st))"
    unfolding sorted_names [symmetric] map_map by (rule map_cong) (simp_all add: path)
  moreover have "sum_list (map file_bytes_of ?files) = sum_list (map file_bytes_of (ps_files st))"
    by (simp only: sum_mset_sum_list [symmetric] mset_map mset_sort)
  moreover have "distinct changed"
    using c(2,3) d by (intro card_distinct) (simp add: card_image inj_on_def distinct_card)
  ultimately show ?thesis
    using st c by (intro exI [of _ ?files] exI [of _ "sort_dedup (ps_paths st)"] exI [of _ changed])
      (auto simp: delta_value_def delta_state_def)
qed

section \<open>Merged texts\<close>

lemma replace_crlf_other: "CHR 0x0D \<noteq> c \<Longrightarrow> replace_crlf (c # s) = c # replace_crlf s"
  by (cases s) simp_all

lemma replace_with_crlf: "CHR 0x0D \<notin> set m \<Longrightarrow> replace_crlf (with_crlf m) = m"
proof (induction m)
  case (Cons c m)
  then show ?case
    by (cases "c = CHR 0x0A") (simp_all add: with_crlf_def replace_crlf_other)
qed (simp add: with_crlf_def)

text \<open>A merge keeps the line ends of the current text: what it returns reads, with uniform line
  ends, as the three-way merge of the normalized texts, and stays within the text bound.\<close>

theorem merge_keeps_line_ends:
  assumes "merge_text E before after current = Inr out"
    and "\<And>b o' t m. pe_merge E b o' t = Some m \<Longrightarrow> CHR 0x0D \<in> set m \<Longrightarrow> CHR 0x0D \<in> set (b @ o' @ t)"
  shows "length out \<le> PATCH_BYTES \<and> (has_crlf current \<longrightarrow> out = with_crlf (replace_crlf out)) \<and>
    (\<not> has_crlf current \<longrightarrow> CHR 0x0D \<notin> set out) \<and>
    pe_merge E (replace_crlf before) (replace_crlf current) (replace_crlf after) = Some (replace_crlf out)"
proof -
  obtain merged where m: "CHR 0x0D \<notin> set (replace_crlf before)" "CHR 0x0D \<notin> set (replace_crlf current)"
    "CHR 0x0D \<notin> set (replace_crlf after)"
    "pe_merge E (replace_crlf before) (replace_crlf current) (replace_crlf after) = Some merged"
    "out = (if has_crlf current then with_crlf merged else merged)" "length out \<le> PATCH_BYTES"
    using assms(1) by (auto simp: merge_text_def normalize_text_def and_then_Inr_iff ok_or_Inr_iff Let_def split: if_splits)
  have n: "CHR 0x0D \<notin> set merged" using assms(2) [OF m(4)] m(1-3) by auto
  have plain: "replace_crlf merged = merged"
    using n by (induction merged) (simp_all add: replace_crlf_other)
  show ?thesis using m(4-6) n plain replace_with_crlf [OF n] by auto
qed

end
