(* ===== verification/Contribution.thy ===== *)
theory Contribution
  imports Request
begin

text \<open>
  Source contributions (\<open>RestrictionBasis\<close> and \<open>normalize_contribution\<close> with its
  helpers, \<open>src/src/core/src/lib.rs\<close>): the actions, blockers, bounded decisions,
  claims and outcome one owner contributes, checked against the capability contract.
  The route resolver an action's source request may need is the parameter \<open>rr\<close>; the
  theory of the semantic routes instantiates it, as the code's module recursion does.
\<close>

section \<open>Input\<close>

record restriction_basis =
  rb_kind :: str
  rb_source_revision :: "str option"
  rb_reference :: "str option"
  rb_declaration_revision :: "str option"
  rb_binding_revision :: "str option"

record action_input =
  ai_source_requests :: "json list"
  ai_dependency_revision :: str
  ai_effect_generation :: str
  ai_operation_id :: str
  ai_arguments :: json
  ai_effects :: "str list"
  ai_authority :: "str option"
  ai_extra :: "(str, json) omap"

record blocker_input =
  bi_basis :: "restriction_basis option"
  bi_code :: str
  bi_message :: str
  bi_owner :: "str option"
  bi_recovery :: "str option"
  bi_affects :: "str list"

record human_eligibility =
  he_kind :: str
  he_source_revision :: str
  he_current_work :: json
  he_reference :: str
  he_declaration_revision :: str
  he_declaration :: json

record human_context =
  hc_proposed_action :: str
  hc_reason :: str
  hc_context :: str
  hc_consequences :: "(str, str) omap"
  hc_defer_preserves :: str
  hc_authority_boundary :: str

record answer_request =
  aq_request_kind :: str
  aq_arguments :: json

record choice =
  ch_id :: str
  ch_label :: str

record decision_input =
  bd_basis :: "restriction_basis option"
  bd_id :: str
  bd_question :: str
  bd_material :: "json option"
  bd_human_context :: "human_context option"
  bd_human_eligibility :: "human_eligibility option"
  bd_response_request :: answer_request
  bd_choices :: "choice list"
  bd_affects :: "str list"

record outcome_input =
  ui_required_claims :: "str list"
  ui_id :: str
  ui_status :: str
  ui_claim :: str
  ui_evidence_revision :: str
  ui_residual_work :: "str list"

record request_response =
  rr_request_identity :: str
  rr_consequence_ids :: "str list"
  rr_status :: str

record contribution_input =
  ci_restriction_basis :: "restriction_basis option"
  ci_owner :: str
  ci_revision :: str
  ci_relevant :: bool
  ci_settled :: bool
  ci_facts :: json
  ci_material :: "json option"
  ci_blockers :: "blocker_input list"
  ci_decisions :: "decision_input list"
  ci_actions :: "action_input list"
  ci_allowed :: "str list"
  ci_blocked :: "str list"
  ci_outcome :: "outcome_input option"
  ci_request_response :: "request_response option"
  ci_extra :: "(str, json) omap"

definition de_basis :: "json \<Rightarrow> restriction_basis option" where
  "de_basis v = do {
     f \<leftarrow> struct_fields True
       [''kind'', ''source_revision'', ''reference'', ''declaration_revision'', ''binding_revision''] v;
     kind \<leftarrow> req de_str f ''kind'';
     source_revision \<leftarrow> opt de_str (False, snd f) ''source_revision'';
     reference \<leftarrow> opt de_str (False, snd f) ''reference'';
     declaration \<leftarrow> opt de_str (False, snd f) ''declaration_revision'';
     binding \<leftarrow> opt de_str (False, snd f) ''binding_revision'';
     Some \<lparr>rb_kind = kind, rb_source_revision = source_revision, rb_reference = reference,
       rb_declaration_revision = declaration, rb_binding_revision = binding\<rparr> }"

definition ACTION_FIELDS :: "str list" where
  "ACTION_FIELDS = [''source_requests'', ''dependency_revision'', ''effect_generation'',
     ''operation_id'', ''arguments'', ''effects'', ''authority'']"

definition de_action :: "json \<Rightarrow> action_input option" where
  "de_action v = do {
     f \<leftarrow> flatten_fields v;
     source_requests \<leftarrow> dflt (de_list de_any) [] f ''source_requests'';
     dependency_revision \<leftarrow> req de_str f ''dependency_revision'';
     effect_generation \<leftarrow> dflt de_str [] f ''effect_generation'';
     operation_id \<leftarrow> dflt de_str [] f ''operation_id'';
     arguments \<leftarrow> dflt de_any (obj []) f ''arguments'';
     effects \<leftarrow> dflt de_strs [] f ''effects'';
     authority \<leftarrow> opt de_str f ''authority'';
     Some \<lparr>ai_source_requests = source_requests, ai_dependency_revision = dependency_revision,
       ai_effect_generation = effect_generation, ai_operation_id = operation_id,
       ai_arguments = arguments, ai_effects = effects, ai_authority = authority,
       ai_extra = extra_fields ACTION_FIELDS f\<rparr> }"

definition de_blocker :: "json \<Rightarrow> blocker_input option" where
  "de_blocker v = do {
     f \<leftarrow> struct_fields False
       [''basis'', ''code'', ''message'', ''owner'', ''recovery'', ''affects''] v;
     basis \<leftarrow> opt de_basis f ''basis'';
     code \<leftarrow> dflt de_str [] f ''code'';
     message \<leftarrow> dflt de_str [] f ''message'';
     owner \<leftarrow> opt de_str f ''owner'';
     recovery \<leftarrow> opt de_str f ''recovery'';
     affected \<leftarrow> dflt de_strs [] f ''affects'';
     Some \<lparr>bi_basis = basis, bi_code = code, bi_message = message, bi_owner = owner,
       bi_recovery = recovery, bi_affects = affected\<rparr> }"

definition de_eligibility :: "json \<Rightarrow> human_eligibility option" where
  "de_eligibility v = do {
     f \<leftarrow> struct_fields True
       [''kind'', ''source_revision'', ''current_work'', ''reference'', ''declaration_revision'',
        ''declaration''] v;
     kind \<leftarrow> req de_str f ''kind'';
     source_revision \<leftarrow> req de_str f ''source_revision'';
     work \<leftarrow> req de_any f ''current_work'';
     reference \<leftarrow> req de_str f ''reference'';
     declaration_revision \<leftarrow> req de_str f ''declaration_revision'';
     declaration \<leftarrow> req de_any f ''declaration'';
     Some \<lparr>he_kind = kind, he_source_revision = source_revision, he_current_work = work,
       he_reference = reference, he_declaration_revision = declaration_revision,
       he_declaration = declaration\<rparr> }"

definition de_human_context :: "json \<Rightarrow> human_context option" where
  "de_human_context v = do {
     f \<leftarrow> struct_fields True
       [''proposed_action'', ''reason'', ''context'', ''consequences'', ''defer_preserves'',
        ''authority_boundary''] v;
     proposed \<leftarrow> req de_str f ''proposed_action'';
     reason \<leftarrow> req de_str f ''reason'';
     ctxt \<leftarrow> req de_str f ''context'';
     consequences \<leftarrow> req (de_map de_str) f ''consequences'';
     defer_preserves \<leftarrow> req de_str f ''defer_preserves'';
     boundary \<leftarrow> req de_str f ''authority_boundary'';
     Some \<lparr>hc_proposed_action = proposed, hc_reason = reason, hc_context = ctxt,
       hc_consequences = consequences, hc_defer_preserves = defer_preserves,
       hc_authority_boundary = boundary\<rparr> }"

definition de_answer_request :: "json \<Rightarrow> answer_request option" where
  "de_answer_request v = do {
     f \<leftarrow> struct_fields True [''request_kind'', ''arguments''] v;
     kind \<leftarrow> req de_str f ''request_kind'';
     arguments \<leftarrow> req de_any f ''arguments'';
     Some \<lparr>aq_request_kind = kind, aq_arguments = arguments\<rparr> }"

definition de_choice :: "json \<Rightarrow> choice option" where
  "de_choice v = do {
     f \<leftarrow> struct_fields False [''id'', ''label''] v;
     id \<leftarrow> dflt de_str [] f ''id'';
     label \<leftarrow> dflt de_str [] f ''label'';
     Some \<lparr>ch_id = id, ch_label = label\<rparr> }"

definition de_decision :: "json \<Rightarrow> decision_input option" where
  "de_decision v = do {
     f \<leftarrow> struct_fields False
       [''basis'', ''id'', ''question'', ''material'', ''human_context'', ''human_eligibility'',
        ''response_request'', ''choices'', ''affects''] v;
     basis \<leftarrow> opt de_basis f ''basis'';
     id \<leftarrow> dflt de_str [] f ''id'';
     question \<leftarrow> dflt de_str [] f ''question'';
     material \<leftarrow> opt de_any f ''material'';
     hctx \<leftarrow> opt de_human_context f ''human_context'';
     eligibility \<leftarrow> opt de_eligibility f ''human_eligibility'';
     response \<leftarrow> req de_answer_request f ''response_request'';
     choices \<leftarrow> dflt (de_list de_choice) [] f ''choices'';
     affected \<leftarrow> dflt de_strs [] f ''affects'';
     Some \<lparr>bd_basis = basis, bd_id = id, bd_question = question, bd_material = material,
       bd_human_context = hctx, bd_human_eligibility = eligibility,
       bd_response_request = response, bd_choices = choices, bd_affects = affected\<rparr> }"

definition de_claims :: "json \<Rightarrow> (str list \<times> str list) option" where
  "de_claims v = do {
     f \<leftarrow> struct_fields False [''allowed'', ''blocked''] v;
     allowed \<leftarrow> dflt de_strs [] f ''allowed'';
     blocked \<leftarrow> dflt de_strs [] f ''blocked'';
     Some (allowed, blocked) }"

definition de_outcome :: "json \<Rightarrow> outcome_input option" where
  "de_outcome v = do {
     f \<leftarrow> struct_fields False
       [''required_claims'', ''id'', ''status'', ''claim'', ''evidence_revision'', ''residual_work''] v;
     required \<leftarrow> dflt de_strs [] f ''required_claims'';
     id \<leftarrow> dflt de_str [] f ''id'';
     status \<leftarrow> dflt de_str [] f ''status'';
     claim \<leftarrow> dflt de_str [] f ''claim'';
     evidence \<leftarrow> dflt de_str [] f ''evidence_revision'';
     residual \<leftarrow> dflt de_strs [] f ''residual_work'';
     Some \<lparr>ui_required_claims = required, ui_id = id, ui_status = status, ui_claim = claim,
       ui_evidence_revision = evidence, ui_residual_work = residual\<rparr> }"

definition de_response :: "json \<Rightarrow> request_response option" where
  "de_response v = do {
     f \<leftarrow> struct_fields True [''request_identity'', ''consequence_ids'', ''status''] v;
     identity \<leftarrow> req de_str f ''request_identity'';
     ids \<leftarrow> req de_strs f ''consequence_ids'';
     status \<leftarrow> req de_str f ''status'';
     Some \<lparr>rr_request_identity = identity, rr_consequence_ids = ids, rr_status = status\<rparr> }"

definition CONTRIBUTION_FIELDS :: "str list" where
  "CONTRIBUTION_FIELDS = [''restriction_basis'', ''owner'', ''revision'', ''relevant'', ''settled'',
     ''facts'', ''material'', ''blockers'', ''decisions'', ''actions'', ''claims'', ''outcome'',
     ''request_response'']"

definition de_contribution :: "json \<Rightarrow> contribution_input option" where
  "de_contribution v = do {
     f \<leftarrow> flatten_fields v;
     basis \<leftarrow> opt de_basis f ''restriction_basis'';
     owner \<leftarrow> dflt de_str [] f ''owner'';
     revision \<leftarrow> dflt de_str [] f ''revision'';
     relevant \<leftarrow> dflt de_bool True f ''relevant'';
     settled \<leftarrow> dflt de_bool False f ''settled'';
     facts \<leftarrow> dflt de_any (obj []) f ''facts'';
     material \<leftarrow> opt de_any f ''material'';
     blockers \<leftarrow> dflt (de_list de_blocker) [] f ''blockers'';
     decisions \<leftarrow> dflt (de_list de_decision) [] f ''decisions'';
     actions \<leftarrow> dflt (de_list de_action) [] f ''actions'';
     (allowed, blocked) \<leftarrow> dflt de_claims ([], []) f ''claims'';
     outcome \<leftarrow> opt de_outcome f ''outcome'';
     response \<leftarrow> opt de_response f ''request_response'';
     Some \<lparr>ci_restriction_basis = basis, ci_owner = owner, ci_revision = revision,
       ci_relevant = relevant, ci_settled = settled, ci_facts = facts, ci_material = material,
       ci_blockers = blockers, ci_decisions = decisions, ci_actions = actions,
       ci_allowed = allowed, ci_blocked = blocked, ci_outcome = outcome,
       ci_request_response = response, ci_extra = extra_fields CONTRIBUTION_FIELDS f\<rparr> }"

section \<open>Normalized data\<close>

record action =
  na_source_requests :: "json list"
  na_consequence_id :: str
  na_dependency_revision :: str
  na_logical_effect_id :: str
  na_operation_revision :: str
  na_operation_id :: str
  na_arguments :: json
  na_effects :: "str list"
  na_authority :: str

record blocker =
  nb_basis :: restriction_basis
  nb_resolution :: str
  nb_consequence_id :: str
  nb_code :: str
  nb_message :: str
  nb_owner :: str
  nb_revision :: str
  nb_affects :: "str list"
  nb_recovery :: "str option"

record decision =
  nd_basis :: restriction_basis
  nd_resolution :: str
  nd_human_context :: "human_context option"
  nd_human_eligibility :: "human_eligibility option"
  nd_consequence_id :: str
  nd_id :: str
  nd_owner :: str
  nd_revision :: str
  nd_question :: str
  nd_material :: "json option"
  nd_response_request :: json
  nd_response_schema :: json
  nd_choices :: "choice list"
  nd_affects :: "str list"

type_synonym outcome = outcome_input

record contribution =
  nc_owner :: str
  nc_revision :: str
  nc_relevant :: bool
  nc_settled :: bool
  nc_facts :: json
  nc_material :: "json option"
  nc_blockers :: "blocker list"
  nc_decisions :: "decision list"
  nc_actions :: "action list"
  nc_allowed :: "str list"
  nc_blocked :: "str list"
  nc_outcome :: "outcome option"
  nc_request_response :: "request_response option"

definition CONTRIBUTION_KIND :: str where
  "CONTRIBUTION_KIND = ''agentic-workspace/source-contribution/v1''"

definition en_basis :: "restriction_basis \<Rightarrow> json" where
  "en_basis b = obj
     ((''kind'', JStr (rb_kind b)) # opt_field ''source_revision'' JStr (rb_source_revision b)
      @ opt_field ''reference'' JStr (rb_reference b)
      @ opt_field ''declaration_revision'' JStr (rb_declaration_revision b)
      @ opt_field ''binding_revision'' JStr (rb_binding_revision b))"

definition en_eligibility :: "human_eligibility \<Rightarrow> json" where
  "en_eligibility e = obj
     [(''kind'', JStr (he_kind e)), (''source_revision'', JStr (he_source_revision e)),
      (''current_work'', he_current_work e), (''reference'', JStr (he_reference e)),
      (''declaration_revision'', JStr (he_declaration_revision e)),
      (''declaration'', he_declaration e)]"

definition en_human_context :: "human_context \<Rightarrow> json" where
  "en_human_context c = obj
     [(''proposed_action'', JStr (hc_proposed_action c)), (''reason'', JStr (hc_reason c)),
      (''context'', JStr (hc_context c)), (''consequences'', jmap JStr (hc_consequences c)),
      (''defer_preserves'', JStr (hc_defer_preserves c)),
      (''authority_boundary'', JStr (hc_authority_boundary c))]"

definition en_choice :: "choice \<Rightarrow> json" where
  "en_choice c = obj [(''id'', JStr (ch_id c)), (''label'', JStr (ch_label c))]"

definition en_answer_request :: "answer_request \<Rightarrow> json" where
  "en_answer_request q = obj
     [(''request_kind'', JStr (aq_request_kind q)), (''arguments'', aq_arguments q)]"

definition en_action :: "action \<Rightarrow> json" where
  "en_action a = obj
     ((if na_source_requests a = [] then [] else [(''source_requests'', JArr (na_source_requests a))])
      @ [(''consequence_id'', JStr (na_consequence_id a)),
         (''dependency_revision'', JStr (na_dependency_revision a)),
         (''logical_effect_id'', JStr (na_logical_effect_id a)),
         (''operation_revision'', JStr (na_operation_revision a)),
         (''operation_id'', JStr (na_operation_id a)), (''arguments'', na_arguments a),
         (''effects'', jstrs (na_effects a)), (''authority'', JStr (na_authority a))])"

definition en_blocker :: "blocker \<Rightarrow> json" where
  "en_blocker b = obj
     ([(''basis'', en_basis (nb_basis b)), (''resolution'', JStr (nb_resolution b)),
       (''consequence_id'', JStr (nb_consequence_id b)), (''code'', JStr (nb_code b)),
       (''message'', JStr (nb_message b)), (''owner'', JStr (nb_owner b)),
       (''revision'', JStr (nb_revision b)), (''affects'', jstrs (nb_affects b))]
      @ opt_field ''recovery'' JStr (nb_recovery b))"

definition en_decision :: "decision \<Rightarrow> json" where
  "en_decision d = obj
     ([(''basis'', en_basis (nd_basis d)), (''resolution'', JStr (nd_resolution d))]
      @ opt_field ''human_context'' en_human_context (nd_human_context d)
      @ opt_field ''human_eligibility'' en_eligibility (nd_human_eligibility d)
      @ [(''consequence_id'', JStr (nd_consequence_id d)), (''id'', JStr (nd_id d)),
         (''owner'', JStr (nd_owner d)), (''revision'', JStr (nd_revision d)),
         (''question'', JStr (nd_question d))]
      @ opt_field ''material'' (\<lambda>m. m) (nd_material d)
      @ [(''response_request'', nd_response_request d), (''response_schema'', nd_response_schema d),
         (''choices'', JArr (map en_choice (nd_choices d))), (''affects'', jstrs (nd_affects d))])"

definition en_outcome :: "outcome \<Rightarrow> json" where
  "en_outcome u = obj
     [(''required_claims'', jstrs (ui_required_claims u)), (''id'', JStr (ui_id u)),
      (''status'', JStr (ui_status u)), (''claim'', JStr (ui_claim u)),
      (''evidence_revision'', JStr (ui_evidence_revision u)),
      (''residual_work'', jstrs (ui_residual_work u))]"

definition en_response :: "request_response \<Rightarrow> json" where
  "en_response r = obj
     [(''request_identity'', JStr (rr_request_identity r)),
      (''consequence_ids'', jstrs (rr_consequence_ids r)), (''status'', JStr (rr_status r))]"

definition en_contribution :: "contribution \<Rightarrow> json" where
  "en_contribution c = obj
     ([(''kind'', JStr CONTRIBUTION_KIND), (''owner'', JStr (nc_owner c)),
       (''revision'', JStr (nc_revision c)), (''relevant'', JBool (nc_relevant c)),
       (''settled'', JBool (nc_settled c)), (''facts'', nc_facts c)]
      @ opt_field ''material'' (\<lambda>m. m) (nc_material c)
      @ [(''blockers'', JArr (map en_blocker (nc_blockers c))),
         (''decisions'', JArr (map en_decision (nc_decisions c))),
         (''actions'', JArr (map en_action (nc_actions c))),
         (''claims'', obj [(''allowed'', jstrs (nc_allowed c)), (''blocked'', jstrs (nc_blocked c))]),
         (''outcome'', jopt en_outcome (nc_outcome c))]
      @ opt_field ''request_response'' en_response (nc_request_response c))"

section \<open>Restriction bases\<close>

definition legacy_basis :: restriction_basis where
  "legacy_basis = \<lparr>rb_kind = ''unclassified'', rb_source_revision = None, rb_reference = None,
     rb_declaration_revision = None, rb_binding_revision = None\<rparr>"

definition binding_digest :: "host \<Rightarrow> restriction_basis \<Rightarrow> str" where
  "binding_digest H b = digest H (obj
     [(''kind'', JStr (rb_kind b)), (''source_revision'', jopt JStr (rb_source_revision b)),
      (''reference'', jopt JStr (rb_reference b)),
      (''declaration_revision'', jopt JStr (rb_declaration_revision b))])"

definition blank :: "str option \<Rightarrow> bool" where
  "blank v \<longleftrightarrow> (case v of None \<Rightarrow> True | Some s \<Rightarrow> trim s = [])"

definition declaration_shape :: "str option \<Rightarrow> bool" where
  "declaration_shape v \<longleftrightarrow>
     (case v of None \<Rightarrow> False | Some s \<Rightarrow> starts_with s ''sha256:'' \<and> length s = 71)"

definition basis_validate :: "host \<Rightarrow> restriction_basis \<Rightarrow> unit res" where
  "basis_validate H b =
     (if rb_kind b = ''unclassified'' then Inr ()
      else if rb_kind b \<notin> {''task-requirement'', ''operation-guard'', ''attestation-limit'', ''optional-work''}
      then Inl (err ''unknown restriction basis'')
      else if blank (rb_source_revision b) \<or> blank (rb_reference b)
        \<or> \<not> declaration_shape (rb_declaration_revision b)
        \<or> rb_binding_revision b \<noteq> Some (binding_digest H b)
      then Inl (err ''restriction basis requires the current owner's source and exact declaration'')
      else Inr ())"

definition basis_scopes :: "restriction_basis \<Rightarrow> str list \<Rightarrow> str \<Rightarrow> str \<Rightarrow> str list res" where
  "basis_scopes b vs owner field =
     (if rb_kind b = ''optional-work'' \<and> vs = [] then Inr vs
      else if rb_kind b = ''attestation-limit'' \<and> vs = [fmt [''attestation:'', owner]] then Inr vs
      else if rb_kind b = ''operation-guard''
        \<and> list_all (\<lambda>v. starts_with v ''effect:'' \<or> starts_with v ''action:'') vs
      then affects vs field
      else if rb_kind b = ''task-requirement'' \<or> rb_kind b = ''unclassified'' then affects vs field
      else Inl (err ''restriction basis cannot impose these task or claim scopes''))"

definition restriction_basis_value :: "host \<Rightarrow> str \<Rightarrow> json \<Rightarrow> str \<Rightarrow> json \<Rightarrow> json" where
  "restriction_basis_value H kind revision reference declaration =
     (let basis = obj [(''kind'', JStr kind), (''source_revision'', revision),
        (''reference'', JStr reference), (''declaration_revision'', JStr (digest H declaration))]
      in jset ''binding_revision'' (JStr (digest H basis)) basis)"

section \<open>Actions\<close>

type_synonym resolver = "json \<Rightarrow> (json \<times> json) res"

text \<open>One source request of an action. The key set is that of the code, rendered values.\<close>

definition check_source_request ::
  "resolver \<Rightarrow> host \<Rightarrow> capability_contract option \<Rightarrow> json \<Rightarrow> json
   \<Rightarrow> (str \<times> str) list \<Rightarrow> (str \<times> str) list res" where
  "check_source_request rr H capabilities intent request keys =
     and_then
       (if ix request ''owner'' = JStr ''semantic-routes'' then
          and_then (rr (obj [(''current_work'', ix intent ''current_work''),
            (''source'', ix intent ''semantic_route_source''), (''request'', request)])) (\<lambda>(route, _).
          if ix route ''status'' \<noteq> JStr ''current''
          then Inl (err ''source activity request is stale for current work or catalogue'')
          else Inr ())
        else
          and_then (normalize_public_request H
            (obj [(''current_work'', ix intent ''current_work''), (''public_request'', request)])
            capabilities) (\<lambda>_. Inr ())) (\<lambda>_.
     let key = (to_vec H (ix request ''owner''), to_vec H (ix request ''request_kind'')) in
     if key \<in> set keys then Inl (err ''duplicate source request dependency'') else Inr (key # keys))"

definition operation_revision :: "host \<Rightarrow> str \<Rightarrow> str \<Rightarrow> capability_owner \<Rightarrow> str res" where
  "operation_revision H owner opid co =
     and_then (ok_or (om_get (co_operations co) opid)
       (err ''operation is not declared by its capability owner'')) (\<lambda>oc.
     Inr (digest H (obj
       [(''owner'', JStr owner), (''id'', JStr opid), (''operation'', en_operation oc),
        (''custody'', obj (map (\<lambda>e. (e, jopt JStr (om_get (co_effects co) e))) (oc_effects oc)))])))"

text \<open>The identity of an action: what makes two submissions the same logical effect.\<close>

definition logical_effect ::
  "host \<Rightarrow> str \<Rightarrow> str \<Rightarrow> str \<Rightarrow> json \<Rightarrow> str list \<Rightarrow> str \<Rightarrow> str" where
  "logical_effect H owner generation opid arguments effects authority = digest H (obj
     [(''owner'', JStr owner), (''effect_generation'', JStr generation),
      (''operation_id'', JStr opid), (''arguments'', arguments), (''effects'', jstrs effects),
      (''authority'', JStr authority)])"

definition action_dependency ::
  "host \<Rightarrow> capability_owner option \<Rightarrow> str \<Rightarrow> json list \<Rightarrow> str \<Rightarrow> str list \<Rightarrow> str" where
  "action_dependency H co dependency source_requests opid effects =
     (let src = (if source_requests = [] then dependency
                 else digest H (obj [(''revision'', JStr dependency),
                   (''source_requests'', JArr source_requests)])) in
      digest H (obj
        [(''source_dependencies'', JStr src),
         (''operation'', jopt en_operation (Option.bind co (\<lambda>c. om_get (co_operations c) opid))),
         (''effect_custody'', obj (map (\<lambda>e.
            (e, jopt JStr (Option.bind co (\<lambda>c. om_get (co_effects c) e)))) effects))]))"

definition normalize_action ::
  "host \<Rightarrow> action_input \<Rightarrow> str \<Rightarrow> capability_owner option \<Rightarrow> nat \<Rightarrow> action res" where
  "normalize_action H inp owner co i =
     (if om_get (ai_extra inp) ''priority'' \<noteq> None then
        Inl (err (fmt [owner, ''.actions['', nat_text i,
          ''].priority is obsolete; authority cannot be self-ranked'']))
      else
      and_then (require_text (ai_operation_id inp)
        (fmt [owner, ''.actions['', nat_text i, ''].operation_id''])) (\<lambda>opid.
      if \<not> is_object (ai_arguments inp) then
        Inl (err (fmt [owner, ''.actions['', nat_text i, ''].arguments must be an object'']))
      else
      and_then (strings (ai_effects inp)
        (fmt [owner, ''.actions['', nat_text i, ''].effects'']) False) (\<lambda>effects.
      let authority = (case ai_authority inp of None \<Rightarrow> owner | Some a \<Rightarrow> if a = [] then owner else a) in
      and_then (require_text (ai_dependency_revision inp) ''action.dependency_revision'') (\<lambda>dependency.
      let logical = logical_effect H owner (ai_effect_generation inp) opid (ai_arguments inp)
            effects authority;
          revision = action_dependency H co dependency (ai_source_requests inp) opid effects;
          consequence = fmt [''action:'', owner, '':'', digest H (obj
            [(''logical_effect_id'', JStr logical), (''dependency_revision'', JStr revision)])] in
      and_then (ok_or co (err ''operation requires admitted owner'')) (\<lambda>c.
      and_then (operation_revision H owner opid c) (\<lambda>operation.
      Inr \<lparr>na_source_requests = ai_source_requests inp, na_consequence_id = consequence,
        na_dependency_revision = revision, na_logical_effect_id = logical,
        na_operation_revision = operation, na_operation_id = opid,
        na_arguments = ai_arguments inp, na_effects = effects, na_authority = authority\<rparr>))))))"

definition contribution_action ::
  "resolver \<Rightarrow> host \<Rightarrow> capability_contract option \<Rightarrow> json \<Rightarrow> str \<Rightarrow> capability_owner option
   \<Rightarrow> nat \<Rightarrow> action_input \<Rightarrow> action res" where
  "contribution_action rr H capabilities intent owner co i inp =
     (if 16 < length (ai_source_requests inp)
      then Inl (err ''source request dependencies exceed bounded limit'')
      else and_then (fold_try (check_source_request rr H capabilities intent)
        (ai_source_requests inp) []) (\<lambda>_. normalize_action H inp owner co i))"

text \<open>The second pass: only declared operations, own authority, declared effects.\<close>

definition check_action :: "host \<Rightarrow> str \<Rightarrow> capability_owner \<Rightarrow> action \<Rightarrow> unit \<Rightarrow> unit res" where
  "check_action H owner co a u =
     and_then (ok_or (om_get (co_operations co) (na_operation_id a))
       (err (fmt [owner, '' action '', na_operation_id a, '' is not declared by its capability owner'']))) (\<lambda>oc.
     if na_authority a \<noteq> owner then
       Inl (err (fmt [owner, '' action '', na_operation_id a, '' cannot claim authority '', na_authority a]))
     else
     and_then (validate_operation_arguments H (na_arguments a) (oc_input_schema oc)
       (fmt [owner, '' action '', na_operation_id a])) (\<lambda>_.
     case find (\<lambda>e. e \<notin> set (oc_effects oc)) (na_effects a) of
       Some e \<Rightarrow> Inl (err (fmt [owner, '' action '', na_operation_id a,
         '' advertises undeclared effect '', e]))
     | None \<Rightarrow> Inr ()))"

section \<open>Blockers\<close>

definition normalize_blocker ::
  "host \<Rightarrow> blocker_input \<Rightarrow> str \<Rightarrow> str \<Rightarrow> nat \<Rightarrow> blocker res" where
  "normalize_blocker H inp owner revision i =
     (let basis = (case bi_basis inp of None \<Rightarrow> legacy_basis | Some b \<Rightarrow> b) in
      and_then (basis_validate H basis) (\<lambda>_.
      and_then (require_text (bi_code inp) (fmt [owner, ''.blockers['', nat_text i, ''].code''])) (\<lambda>code.
      and_then (require_text (bi_message inp)
        (fmt [owner, ''.blockers['', nat_text i, ''].message''])) (\<lambda>msg.
      let blocker_owner = (case bi_owner inp of None \<Rightarrow> owner | Some v \<Rightarrow> if v = [] then owner else v) in
      if blocker_owner \<noteq> owner then
        Inl (err (fmt [owner, '' blocker cannot claim owner '', blocker_owner]))
      else
      and_then (basis_scopes basis (bi_affects inp) owner
        (fmt [owner, ''.blockers['', nat_text i, ''].affects''])) (\<lambda>affected.
      let recovery = (case bi_recovery inp of
            None \<Rightarrow> None | Some r \<Rightarrow> if trim r = [] then None else Some r);
          identity = obj
            [(''code'', JStr code), (''message'', JStr msg), (''owner'', JStr blocker_owner),
             (''revision'', JStr revision), (''affects'', jstrs affected),
             (''recovery'', jopt JStr recovery), (''basis'', en_basis basis)] in
      Inr \<lparr>nb_basis = basis,
        nb_resolution = (if recovery \<noteq> None then ''owner-recovery-required''
                         else ''owner-resolution-unavailable''),
        nb_consequence_id = fmt [''blocker:'', owner, '':'', revision, '':'', digest H identity],
        nb_code = code, nb_message = msg, nb_owner = blocker_owner, nb_revision = revision,
        nb_affects = affected, nb_recovery = recovery\<rparr>)))))"

section \<open>Bounded decisions\<close>

definition human_eligible :: "human_eligibility \<Rightarrow> str \<Rightarrow> bool" where
  "human_eligible e owner \<longleftrightarrow>
     (if he_kind e = ''verification-judgment'' then
        owner = ''verification'' \<and> ix (he_declaration e) ''human_judgment_required'' = JBool True
      else if he_kind e = ''human-assignment'' then
        owner = ''assignment'' \<and> ix (he_declaration e) ''owner_kind'' = JStr ''human'' \<and>
        (case as_str (ix (he_declaration e) ''target_id'') of None \<Rightarrow> False | Some s \<Rightarrow> trim s \<noteq> [])
      else False)"

definition eligibility_validate ::
  "host \<Rightarrow> human_eligibility \<Rightarrow> str \<Rightarrow> str \<Rightarrow> json \<Rightarrow> unit res" where
  "eligibility_validate H e owner revision work =
     and_then (require_text (he_reference e) ''human eligibility reference'') (\<lambda>_.
     if he_source_revision e \<noteq> revision \<or> he_current_work e \<noteq> work
       \<or> he_declaration_revision e \<noteq> digest H (he_declaration e)
     then Inl (err ''human eligibility must match the current owner, work and declaration'')
     else if \<not> human_eligible e owner
     then Inl (err ''human eligibility requires an explicit Verification judgment or human-owned assignment'')
     else Inr ())"

definition check_choice :: "host \<Rightarrow> (str, json) omap \<Rightarrow> json \<Rightarrow> choice \<Rightarrow> unit \<Rightarrow> unit res" where
  "check_choice H fixed schema c u =
     validate_operation_arguments H (JObj (om_put ''answer'' (JStr (ch_id c)) fixed)) schema
       ''bounded answer choice''"

definition normalize_choice :: "str \<Rightarrow> nat \<Rightarrow> nat \<Rightarrow> choice \<Rightarrow> choice res" where
  "normalize_choice owner i j c =
     and_then (require_text (ch_id c)
       (fmt [owner, ''.decisions['', nat_text i, ''].choices['', nat_text j, ''].id''])) (\<lambda>cid.
     and_then (require_text (ch_label c)
       (fmt [owner, ''.decisions['', nat_text i, ''].choices['', nat_text j, ''].label''])) (\<lambda>label.
     Inr \<lparr>ch_id = cid, ch_label = label\<rparr>))"

definition human_context_texts :: "human_context \<Rightarrow> (str \<times> str) list" where
  "human_context_texts c =
     [(''proposed_action'', hc_proposed_action c), (''reason'', hc_reason c), (''context'', hc_context c),
      (''defer_preserves'', hc_defer_preserves c), (''authority_boundary'', hc_authority_boundary c)]"

definition check_human_context :: "str \<Rightarrow> nat \<Rightarrow> choice list \<Rightarrow> human_context \<Rightarrow> unit res" where
  "check_human_context owner i choices c =
     and_then (fold_try (\<lambda>(field, value) _. and_then (require_text value
         (fmt [owner, ''.decisions['', nat_text i, ''].human_context.'', field])) (\<lambda>_. Inr ()))
       (human_context_texts c) ()) (\<lambda>_.
     if choices = [] \<or> length (hc_consequences c) \<noteq> length choices
       \<or> (\<exists>ch \<in> set choices. blank (om_get (hc_consequences c) (ch_id ch)))
     then Inl (err ''human decision requires one consequence for every offered choice'')
     else Inr ())"

text \<open>The contract, owner and declared shape a bounded answer goes back to.\<close>

definition response_shape ::
  "capability_contract option \<Rightarrow> str \<Rightarrow> str \<Rightarrow> (capability_contract \<times> capability_owner \<times> request_shape) res" where
  "response_shape capabilities owner kind =
     and_then (ok_or capabilities (err ''bounded answer requires admitted capabilities'')) (\<lambda>cc.
     and_then (ok_or (om_get (cc_owners cc) owner)
       (err ''bounded answer owner is not admitted'')) (\<lambda>co.
     and_then (ok_or (om_get (co_requests co) kind)
       (err ''bounded answer names undeclared response request'')) (\<lambda>shape.
     Inr (cc, co, shape))))"

definition decision_identity ::
  "restriction_basis \<Rightarrow> str \<Rightarrow> str \<Rightarrow> str \<Rightarrow> str \<Rightarrow> decision_input \<Rightarrow> request_shape \<Rightarrow> work_identity \<Rightarrow> str
   \<Rightarrow> choice list \<Rightarrow> str list \<Rightarrow> json" where
  "decision_identity basis did owner revision question inp shape current contract_revision choices affected =
     obj ([(''basis'', en_basis basis), (''id'', JStr did), (''owner'', JStr owner),
       (''revision'', JStr revision), (''question'', JStr question),
       (''response_request'', en_answer_request (bd_response_request inp)),
       (''response_schema'', rs_input_schema shape), (''current_work'', en_work current),
       (''capability_revision'', JStr contract_revision),
       (''choices'', JArr (map en_choice choices)), (''affects'', jstrs affected)]
      @ opt_field ''material'' (\<lambda>m. m) (bd_material inp)
      @ opt_field ''human_context'' en_human_context (bd_human_context inp)
      @ opt_field ''human_eligibility'' en_eligibility (bd_human_eligibility inp))"

definition normalize_decision ::
  "host \<Rightarrow> decision_input \<Rightarrow> str \<Rightarrow> str \<Rightarrow> nat \<Rightarrow> capability_contract option \<Rightarrow> json \<Rightarrow> decision res" where
  "normalize_decision H inp owner revision i capabilities intent =
     (let basis = (case bd_basis inp of None \<Rightarrow> legacy_basis | Some b \<Rightarrow> b) in
      and_then (basis_validate H basis) (\<lambda>_.
      and_then (require_text (bd_id inp) (fmt [owner, ''.decisions['', nat_text i, ''].id''])) (\<lambda>did.
      and_then (require_text (bd_question inp)
        (fmt [owner, ''.decisions['', nat_text i, ''].question''])) (\<lambda>question.
      and_then (response_shape capabilities owner (aq_request_kind (bd_response_request inp)))
        (\<lambda>(cc, co, shape).
      and_then (current_work intent) (\<lambda>work.
      and_then (ok_or work (err ''bounded answer requires current_work'')) (\<lambda>current.
      and_then (ok_or (as_object (aq_arguments (bd_response_request inp)))
        (err ''response request arguments must be an object'')) (\<lambda>fixed.
      if om_get fixed ''answer'' \<noteq> None
      then Inl (err ''response request cannot prefill the human answer'')
      else
      and_then (fold_try (check_choice H fixed (rs_input_schema shape)) (bd_choices inp) ()) (\<lambda>_.
      and_then (collect_ix (normalize_choice owner i) 0 (bd_choices inp)) (\<lambda>choices.
      and_then (basis_scopes basis (bd_affects inp) owner
        (fmt [owner, ''.decisions['', nat_text i, ''].affects''])) (\<lambda>affected.
      if (bd_human_context inp \<noteq> None) \<noteq> (bd_human_eligibility inp \<noteq> None)
      then Inl (err ''human context requires an explicit current human eligibility basis'')
      else
      and_then (opt_try (\<lambda>e. eligibility_validate H e owner revision (en_work current))
        (bd_human_eligibility inp)) (\<lambda>_.
      and_then (opt_try (check_human_context owner i choices) (bd_human_context inp)) (\<lambda>_.
      let identity = decision_identity basis did owner revision question inp shape current
            (cc_revision cc) choices affected;
          consequence = fmt [''decision:'', owner, '':'', revision, '':'', digest H identity] in
      Inr \<lparr>nd_basis = basis,
        nd_resolution = (if bd_human_context inp \<noteq> None then ''bounded-human-answer''
                         else ''bounded-domain-answer''),
        nd_human_context = bd_human_context inp, nd_human_eligibility = bd_human_eligibility inp,
        nd_consequence_id = consequence, nd_id = did, nd_owner = owner, nd_revision = revision,
        nd_question = question, nd_material = bd_material inp,
        nd_response_request = obj
          [(''kind'', JStr PUBLIC_REQUEST_KIND), (''id'', JStr (fmt [''answer:'', consequence])),
           (''owner'', JStr owner), (''owner_revision'', JStr (co_revision co)),
           (''source_revision'', JStr revision),
           (''request_kind'', JStr (aq_request_kind (bd_response_request inp))),
           (''capability_revision'', JStr (cc_revision cc)), (''task_identity'', en_work current),
           (''arguments'', aq_arguments (bd_response_request inp))],
        nd_response_schema = rs_input_schema shape, nd_choices = choices,
        nd_affects = affected\<rparr>)))))))))))))"

section \<open>Outcome and response\<close>

definition normalize_outcome :: "outcome_input \<Rightarrow> str \<Rightarrow> outcome res" where
  "normalize_outcome inp owner =
     and_then (unique_strings (ui_required_claims inp) ''outcome.required_claims'') (\<lambda>required.
     and_then (require_text (ui_id inp) (fmt [owner, ''.outcome.id''])) (\<lambda>oid.
     and_then (require_text (ui_status inp) (fmt [owner, ''.outcome.status''])) (\<lambda>status.
     and_then (require_text (ui_claim inp) (fmt [owner, ''.outcome.claim''])) (\<lambda>claim.
     and_then (require_text (ui_evidence_revision inp)
       (fmt [owner, ''.outcome.evidence_revision''])) (\<lambda>evidence.
     and_then (strings (ui_residual_work inp) (fmt [owner, ''.outcome.residual_work'']) False) (\<lambda>residual.
     Inr \<lparr>ui_required_claims = required, ui_id = oid, ui_status = status, ui_claim = claim,
       ui_evidence_revision = evidence, ui_residual_work = residual\<rparr>))))))"

definition normalize_request_response :: "request_response \<Rightarrow> str \<Rightarrow> request_response res" where
  "normalize_request_response inp owner =
     and_then (require_text (rr_request_identity inp)
       (fmt [owner, ''.request_response.request_identity''])) (\<lambda>identity.
     and_then (unique_strings (rr_consequence_ids inp) ''request_response.consequence_ids'') (\<lambda>ids.
     if rr_status inp \<notin> {''action'', ''decision'', ''blocked'', ''settled''}
     then Inl (err (fmt [owner,
       ''.request_response.status must be action, decision, blocked, or settled'']))
     else Inr \<lparr>rr_request_identity = identity, rr_consequence_ids = ids, rr_status = rr_status inp\<rparr>))"

section \<open>The contribution\<close>

definition authority_bearing :: "contribution_input \<Rightarrow> bool" where
  "authority_bearing inp \<longleftrightarrow>
     ci_blockers inp \<noteq> [] \<or> ci_decisions inp \<noteq> [] \<or> ci_actions inp \<noteq> [] \<or>
     ci_allowed inp \<noteq> [] \<or> ci_blocked inp \<noteq> [] \<or> ci_outcome inp \<noteq> None \<or>
     ci_request_response inp \<noteq> None"

text \<open>Allow and restriction authority of one owner under the contract.\<close>

definition check_allowed :: "capability_contract \<Rightarrow> str \<Rightarrow> str \<Rightarrow> unit \<Rightarrow> unit res" where
  "check_allowed cc owner claim u =
     (if om_get (cc_claim_authorities cc) claim \<noteq> Some owner
      then Inl (err (fmt [owner, '' allows claim '', claim, '' without exclusive claim authority'']))
      else Inr ())"

definition may_restrict :: "capability_contract \<Rightarrow> str \<Rightarrow> str \<Rightarrow> bool" where
  "may_restrict cc owner scope \<longleftrightarrow>
     scope = fmt [''attestation:'', owner] \<or>
     (case om_get (cc_restriction_authorities cc) owner of None \<Rightarrow> False | Some s \<Rightarrow> scope \<in> set s)"

definition check_restriction :: "capability_contract \<Rightarrow> str \<Rightarrow> str \<Rightarrow> unit \<Rightarrow> unit res" where
  "check_restriction cc owner scope u =
     (if may_restrict cc owner scope then Inr ()
      else Inl (err (fmt [owner, '' restricts '', scope, '' without admitted restriction authority''])))"

definition restricted_scopes :: "blocker list \<Rightarrow> decision list \<Rightarrow> str list \<Rightarrow> str list" where
  "restricted_scopes blockers decisions blocked =
     concat (map nb_affects blockers) @ concat (map nd_affects decisions)
     @ map (\<lambda>claim. fmt [''claim:'', claim]) blocked"

definition check_authorities ::
  "capability_contract option \<Rightarrow> str \<Rightarrow> str list \<Rightarrow> str list \<Rightarrow> unit res" where
  "check_authorities capabilities owner allowed restricted =
     (case capabilities of
        None \<Rightarrow> Inr ()
      | Some cc \<Rightarrow>
          and_then (fold_try (check_allowed cc owner) allowed ()) (\<lambda>_.
          fold_try (check_restriction cc owner) restricted ()))"

definition check_outcome :: "capability_contract option \<Rightarrow> str \<Rightarrow> outcome option \<Rightarrow> unit res" where
  "check_outcome capabilities owner outcome =
     (case (capabilities, outcome) of
        (Some cc, Some u) \<Rightarrow>
          if om_get (cc_claim_authorities cc) (ui_claim u) \<noteq> Some owner
          then Inl (err (fmt [owner, '' outcome grants claim '', ui_claim u,
            '' without exclusive claim authority'']))
          else (case find (\<lambda>c. om_get (cc_claim_authorities cc) c = None) (ui_required_claims u) of
                  Some c \<Rightarrow> Inl (err (fmt [owner, '' outcome requires unknown claim '', c]))
                | None \<Rightarrow> Inr ())
      | _ \<Rightarrow> Inr ())"

definition contribution_actions ::
  "resolver \<Rightarrow> host \<Rightarrow> capability_contract option \<Rightarrow> json \<Rightarrow> str \<Rightarrow> capability_owner option
   \<Rightarrow> action_input list \<Rightarrow> action list res" where
  "contribution_actions rr H capabilities intent owner co inputs =
     and_then (collect_ix (contribution_action rr H capabilities intent owner co) 0 inputs) (\<lambda>unsorted.
     let actions = sort_key na_consequence_id unsorted in
     and_then (case co of None \<Rightarrow> Inr () | Some c \<Rightarrow> fold_try (check_action H owner c) actions ()) (\<lambda>_.
     Inr actions))"

text \<open>\<open>basis.get_or_insert_with(default)\<close>.\<close>

definition with_basis :: "restriction_basis \<Rightarrow> restriction_basis option \<Rightarrow> restriction_basis option" where
  "with_basis d b = (case b of None \<Rightarrow> Some d | Some x \<Rightarrow> Some x)"

definition contribution_blockers ::
  "host \<Rightarrow> restriction_basis \<Rightarrow> str \<Rightarrow> str \<Rightarrow> blocker_input list \<Rightarrow> blocker list res" where
  "contribution_blockers H d owner revision inputs =
     and_then (collect_ix (\<lambda>i b. normalize_blocker H (b\<lparr>bi_basis := with_basis d (bi_basis b)\<rparr>)
       owner revision i) 0 inputs) (\<lambda>bs. Inr (sort_key nb_consequence_id bs))"

definition contribution_decisions ::
  "host \<Rightarrow> restriction_basis \<Rightarrow> str \<Rightarrow> str \<Rightarrow> capability_contract option \<Rightarrow> json
   \<Rightarrow> decision_input list \<Rightarrow> decision list res" where
  "contribution_decisions H d owner revision capabilities intent inputs =
     and_then (collect_ix (\<lambda>i b. normalize_decision H (b\<lparr>bd_basis := with_basis d (bd_basis b)\<rparr>)
       owner revision i capabilities intent) 0 inputs) (\<lambda>ds. Inr (sort_key nd_consequence_id ds))"

definition normalize_contribution ::
  "resolver \<Rightarrow> host \<Rightarrow> contribution_input \<Rightarrow> capability_contract option \<Rightarrow> json \<Rightarrow> contribution res" where
  "normalize_contribution rr H inp capabilities intent =
     and_then (require_text (ci_owner inp) ''contribution.owner'') (\<lambda>owner.
     and_then (require_text (ci_revision inp) (fmt [owner, ''.revision''])) (\<lambda>revision.
     if om_get (ci_extra inp) ''terminal'' \<noteq> None then
       Inl (err (fmt [owner, ''.terminal is obsolete; use settled plus explicit outcome authority'']))
     else if \<not> is_object (ci_facts inp) then Inl (err (fmt [owner, ''.facts must be an object'']))
     else
     let co = Option.bind capabilities (\<lambda>cc. om_get (cc_owners cc) owner) in
     if authority_bearing inp \<and> co = None then
       Inl (err (fmt [''authority-bearing contribution '', owner,
         '' requires a current capability owner declaration'']))
     else
     and_then (contribution_actions rr H capabilities intent owner co (ci_actions inp)) (\<lambda>actions.
     let d = (case ci_restriction_basis inp of None \<Rightarrow> legacy_basis | Some b \<Rightarrow> b) in
     and_then (basis_validate H d) (\<lambda>_.
     and_then (contribution_blockers H d owner revision (ci_blockers inp)) (\<lambda>blockers.
     and_then (contribution_decisions H d owner revision capabilities intent (ci_decisions inp)) (\<lambda>decisions.
     if ci_blocked inp \<noteq> [] \<and> rb_kind d \<notin> {''task-requirement'', ''unclassified''}
     then Inl (err ''blocked claims require a task requirement basis'')
     else
     and_then (strings (ci_blocked inp) (fmt [owner, ''.claims.blocked'']) True) (\<lambda>blocked.
     and_then (strings (ci_allowed inp) (fmt [owner, ''.claims.allowed'']) True) (\<lambda>allowed.
     and_then (check_authorities capabilities owner allowed
       (restricted_scopes blockers decisions blocked)) (\<lambda>_.
     and_then (opt_try (\<lambda>u. normalize_outcome u owner) (ci_outcome inp)) (\<lambda>outcome.
     and_then (check_outcome capabilities owner outcome) (\<lambda>_.
     and_then (opt_try (\<lambda>r. normalize_request_response r owner) (ci_request_response inp)) (\<lambda>response.
     Inr \<lparr>nc_owner = owner, nc_revision = revision, nc_relevant = ci_relevant inp,
       nc_settled = ci_settled inp, nc_facts = ci_facts inp, nc_material = ci_material inp,
       nc_blockers = blockers, nc_decisions = decisions, nc_actions = actions,
       nc_allowed = filter (\<lambda>c. c \<notin> set blocked) allowed, nc_blocked = blocked,
       nc_outcome = outcome, nc_request_response = response\<rparr>))))))))))))"

section \<open>What a contribution may carry\<close>

text \<open>An action its owner is entitled to.\<close>

definition action_entitled :: "host \<Rightarrow> capability_contract \<Rightarrow> str \<Rightarrow> action \<Rightarrow> bool" where
  "action_entitled H cc owner a \<longleftrightarrow>
     (\<exists>co oc valid.
        om_get (cc_owners cc) owner = Some co \<and>
        om_get (co_operations co) (na_operation_id a) = Some oc \<and>
        na_authority a = owner \<and> set (na_effects a) \<subseteq> set (oc_effects oc) \<and>
        is_object (na_arguments a) \<and> schema_build H (oc_input_schema oc) = Some valid \<and>
        valid (na_arguments a) \<and>
        starts_with (na_consequence_id a) ''action:'' \<and> na_logical_effect_id a \<noteq> [] \<and>
        operation_revision H owner (na_operation_id a) co = Inr (na_operation_revision a))"

definition contribution_ok :: "host \<Rightarrow> capability_contract option \<Rightarrow> contribution \<Rightarrow> bool" where
  "contribution_ok H capabilities c \<longleftrightarrow>
     nc_owner c \<noteq> [] \<and> nc_revision c \<noteq> [] \<and>
     set (nc_allowed c) \<inter> set (nc_blocked c) = {} \<and>
     (case capabilities of
        None \<Rightarrow> nc_actions c = [] \<and> nc_blockers c = [] \<and> nc_decisions c = [] \<and> nc_allowed c = [] \<and>
          nc_blocked c = [] \<and> nc_outcome c = None \<and> nc_request_response c = None
      | Some cc \<Rightarrow>
          (\<forall>a \<in> set (nc_actions c). action_entitled H cc (nc_owner c) a) \<and>
          (\<forall>scope \<in> set (restricted_scopes (nc_blockers c) (nc_decisions c) (nc_blocked c)).
             may_restrict cc (nc_owner c) scope) \<and>
          (\<forall>claim \<in> set (nc_allowed c). om_get (cc_claim_authorities cc) claim = Some (nc_owner c)) \<and>
          (\<forall>u. nc_outcome c = Some u \<longrightarrow>
             om_get (cc_claim_authorities cc) (ui_claim u) = Some (nc_owner c) \<and>
             set (ui_required_claims u) \<subseteq> dom (om_get (cc_claim_authorities cc))))"

lemma validate_operation_arguments_Inr_iff [result_simps]:
  "validate_operation_arguments H v schema field = Inr u \<longleftrightarrow>
     is_object v \<and> (\<exists>valid. schema_validator H schema field = Inr valid \<and> valid v)"
  by (auto simp: validate_operation_arguments_def result_simps)

lemma schema_validator_Inr:
  "schema_validator H schema field = Inr valid \<Longrightarrow> schema_build H schema = Some valid"
  by (auto simp: schema_validator_def result_simps split: if_splits)

lemma normalize_action_Inr:
  assumes "normalize_action H inp owner co i = Inr a"
  shows "\<exists>c. co = Some c \<and> starts_with (na_consequence_id a) ''action:'' \<and> na_logical_effect_id a \<noteq> [] \<and>
    operation_revision H owner (na_operation_id a) c = Inr (na_operation_revision a)"
  using assms unfolding normalize_action_def
  by (auto simp: Let_def and_then_Inr_iff ok_or_Inr_iff starts_with_def fmt_def logical_effect_def digest_def
      split: if_splits)

lemma check_action_Inr:
  assumes "check_action H owner co a () = Inr ()"
  shows "\<exists>oc valid. om_get (co_operations co) (na_operation_id a) = Some oc \<and>
    na_authority a = owner \<and> set (na_effects a) \<subseteq> set (oc_effects oc) \<and>
    is_object (na_arguments a) \<and> schema_build H (oc_input_schema oc) = Some valid \<and>
    valid (na_arguments a)"
  using assms unfolding check_action_def
  by (auto simp: result_simps find_None_iff dest!: schema_validator_Inr split: if_splits option.splits)

lemma contribution_actions_entitled:
  assumes "contribution_actions rr H capabilities intent owner co inputs = Inr actions"
    and "a \<in> set actions"
  shows "\<exists>c. co = Some c \<and> check_action H owner c a () = Inr () \<and>
    starts_with (na_consequence_id a) ''action:'' \<and> na_logical_effect_id a \<noteq> [] \<and>
    operation_revision H owner (na_operation_id a) c = Inr (na_operation_revision a)"
proof -
  obtain unsorted where
    u: "collect_ix (contribution_action rr H capabilities intent owner co) 0 inputs = Inr unsorted"
    and a: "actions = sort_key na_consequence_id unsorted"
    and ch: "(case co of None \<Rightarrow> Inr () | Some c \<Rightarrow> fold_try (check_action H owner c) actions ()) = Inr ()"
    using assms(1) by (auto simp: contribution_actions_def Let_def and_then_Inr_iff)
  obtain i inp where "contribution_action rr H capabilities intent owner co i inp = Inr a"
    using collect_ix_Inr_set [OF u, of a] assms(2) a by auto
  then have "normalize_action H inp owner co i = Inr a"
    by (auto simp: contribution_action_def and_then_Inr_iff split: if_splits)
  then obtain c where "co = Some c" "starts_with (na_consequence_id a) ''action:''" "na_logical_effect_id a \<noteq> []"
    "operation_revision H owner (na_operation_id a) c = Inr (na_operation_revision a)"
    using normalize_action_Inr by blast
  then show ?thesis using ch assms(2) by (auto simp: fold_try_unit_Inr_iff)
qed

lemma check_authorities_Some_Inr_iff:
  "check_authorities (Some cc) owner allowed restricted = Inr u \<longleftrightarrow>
     (\<forall>c \<in> set allowed. om_get (cc_claim_authorities cc) c = Some owner) \<and>
     (\<forall>s \<in> set restricted. may_restrict cc owner s)"
  by (auto simp: check_authorities_def result_simps fold_try_unit_Inr_iff check_allowed_def
      check_restriction_def)

lemma check_outcome_Inr:
  "check_outcome (Some cc) owner (Some u) = Inr v \<Longrightarrow>
     om_get (cc_claim_authorities cc) (ui_claim u) = Some owner \<and>
     set (ui_required_claims u) \<subseteq> dom (om_get (cc_claim_authorities cc))"
  by (auto simp: check_outcome_def find_None_iff split: if_splits option.splits)

lemma normalize_contribution_InrE:
  assumes "normalize_contribution rr H inp capabilities intent = Inr c"
  obtains co allowed where
    "co = Option.bind capabilities (\<lambda>cc. om_get (cc_owners cc) (nc_owner c))"
    "nc_owner c \<noteq> []" "nc_revision c \<noteq> []" "authority_bearing inp \<longrightarrow> co \<noteq> None"
    "contribution_actions rr H capabilities intent (nc_owner c) co (ci_actions inp) = Inr (nc_actions c)"
    "contribution_blockers H (case ci_restriction_basis inp of None \<Rightarrow> legacy_basis | Some b \<Rightarrow> b)
       (nc_owner c) (nc_revision c) (ci_blockers inp) = Inr (nc_blockers c)"
    "contribution_decisions H (case ci_restriction_basis inp of None \<Rightarrow> legacy_basis | Some b \<Rightarrow> b)
       (nc_owner c) (nc_revision c) capabilities intent (ci_decisions inp) = Inr (nc_decisions c)"
    "nc_blocked c = sort_dedup (ci_blocked inp)" "allowed = sort_dedup (ci_allowed inp)"
    "nc_allowed c = filter (\<lambda>x. x \<notin> set (nc_blocked c)) allowed"
    "check_authorities capabilities (nc_owner c) allowed
       (restricted_scopes (nc_blockers c) (nc_decisions c) (nc_blocked c)) = Inr ()"
    "check_outcome capabilities (nc_owner c) (nc_outcome c) = Inr ()"
    "opt_try (\<lambda>u. normalize_outcome u (nc_owner c)) (ci_outcome inp) = Inr (nc_outcome c)"
    "opt_try (\<lambda>r. normalize_request_response r (nc_owner c)) (ci_request_response inp)
       = Inr (nc_request_response c)"
    "nc_relevant c = ci_relevant inp"
  using assms unfolding normalize_contribution_def
  by (elim and_then_InrE)
    (auto simp: require_text_Inr_iff strings_Inr_iff Let_def split: if_splits elim!: and_then_InrE)

lemma authority_bearing_empty:
  assumes "contribution_actions rr H capabilities intent owner co (ci_actions inp) = Inr actions"
    and "contribution_blockers H d owner revision (ci_blockers inp) = Inr blockers"
    and "contribution_decisions H d owner revision capabilities intent (ci_decisions inp) = Inr decisions"
    and "\<not> authority_bearing inp"
  shows "actions = [] \<and> blockers = [] \<and> decisions = []"
  using assms
  by (simp add: contribution_actions_def contribution_blockers_def contribution_decisions_def
      authority_bearing_def split: option.splits)

theorem normalize_contribution_ok:
  assumes "normalize_contribution rr H inp capabilities intent = Inr c"
  shows "contribution_ok H capabilities c"
proof -
  obtain co allowed where co: "co = Option.bind capabilities (\<lambda>cc. om_get (cc_owners cc) (nc_owner c))"
    and ne: "nc_owner c \<noteq> []" "nc_revision c \<noteq> []" and ab: "authority_bearing inp \<longrightarrow> co \<noteq> None"
    and act: "contribution_actions rr H capabilities intent (nc_owner c) co (ci_actions inp)
      = Inr (nc_actions c)"
    and bl: "contribution_blockers H (case ci_restriction_basis inp of None \<Rightarrow> legacy_basis | Some b \<Rightarrow> b)
      (nc_owner c) (nc_revision c) (ci_blockers inp) = Inr (nc_blockers c)"
    and de: "contribution_decisions H (case ci_restriction_basis inp of None \<Rightarrow> legacy_basis | Some b \<Rightarrow> b)
      (nc_owner c) (nc_revision c) capabilities intent (ci_decisions inp) = Inr (nc_decisions c)"
    and cl: "nc_blocked c = sort_dedup (ci_blocked inp)" "allowed = sort_dedup (ci_allowed inp)"
      "nc_allowed c = filter (\<lambda>x. x \<notin> set (nc_blocked c)) allowed"
    and au: "check_authorities capabilities (nc_owner c) allowed
      (restricted_scopes (nc_blockers c) (nc_decisions c) (nc_blocked c)) = Inr ()"
    and ou: "check_outcome capabilities (nc_owner c) (nc_outcome c) = Inr ()"
      "opt_try (\<lambda>u. normalize_outcome u (nc_owner c)) (ci_outcome inp) = Inr (nc_outcome c)"
      "opt_try (\<lambda>r. normalize_request_response r (nc_owner c)) (ci_request_response inp)
        = Inr (nc_request_response c)"
    using normalize_contribution_InrE [OF assms] by metis
  show ?thesis
  proof (cases capabilities)
    case None
    then have "\<not> authority_bearing inp" using co ab by simp
    then show ?thesis
      using authority_bearing_empty [OF act bl de] None ne cl opt_try_Inr_None [OF ou(2)] opt_try_Inr_None [OF ou(3)]
      by (simp add: contribution_ok_def authority_bearing_def)
  next
    case (Some cc)
    have "action_entitled H cc (nc_owner c) a" if a: "a \<in> set (nc_actions c)" for a
    proof -
      obtain k where k: "co = Some k" "check_action H (nc_owner c) k a () = Inr ()"
        "starts_with (na_consequence_id a) ''action:''" "na_logical_effect_id a \<noteq> []"
        "operation_revision H (nc_owner c) (na_operation_id a) k = Inr (na_operation_revision a)"
        using contribution_actions_entitled [OF act a] by blast
      show ?thesis
        using check_action_Inr [OF k(2)] k(1,3,4,5) co Some unfolding action_entitled_def by auto
    qed
    moreover have "om_get (cc_claim_authorities cc) (ui_claim u) = Some (nc_owner c) \<and>
        set (ui_required_claims u) \<subseteq> dom (om_get (cc_claim_authorities cc))" if "nc_outcome c = Some u" for u
      using check_outcome_Inr [of cc "nc_owner c" u] ou(1) that Some by simp
    ultimately show ?thesis
      using Some ne cl au by (simp add: contribution_ok_def check_authorities_Some_Inr_iff disjoint_iff)
  qed
qed

end
