(* ===== verification/Continuity.thy ===== *)
theory Continuity
  imports Routes
begin

text \<open>
  The decision context (\<open>src/src/core/src/continuity.rs\<close>): material decisions with
  their provenance, the supersession relation between them, and the projection of the
  consequences that are current for a scope. Every function of the file is a definition
  here; \<open>records\<close> is the \<open>BTreeMap\<close> of normalized records by identity.
\<close>

section \<open>References and actors\<close>

datatype reference = Reference (rf_owner: str) (rf_reference: str) (rf_revision: str)

datatype actor_kind = Agent | Human | Unattributed

datatype actor = Actor (ac_kind: actor_kind) (ac_id: str)

text \<open>The derived orders: field by field, constructors in their order.\<close>

definition reference_key :: "reference \<Rightarrow> str \<times> str \<times> str" where
  "reference_key r = (rf_owner r, rf_reference r, rf_revision r)"

definition kind_rank :: "actor_kind \<Rightarrow> nat" where
  "kind_rank k = (case k of Agent \<Rightarrow> 0 | Human \<Rightarrow> 1 | Unattributed \<Rightarrow> 2)"

definition actor_key :: "actor \<Rightarrow> nat \<times> str" where
  "actor_key a = (kind_rank (ac_kind a), ac_id a)"

lemma reference_key_inj: "reference_key r = reference_key s \<longleftrightarrow> r = s"
  by (cases r; cases s) (simp add: reference_key_def)

lemma actor_key_inj: "actor_key a = actor_key b \<longleftrightarrow> a = b"
  by (cases a; cases b) (auto simp: actor_key_def kind_rank_def split: actor_kind.splits)

instantiation reference :: linorder
begin

definition less_eq_reference :: "reference \<Rightarrow> reference \<Rightarrow> bool" where
  "r \<le> s \<longleftrightarrow> reference_key r \<le> reference_key s"

definition less_reference :: "reference \<Rightarrow> reference \<Rightarrow> bool" where
  "r < s \<longleftrightarrow> reference_key r < reference_key s"

instance
  by intro_classes
    (auto simp: less_eq_reference_def less_reference_def reference_key_inj simp flip: reference_key_inj)

end

instantiation actor :: linorder
begin

definition less_eq_actor :: "actor \<Rightarrow> actor \<Rightarrow> bool" where
  "a \<le> b \<longleftrightarrow> actor_key a \<le> actor_key b"

definition less_actor :: "actor \<Rightarrow> actor \<Rightarrow> bool" where
  "a < b \<longleftrightarrow> actor_key a < actor_key b"

instance
  by intro_classes
    (auto simp: less_eq_actor_def less_actor_def actor_key_inj simp flip: actor_key_inj)

end

section \<open>Data\<close>

record authority =
  au_actor :: actor
  au_basis :: "reference list"

record supersedes =
  su_id :: str
  su_material_revision :: str
  su_scope :: "str list"

record material =
  mr_id :: str
  mr_source :: reference
  mr_decision :: str
  mr_consequence :: str
  mr_rationale_reference :: str
  mr_authors :: "actor list"
  mr_contributors :: "actor list"
  mr_authority :: authority
  mr_scope :: "str list"
  mr_semantic_routes :: "str list"
  mr_dependencies :: "reference list"
  mr_context :: "reference list"
  mr_supersedes :: "supersedes list"
  mr_material_revision :: "str option"

record decision_admission =
  da_rationale_reference :: str
  da_id :: str
  da_material_revision :: str
  da_source :: reference

record dismissal =
  di_id :: str
  di_material_revision :: str
  di_reason :: str
  di_authority :: authority

record reconciliation =
  re_residue :: "str list"
  re_native_owner :: "str option"
  re_fallback_owner :: str
  re_destinations :: "decision_admission list"
  re_dismissals :: "dismissal list"

record decision_context =
  dc_records :: "material list"
  dc_admissions :: "decision_admission list"
  dc_current_dependencies :: "reference list"
  dc_applicable_scope :: "str list"
  dc_reconciliation :: "reconciliation option"

definition de_reference :: "json \<Rightarrow> reference option" where
  "de_reference v = do {
     f \<leftarrow> struct_fields True [''owner'', ''reference'', ''revision''] v;
     owner \<leftarrow> req de_str f ''owner'';
     reference \<leftarrow> req de_str f ''reference'';
     revision \<leftarrow> req de_str f ''revision'';
     Some (Reference owner reference revision) }"

text \<open>A unit variant: its name, or an object with this one key and \<open>null\<close>.\<close>

definition de_variant :: "(str \<Rightarrow> 'a option) \<Rightarrow> json \<Rightarrow> 'a option" where
  "de_variant f v = (case v of JStr s \<Rightarrow> f s | JObj [(s, JNull)] \<Rightarrow> f s | _ \<Rightarrow> None)"

definition actor_kind_of :: "str \<Rightarrow> actor_kind option" where
  "actor_kind_of s =
     (if s = ''agent'' then Some Agent else if s = ''human'' then Some Human
      else if s = ''unattributed'' then Some Unattributed else None)"

definition de_actor :: "json \<Rightarrow> actor option" where
  "de_actor v = do {
     f \<leftarrow> struct_fields True [''kind'', ''id''] v;
     kind \<leftarrow> req (de_variant actor_kind_of) f ''kind'';
     id \<leftarrow> req de_str f ''id'';
     Some (Actor kind id) }"

definition de_authority :: "json \<Rightarrow> authority option" where
  "de_authority v = do {
     f \<leftarrow> struct_fields True [''actor'', ''basis''] v;
     actor \<leftarrow> req de_actor f ''actor'';
     basis \<leftarrow> req (de_list de_reference) f ''basis'';
     Some \<lparr>au_actor = actor, au_basis = basis\<rparr> }"

definition de_supersedes :: "json \<Rightarrow> supersedes option" where
  "de_supersedes v = do {
     f \<leftarrow> struct_fields True [''id'', ''material_revision'', ''scope''] v;
     id \<leftarrow> req de_str f ''id'';
     material_revision \<leftarrow> req de_str f ''material_revision'';
     scope \<leftarrow> req (de_list de_str) f ''scope'';
     Some \<lparr>su_id = id, su_material_revision = material_revision, su_scope = scope\<rparr> }"

definition de_material :: "json \<Rightarrow> material option" where
  "de_material v = do {
     f \<leftarrow> struct_fields True
       [''id'', ''source'', ''decision'', ''consequence'', ''rationale_reference'', ''authors'',
        ''contributors'', ''authority'', ''scope'', ''semantic_routes'', ''dependencies'',
        ''context'', ''supersedes'', ''material_revision''] v;
     id \<leftarrow> req de_str f ''id'';
     src \<leftarrow> req de_reference f ''source'';
     decision \<leftarrow> req de_str f ''decision'';
     consequence \<leftarrow> req de_str f ''consequence'';
     rationale \<leftarrow> req de_str f ''rationale_reference'';
     authors \<leftarrow> req (de_list de_actor) f ''authors'';
     contributors \<leftarrow> dflt (de_list de_actor) [] f ''contributors'';
     authority \<leftarrow> req de_authority f ''authority'';
     scope \<leftarrow> req (de_list de_str) f ''scope'';
     routes \<leftarrow> dflt (de_list de_str) [] f ''semantic_routes'';
     dependencies \<leftarrow> dflt (de_list de_reference) [] f ''dependencies'';
     ctxt \<leftarrow> dflt (de_list de_reference) [] f ''context'';
     supersedes \<leftarrow> dflt (de_list de_supersedes) [] f ''supersedes'';
     revision \<leftarrow> opt de_str f ''material_revision'';
     Some \<lparr>mr_id = id, mr_source = src, mr_decision = decision, mr_consequence = consequence,
       mr_rationale_reference = rationale, mr_authors = authors, mr_contributors = contributors,
       mr_authority = authority, mr_scope = scope, mr_semantic_routes = routes,
       mr_dependencies = dependencies, mr_context = ctxt, mr_supersedes = supersedes,
       mr_material_revision = revision\<rparr> }"

definition de_decision_admission :: "json \<Rightarrow> decision_admission option" where
  "de_decision_admission v = do {
     f \<leftarrow> struct_fields True [''rationale_reference'', ''id'', ''material_revision'', ''source''] v;
     rationale \<leftarrow> req de_str f ''rationale_reference'';
     id \<leftarrow> req de_str f ''id'';
     revision \<leftarrow> req de_str f ''material_revision'';
     src \<leftarrow> req de_reference f ''source'';
     Some \<lparr>da_rationale_reference = rationale, da_id = id, da_material_revision = revision,
       da_source = src\<rparr> }"

definition de_dismissal :: "json \<Rightarrow> dismissal option" where
  "de_dismissal v = do {
     f \<leftarrow> struct_fields True [''id'', ''material_revision'', ''reason'', ''authority''] v;
     id \<leftarrow> req de_str f ''id'';
     revision \<leftarrow> req de_str f ''material_revision'';
     reason \<leftarrow> req de_str f ''reason'';
     authority \<leftarrow> req de_authority f ''authority'';
     Some \<lparr>di_id = id, di_material_revision = revision, di_reason = reason,
       di_authority = authority\<rparr> }"

definition de_reconciliation :: "json \<Rightarrow> reconciliation option" where
  "de_reconciliation v = do {
     f \<leftarrow> struct_fields True
       [''residue'', ''native_owner'', ''fallback_owner'', ''destinations'', ''dismissals''] v;
     residue \<leftarrow> req (de_list de_str) f ''residue'';
     native \<leftarrow> opt de_str f ''native_owner'';
     fallback \<leftarrow> req de_str f ''fallback_owner'';
     destinations \<leftarrow> req (de_list de_decision_admission) f ''destinations'';
     dismissals \<leftarrow> req (de_list de_dismissal) f ''dismissals'';
     Some \<lparr>re_residue = residue, re_native_owner = native, re_fallback_owner = fallback,
       re_destinations = destinations, re_dismissals = dismissals\<rparr> }"

definition de_decision_context :: "json \<Rightarrow> decision_context option" where
  "de_decision_context v = do {
     f \<leftarrow> struct_fields True
       [''records'', ''admissions'', ''current_dependencies'', ''applicable_scope'',
        ''reconciliation''] v;
     records \<leftarrow> req (de_list de_material) f ''records'';
     admissions \<leftarrow> req (de_list de_decision_admission) f ''admissions'';
     current \<leftarrow> req (de_list de_reference) f ''current_dependencies'';
     scope \<leftarrow> req (de_list de_str) f ''applicable_scope'';
     reconciliation \<leftarrow> opt de_reconciliation f ''reconciliation'';
     Some \<lparr>dc_records = records, dc_admissions = admissions, dc_current_dependencies = current,
       dc_applicable_scope = scope, dc_reconciliation = reconciliation\<rparr> }"

definition en_reference :: "reference \<Rightarrow> json" where
  "en_reference r = obj [(''owner'', JStr (rf_owner r)), (''reference'', JStr (rf_reference r)),
     (''revision'', JStr (rf_revision r))]"

definition en_actor_kind :: "actor_kind \<Rightarrow> json" where
  "en_actor_kind k = JStr (case k of Agent \<Rightarrow> ''agent'' | Human \<Rightarrow> ''human'' | Unattributed \<Rightarrow> ''unattributed'')"

definition en_actor :: "actor \<Rightarrow> json" where
  "en_actor a = obj [(''kind'', en_actor_kind (ac_kind a)), (''id'', JStr (ac_id a))]"

definition en_list :: "('a \<Rightarrow> json) \<Rightarrow> 'a list \<Rightarrow> json" where
  "en_list f xs = JArr (map f xs)"

definition en_authority :: "authority \<Rightarrow> json" where
  "en_authority a = obj [(''actor'', en_actor (au_actor a)), (''basis'', en_list en_reference (au_basis a))]"

definition en_supersedes :: "supersedes \<Rightarrow> json" where
  "en_supersedes s = obj [(''id'', JStr (su_id s)),
     (''material_revision'', JStr (su_material_revision s)), (''scope'', jstrs (su_scope s))]"

definition en_material :: "material \<Rightarrow> json" where
  "en_material r = obj
     ([(''id'', JStr (mr_id r)), (''source'', en_reference (mr_source r)),
       (''decision'', JStr (mr_decision r)), (''consequence'', JStr (mr_consequence r)),
       (''rationale_reference'', JStr (mr_rationale_reference r)),
       (''authors'', en_list en_actor (mr_authors r)),
       (''contributors'', en_list en_actor (mr_contributors r)),
       (''authority'', en_authority (mr_authority r)), (''scope'', jstrs (mr_scope r))]
      @ (if mr_semantic_routes r = [] then [] else [(''semantic_routes'', jstrs (mr_semantic_routes r))])
      @ [(''dependencies'', en_list en_reference (mr_dependencies r)),
         (''context'', en_list en_reference (mr_context r)),
         (''supersedes'', en_list en_supersedes (mr_supersedes r)),
         (''material_revision'', jopt JStr (mr_material_revision r))])"

section \<open>Normalization of a record\<close>

definition check_reference :: "reference \<Rightarrow> unit res" where
  "check_reference r =
     and_then (require_text (rf_owner r) ''decision reference owner'') (\<lambda>_.
     and_then (require_text (rf_reference r) ''decision reference'') (\<lambda>_.
     and_then (require_text (rf_revision r) ''decision reference revision'') (\<lambda>_. Inr ())))"

definition SCOPE_KINDS :: "str list" where
  "SCOPE_KINDS = [''path'', ''owner'', ''contract'', ''source'', ''operation'']"

definition check_scope :: "str \<Rightarrow> unit \<Rightarrow> unit res" where
  "check_scope value u =
     (case split_once CHR '':'' value of
        None \<Rightarrow> Inl (err ''decision scope requires an exact typed identity'')
      | Some (kind, identity) \<Rightarrow>
          if kind \<notin> set SCOPE_KINDS \<or> trim identity = []
          then Inl (err ''unsupported decision scope identity'') else Inr ())"

definition scopes :: "str list \<Rightarrow> str list res" where
  "scopes values = and_then (fold_try check_scope values ()) (\<lambda>_. Inr (sort_dedup values))"

definition check_texts :: "(str \<times> str) list \<Rightarrow> unit res" where
  "check_texts named =
     fold_try (\<lambda>(name, value) _. and_then (require_text value name) (\<lambda>_. Inr ())) named ()"

text \<open>One of the three reference lists: every reference checked, sorted, no two
  revisions of the same reference.\<close>

definition normalized_references :: "reference list \<Rightarrow> reference list res" where
  "normalized_references refs =
     and_then (fold_try (\<lambda>r _. check_reference r) refs ()) (\<lambda>_.
     let sorted = sort_dedup refs in
     if neighbours (\<lambda>a b. rf_owner a = rf_owner b \<and> rf_reference a = rf_reference b) sorted
     then Inl (err ''conflicting decision dependency revisions'') else Inr sorted)"

definition normalized_relation :: "str \<Rightarrow> str list \<Rightarrow> supersedes \<Rightarrow> supersedes res" where
  "normalized_relation self self_scope relation =
     and_then (require_text (su_id relation) ''superseded decision identity'') (\<lambda>_.
     and_then (require_text (su_material_revision relation) ''superseded material revision'') (\<lambda>_.
     and_then (scopes (su_scope relation)) (\<lambda>scope.
     if su_id relation = self \<or> scope = [] \<or> (\<exists>s \<in> set scope. s \<notin> set self_scope)
     then Inl (err ''supersession must name a different decision within the new decision scope'')
     else Inr (relation\<lparr>su_scope := scope\<rparr>))))"

text \<open>The digest covers everything but the source, the rationale reference and itself.\<close>

definition material_digest :: "host \<Rightarrow> material \<Rightarrow> str" where
  "material_digest H r = digest H (jremove ''material_revision'' (jremove ''rationale_reference''
     (jremove ''source'' (en_material r))))"

definition normalized_material :: "host \<Rightarrow> material \<Rightarrow> material res" where
  "normalized_material H r =
     and_then (route_ids (mr_semantic_routes r) ''decision semantic routes'') (\<lambda>routes.
     and_then (check_texts
       [(''identity'', mr_id r), (''decision'', mr_decision r), (''consequence'', mr_consequence r),
        (''rationale reference'', mr_rationale_reference r)]) (\<lambda>_.
     and_then (check_reference (mr_source r)) (\<lambda>_.
     if ac_kind (au_actor (mr_authority r)) = Unattributed
     then Inl (err ''Unattributed authorship cannot supply deciding authority'')
     else if mr_authors r = [] \<or> au_basis (mr_authority r) = [] \<or> mr_scope r = []
     then Inl (err ''decision requires authors, deciding authority basis and scope'')
     else
     and_then (check_texts (map (\<lambda>a. (''decision actor identity'', ac_id a))
       (mr_authors r @ mr_contributors r @ [au_actor (mr_authority r)]))) (\<lambda>_.
     and_then (scopes (mr_scope r)) (\<lambda>scope.
     and_then (normalized_references (au_basis (mr_authority r))) (\<lambda>basis.
     and_then (normalized_references (mr_dependencies r)) (\<lambda>dependencies.
     and_then (normalized_references (mr_context r)) (\<lambda>ctxt.
     and_then (collect (normalized_relation (mr_id r) scope) (mr_supersedes r)) (\<lambda>relations.
     let ordered = sort_key su_id relations in
     if neighbours (\<lambda>a b. su_id a = su_id b) ordered
     then Inl (err ''duplicate supersession target'')
     else
       let r' = r\<lparr>mr_semantic_routes := routes, mr_authors := sort_dedup (mr_authors r),
                mr_contributors := sort_dedup (mr_contributors r), mr_scope := scope,
                mr_authority := (mr_authority r)\<lparr>au_basis := basis\<rparr>,
                mr_dependencies := dependencies, mr_context := ctxt, mr_supersedes := ordered\<rparr>;
           revision = material_digest H r'
       in if mr_material_revision r \<noteq> None \<and> mr_material_revision r \<noteq> Some revision
          then Inl (err ''decision material revision differs from its contents'')
          else Inr (r'\<lparr>mr_material_revision := Some revision\<rparr>))))))))))"

definition normalize_material :: "host \<Rightarrow> json \<Rightarrow> json res" where
  "normalize_material H v =
     and_then (decoded (de_material v)) (\<lambda>r.
     and_then (normalized_material H r) (\<lambda>r'. Inr (en_material r')))"

section \<open>Supersession\<close>

type_synonym records = "(str, material) omap"

definition put_new :: "core_error \<Rightarrow> 'k::linorder \<Rightarrow> 'v \<Rightarrow> ('k, 'v) omap \<Rightarrow> ('k, 'v) omap res" where
  "put_new e k v m = (if om_get m k \<noteq> None then Inl e else Inr (om_put k v m))"

definition load_record :: "host \<Rightarrow> material \<Rightarrow> records \<Rightarrow> records res" where
  "load_record H r m =
     and_then (normalized_material H r) (\<lambda>r'.
     put_new (err ''duplicate material decision identity'') (mr_id r') r' m)"

definition load_admission ::
  "decision_admission \<Rightarrow> (str, decision_admission) omap \<Rightarrow> (str, decision_admission) omap res" where
  "load_admission a m = put_new (err ''duplicate decision admission'') (da_id a) a m"

type_synonym current_references = "(str \<times> str, str) omap"

definition load_current :: "reference \<Rightarrow> current_references \<Rightarrow> current_references res" where
  "load_current r m =
     and_then (check_reference r) (\<lambda>_.
     put_new (err ''duplicate current decision dependency'') (rf_owner r, rf_reference r) (rf_revision r) m)"

definition is_current :: "current_references \<Rightarrow> reference \<Rightarrow> bool" where
  "is_current current r \<longleftrightarrow> om_get current (rf_owner r, rf_reference r) = Some (rf_revision r)"

type_synonym replaced = "(str, str list) omap"

definition replaced_scopes :: "replaced \<Rightarrow> str \<Rightarrow> str list" where
  "replaced_scopes m k = (case om_get m k of None \<Rightarrow> [] | Some s \<Rightarrow> s)"

definition apply_relation :: "records \<Rightarrow> supersedes \<Rightarrow> replaced \<Rightarrow> replaced res" where
  "apply_relation records relation m =
     and_then (ok_or (om_get records (su_id relation)) (err ''supersession closure is incomplete'')) (\<lambda>prior.
     if Some (su_material_revision relation) \<noteq> mr_material_revision prior
       \<or> (\<exists>s \<in> set (su_scope relation). s \<notin> set (mr_scope prior))
     then Inl (err ''supersession target revision or scope differs'')
     else Inr (om_put (mr_id prior)
       (sort_dedup (replaced_scopes m (mr_id prior) @ su_scope relation)) m))"

definition admit_record ::
  "(str, decision_admission) omap \<Rightarrow> records \<Rightarrow> material \<Rightarrow> replaced \<Rightarrow> replaced res" where
  "admit_record admissions records r m =
     and_then (ok_or (om_get admissions (mr_id r))
       (err ''decision lacks independent host provenance admission'')) (\<lambda>a.
     if Some (da_material_revision a) \<noteq> mr_material_revision r \<or> da_source a \<noteq> mr_source r
       \<or> da_rationale_reference a \<noteq> mr_rationale_reference r
     then Inl (err ''decision admission does not bind exact source and semantic provenance'')
     else fold_try (apply_relation records) (mr_supersedes r) m)"

definition prior_ids :: "records \<Rightarrow> str \<Rightarrow> str list" where
  "prior_ids records x =
     (case om_get records x of None \<Rightarrow> [] | Some r \<Rightarrow> map su_id (mr_supersedes r))"

text \<open>
  The depth-first search for a cycle. \<open>active\<close> are the records on the current path,
  \<open>done\<close> the finished ones, the latest first. An unknown identity, which the closure
  check has excluded, makes the index panic; here it is an error of its own.
\<close>

function visit :: "records \<Rightarrow> str list \<Rightarrow> str \<Rightarrow> str list \<Rightarrow> str list res"
  and visit_all :: "records \<Rightarrow> str list \<Rightarrow> str list \<Rightarrow> str list \<Rightarrow> str list res" where
  "visit records active x finished =
     (if x \<in> set finished then Inr finished
      else if x \<in> set active then Inl (err ''cyclic decision supersession'')
      else if om_get records x = None then Inl (err ''unknown decision'')
      else (case visit_all records (x # active) (prior_ids records x) finished of
              Inl e \<Rightarrow> Inl e
            | Inr d \<Rightarrow> Inr (x # d)))"
| "visit_all records active [] finished = Inr finished"
| "visit_all records active (x # xs) finished =
     (case visit records active x finished of
        Inl e \<Rightarrow> Inl e
      | Inr d \<Rightarrow> visit_all records active xs d)"
  by pat_completeness auto
termination
proof (relation "inv_image (less_than <*lex*> less_than)
    (\<lambda>x. case x of
       Inl (records, active, _, _) \<Rightarrow> (card (dom (om_get records) - set active), 0)
     | Inr (records, active, xs, _) \<Rightarrow> (card (dom (om_get records) - set active), Suc (length xs)))")
qed (auto simp: finite_dom_map_of intro!: psubset_card_mono)

declare visit.simps [simp del]

definition acyclic_check :: "records \<Rightarrow> str list res" where
  "acyclic_check records = fold_try (\<lambda>x finished. visit records [] x finished) (om_keys records) []"

section \<open>Heads of a lineage\<close>

type_synonym lineage_heads = "(str \<times> str, str) omap"

text \<open>The relations of a record that hold in a scope, as identities.\<close>

definition scoped_priors :: "records \<Rightarrow> str \<Rightarrow> str \<Rightarrow> str list" where
  "scoped_priors records scope x =
     (case om_get records x of
        None \<Rightarrow> []
      | Some r \<Rightarrow> map su_id (filter (\<lambda>relation. scope \<in> set (su_scope relation)) (mr_supersedes r)))"

text \<open>The inner \<open>while let Some(ancestor) = pending.pop()\<close>; the head of the list is the
  end of the vector.\<close>

function walk ::
  "records \<Rightarrow> str \<Rightarrow> str \<Rightarrow> str list \<Rightarrow> str list \<Rightarrow> lineage_heads \<Rightarrow> lineage_heads res" where
  "walk records scope h [] visited heads = Inr heads"
| "walk records scope h (x # pending) visited heads =
     (if x \<in> set visited then walk records scope h pending visited heads
      else if om_get heads (x, scope) \<noteq> None \<and> om_get heads (x, scope) \<noteq> Some h
      then Inl (err ''competing decision supersession requires owner resolution'')
      else if om_get records x = None then Inl (err ''unknown decision'')
      else walk records scope h (rev (scoped_priors records scope x) @ pending) (x # visited)
             (om_put (x, scope) h heads))"
  by pat_completeness auto
termination
proof (relation "inv_image (less_than <*lex*> less_than)
    (\<lambda>(records, _, _, pending, visited, _).
      (card (dom (om_get records) - set visited), length pending))")
qed (auto simp: finite_dom_map_of intro!: psubset_card_mono)

declare walk.simps(2) [simp del]

definition record_heads ::
  "records \<Rightarrow> replaced \<Rightarrow> material \<Rightarrow> str \<Rightarrow> lineage_heads \<Rightarrow> lineage_heads res" where
  "record_heads records m r scope heads =
     (if scope \<in> set (replaced_scopes m (mr_id r)) then Inr heads
      else walk records scope (mr_id r) [mr_id r] [] heads)"

definition lineage_check :: "records \<Rightarrow> replaced \<Rightarrow> lineage_heads res" where
  "lineage_check records m =
     fold_try (\<lambda>r. fold_try (record_heads records m r) (mr_scope r)) (map snd records) []"

section \<open>Reconciliation with the durable owner\<close>

text \<open>What \<open>reconcile\<close> accumulates.\<close>

record resolved =
  rv_rows :: "json list"
  rv_sources :: "(str, reference \<times> str) omap"
  rv_dismissed :: "str list"

definition no_resolved :: resolved where
  "no_resolved = \<lparr>rv_rows = [], rv_sources = [], rv_dismissed = []\<rparr>"

definition residue_row :: "str \<Rightarrow> str \<Rightarrow> str \<Rightarrow> json" where
  "residue_row rid revision preferred = obj
     [(''id'', JStr rid), (''material_revision'', JStr revision), (''status'', JStr ''pending''),
      (''owner'', JStr preferred)]"

definition dismiss_residue ::
  "current_references \<Rightarrow> str \<Rightarrow> str \<Rightarrow> str \<Rightarrow> dismissal \<Rightarrow> resolved \<Rightarrow> resolved res" where
  "dismiss_residue current preferred rid revision d acc =
     and_then (require_text (di_reason d) ''decision dismissal reason'') (\<lambda>_.
     and_then (require_text (ac_id (au_actor (di_authority d))) ''dismissal deciding actor'') (\<lambda>_.
     if di_material_revision d \<noteq> revision \<or> au_basis (di_authority d) = []
     then Inl (err ''dismissal must bind the exact material decision and admitted authority basis'')
     else
     and_then (fold_try (\<lambda>r _. check_reference r) (au_basis (di_authority d)) ()) (\<lambda>_.
     if list_all (is_current current) (au_basis (di_authority d))
     then Inr (acc\<lparr>rv_rows := rv_rows acc @ [obj
           [(''id'', JStr rid), (''material_revision'', JStr revision), (''status'', JStr ''dismissed''),
            (''reason'', JStr (di_reason d)), (''authority'', en_authority (di_authority d))]],
         rv_dismissed := rid # rv_dismissed acc\<rparr>)
     else Inr (acc\<lparr>rv_rows := rv_rows acc @ [jset ''reason''
         (JStr ''dismissal authority is stale or unavailable'') (residue_row rid revision preferred)]\<rparr>))))"

definition current_destination ::
  "current_references \<Rightarrow> str \<Rightarrow> str \<Rightarrow> str \<Rightarrow> decision_admission \<Rightarrow> bool" where
  "current_destination current preferred rid revision d \<longleftrightarrow>
     da_id d = rid \<and> da_material_revision d = revision \<and> rf_owner (da_source d) = preferred \<and>
     is_current current (da_source d)"

definition place_residue ::
  "current_references \<Rightarrow> str \<Rightarrow> str \<Rightarrow> str \<Rightarrow> str \<Rightarrow> decision_admission list \<Rightarrow> resolved
   \<Rightarrow> resolved res" where
  "place_residue current role preferred rid revision destinations acc =
     (let row = residue_row rid revision preferred;
          matches = filter (current_destination current preferred rid revision) destinations in
      if 1 < length matches then Inl (err ''multiple current durable decision destinations'')
      else case matches of
        [] \<Rightarrow> Inr (acc\<lparr>rv_rows := rv_rows acc @ [jset ''reason''
          (JStr ''preferred owner has not currently admitted this exact material decision; preserve former source'')
          row]\<rparr>)
      | d # _ \<Rightarrow>
          and_then (check_reference (da_source d)) (\<lambda>_.
          and_then (require_text (da_rationale_reference d) ''destination rationale reference'') (\<lambda>_.
          Inr (acc\<lparr>rv_rows := rv_rows acc @
                 [jset ''source'' (en_reference (da_source d)) (jset ''status'' (JStr role) row)],
               rv_sources := om_put rid (da_source d, da_rationale_reference d) (rv_sources acc)\<rparr>))))"

definition reconcile_one ::
  "records \<Rightarrow> current_references \<Rightarrow> replaced \<Rightarrow> reconciliation \<Rightarrow> str \<Rightarrow> str \<Rightarrow> str
   \<Rightarrow> str list \<times> resolved \<Rightarrow> (str list \<times> resolved) res" where
  "reconcile_one records current m inp preferred role rid = (\<lambda>(seen, acc).
     if rid \<in> set seen then Inl (err ''duplicate decision residue'')
     else
     and_then (ok_or (om_get records rid)
       (err ''known decision residue is missing its admitted record'')) (\<lambda>r.
     let revision = (case mr_material_revision r of None \<Rightarrow> [] | Some v \<Rightarrow> v);
         dismissed = filter (\<lambda>d. di_id d = rid) (re_dismissals inp) in
     if 1 < length dismissed then Inl (err ''competing decision dismissals'')
     else
     and_then
       (case dismissed of
          d # _ \<Rightarrow> dismiss_residue current preferred rid revision d acc
        | [] \<Rightarrow>
            if om_get m rid \<noteq> None \<and> set (mr_scope r) \<subseteq> set (replaced_scopes m rid)
            then Inr (acc\<lparr>rv_rows := rv_rows acc @
              [jset ''status'' (JStr ''superseded'') (residue_row rid revision preferred)]\<rparr>)
            else place_residue current role preferred rid revision (re_destinations inp) acc) (\<lambda>acc'.
     Inr (rid # seen, acc'))))"

definition reconcile ::
  "reconciliation option \<Rightarrow> records \<Rightarrow> current_references \<Rightarrow> replaced \<Rightarrow> resolved res" where
  "reconcile inp records current m =
     (case inp of
        None \<Rightarrow> Inr no_resolved
      | Some i \<Rightarrow>
          let preferred = (case re_native_owner i of None \<Rightarrow> re_fallback_owner i | Some n \<Rightarrow> n);
              role = (if re_native_owner i = None then ''fallback'' else ''repo-native'') in
          and_then (require_text preferred ''admitted durable owner'') (\<lambda>_.
          and_then (fold_try (reconcile_one records current m i preferred role) (re_residue i)
            ([], no_resolved)) (\<lambda>(_, acc).
          Inr (acc\<lparr>rv_rows := sort_key (\<lambda>row. as_str (ix row ''id'')) (rv_rows acc)\<rparr>))))"

section \<open>Projection\<close>

text \<open>The scopes a record is selected for, and whether its applicability is unresolved.\<close>

definition route_matches :: "json \<Rightarrow> material \<Rightarrow> bool" where
  "route_matches routes r \<longleftrightarrow>
     (\<exists>route \<in> set (mr_semantic_routes r). JStr route \<in> set (elements (ix routes ''routes'')))"

definition select_scope :: "json option \<Rightarrow> str list \<Rightarrow> material \<Rightarrow> str list \<times> bool" where
  "select_scope routes applicable r =
     (let selected = filter (\<lambda>s. s \<in> set applicable) (mr_scope r) in
      if selected = [] \<and> mr_semantic_routes r \<noteq> [] then
        (case (case routes of
                 None \<Rightarrow> None
               | Some v \<Rightarrow> if ix v ''status'' = JStr ''current'' then Some v else None) of
           None \<Rightarrow> ([], True)
         | Some v \<Rightarrow>
             if route_matches v r then (mr_scope r, False)
             else ([], ix v ''posture'' = JStr ''unresolved''))
      else (selected, False))"

definition stale_references :: "current_references \<Rightarrow> material \<Rightarrow> reference list" where
  "stale_references current r =
     sort_dedup (filter (\<lambda>d. \<not> is_current current d)
       (au_basis (mr_authority r) @ mr_dependencies r @ mr_context r))"

definition record_status :: "str list \<Rightarrow> reference list \<Rightarrow> str" where
  "record_status remaining stale =
     (if remaining = [] then ''superseded'' else if stale \<noteq> [] then ''stale'' else ''current'')"

definition unresolved_state :: "material \<Rightarrow> json" where
  "unresolved_state r = obj
     [(''id'', JStr (mr_id r)), (''material_revision'', jopt JStr (mr_material_revision r)),
      (''status'', JStr ''applicability-unresolved''), (''current_scope'', JArr []),
      (''source'', en_reference (mr_source r)),
      (''rationale_reference'', JStr (mr_rationale_reference r))]"

definition project_record ::
  "json option \<Rightarrow> str list \<Rightarrow> current_references \<Rightarrow> replaced \<Rightarrow> resolved \<Rightarrow> material
   \<Rightarrow> json list \<times> json list" where
  "project_record routes applicable current m reconciled r =
     (let (selected, unresolved) = select_scope routes applicable r;
          states = (if unresolved then [unresolved_state r] else []) in
      if selected = [] then ([], states)
      else
        let superseded = replaced_scopes m (mr_id r);
            remaining = filter (\<lambda>s. s \<notin> set superseded) selected;
            stale = stale_references current r;
            status = record_status remaining stale;
            (src, rationale) = (case om_get (rv_sources reconciled) (mr_id r) of
               Some p \<Rightarrow> p | None \<Rightarrow> (mr_source r, mr_rationale_reference r));
            state = obj
              [(''id'', JStr (mr_id r)), (''material_revision'', jopt JStr (mr_material_revision r)),
               (''source'', en_reference src), (''status'', JStr status),
               (''current_scope'', jstrs (if status = ''current'' then remaining else [])),
               (''superseded_scope'', jstrs (filter (\<lambda>s. s \<in> set superseded) selected)),
               (''stale_dependencies'', en_list en_reference stale),
               (''rationale_reference'', JStr rationale)];
            consequence = obj
              [(''id'', JStr (mr_id r)), (''material_revision'', jopt JStr (mr_material_revision r)),
               (''scope'', jstrs remaining), (''summary'', JStr (mr_consequence r)),
               (''source'', en_reference src), (''authors'', en_list en_actor (mr_authors r)),
               (''authority'', en_authority (mr_authority r))]
        in (if status = ''current'' \<and> mr_id r \<notin> set (rv_dismissed reconciled) then [consequence] else [],
            states @ [state]))"

text \<open>The checked relation of a context.\<close>

record checked_context =
  kc_records :: records
  kc_current :: current_references
  kc_replaced :: replaced
  kc_applicable :: "str list"

definition check_context :: "host \<Rightarrow> decision_context \<Rightarrow> checked_context res" where
  "check_context H c =
     (if 64 < length (dc_records c)
      then Inl (err ''decision context must be a bounded selection (at most 64 records)'')
      else
      and_then (scopes (dc_applicable_scope c)) (\<lambda>applicable.
      and_then (fold_try (load_record H) (dc_records c) []) (\<lambda>records.
      and_then (fold_try load_admission (dc_admissions c) []) (\<lambda>admissions.
      and_then (fold_try load_current (dc_current_dependencies c) []) (\<lambda>current.
      and_then (fold_try (admit_record admissions records) (map snd records) []) (\<lambda>m.
      and_then (acyclic_check records) (\<lambda>_.
      and_then (lineage_check records m) (\<lambda>_.
      Inr \<lparr>kc_records = records, kc_current = current, kc_replaced = m,
        kc_applicable = applicable\<rparr>))))))))"

definition project :: "host \<Rightarrow> decision_context \<Rightarrow> json option \<Rightarrow> json option res" where
  "project H c routes =
     and_then (check_context H c) (\<lambda>k.
     and_then (reconcile (dc_reconciliation c) (kc_records k) (kc_current k) (kc_replaced k)) (\<lambda>reconciled.
     let parts = map (project_record routes (kc_applicable k) (kc_current k) (kc_replaced k) reconciled)
           (map snd (kc_records k));
         consequences = concat (map fst parts);
         states = concat (map snd parts) in
     if states = [] \<and> rv_rows reconciled = [] then Inr None
     else Inr (Some (obj
       ([(''consequences'', JArr consequences), (''states'', JArr states)]
        @ (if rv_rows reconciled = [] then [] else [(''reconciliation'', JArr (rv_rows reconciled))]))))))"

section \<open>The supersession relation is acyclic\<close>

definition supersession :: "records \<Rightarrow> (str \<times> str) set" where
  "supersession records = {(x, p). p \<in> set (prior_ids records x)}"

text \<open>A list in which every decision comes before (above) the ones it supersedes.\<close>

fun topological :: "records \<Rightarrow> str list \<Rightarrow> bool" where
  "topological records [] \<longleftrightarrow> True"
| "topological records (x # xs) \<longleftrightarrow>
     x \<notin> set xs \<and> set (prior_ids records x) \<subseteq> set xs \<and> topological records xs"

lemma visit_Inr_cases:
  assumes "visit records active x finished = Inr d"
  obtains "x \<in> set finished" "d = finished"
  | d' where "x \<notin> set finished" "x \<notin> set active" "om_get records x \<noteq> None" "d = x # d'"
      "visit_all records (x # active) (prior_ids records x) finished = Inr d'"
  using assms by (auto simp: visit.simps split: if_splits sum.splits)

lemma visit_topological:
  "visit records active x finished = Inr d \<Longrightarrow> topological records finished \<Longrightarrow>
     topological records d \<and> x \<in> set d \<and> set finished \<subseteq> set d \<and>
     (set d - set finished) \<inter> set active = {}"
  "visit_all records active xs finished = Inr d \<Longrightarrow> topological records finished \<Longrightarrow>
     topological records d \<and> set xs \<subseteq> set d \<and> set finished \<subseteq> set d \<and>
     (set d - set finished) \<inter> set active = {}"
proof (induction records active x finished and records active xs finished arbitrary: d and d
    rule: visit_visit_all.induct)
  case (1 records active x finished)
  from "1.prems"(1) show ?case
  proof (cases rule: visit_Inr_cases)
    case 1
    then show ?thesis using "1.prems"(2) by simp
  next
    case (2 d')
    then have "topological records d' \<and> set (prior_ids records x) \<subseteq> set d' \<and>
        set finished \<subseteq> set d' \<and> (set d' - set finished) \<inter> set (x # active) = {}"
      using "1.IH" "1.prems"(2) by blast
    then show ?thesis using 2 by auto
  qed
next
  case (3 records active x xs finished)
  then obtain d' where d': "visit records active x finished = Inr d'"
    "visit_all records active xs d' = Inr d"
    by (auto split: sum.splits)
  then show ?case using "3.IH"(1) [OF d'(1)] "3.IH"(2) [OF d'(1,2)] "3.prems"(2) by auto
qed simp

lemma topological_rank:
  "topological records d \<Longrightarrow>
     \<exists>rank :: str \<Rightarrow> nat. \<forall>x \<in> set d. rank x < length d \<and>
       (\<forall>p \<in> set (prior_ids records x). rank p < rank x)"
proof (induction d)
  case (Cons x d)
  then obtain rank :: "str \<Rightarrow> nat" where rank: "\<forall>y \<in> set d. rank y < length d \<and>
      (\<forall>p \<in> set (prior_ids records y). rank p < rank y)"
    by auto
  have closed: "\<forall>y \<in> set d. x \<notin> set (prior_ids records y)"
  proof -
    have "topological records e \<Longrightarrow> y \<in> set e \<Longrightarrow> set (prior_ids records y) \<subseteq> set e" for e y
      by (induction e) auto
    then show ?thesis using Cons.prems by auto
  qed
  have "\<forall>y \<in> set (x # d). (rank(x := length d)) y < length (x # d) \<and>
      (\<forall>p \<in> set (prior_ids records y). (rank(x := length d)) p < (rank(x := length d)) y)"
    using rank closed Cons.prems by (auto simp: less_Suc_eq)
  then show ?case by blast
qed simp

lemma acyclic_checked:
  assumes "acyclic_check records = Inr d"
  shows "acyclic (supersession records)"
proof -
  have "topological records d \<and> dom (om_get records) \<subseteq> set d"
  proof
    show "topological records d"
      using assms unfolding acyclic_check_def
      by (rule fold_try_invariant) (simp_all add: visit_topological(1))
    have "x \<in> set d" if "x \<in> set (om_keys records)" for x
      using assms unfolding acyclic_check_def
      by (rule fold_try_establish [where P = "topological records" and x = x])
        (use that in \<open>auto dest: visit_topological(1)\<close>)
    then show "dom (om_get records) \<subseteq> set d" by (auto simp: dom_map_of_conv_image_fst)
  qed
  then obtain rank :: "str \<Rightarrow> nat" where "\<forall>x \<in> set d. \<forall>p \<in> set (prior_ids records x). rank p < rank x"
    using topological_rank by blast
  moreover have "x \<in> set d" if "p \<in> set (prior_ids records x)" for x p
    using that \<open>topological records d \<and> dom (om_get records) \<subseteq> set d\<close>
    by (cases "om_get records x") (auto simp: prior_ids_def)
  ultimately have "supersession records \<subseteq> (measure rank)\<inverse>"
    by (auto simp: supersession_def)
  then show ?thesis
    using acyclic_subset wf_acyclic [OF wf_measure] acyclic_converse by metis
qed

section \<open>Each scope of a lineage has one head\<close>

definition scoped_supersession :: "records \<Rightarrow> str \<Rightarrow> (str \<times> str) set" where
  "scoped_supersession records scope = {(x, p). p \<in> set (scoped_priors records scope x)}"

text \<open>A record that still speaks for a scope.\<close>

definition is_head :: "records \<Rightarrow> replaced \<Rightarrow> str \<Rightarrow> material \<Rightarrow> bool" where
  "is_head records m scope r \<longleftrightarrow>
     r \<in> set (map snd records) \<and> scope \<in> set (mr_scope r) \<and>
     scope \<notin> set (replaced_scopes m (mr_id r))"

lemma walk_Inr_cases:
  assumes "walk records scope h (x # pending) visited heads = Inr heads'"
  obtains "x \<in> set visited" "walk records scope h pending visited heads = Inr heads'"
  | "x \<notin> set visited" "om_get heads (x, scope) \<in> {None, Some h}"
      "walk records scope h (rev (scoped_priors records scope x) @ pending) (x # visited)
        (om_put (x, scope) h heads) = Inr heads'"
  using assms by (auto simp: walk.simps split: if_splits)

lemma walk_keeps:
  "walk records scope h pending visited heads = Inr heads' \<Longrightarrow> om_get heads k = Some v \<Longrightarrow>
     om_get heads' k = Some v"
proof (induction records scope h pending visited heads rule: walk.induct)
  case (2 records scope h x pending visited heads)
  from "2.prems"(1) show ?case
  proof (cases rule: walk_Inr_cases)
    case 1
    then show ?thesis using "2.IH"(1) "2.prems"(2) by blast
  next
    case 2
    have known: "om_get records x \<noteq> None"
      using "2.prems"(1) \<open>x \<notin> set visited\<close> by (auto simp: walk.simps split: if_splits)
    have "om_get (om_put (x, scope) h heads) k = Some v"
      using 2 "2.prems"(2) by (auto simp: omap_simps)
    then show ?thesis using "2.IH"(2) 2 known by auto
  qed
qed simp

lemma walk_labels:
  "walk records scope h pending visited heads = Inr heads' \<Longrightarrow>
     \<forall>x \<in> set visited. om_get heads (x, scope) = Some h \<Longrightarrow>
     \<forall>x \<in> set visited. set (scoped_priors records scope x) \<subseteq> set visited \<union> set pending \<Longrightarrow>
     \<exists>V. set pending \<union> set visited \<subseteq> V \<and>
       (\<forall>x \<in> V. om_get heads' (x, scope) = Some h \<and> set (scoped_priors records scope x) \<subseteq> V)"
proof (induction records scope h pending visited heads rule: walk.induct)
  case (1 records scope h visited heads)
  then show ?case by (intro exI [of _ "set visited"]) auto
next
  case (2 records scope h x pending visited heads)
  from "2.prems"(1) show ?case
  proof (cases rule: walk_Inr_cases)
    case 1
    have "\<forall>y \<in> set visited. set (scoped_priors records scope y) \<subseteq> set visited \<union> set pending"
      using "2.prems"(3) 1 by auto
    then obtain V where "set pending \<union> set visited \<subseteq> V"
      "\<forall>y \<in> V. om_get heads' (y, scope) = Some h \<and> set (scoped_priors records scope y) \<subseteq> V"
      using "2.IH"(1) [OF 1 "2.prems"(2)] by blast
    then show ?thesis using 1 by (intro exI [of _ V]) auto
  next
    case 2
    have known: "om_get records x \<noteq> None"
      using "2.prems"(1) \<open>x \<notin> set visited\<close> by (auto simp: walk.simps split: if_splits)
    have free: "\<not> (om_get heads (x, scope) \<noteq> None \<and> om_get heads (x, scope) \<noteq> Some h)"
      using 2(2) by auto
    have "\<forall>y \<in> set (x # visited). om_get (om_put (x, scope) h heads) (y, scope) = Some h"
      using "2.prems"(2) by (auto simp: omap_simps)
    moreover have "\<forall>y \<in> set (x # visited). set (scoped_priors records scope y) \<subseteq>
        set (x # visited) \<union> set (rev (scoped_priors records scope x) @ pending)"
      using "2.prems"(3) by auto
    ultimately obtain V where
      "set (rev (scoped_priors records scope x) @ pending) \<union> set (x # visited) \<subseteq> V"
      "\<forall>y \<in> V. om_get heads' (y, scope) = Some h \<and> set (scoped_priors records scope y) \<subseteq> V"
      using "2.IH"(2) [OF 2(1) free known 2(3)] by blast
    then show ?thesis by (intro exI [of _ V]) auto
  qed
qed

definition labels :: "records \<Rightarrow> str \<Rightarrow> material \<Rightarrow> lineage_heads \<Rightarrow> bool" where
  "labels records scope r heads \<longleftrightarrow>
     (\<forall>a. (mr_id r, a) \<in> (scoped_supersession records scope)\<^sup>* \<longrightarrow>
        om_get heads (a, scope) = Some (mr_id r))"

lemma record_heads_keeps:
  "record_heads records m r scope heads = Inr heads' \<Longrightarrow> labels records scope' r' heads \<Longrightarrow>
     labels records scope' r' heads'"
  unfolding record_heads_def labels_def by (auto split: if_splits intro: walk_keeps)

lemma record_heads_labels:
  assumes "record_heads records m r scope heads = Inr heads'"
    and "scope \<notin> set (replaced_scopes m (mr_id r))"
  shows "labels records scope r heads'"
proof -
  obtain V where V: "mr_id r \<in> V"
    "\<forall>x \<in> V. om_get heads' (x, scope) = Some (mr_id r) \<and> set (scoped_priors records scope x) \<subseteq> V"
    using walk_labels [of records scope "mr_id r" "[mr_id r]" "[]" heads heads'] assms
    by (auto simp: record_heads_def)
  have "a \<in> V" if "(mr_id r, a) \<in> (scoped_supersession records scope)\<^sup>*" for a
    using that V by induction (auto simp: scoped_supersession_def)
  then show ?thesis using V(2) by (auto simp: labels_def)
qed

lemma lineage_check_labels:
  assumes "lineage_check records m = Inr heads" and "is_head records m scope r"
  shows "labels records scope r heads"
proof -
  have keep: "labels records scope r v"
    if "fold_try (record_heads records m r') (mr_scope r') u = Inr v" "labels records scope r u" for r' u v
    using that by (rule fold_try_invariant) (erule record_heads_keeps)
  have start: "labels records scope r v"
    if "fold_try (record_heads records m r) (mr_scope r) u = Inr v" for u v
    using that TrueI
    by (rule fold_try_establish [where P = "\<lambda>_. True" and x = scope])
      (use assms(2) record_heads_labels record_heads_keeps in \<open>auto simp: is_head_def\<close>)
  show ?thesis
    using assms(1) TrueI unfolding lineage_check_def
    by (rule fold_try_establish [where P = "\<lambda>_. True" and x = r])
      (use assms(2) start keep in \<open>auto simp: is_head_def\<close>)
qed

lemma heads_unique:
  assumes "lineage_check records m = Inr heads"
    and "is_head records m scope r1" and "is_head records m scope r2"
    and "(mr_id r1, a) \<in> (scoped_supersession records scope)\<^sup>*"
    and "(mr_id r2, a) \<in> (scoped_supersession records scope)\<^sup>*"
  shows "mr_id r1 = mr_id r2"
proof -
  have "om_get heads (a, scope) = Some (mr_id r1)" "om_get heads (a, scope) = Some (mr_id r2)"
    using lineage_check_labels [OF assms(1,2)] lineage_check_labels [OF assms(1,3)] assms(4,5)
    unfolding labels_def by blast+
  then show ?thesis by simp
qed

section \<open>What a checked context holds\<close>

lemma material_digest_revision [simp]:
  "material_digest H (r\<lparr>mr_material_revision := v\<rparr>) = material_digest H r"
proof -
  have "jremove ''material_revision'' (en_material (r\<lparr>mr_material_revision := v\<rparr>)) =
      jremove ''material_revision'' (en_material r)"
    unfolding en_material_def by (simp add: jremove_obj)
  then show ?thesis
    unfolding material_digest_def
    by (simp only: jremove_commute [of "''material_revision''"])
qed

lemma put_new_Inr_iff [result_simps]:
  "put_new e k v m = Inr m' \<longleftrightarrow> om_get m k = None \<and> m' = om_put k v m"
  by (auto simp: put_new_def)

text \<open>A normalized record: its lists are sets, its revision is the digest of its contents.\<close>

definition material_ok :: "host \<Rightarrow> material \<Rightarrow> bool" where
  "material_ok H r \<longleftrightarrow>
     mr_material_revision r = Some (material_digest H r) \<and>
     ac_kind (au_actor (mr_authority r)) \<noteq> Unattributed \<and>
     mr_scope r \<noteq> [] \<and> mr_authors r \<noteq> [] \<and> au_basis (mr_authority r) \<noteq> [] \<and>
     sorted_wrt (<) (mr_scope r) \<and> distinct (map su_id (mr_supersedes r)) \<and>
     (\<forall>relation \<in> set (mr_supersedes r). su_id relation \<noteq> mr_id r \<and> su_scope relation \<noteq> [] \<and>
        set (su_scope relation) \<subseteq> set (mr_scope r))"

lemma scopes_Inr_iff [result_simps]:
  "scopes vs = Inr ws \<longleftrightarrow> (\<forall>v \<in> set vs. check_scope v () = Inr ()) \<and> ws = sort_dedup vs"
  by (auto simp: scopes_def result_simps fold_try_unit_Inr_iff)

lemma normalized_references_Inr_iff [result_simps]:
  "normalized_references refs = Inr s \<longleftrightarrow>
     (\<forall>r \<in> set refs. check_reference r = Inr ()) \<and> s = sort_dedup refs \<and>
     \<not> neighbours (\<lambda>a b. rf_owner a = rf_owner b \<and> rf_reference a = rf_reference b) s"
  by (auto simp: normalized_references_def result_simps fold_try_unit_Inr_iff Let_def)

lemma normalized_relation_Inr:
  "normalized_relation self sc relation = Inr r' \<Longrightarrow>
     su_id r' \<noteq> self \<and> su_scope r' \<noteq> [] \<and> set (su_scope r') \<subseteq> set sc"
  by (auto simp: normalized_relation_def result_simps split: if_splits)

lemma normalized_material_ok:
  assumes "normalized_material H r = Inr r'"
  shows "material_ok H r' \<and> mr_id r' = mr_id r"
proof -
  obtain relations basis where rel: "collect (normalized_relation (mr_id r) (sort_dedup (mr_scope r)))
      (mr_supersedes r) = Inr relations"
    and d: "distinct (map su_id relations)"
    and c: "ac_kind (au_actor (mr_authority r)) \<noteq> Unattributed"
      "mr_authors r \<noteq> []" "au_basis (mr_authority r) \<noteq> []" "mr_scope r \<noteq> []"
    and r': "mr_material_revision r' = Some (material_digest H r')" "mr_id r' = mr_id r"
      "mr_authority r' = (mr_authority r)\<lparr>au_basis := sort_dedup (au_basis (mr_authority r))\<rparr>"
      "mr_scope r' = sort_dedup (mr_scope r)" "mr_authors r' = sort_dedup (mr_authors r)"
      "mr_supersedes r' = sort_key su_id relations"
    using assms unfolding normalized_material_def
    by (elim and_then_InrE) (auto simp: result_simps Let_def split: if_splits elim!: and_then_InrE)
  have "\<forall>relation \<in> set relations. su_id relation \<noteq> mr_id r \<and> su_scope relation \<noteq> [] \<and>
      set (su_scope relation) \<subseteq> set (mr_scope r)"
    using collect_Inr_set [OF rel] normalized_relation_Inr by fastforce
  moreover have "distinct (map su_id (sort_key su_id relations))"
    using d mset_eq_imp_distinct_iff [of "map su_id (sort_key su_id relations)" "map su_id relations"]
    by (simp only: mset_map mset_sort)
  ultimately show ?thesis using c r' by (simp add: material_ok_def)
qed

definition records_ok :: "host \<Rightarrow> records \<Rightarrow> bool" where
  "records_ok H records \<longleftrightarrow>
     om_ok records \<and> (\<forall>x r. om_get records x = Some r \<longrightarrow> mr_id r = x \<and> material_ok H r)"

lemma load_records_ok:
  assumes "fold_try (load_record H) rs [] = Inr records"
  shows "records_ok H records"
  using assms
proof (rule fold_try_invariant)
  show "records_ok H []" by (simp add: records_ok_def)
next
  fix r u v
  assume "records_ok H u" and "load_record H r u = Inr v"
  then show "records_ok H v"
    by (auto simp: load_record_def records_ok_def result_simps om_ok_put omap_simps
        dest: normalized_material_ok split: if_splits)
qed

lemma load_admissions_source:
  assumes "fold_try load_admission as [] = Inr m" and "om_get m k = Some a"
  shows "a \<in> set as \<and> da_id a = k"
proof -
  have "\<forall>k a. om_get m k = Some a \<longrightarrow> a \<in> set as \<and> da_id a = k"
    using assms(1)
    by (rule fold_try_invariant) (auto simp: load_admission_def result_simps omap_simps split: if_splits)
  then show ?thesis using assms(2) by blast
qed

text \<open>An admission that binds a record exactly.\<close>

definition admitted_by :: "decision_admission list \<Rightarrow> material \<Rightarrow> bool" where
  "admitted_by as r \<longleftrightarrow>
     (\<exists>a \<in> set as. da_id a = mr_id r \<and> Some (da_material_revision a) = mr_material_revision r \<and>
        da_source a = mr_source r \<and> da_rationale_reference a = mr_rationale_reference r)"

lemma check_context_Inr:
  assumes "check_context H c = Inr k"
  shows "records_ok H (kc_records k)"
    "\<forall>r \<in> set (map snd (kc_records k)). admitted_by (dc_admissions c) r"
    "acyclic (supersession (kc_records k))"
    "\<exists>heads. lineage_check (kc_records k) (kc_replaced k) = Inr heads"
proof -
  obtain records admissions current m d heads applicable where
    r: "fold_try (load_record H) (dc_records c) [] = Inr records"
    and a: "fold_try load_admission (dc_admissions c) [] = Inr admissions"
    and m: "fold_try (admit_record admissions records) (map snd records) [] = Inr m"
    and d: "acyclic_check records = Inr d" and h: "lineage_check records m = Inr heads"
    and k: "k = \<lparr>kc_records = records, kc_current = current, kc_replaced = m, kc_applicable = applicable\<rparr>"
    using assms unfolding check_context_def by (auto simp: and_then_Inr_iff split: if_splits)
  show "records_ok H (kc_records k)" using load_records_ok [OF r] by (simp add: k)
  show "acyclic (supersession (kc_records k))" using acyclic_checked [OF d] by (simp add: k)
  show "\<exists>heads. lineage_check (kc_records k) (kc_replaced k) = Inr heads" using h by (simp add: k)
  have "admitted_by (dc_admissions c) x" if "x \<in> set (map snd records)" for x
    using m TrueI that
  proof (rule fold_try_establish [where P = "\<lambda>_. True" and x = x and Q = "\<lambda>_. admitted_by (dc_admissions c) x"])
    fix u v assume "admit_record admissions records x u = Inr v"
    then show "admitted_by (dc_admissions c) x"
      using load_admissions_source [OF a]
      by (auto simp: admit_record_def admitted_by_def result_simps split: if_splits)
  qed simp_all
  then show "\<forall>r \<in> set (map snd (kc_records k)). admitted_by (dc_admissions c) r" by (simp add: k)
qed

section \<open>What a projection shows\<close>

definition all_references :: "material \<Rightarrow> reference list" where
  "all_references r = au_basis (mr_authority r) @ mr_dependencies r @ mr_context r"

lemma select_scope_subset: "set (fst (select_scope routes applicable r)) \<subseteq> set (mr_scope r)"
  by (auto simp: select_scope_def Let_def split: option.splits)

lemma project_record_consequence:
  assumes "item \<in> set (fst (project_record routes applicable current m reconciled r))"
  obtains sc where "ix item ''id'' = JStr (mr_id r)" "ix item ''scope'' = jstrs sc" "sc \<noteq> []"
    "set sc \<subseteq> set (mr_scope r)" "set sc \<inter> set (replaced_scopes m (mr_id r)) = {}"
    "list_all (is_current current) (all_references r)" "mr_id r \<notin> set (rv_dismissed reconciled)"
proof -
  obtain selected unresolved where sel: "select_scope routes applicable r = (selected, unresolved)"
    by fastforce
  define remaining where "remaining = filter (\<lambda>s. s \<notin> set (replaced_scopes m (mr_id r))) selected"
  have "record_status remaining (stale_references current r) = ''current''"
    and notd: "mr_id r \<notin> set (rv_dismissed reconciled)"
    and item: "ix item ''id'' = JStr (mr_id r)" "ix item ''scope'' = jstrs remaining"
    using assms
    by (auto simp: project_record_def sel Let_def remaining_def split: if_splits option.splits prod.splits)
  then have "remaining \<noteq> []" and fresh: "stale_references current r = []"
    by (auto simp: record_status_def split: if_splits)
  moreover have "list_all (is_current current) (all_references r)"
    using fresh by (auto simp: stale_references_def all_references_def list_all_iff filter_empty_conv)
  moreover have "set remaining \<subseteq> set (mr_scope r)"
    using select_scope_subset [of routes applicable r] by (auto simp: sel remaining_def)
  moreover have "set remaining \<inter> set (replaced_scopes m (mr_id r)) = {}"
    by (auto simp: remaining_def)
  ultimately show ?thesis using that [of remaining] item notd by blast
qed

lemma project_Some:
  assumes "project H c routes = Inr (Some out)"
  obtains k reconciled where "check_context H c = Inr k"
    "reconcile (dc_reconciliation c) (kc_records k) (kc_current k) (kc_replaced k) = Inr reconciled"
    "elements (ix out ''consequences'') = concat (map (fst \<circ> project_record routes (kc_applicable k)
       (kc_current k) (kc_replaced k) reconciled \<circ> snd) (kc_records k))"
  using assms unfolding project_def
  by (auto simp: and_then_Inr_iff Let_def comp_def split: if_splits)

end
