(* ===== verification/Decision.thy ===== *)
theory Decision
  imports Contribution Continuity
begin

text \<open>
  The decision (\<open>compile\<close> of \<open>src/src/core/src/lib.rs\<close>): the contributions of the
  relevant owners are composed into the ready actions, the decision to ask for, the
  blockers, the claim boundary and the terminal authority. The stages of the function
  are definitions of their own, in its order; \<open>compile_with\<close> composes them.
\<close>

section \<open>The public request and its response\<close>

definition response_candidates :: "contribution \<Rightarrow> str \<Rightarrow> str list" where
  "response_candidates c status =
     (if status = ''action'' then map na_consequence_id (nc_actions c)
      else if status = ''decision'' then map nd_consequence_id (nc_decisions c)
      else if status = ''blocked'' then map nb_consequence_id (nc_blockers c)
      else [])"

definition check_response ::
  "public_request \<Rightarrow> contribution \<Rightarrow> request_response \<Rightarrow> json res" where
  "check_response r c resp =
     (if nc_owner c \<noteq> pr_owner r then
        Inl (err (fmt [''public request owner '', pr_owner r, '' cannot be answered by '', nc_owner c]))
      else if \<not> nc_relevant c then
        Inl (err (fmt [''public request owner '', pr_owner r, '' returned a non-current response'']))
      else if nc_revision c \<noteq> pr_source_revision r then
        Inl (err (fmt [''public request response from '', pr_owner r, '' is stale for its source revision'']))
      else if rr_request_identity resp \<noteq> pr_identity r then
        Inl (err (fmt [''public request response from '', pr_owner r, '' references a different request'']))
      else if (rr_status resp = ''settled'') \<noteq> (rr_consequence_ids resp = [])
        \<or> \<not> set (rr_consequence_ids resp) \<subseteq> set (response_candidates c (rr_status resp)) then
        Inl (err ''request response must name its exact current owner consequences of the declared response kind'')
      else Inr (obj
        [(''request_id'', JStr (pr_id r)), (''request_identity'', JStr (pr_identity r)),
         (''owner'', JStr (pr_owner r)), (''owner_revision'', JStr (pr_owner_revision r)),
         (''source_revision'', JStr (pr_source_revision r)),
         (''request_kind'', JStr (pr_request_kind r)), (''result_kind'', JStr (pr_result_kind r)),
         (''status'', JStr (rr_status resp)), (''consequence_ids'', jstrs (rr_consequence_ids resp))]))"

definition resolve_public_request ::
  "public_request option \<Rightarrow> contribution list \<Rightarrow> json option res" where
  "resolve_public_request request contributions =
     (let responses = filter (\<lambda>c. nc_request_response c \<noteq> None) contributions in
      case request of
        None \<Rightarrow>
          if responses \<noteq> []
          then Inl (err ''request_response cannot exist without intent.public_request'')
          else Inr None
      | Some r \<Rightarrow>
          (case responses of
             [c] \<Rightarrow>
               (case nc_request_response c of
                  Some resp \<Rightarrow> and_then (check_response r c resp) (\<lambda>v. Inr (Some v))
                | None \<Rightarrow> Inl (err ''public request requires exactly one owner response''))
           | _ \<Rightarrow> Inl (err ''public request requires exactly one owner response'')))"

section \<open>Actions of several owners\<close>

record owned_action =
  oa_owner :: str
  oa_action :: action

definition pending_action :: "owned_action \<Rightarrow> json" where
  "pending_action o' = jset ''source_owner'' (JStr (oa_owner o')) (en_action (oa_action o'))"

text \<open>
  The domains an action reads and writes. Unknown reads have no footprint. (An effect
  without a domain would make the index panic; the contract invariant excludes it.)
\<close>

definition footprint :: "capability_contract \<Rightarrow> owned_action \<Rightarrow> (str list \<times> str list) option" where
  "footprint cc o' = do {
     co \<leftarrow> om_get (cc_owners cc) (oa_owner o');
     oc \<leftarrow> om_get (co_operations co) (na_operation_id (oa_action o'));
     reads \<leftarrow> oc_reads oc;
     Some (reads, List.map_filter (om_get (co_effects co)) (oc_effects oc)) }"

definition disjoint_lists :: "str list \<Rightarrow> str list \<Rightarrow> bool" where
  "disjoint_lists xs ys \<longleftrightarrow> list_all (\<lambda>x. x \<notin> set ys) xs"

definition independent_actions ::
  "capability_contract option \<Rightarrow> owned_action \<Rightarrow> owned_action \<Rightarrow> bool" where
  "independent_actions capabilities left right =
     (case capabilities of
        None \<Rightarrow> False
      | Some cc \<Rightarrow>
          (case (footprint cc left, footprint cc right) of
             (Some (lr, lw), Some (rr, rw)) \<Rightarrow>
               disjoint_lists lw rw \<and> disjoint_lists lw rr \<and> disjoint_lists rw lr
           | _ \<Rightarrow> False))"

definition unconstrained :: "str list \<Rightarrow> action \<Rightarrow> bool" where
  "unconstrained constrained a \<longleftrightarrow>
     TASK \<notin> set constrained \<and> na_consequence_id a \<notin> set constrained \<and>
     (\<forall>e \<in> set (na_effects a). fmt [''effect:'', e] \<notin> set constrained)"

definition INVOCATION_KIND :: str where
  "INVOCATION_KIND = ''agentic-workspace/operation-invocation/v1''"

definition invocation :: "owned_action \<Rightarrow> json" where
  "invocation o' =
     (let a = oa_action o';
          inv = obj
            [(''kind'', JStr INVOCATION_KIND), (''consequence_id'', JStr (na_consequence_id a)),
             (''operation_id'', JStr (na_operation_id a)), (''arguments'', na_arguments a),
             (''effects'', jstrs (na_effects a)), (''authority'', JStr (na_authority a)),
             (''source_owner'', JStr (oa_owner o')),
             (''expected_dependency_revision'', JStr (na_dependency_revision a)),
             (''operation_revision'', JStr (na_operation_revision a)),
             (''idempotency_key'', JStr (na_logical_effect_id a))]
      in if na_source_requests a = [] then inv
         else jset ''source_requests'' (JArr (na_source_requests a)) inv)"

section \<open>Terminal authority\<close>

definition outcome_complete ::
  "intended_goal \<Rightarrow> contribution \<Rightarrow> outcome \<Rightarrow> str list \<Rightarrow> str list \<Rightarrow> str list \<Rightarrow> bool" where
  "outcome_complete intended owner u constrained allowed blocked \<longleftrightarrow>
     ui_id u = io_id intended \<and> ui_claim u = io_claim intended \<and> ui_status u = ''complete'' \<and>
     ui_evidence_revision u = nc_revision owner \<and> ui_residual_work u = [] \<and>
     (\<forall>c \<in> set (ui_required_claims u).
        c \<in> set allowed \<and> c \<notin> set blocked \<and> fmt [''claim:'', c] \<notin> set constrained) \<and>
     ui_claim u \<in> set allowed \<and> ui_claim u \<notin> set blocked \<and>
     TASK \<notin> set constrained \<and> fmt [''claim:'', io_claim intended] \<notin> set constrained \<and>
     fmt [''outcome:'', io_id intended] \<notin> set constrained"

definition terminal_value :: "contribution \<Rightarrow> outcome \<Rightarrow> json" where
  "terminal_value owner u = obj
     [(''owner'', JStr (nc_owner owner)), (''revision'', JStr (nc_revision owner)),
      (''id'', JStr (ui_id u)), (''status'', JStr (ui_status u)), (''claim'', JStr (ui_claim u)),
      (''evidence_revision'', JStr (ui_evidence_revision u)),
      (''residual_work'', jstrs (ui_residual_work u)),
      (''required_claims'', jstrs (ui_required_claims u))]"

definition terminal_authority ::
  "intended_goal option \<Rightarrow> contribution list \<Rightarrow> str list \<Rightarrow> str list \<Rightarrow> str list \<Rightarrow> json option" where
  "terminal_authority intended relevant constrained allowed blocked = do {
     i \<leftarrow> intended;
     owner \<leftarrow> find (\<lambda>c. nc_owner c = io_owner i) relevant;
     u \<leftarrow> nc_outcome owner;
     (if outcome_complete i owner u constrained allowed blocked
      then Some (terminal_value owner u) else None) }"

section \<open>Composition\<close>

text \<open>The values \<open>compile\<close> derives from the relevant contributions.\<close>

record composition =
  cp_blockers :: "blocker list"
  cp_decisions :: "decision list"
  cp_actions :: "owned_action list"
  cp_constrained :: "str list"
  cp_available :: "owned_action list"
  cp_independent :: bool
  cp_ready :: "owned_action list"
  cp_task_decisions :: "decision list"
  cp_requested_decisions :: "decision list"
  cp_decision_request :: "decision option"
  cp_composition_blocker :: "json option"
  cp_allowed :: "str list"
  cp_blocked :: "str list"
  cp_terminal :: "json option"
  cp_status :: str

definition all_blockers :: "contribution list \<Rightarrow> blocker list" where
  "all_blockers relevant = concat (map nc_blockers relevant)"

definition all_decisions :: "contribution list \<Rightarrow> decision list" where
  "all_decisions relevant =
     sort_key (\<lambda>d. (nd_owner d, nd_id d, nd_consequence_id d)) (concat (map nc_decisions relevant))"

definition all_actions :: "contribution list \<Rightarrow> owned_action list" where
  "all_actions relevant =
     sort_key (\<lambda>o'. (oa_owner o', na_operation_id (oa_action o'), na_consequence_id (oa_action o')))
       (concat (map (\<lambda>c. map (\<lambda>a. \<lparr>oa_owner = nc_owner c, oa_action = a\<rparr>) (nc_actions c)) relevant))"

definition constrained_scopes :: "contribution list \<Rightarrow> str list" where
  "constrained_scopes relevant =
     sort_dedup (concat (map nb_affects (all_blockers relevant))
       @ concat (map nd_affects (all_decisions relevant)))"

definition available_actions :: "contribution list \<Rightarrow> owned_action list" where
  "available_actions relevant =
     filter (\<lambda>o'. unconstrained (constrained_scopes relevant) (oa_action o')) (all_actions relevant)"

definition all_independent :: "capability_contract option \<Rightarrow> owned_action list \<Rightarrow> bool" where
  "all_independent capabilities = sorted_wrt (independent_actions capabilities)"

definition ready_actions :: "capability_contract option \<Rightarrow> contribution list \<Rightarrow> owned_action list" where
  "ready_actions capabilities relevant =
     (if all_independent capabilities (available_actions relevant)
      then available_actions relevant else [])"

definition requested :: "json option \<Rightarrow> decision \<Rightarrow> bool" where
  "requested resolution d \<longleftrightarrow>
     (case resolution of
        None \<Rightarrow> False
      | Some v \<Rightarrow> ix v ''status'' = JStr ''decision'' \<and>
          JStr (nd_consequence_id d) \<in> set (elements (ix v ''consequence_ids'')))"

definition action_composition ::
  "capability_contract option \<Rightarrow> contribution list \<Rightarrow> str \<Rightarrow> json option" where
  "action_composition capabilities relevant input_revision =
     (let available = available_actions relevant in
      if all_independent capabilities available then None
      else Some (obj
        [(''code'', JStr ''multiple-actions''),
         (''message'', JStr ''current actions have conflicting or unknown read/effect relationships''),
         (''owner'', JStr ''operating-decision''), (''revision'', JStr input_revision),
         (''affects'', jstrs (map (\<lambda>o'. na_consequence_id (oa_action o')) available)),
         (''alternatives'', JArr (map pending_action available))]))"

definition decision_composition :: "decision list \<Rightarrow> str \<Rightarrow> json" where
  "decision_composition task_decisions input_revision = obj
     [(''code'', JStr ''multiple-decisions''),
      (''message'', JStr ''multiple task-wide decisions require an explicit dependency or authority relation''),
      (''owner'', JStr ''operating-decision''), (''revision'', JStr input_revision),
      (''affects'', jstrs [TASK]), (''alternatives'', JArr (map en_decision task_decisions))]"

definition choose_decision ::
  "owned_action list \<Rightarrow> json option \<Rightarrow> decision list \<Rightarrow> decision list \<Rightarrow> decision option" where
  "choose_decision ready composed task_decisions requested_decisions =
     (if ready = [] \<and> composed = None then
        (case (task_decisions, requested_decisions) of
           ([d], _) \<Rightarrow> Some d
         | ([], [d]) \<Rightarrow> Some d
         | _ \<Rightarrow> None)
      else None)"

definition decision_status ::
  "json option \<Rightarrow> owned_action list \<Rightarrow> bool \<Rightarrow> decision option \<Rightarrow> str" where
  "decision_status terminal ready globally_blocked decision_request =
     (if terminal \<noteq> None then ''terminal''
      else if ready \<noteq> [] then ''actionable''
      else if globally_blocked then ''blocked''
      else if decision_request \<noteq> None then ''decision''
      else ''direct'')"

definition compose ::
  "capability_contract option \<Rightarrow> intended_goal option \<Rightarrow> json option \<Rightarrow> str \<Rightarrow> contribution list
   \<Rightarrow> composition" where
  "compose capabilities intended resolution input_revision relevant =
     (let blockers = all_blockers relevant;
          decisions = all_decisions relevant;
          constrained = constrained_scopes relevant;
          available = available_actions relevant;
          ready = ready_actions capabilities relevant;
          task_decisions = filter (\<lambda>d. TASK \<in> set (nd_affects d)) decisions;
          requested_decisions = filter (requested resolution) decisions;
          composed = action_composition capabilities relevant input_revision;
          decision_request = choose_decision ready composed task_decisions requested_decisions;
          composition_blocker =
            (if composed \<noteq> None then composed
             else if length ready \<noteq> 1 \<and> 1 < length task_decisions
             then Some (decision_composition task_decisions input_revision) else None);
          blocked_claims = sort_dedup (concat (map nc_blocked relevant));
          allowed_claims = sort_dedup
            (filter (\<lambda>c. c \<notin> set blocked_claims) (concat (map nc_allowed relevant)));
          terminal = terminal_authority intended relevant constrained allowed_claims blocked_claims;
          globally_blocked = (composition_blocker \<noteq> None
            \<or> (\<exists>b \<in> set blockers. TASK \<in> set (nb_affects b)))
      in \<lparr>cp_blockers = blockers, cp_decisions = decisions, cp_actions = all_actions relevant,
          cp_constrained = constrained, cp_available = available,
          cp_independent = all_independent capabilities available, cp_ready = ready,
          cp_task_decisions = task_decisions, cp_requested_decisions = requested_decisions,
          cp_decision_request = decision_request, cp_composition_blocker = composition_blocker,
          cp_allowed = allowed_claims, cp_blocked = blocked_claims, cp_terminal = terminal,
          cp_status = decision_status terminal ready globally_blocked decision_request\<rparr>)"

section \<open>Compiling a decision\<close>

record decision_input_value =
  iv_contributions :: "contribution_input list"
  iv_decision_context :: "decision_context option"
  iv_intent :: json
  iv_capability_contract :: "capability_contract_input option"

definition de_decision_input :: "json \<Rightarrow> decision_input_value option" where
  "de_decision_input v = do {
     f \<leftarrow> struct_fields True [''contributions'', ''decision_context'', ''intent'', ''capability_contract''] v;
     contributions \<leftarrow> req (de_list de_contribution) f ''contributions'';
     ctxt \<leftarrow> opt de_decision_context f ''decision_context'';
     intent \<leftarrow> dflt de_any (obj []) f ''intent'';
     contract \<leftarrow> opt de_capability_contract f ''capability_contract'';
     Some \<lparr>iv_contributions = contributions, iv_decision_context = ctxt, iv_intent = intent,
       iv_capability_contract = contract\<rparr> }"

definition DECISION_KIND :: str where
  "DECISION_KIND = ''agentic-workspace/operating-decision/v1''"

definition supported_intent_fields :: "str list" where
  "supported_intent_fields =
     [''current_work'', ''semantic_route_source'', ''semantic_task_routes'', ''outcome'',
      ''public_request'']"

definition check_intended ::
  "intended_goal option \<Rightarrow> capability_contract option \<Rightarrow> unit res" where
  "check_intended intended capabilities =
     (case (intended, capabilities) of
        (Some i, Some cc) \<Rightarrow>
          if om_get (cc_claim_authorities cc) (io_claim i) \<noteq> Some (io_owner i)
          then Inl (err (fmt [''intended outcome owner '', io_owner i,
            '' lacks exclusive authority for claim '', io_claim i]))
          else Inr ()
      | (Some i, None) \<Rightarrow> Inl (err ''intent.outcome requires a current capability_contract'')
      | _ \<Rightarrow> Inr ())"

text \<open>The relevant contributions by owner, each owner once.\<close>

definition relevant_contributions :: "contribution list \<Rightarrow> contribution list res" where
  "relevant_contributions normalized =
     (let relevant = sort_key nc_owner (filter nc_relevant normalized) in
      if neighbours (\<lambda>a b. nc_owner a = nc_owner b) relevant
      then Inl (err ''each source owner may contribute at most once'') else Inr relevant)"

definition input_revision_of ::
  "host \<Rightarrow> json \<Rightarrow> capability_contract option \<Rightarrow> contribution list \<Rightarrow> json option \<Rightarrow> str" where
  "input_revision_of H intent capabilities relevant ctxt = digest H (obj
     ([(''intent'', intent), (''capability_contract'', jopt en_contract capabilities),
       (''sources'', JArr (map en_contribution relevant))]
      @ opt_field ''decision_context'' (\<lambda>c. c) ctxt))"

definition PLUGIN_EXPOSURE_OP :: str where
  "PLUGIN_EXPOSURE_OP = ''configuration.plugin-exposure''"

definition operation_revisions ::
  "host \<Rightarrow> capability_contract \<Rightarrow> contribution list \<Rightarrow> owned_action list \<Rightarrow> json res" where
  "operation_revisions H cc relevant available =
     (let operations = concat (map (\<lambda>(owner, co). map (\<lambda>k. (owner, co, k)) (om_keys (co_operations co)))
            (filter (\<lambda>(owner, co). owner \<in> set (map nc_owner relevant)) (cc_owners cc)));
          current = filter (\<lambda>(owner, co, k). k \<noteq> PLUGIN_EXPOSURE_OP
            \<or> (\<exists>o' \<in> set available. na_operation_id (oa_action o') = k)) operations in
      and_then (collect (\<lambda>(owner, co, k).
        and_then (operation_revision H owner k co) (\<lambda>r. Inr (k, JStr r))) current) (\<lambda>rows.
      Inr (JObj (om_collect rows))))"

text \<open>The composition blocker as it is reported.\<close>

definition reported_composition :: "host \<Rightarrow> str \<Rightarrow> json \<Rightarrow> json" where
  "reported_composition H input_revision composed =
     (let b = jset ''resolution'' (JStr ''owner-resolution-unavailable'') composed in
      jset ''consequence_id'' (JStr (fmt [''blocker:operating-decision:'', input_revision, '':'',
        digest H b])) b)"

definition blocker_values :: "host \<Rightarrow> str \<Rightarrow> composition \<Rightarrow> json list" where
  "blocker_values H input_revision cp =
     map en_blocker (cp_blockers cp)
     @ (case cp_composition_blocker cp of
          None \<Rightarrow> [] | Some b \<Rightarrow> [reported_composition H input_revision b])"

definition owner_state :: "contribution \<Rightarrow> json" where
  "owner_state c = obj
     [(''owner'', JStr (nc_owner c)), (''revision'', JStr (nc_revision c)),
      (''settled'', JBool (nc_settled c))]"

definition primary_action :: "composition \<Rightarrow> json option" where
  "primary_action cp =
     (case cp_ready cp of
        [o'] \<Rightarrow> if cp_terminal cp = None then Some (invocation o') else None
      | _ \<Rightarrow> None)"

definition material_rows :: "contribution list \<Rightarrow> (str \<times> json) list" where
  "material_rows relevant =
     List.map_filter (\<lambda>c. map_option (\<lambda>m. (nc_owner c, m)) (nc_material c)) relevant"

definition answer_fields ::
  "host \<Rightarrow> str \<Rightarrow> contribution list \<Rightarrow> composition \<Rightarrow> (str \<times> json) list" where
  "answer_fields H input_revision relevant cp =
     (let blockers = blocker_values H input_revision cp in
      [(''input_revision'', JStr input_revision), (''status'', JStr (cp_status cp)),
       (''primary_action'', jopt (\<lambda>v. v) (primary_action cp)),
       (''ready_actions'', JArr (map invocation (cp_ready cp))),
       (''decision_request'', jopt en_decision (cp_decision_request cp)),
       (''blockers'', JArr blockers),
       (''pending_consequences'', obj
         [(''blockers'', JArr blockers), (''decisions'', JArr (map en_decision (cp_decisions cp))),
          (''actions'', JArr (map pending_action (cp_actions cp)))]),
       (''claim_boundary'', obj
         [(''allowed'', jstrs (cp_allowed cp)), (''blocked'', jstrs (cp_blocked cp))]),
       (''relevant_owners'', jstrs (map nc_owner relevant)),
       (''owner_states'', JArr (map owner_state relevant)),
       (''terminal_authority'', jopt (\<lambda>v. v) (cp_terminal cp))])"

definition render_decision ::
  "host \<Rightarrow> capability_contract option \<Rightarrow> json option \<Rightarrow> json option \<Rightarrow> json option \<Rightarrow> str
   \<Rightarrow> contribution list \<Rightarrow> composition \<Rightarrow> json res" where
  "render_decision H capabilities ctxt routes resolution input_revision relevant cp =
     and_then (opt_try (\<lambda>cc. operation_revisions H cc relevant (cp_available cp)) capabilities) (\<lambda>revisions.
     let answer = answer_fields H input_revision relevant cp
           @ (if material_rows relevant = [] then []
              else [(''material'', JObj (om_collect (material_rows relevant)))])
           @ opt_field ''decision_context'' (\<lambda>v. v) ctxt
           @ opt_field ''semantic_task_routes'' (\<lambda>v. v) routes
           @ opt_field ''request_resolution'' (\<lambda>v. v) resolution
           @ opt_field ''operation_revisions'' (\<lambda>v. v) revisions
           @ opt_field ''capability_revision'' (\<lambda>cc. JStr (cc_revision cc)) capabilities
     in Inr (obj (answer
       @ [(''kind'', JStr DECISION_KIND),
          (''decision_id'', JStr (fmt [''operating-decision:'', take 16 (drop 7 (digest H (obj answer)))]))])))"

text \<open>Everything read from the intent.\<close>

record frame =
  fr_capabilities :: "capability_contract option"
  fr_intent :: json
  fr_routes :: "json option"
  fr_context :: "json option"
  fr_request :: "public_request option"
  fr_intended :: "intended_goal option"

definition decision_frame :: "host \<Rightarrow> decision_input_value \<Rightarrow> frame res" where
  "decision_frame H inp =
     (if \<not> is_object (iv_intent inp) then Inl (err ''intent must be an object'')
      else
      and_then (opt_try (normalize_capability_contract H) (iv_capability_contract inp)) (\<lambda>capabilities.
      case find (\<lambda>k. k \<notin> set supported_intent_fields)
             (case as_object (iv_intent inp) of None \<Rightarrow> [] | Some m \<Rightarrow> om_keys m) of
        Some field \<Rightarrow> Inl (err (fmt [''intent contains unsupported public request field '', field]))
      | None \<Rightarrow>
      and_then (normalize_semantic_routes (iv_intent inp)) (\<lambda>(routes, intent).
      and_then (opt_try (\<lambda>c. project H c routes) (iv_decision_context inp)) (\<lambda>ctxt.
      and_then (normalize_public_request H intent capabilities) (\<lambda>(request, intent).
      and_then (intended_outcome intent) (\<lambda>intended.
      and_then (check_intended intended capabilities) (\<lambda>_.
      Inr \<lparr>fr_capabilities = capabilities, fr_intent = intent, fr_routes = routes,
        fr_context = Option.bind ctxt (\<lambda>c. c), fr_request = request, fr_intended = intended\<rparr>)))))))"

definition compile_with :: "resolver \<Rightarrow> host \<Rightarrow> decision_input_value \<Rightarrow> json res" where
  "compile_with rr H inp =
     and_then (decision_frame H inp) (\<lambda>fr.
     and_then (collect (\<lambda>c. normalize_contribution rr H c (fr_capabilities fr) (fr_intent fr))
       (iv_contributions inp)) (\<lambda>normalized.
     and_then (resolve_public_request (fr_request fr) normalized) (\<lambda>resolution.
     and_then (relevant_contributions normalized) (\<lambda>relevant.
     let revision = input_revision_of H (fr_intent fr) (fr_capabilities fr) relevant (fr_context fr) in
     render_decision H (fr_capabilities fr) (fr_context fr) (fr_routes fr) resolution revision relevant
       (compose (fr_capabilities fr) (fr_intended fr) resolution revision relevant)))))"

definition compile_value_with :: "resolver \<Rightarrow> host \<Rightarrow> json \<Rightarrow> json res" where
  "compile_value_with rr H v = and_then (decoded (de_decision_input v)) (compile_with rr H)"

section \<open>The parts of a compiled decision\<close>

text \<open>What a successful compilation went through.\<close>

record compiled =
  cd_frame :: frame
  cd_normalized :: "contribution list"
  cd_relevant :: "contribution list"
  cd_resolution :: "json option"
  cd_composition :: composition

definition compiles :: "resolver \<Rightarrow> host \<Rightarrow> decision_input_value \<Rightarrow> compiled \<Rightarrow> json \<Rightarrow> bool" where
  "compiles rr H inp p out \<longleftrightarrow>
     (let fr = cd_frame p;
          revision = input_revision_of H (fr_intent fr) (fr_capabilities fr) (cd_relevant p) (fr_context fr) in
      decision_frame H inp = Inr fr \<and>
      collect (\<lambda>c. normalize_contribution rr H c (fr_capabilities fr) (fr_intent fr))
        (iv_contributions inp) = Inr (cd_normalized p) \<and>
      resolve_public_request (fr_request fr) (cd_normalized p) = Inr (cd_resolution p) \<and>
      relevant_contributions (cd_normalized p) = Inr (cd_relevant p) \<and>
      cd_composition p = compose (fr_capabilities fr) (fr_intended fr) (cd_resolution p) revision (cd_relevant p) \<and>
      render_decision H (fr_capabilities fr) (fr_context fr) (fr_routes fr) (cd_resolution p) revision
        (cd_relevant p) (cd_composition p) = Inr out)"

lemma compile_with_Inr_iff:
  "compile_with rr H inp = Inr out \<longleftrightarrow> (\<exists>p. compiles rr H inp p out)"
proof
  assume "compile_with rr H inp = Inr out"
  then obtain fr normalized resolution relevant where
    "decision_frame H inp = Inr fr"
    "collect (\<lambda>c. normalize_contribution rr H c (fr_capabilities fr) (fr_intent fr))
      (iv_contributions inp) = Inr normalized"
    "resolve_public_request (fr_request fr) normalized = Inr resolution"
    "relevant_contributions normalized = Inr relevant"
    "(let revision = input_revision_of H (fr_intent fr) (fr_capabilities fr) relevant (fr_context fr) in
      render_decision H (fr_capabilities fr) (fr_context fr) (fr_routes fr) resolution revision relevant
       (compose (fr_capabilities fr) (fr_intended fr) resolution revision relevant)) = Inr out"
    unfolding compile_with_def by (elim and_then_InrE) blast
  then have "compiles rr H inp \<lparr>cd_frame = fr, cd_normalized = normalized, cd_relevant = relevant,
      cd_resolution = resolution, cd_composition = compose (fr_capabilities fr) (fr_intended fr) resolution
        (input_revision_of H (fr_intent fr) (fr_capabilities fr) relevant (fr_context fr)) relevant\<rparr> out"
    by (simp add: compiles_def Let_def)
  then show "\<exists>p. compiles rr H inp p out" ..
next
  assume "\<exists>p. compiles rr H inp p out"
  then show "compile_with rr H inp = Inr out"
    by (auto simp: compiles_def compile_with_def Let_def)
qed

lemma compile_withE:
  assumes "compile_with rr H inp = Inr out"
  obtains p where "compiles rr H inp p out"
  using assms compile_with_Inr_iff by blast

lemma ix_answer_fields:
  defines "out \<equiv> \<lambda>H revision relevant cp rest. obj (answer_fields H revision relevant cp @ rest)"
  shows "ix (out H revision relevant cp rest) ''status'' = JStr (cp_status cp)"
    "ix (out H revision relevant cp rest) ''ready_actions'' = JArr (map invocation (cp_ready cp))"
    "ix (out H revision relevant cp rest) ''primary_action'' = jopt (\<lambda>v. v) (primary_action cp)"
    "ix (out H revision relevant cp rest) ''decision_request'' = jopt en_decision (cp_decision_request cp)"
    "ix (out H revision relevant cp rest) ''blockers'' = JArr (blocker_values H revision cp)"
    "ix (out H revision relevant cp rest) ''pending_consequences'' = obj
       [(''blockers'', JArr (blocker_values H revision cp)),
        (''decisions'', JArr (map en_decision (cp_decisions cp))),
        (''actions'', JArr (map pending_action (cp_actions cp)))]"
    "ix (out H revision relevant cp rest) ''claim_boundary'' =
       obj [(''allowed'', jstrs (cp_allowed cp)), (''blocked'', jstrs (cp_blocked cp))]"
    "ix (out H revision relevant cp rest) ''terminal_authority'' = jopt (\<lambda>v. v) (cp_terminal cp)"
    "ix (out H revision relevant cp rest) ''relevant_owners'' = jstrs (map nc_owner relevant)"
  unfolding out_def answer_fields_def by (simp_all add: Let_def)

lemma render_decision_shape:
  assumes "render_decision H capabilities ctxt routes resolution revision relevant cp = Inr out"
  shows "\<exists>rest. out = obj (answer_fields H revision relevant cp @ rest)"
  using assms unfolding render_decision_def Let_def
  by (elim and_then_InrE) (auto simp only: sum.inject append.assoc)

lemma compiles_shape:
  assumes "compiles rr H inp p out"
  obtains revision rest where "out = obj (answer_fields H revision (cd_relevant p) (cd_composition p) @ rest)"
  using assms unfolding compiles_def Let_def by (blast dest: render_decision_shape)

lemma compiles_output:
  assumes "compiles rr H inp p out"
  shows "ix out ''status'' = JStr (cp_status (cd_composition p))"
    "ix out ''ready_actions'' = JArr (map invocation (cp_ready (cd_composition p)))"
    "ix out ''primary_action'' = jopt (\<lambda>v. v) (primary_action (cd_composition p))"
    "ix out ''decision_request'' = jopt en_decision (cp_decision_request (cd_composition p))"
    "ix (ix out ''pending_consequences'') ''decisions'' = JArr (map en_decision (cp_decisions (cd_composition p)))"
    "ix (ix out ''pending_consequences'') ''actions'' = JArr (map pending_action (cp_actions (cd_composition p)))"
    "ix (ix out ''claim_boundary'') ''allowed'' = jstrs (cp_allowed (cd_composition p))"
    "ix (ix out ''claim_boundary'') ''blocked'' = jstrs (cp_blocked (cd_composition p))"
    "ix out ''terminal_authority'' = jopt (\<lambda>v. v) (cp_terminal (cd_composition p))"
    "ix out ''relevant_owners'' = jstrs (map nc_owner (cd_relevant p))"
    "\<exists>revision. ix out ''blockers'' = JArr (blocker_values H revision (cd_composition p))"
    "ix (ix out ''pending_consequences'') ''blockers'' = ix out ''blockers''"
proof -
  obtain revision rest where
    out: "out = obj (answer_fields H revision (cd_relevant p) (cd_composition p) @ rest)"
    using compiles_shape [OF assms] .
  show "ix out ''status'' = JStr (cp_status (cd_composition p))"
    "ix out ''ready_actions'' = JArr (map invocation (cp_ready (cd_composition p)))"
    "ix out ''primary_action'' = jopt (\<lambda>v. v) (primary_action (cd_composition p))"
    "ix out ''decision_request'' = jopt en_decision (cp_decision_request (cd_composition p))"
    "ix (ix out ''pending_consequences'') ''decisions'' = JArr (map en_decision (cp_decisions (cd_composition p)))"
    "ix (ix out ''pending_consequences'') ''actions'' = JArr (map pending_action (cp_actions (cd_composition p)))"
    "ix (ix out ''claim_boundary'') ''allowed'' = jstrs (cp_allowed (cd_composition p))"
    "ix (ix out ''claim_boundary'') ''blocked'' = jstrs (cp_blocked (cd_composition p))"
    "ix out ''terminal_authority'' = jopt (\<lambda>v. v) (cp_terminal (cd_composition p))"
    "ix out ''relevant_owners'' = jstrs (map nc_owner (cd_relevant p))"
    "\<exists>revision. ix out ''blockers'' = JArr (blocker_values H revision (cd_composition p))"
    "ix (ix out ''pending_consequences'') ''blockers'' = ix out ''blockers''"
    by (simp_all add: out ix_answer_fields) blast
qed

lemma compiles_composed:
  "compiles rr H inp p out \<Longrightarrow> cd_composition p = compose (fr_capabilities (cd_frame p)) (fr_intended (cd_frame p))
     (cd_resolution p) (input_revision_of H (fr_intent (cd_frame p)) (fr_capabilities (cd_frame p))
       (cd_relevant p) (fr_context (cd_frame p))) (cd_relevant p)"
  unfolding compiles_def Let_def by (elim conjE)

lemma compiles_composition:
  assumes "compiles rr H inp p out"
  defines "cp \<equiv> cd_composition p"
  shows "cp_blockers cp = all_blockers (cd_relevant p)"
    "cp_decisions cp = all_decisions (cd_relevant p)"
    "cp_actions cp = all_actions (cd_relevant p)"
    "cp_constrained cp = constrained_scopes (cd_relevant p)"
    "cp_ready cp = ready_actions (fr_capabilities (cd_frame p)) (cd_relevant p)"
    "cp_blocked cp = sort_dedup (concat (map nc_blocked (cd_relevant p)))"
    "cp_allowed cp = sort_dedup (filter (\<lambda>c. c \<notin> set (cp_blocked cp)) (concat (map nc_allowed (cd_relevant p))))"
    "cp_terminal cp = terminal_authority (fr_intended (cd_frame p)) (cd_relevant p) (cp_constrained cp)
       (cp_allowed cp) (cp_blocked cp)"
  unfolding cp_def compiles_composed [OF assms(1)] compose_def Let_def composition.simps by (rule refl)+

definition task_decisions :: "contribution list \<Rightarrow> decision list" where
  "task_decisions relevant = filter (\<lambda>d. TASK \<in> set (nd_affects d)) (all_decisions relevant)"

lemma compiles_choices:
  assumes "compiles rr H inp p out"
  defines "cp \<equiv> cd_composition p"
    and "revision \<equiv> input_revision_of H (fr_intent (cd_frame p)) (fr_capabilities (cd_frame p))
      (cd_relevant p) (fr_context (cd_frame p))"
  defines "composed \<equiv> action_composition (fr_capabilities (cd_frame p)) (cd_relevant p) revision"
  shows "cp_composition_blocker cp =
      (if composed \<noteq> None then composed
       else if length (cp_ready cp) \<noteq> 1 \<and> 1 < length (task_decisions (cd_relevant p))
       then Some (decision_composition (task_decisions (cd_relevant p)) revision) else None)"
    "cp_decision_request cp = choose_decision (cp_ready cp) composed (task_decisions (cd_relevant p))
       (filter (requested (cd_resolution p)) (cp_decisions cp))"
  unfolding cp_def composed_def revision_def compiles_composed [OF assms(1)] compose_def Let_def composition.simps
    task_decisions_def
  by (rule refl)+

lemma relevant_contributions_Inr_iff:
  "relevant_contributions cs = Inr rs \<longleftrightarrow>
     rs = sort_key nc_owner (filter nc_relevant cs) \<and> distinct (map nc_owner (filter nc_relevant cs))"
  by (auto simp: relevant_contributions_def Let_def)

lemma compiles_relevant_ok:
  assumes "compiles rr H inp p out" and "c \<in> set (cd_relevant p)"
  shows "contribution_ok H (fr_capabilities (cd_frame p)) c \<and> nc_relevant c"
proof -
  have "c \<in> set (cd_normalized p) \<and> nc_relevant c"
    using assms by (auto simp: compiles_def Let_def relevant_contributions_Inr_iff)
  then show ?thesis
    using assms(1) collect_Inr_set normalize_contribution_ok
    by (fastforce simp: compiles_def Let_def)
qed

section \<open>Operation revisions\<close>

lemma om_get_collect: "om_get (om_collect kvs) k = map_of (rev kvs) k"
  unfolding om_collect_def by (induction kvs rule: rev_induct) (auto simp: om_get_put)

lemma om_get_collect_unique:
  assumes "(k, v) \<in> set kvs" and "\<And>w. (k, w) \<in> set kvs \<Longrightarrow> w = v"
  shows "om_get (om_collect kvs) k = Some v"
proof -
  have "(k, v) \<in> set (rev kvs)" using assms(1) by simp
  from weak_map_of_SomeI [OF this] obtain w where w: "map_of (rev kvs) k = Some w" by blast
  then show ?thesis using assms(2) [of w] map_of_SomeD [OF w] by (simp add: om_get_collect)
qed

text \<open>An operation of a contributing owner that has an available action is listed at its revision.\<close>

lemma operation_revisions_get:
  assumes "operation_revisions H cc relevant available = Inr v" and "contract_ok cc"
    and "om_get (cc_owners cc) owner = Some co" and "owner \<in> nc_owner ` set relevant"
    and "operation_revision H owner opid co = Inr revision"
    and "o' \<in> set available" and "na_operation_id (oa_action o') = opid"
  shows "ix v opid = JStr revision"
proof -
  define operations where "operations = concat (map (\<lambda>(owner, co). map (\<lambda>k. (owner, co, k)) (om_keys (co_operations co)))
    (filter (\<lambda>(owner, co). owner \<in> set (map nc_owner relevant)) (cc_owners cc)))"
  define current where "current = filter (\<lambda>(owner, co, k). k \<noteq> PLUGIN_EXPOSURE_OP
    \<or> (\<exists>o' \<in> set available. na_operation_id (oa_action o') = k)) operations"
  let ?row = "\<lambda>(owner, co, k). and_then (operation_revision H owner k co) (\<lambda>r. Inr (k, JStr r))"
  obtain rows where rows: "collect ?row current = Inr rows" and v: "v = JObj (om_collect rows)"
    using assms(1) unfolding operation_revisions_def Let_def operations_def [symmetric] current_def [symmetric]
    by (auto simp: and_then_Inr_iff)
  obtain oc where oc: "om_get (co_operations co) opid = Some oc"
    using assms(5) by (auto simp: operation_revision_def and_then_Inr_iff ok_or_Inr_iff)
  have "(owner, co, opid) \<in> set operations"
    using map_of_SomeD [OF assms(3)] map_of_SomeD [OF oc] assms(4) unfolding operations_def by force
  then have c: "(owner, co, opid) \<in> set current" using assms(6,7) by (auto simp: current_def)
  have in_rows: "(opid, JStr revision) \<in> set rows"
    using collect_Inr_source [OF rows c] assms(5) by (auto simp: and_then_Inr_iff)
  have "w = JStr revision" if w: "(opid, w) \<in> set rows" for w
  proof -
    obtain owner' co' where x: "(owner', co', opid) \<in> set current" "?row (owner', co', opid) = Inr (opid, w)"
      using collect_Inr_set [OF rows w] by (auto simp: and_then_Inr_iff)
    then have "(owner', co') \<in> set (cc_owners cc)" and k: "opid \<in> set (om_keys (co_operations co'))"
      by (auto simp: current_def operations_def)
    moreover have "om_ok (cc_owners cc)" using assms(2) unfolding contract_ok_def by blast
    then have "distinct (om_keys (cc_owners cc))" by (rule om_ok_distinct)
    ultimately have o': "om_get (cc_owners cc) owner' = Some co'" by simp
    have "opid \<in> dom (om_get (co_operations co')) \<inter> dom (om_get (co_operations co))"
      using k domI [of "om_get (co_operations co)", OF oc] by (simp add: dom_map_of_conv_image_fst)
    moreover have ex: "exclusive (cc_owners cc) (\<lambda>co. dom (om_get (co_operations co)))"
      using assms(2) unfolding contract_ok_def by (elim conjE)
    ultimately have "owner' = owner" using ex [unfolded exclusive_def, rule_format, OF o' assms(3)] by auto
    then show ?thesis using x(2) o' assms(3,5) by (simp add: and_then_Inr_iff)
  qed
  from om_get_collect_unique [OF in_rows this] show ?thesis by (simp add: v ix_def jget_def)
qed

lemma ix_obj_skip: "map_of xs k = None \<Longrightarrow> ix (obj (xs @ ys)) k = ix (obj ys) k"
  by (simp add: ix_obj map_add_def split: option.splits)

lemma map_of_opt_field: "map_of (opt_field k' f v) k = (if k = k' then map_option f v else None)"
  by (simp add: opt_field_def split: option.splits)

lemma render_operation_revisions:
  assumes "render_decision H (Some cc) ctxt routes resolution revision relevant cp = Inr out"
  obtains v where "operation_revisions H cc relevant (cp_available cp) = Inr v" and "ix out ''operation_revisions'' = v"
proof -
  obtain v where v: "operation_revisions H cc relevant (cp_available cp) = Inr v"
    using assms by (auto simp: render_decision_def and_then_Inr_iff opt_try_def)
  have a: "map_of (answer_fields H revision relevant cp) ''operation_revisions'' = None"
    "map_of (if material_rows relevant = [] then [] else [(''material'', x)]) ''operation_revisions'' = None" for x
    by (simp_all add: answer_fields_def Let_def)
  have "\<exists>xs ys. out = obj (((answer_fields H revision relevant cp
      @ (if material_rows relevant = [] then [] else [(''material'', JObj (om_collect (material_rows relevant)))])
      @ opt_field ''decision_context'' (\<lambda>v. v) ctxt @ opt_field ''semantic_task_routes'' (\<lambda>v. v) routes
      @ opt_field ''request_resolution'' (\<lambda>v. v) resolution @ opt_field ''operation_revisions'' (\<lambda>v. v) (Some v) @ xs)) @ ys)"
    using assms unfolding render_decision_def Let_def opt_try_def option.case v and_then_def sum.case sum.inject
    by blast
  then obtain xs ys where o': "out = obj (((answer_fields H revision relevant cp
      @ (if material_rows relevant = [] then [] else [(''material'', JObj (om_collect (material_rows relevant)))])
      @ opt_field ''decision_context'' (\<lambda>v. v) ctxt @ opt_field ''semantic_task_routes'' (\<lambda>v. v) routes
      @ opt_field ''request_resolution'' (\<lambda>v. v) resolution @ opt_field ''operation_revisions'' (\<lambda>v. v) (Some v) @ xs)) @ ys)"
    by blast
  have "ix out ''operation_revisions'' = v"
    unfolding o' append_assoc by (simp add: ix_obj_skip a map_of_opt_field) (simp add: opt_field_def)
  with v show ?thesis by (rule that)
qed

lemma compiles_operation_revision:
  assumes "compiles rr H inp p out" and "fr_capabilities (cd_frame p) = Some cc" and "contract_ok cc"
    and "om_get (cc_owners cc) owner = Some co" and "owner \<in> nc_owner ` set (cd_relevant p)"
    and "operation_revision H owner (na_operation_id (oa_action o')) co = Inr revision"
    and "o' \<in> set (available_actions (cd_relevant p))"
  shows "ix (ix out ''operation_revisions'') (na_operation_id (oa_action o')) = JStr revision"
proof -
  have a: "cp_available (cd_composition p) = available_actions (cd_relevant p)"
    unfolding compiles_composed [OF assms(1)] compose_def Let_def by simp
  obtain r where "render_decision H (Some cc) (fr_context (cd_frame p)) (fr_routes (cd_frame p)) (cd_resolution p) r
      (cd_relevant p) (cd_composition p) = Inr out"
    using assms(1,2) unfolding compiles_def Let_def by auto
  then obtain v where "operation_revisions H cc (cd_relevant p) (available_actions (cd_relevant p)) = Inr v"
    "ix out ''operation_revisions'' = v"
    unfolding a [symmetric] by (rule render_operation_revisions)
  then show ?thesis using operation_revisions_get [OF _ assms(3-6) assms(7) refl] by simp
qed

end
