(* ===== verification/Semantic_Routes.thy ===== *)
theory Semantic_Routes
  imports Decision
begin

text \<open>
  The read-only route requests (\<open>src/src/core/src/semantic_routes.rs\<close>) and the closed
  recursion between them and the compiler: \<open>resolve\<close> compiles a decision of its own,
  whose contributions carry no action, so the compiler never calls the resolver back.
  \<open>resolve_with\<close> takes that inner resolver as a parameter, and \<open>compile\<close> is
  \<open>compile_with\<close> at \<open>resolve\<close>.
\<close>

record routes_input =
  xi_work :: work_identity
  xi_source :: semantic_route_source
  xi_request :: "json option"

definition de_routes_input :: "json \<Rightarrow> routes_input option" where
  "de_routes_input v = do {
     f \<leftarrow> struct_fields True [''current_work'', ''source'', ''request''] v;
     work \<leftarrow> req de_work f ''current_work'';
     src \<leftarrow> req de_route_source f ''source'';
     request \<leftarrow> opt de_any f ''request'';
     Some \<lparr>xi_work = work, xi_source = src, xi_request = request\<rparr> }"

definition DISCOVER :: str where
  "DISCOVER = ''semantic-routes/discover/v1''"

definition SELECT :: str where
  "SELECT = ''semantic-routes/select/v1''"

definition route_shape :: "host \<Rightarrow> str \<Rightarrow> json" where
  "route_shape H name =
     (let defs = ix (source_schema H) ''$defs'' in
      jset ''$defs'' (obj [(''route_id'', ix defs ''route_id'')])
        (jset ''$schema'' (JStr DRAFT) (ix defs name)))"

definition route_requests :: "host \<Rightarrow> json list" where
  "route_requests H =
     map (\<lambda>(kind, name). obj
       [(''kind'', JStr kind), (''result_kind'', JStr ''agentic-workspace/semantic-route-result/v1''),
        (''input_schema'', route_shape H name)])
       [(DISCOVER, ''semantic_route_discovery''), (SELECT, ''semantic_route_choice'')]"

definition routes_owner_revision :: "host \<Rightarrow> str" where
  "routes_owner_revision H = digest H (JArr (route_requests H))"

definition routes_contract :: "host \<Rightarrow> json" where
  "routes_contract H =
     (let contract = obj
        [(''kind'', JStr CAPABILITY_CONTRACT_KIND), (''revision'', JStr ''pending''),
         (''owners'', JArr [obj
           [(''owner'', JStr ''semantic-routes''), (''revision'', JStr (routes_owner_revision H)),
            (''requests'', JArr (route_requests H))]])]
      in jset ''revision'' (JStr (digest H contract)) contract)"

definition route_template :: "host \<Rightarrow> json \<Rightarrow> json \<Rightarrow> str \<times> json \<Rightarrow> json" where
  "route_template H src work = (\<lambda>(kind, arguments). obj
     [(''kind'', JStr PUBLIC_REQUEST_KIND), (''id'', JStr kind), (''owner'', JStr ''semantic-routes''),
      (''owner_revision'', JStr (routes_owner_revision H)), (''source_revision'', ix src ''revision''),
      (''capability_revision'', ix (routes_contract H) ''revision''), (''task_identity'', work),
      (''request_kind'', JStr kind), (''arguments'', arguments)])"

definition route_templates :: "host \<Rightarrow> json \<Rightarrow> json \<Rightarrow> json list" where
  "route_templates H src work = map (route_template H src work)
     [(DISCOVER, obj [(''parent'', JStr [])]),
      (SELECT, obj [(''posture'', JStr ''unresolved''), (''routes'', JArr [])])]"

section \<open>The submitted requests\<close>

record route_progress =
  rp_parent :: str
  rp_after :: str
  rp_resource :: json
  rp_identity :: json
  rp_stale :: bool
  rp_contributions :: "json list"
  rp_intent :: json
  rp_kinds :: "str list"

definition selection_of :: "json \<Rightarrow> json" where
  "selection_of request = obj
     [(''posture'', ix (ix request ''arguments'') ''posture''),
      (''routes'', ix (ix request ''arguments'') ''routes''),
      (''task_identity'', ix request ''task_identity''),
      (''source_revision'', ix request ''source_revision''),
      (''provenance'', JStr ''agent-selected''), (''authority_effect'', JStr ''applicability-only'')]"

definition text_or_empty :: "json \<Rightarrow> str" where
  "text_or_empty v = (case as_str v of None \<Rightarrow> [] | Some s \<Rightarrow> s)"

text \<open>
  A selection is kept as received, whether current or not; a discovery moves the cursor
  only when current. (\<open>parent\<close> is required by the discovery schema; its absence, which
  makes \<open>unwrap\<close> panic, is an error of its own here.)
\<close>

definition apply_route_request ::
  "json \<Rightarrow> json \<Rightarrow> json \<Rightarrow> route_progress \<Rightarrow> (bool \<times> route_progress) res" where
  "apply_route_request src work request st =
     (let stale = (ix request ''task_identity'' \<noteq> work \<or> ix request ''source_revision'' \<noteq> ix src ''revision'') in
      if ix request ''request_kind'' = JStr SELECT then
        and_then (normalize_semantic_routes
          (jset ''semantic_task_routes'' (selection_of request) (rp_intent st))) (\<lambda>(found, intent).
        and_then (ok_or found (err ''route source supplied'')) (\<lambda>verdict.
        Inr (stale \<or> ix verdict ''status'' \<noteq> JStr ''current'',
          st\<lparr>rp_intent := jset ''semantic_task_routes'' (selection_of request) intent\<rparr>)))
      else if \<not> stale then
        and_then (ok_or (as_str (ix (ix request ''arguments'') ''parent'')) (err ''parent'')) (\<lambda>parent.
        Inr (stale, st\<lparr>rp_parent := parent,
          rp_after := text_or_empty (ix (ix request ''arguments'') ''after''),
          rp_resource := ix (ix request ''arguments'') ''resource''\<rparr>))
      else Inr (stale, st))"

definition settled_response :: "json \<Rightarrow> json \<Rightarrow> json" where
  "settled_response src identity = obj
     [(''owner'', JStr ''semantic-routes''), (''revision'', ix src ''revision''), (''settled'', JBool True),
      (''request_response'', obj
        [(''request_identity'', identity), (''status'', JStr ''settled''), (''consequence_ids'', JArr [])])]"

definition route_request ::
  "host \<Rightarrow> json \<Rightarrow> json \<Rightarrow> json \<Rightarrow> route_progress \<Rightarrow> route_progress res" where
  "route_request H src work request st =
     and_then (prepare_request_value H (obj
       [(''request'', request), (''current_work'', ix request ''task_identity''),
        (''capability_contract'', routes_contract H)])) (\<lambda>prepared.
     if ix request ''owner'' \<noteq> JStr ''semantic-routes''
     then Inl (err ''route request names another owner'')
     else
     let kind = text_or_empty (ix request ''request_kind'') in
     if kind \<in> set (rp_kinds st) then Inl (err ''duplicate semantic route request kind'')
     else
     and_then (apply_route_request src work request
       (st\<lparr>rp_kinds := kind # rp_kinds st, rp_identity := ix prepared ''identity''\<rparr>)) (\<lambda>(stale, st').
     Inr (if stale then st'\<lparr>rp_stale := True\<rparr>
          else st'\<lparr>rp_intent := jset ''public_request'' (ix prepared ''request'') (rp_intent st'),
                 rp_contributions := [settled_response src (ix prepared ''identity'')]\<rparr>)))"

section \<open>Discovery\<close>

definition children_of :: "str list \<Rightarrow> str \<Rightarrow> str list" where
  "children_of routes parent =
     (let prefix = (if parent = [] then [] else parent @ ''/'') in
      sort_dedup (List.map_filter (\<lambda>route.
        map_option (\<lambda>suffix. prefix @ hd (split_on CHR 0x2F suffix)) (strip_prefix route prefix)) routes))"

definition DISCOVERY_LIMIT :: nat where
  "DISCOVERY_LIMIT = 16"

definition discovery_page :: "str list \<Rightarrow> str \<Rightarrow> str \<Rightarrow> str list \<times> str option" where
  "discovery_page routes parent after =
     (let remaining = filter (\<lambda>x. after < x) (children_of routes parent);
          page = take DISCOVERY_LIMIT remaining in
      (page, if DISCOVERY_LIMIT < length remaining then Some (last page) else None))"

definition discovery_value :: "str list \<Rightarrow> route_progress \<Rightarrow> json" where
  "discovery_value routes st =
     (let (page, next) = discovery_page routes (rp_parent st) (rp_after st);
          v = obj [(''parent'', JStr (rp_parent st)),
            (''children'', JArr (map (\<lambda>x. obj [(''leaf'', JBool (x \<in> set routes)), (''id'', JStr x)]) page)),
            (''next_after'', jopt JStr next)]
      in if rp_resource st = JNull then v else jset ''resource'' (rp_resource st) v)"

definition submitted_requests :: "json option \<Rightarrow> json list" where
  "submitted_requests request =
     (case request of None \<Rightarrow> [] | Some (JArr rows) \<Rightarrow> rows | Some row \<Rightarrow> [row])"

section \<open>Resolution\<close>

definition resolve_with :: "resolver \<Rightarrow> host \<Rightarrow> resolver" where
  "resolve_with rr H v =
     and_then (decoded (de_routes_input v)) (\<lambda>inp.
     and_then (normalize_semantic_routes (obj
       [(''current_work'', en_work (xi_work inp)),
        (''semantic_route_source'', obj
          [(''revision'', JStr (rsrc_revision (xi_source inp))),
           (''routes'', jstrs (rsrc_routes (xi_source inp)))])])) (\<lambda>(_, intent0).
     let src = ix intent0 ''semantic_route_source'';
         work = ix intent0 ''current_work'';
         intent = jremove ''semantic_task_routes'' intent0;
         submitted = submitted_requests (xi_request inp) in
     if 2 < length submitted
     then Inl (err ''route requests exceed bounded selection and discovery'')
     else
     and_then (fold_try (route_request H src work) submitted
       \<lparr>rp_parent = [], rp_after = [], rp_resource = JNull, rp_identity = JNull, rp_stale = False,
        rp_contributions = [], rp_intent = intent, rp_kinds = []\<rparr>) (\<lambda>st.
     and_then (compile_value_with rr H (obj
       [(''contributions'', JArr (rp_contributions st)), (''intent'', rp_intent st),
        (''capability_contract'', routes_contract H)])) (\<lambda>decision.
     Inr (obj
       [(''kind'', JStr ''agentic-workspace/semantic-route-result/v1''),
        (''status'', JStr (if rp_stale st then ''stale'' else ''current'')),
        (''request_identity'', rp_identity st), (''decision'', decision),
        (''requests'', JArr (route_templates H src work)),
        (''capability_contract'', routes_contract H),
        (''discovery'', discovery_value (rsrc_routes (xi_source inp)) st),
        (''authority_effect'', JStr ''applicability-only'')],
       jremove ''public_request'' (rp_intent st))))))"

definition resolve :: "host \<Rightarrow> resolver" where
  "resolve H = resolve_with (\<lambda>_. Inl (err ''unused resolver'')) H"

definition routes_view :: "host \<Rightarrow> json \<Rightarrow> json res" where
  "routes_view H v = and_then (resolve H v) (\<lambda>(view, _). Inr view)"

definition compile :: "host \<Rightarrow> decision_input_value \<Rightarrow> json res" where
  "compile H = compile_with (resolve H) H"

definition compile_value :: "host \<Rightarrow> json \<Rightarrow> json res" where
  "compile_value H = compile_value_with (resolve H) H"

section \<open>The recursion is well-founded\<close>

lemma normalize_contribution_no_actions:
  assumes "ci_actions c = []"
  shows "normalize_contribution rr H c capabilities intent = normalize_contribution rr' H c capabilities intent"
  unfolding normalize_contribution_def contribution_actions_def assms collect_ix.simps ..

lemma compile_with_no_actions:
  assumes "\<forall>c \<in> set (iv_contributions inp). ci_actions c = []"
  shows "compile_with rr H inp = compile_with rr' H inp"
proof -
  have "collect (\<lambda>c. normalize_contribution rr H c x y) (iv_contributions inp) =
      collect (\<lambda>c. normalize_contribution rr' H c x y) (iv_contributions inp)" for x y
    using assms by (intro collect_cong normalize_contribution_no_actions) simp
  then show ?thesis by (simp add: compile_with_def)
qed

lemma settled_response_no_actions:
  assumes "de_contribution (settled_response src identity) = Some c"
  shows "ci_actions c = []"
  using assms
  by (auto simp: de_contribution_def settled_response_def flatten_fields_def obj_def dflt_def
      om_get_of bind_eq_Some_conv split: prod.splits)

lemma option_all_Some_set:
  "option_all xs = Some ys \<Longrightarrow> y \<in> set ys \<Longrightarrow> Some y \<in> set xs"
  by (induction xs arbitrary: ys) (auto simp: bind_eq_Some_conv)

lemma de_decision_input_contributions:
  assumes "de_decision_input (obj
      [(''contributions'', JArr cs), (''intent'', i), (''capability_contract'', k)]) = Some inp"
    and "c \<in> set (iv_contributions inp)"
  shows "\<exists>v \<in> set cs. de_contribution v = Some c"
proof -
  have "option_all (map de_contribution cs) = Some (iv_contributions inp)"
    using assms(1)
    by (auto simp: de_decision_input_def struct_fields_def obj_def req_def de_list_def om_get_of
        bind_eq_Some_conv split: if_splits)
  then show ?thesis using option_all_Some_set assms(2) by fastforce
qed

definition only_settled :: "route_progress \<Rightarrow> bool" where
  "only_settled st \<longleftrightarrow> (\<forall>v \<in> set (rp_contributions st). \<exists>src identity. v = settled_response src identity)"

lemma apply_route_request_contributions:
  "apply_route_request src work request st = Inr (stale, st') \<Longrightarrow>
     rp_contributions st' = rp_contributions st"
  by (auto simp: apply_route_request_def result_simps Let_def split: if_splits)

lemma route_request_only_settled:
  assumes "route_request H src work request st = Inr st'" and "only_settled st"
  shows "only_settled st'"
proof -
  obtain st1 stale prepared kind where
    "apply_route_request src work request
      (st\<lparr>rp_kinds := kind # rp_kinds st, rp_identity := ix prepared ''identity''\<rparr>) = Inr (stale, st1)"
    and st': "st' = (if stale then st1\<lparr>rp_stale := True\<rparr>
      else st1\<lparr>rp_intent := jset ''public_request'' (ix prepared ''request'') (rp_intent st1),
             rp_contributions := [settled_response src (ix prepared ''identity'')]\<rparr>)"
    using assms(1) unfolding route_request_def Let_def
    by (auto simp: and_then_Inr_iff split: if_splits)
  then have "rp_contributions st1 = rp_contributions st"
    using apply_route_request_contributions by fastforce
  then show ?thesis using assms(2) by (auto simp: st' only_settled_def)
qed

text \<open>The resolver the inner compilation would call has no influence.\<close>

theorem resolve_with_irrelevant: "resolve_with rr H v = resolve_with rr' H v"
proof -
  have inner: "compile_value_with rr H (obj
        [(''contributions'', JArr (rp_contributions st)), (''intent'', i), (''capability_contract'', k)]) =
      compile_value_with rr' H (obj
        [(''contributions'', JArr (rp_contributions st)), (''intent'', i), (''capability_contract'', k)])"
    if "only_settled st" for st i k
  proof (cases "de_decision_input (obj
      [(''contributions'', JArr (rp_contributions st)), (''intent'', i), (''capability_contract'', k)])")
    case (Some inp)
    have "\<forall>c \<in> set (iv_contributions inp). ci_actions c = []"
      using de_decision_input_contributions [OF Some] that settled_response_no_actions
      unfolding only_settled_def by fastforce
    then show ?thesis using compile_with_no_actions [of inp rr H rr'] Some
      by (simp add: compile_value_with_def)
  qed (simp add: compile_value_with_def decoded_def ok_or_def)
  have step: "and_then (fold_try (route_request H src work) submitted st0) (\<lambda>st.
        and_then (compile_value_with rr H (obj
          [(''contributions'', JArr (rp_contributions st)), (''intent'', rp_intent st),
           (''capability_contract'', k)])) (f st)) =
      and_then (fold_try (route_request H src work) submitted st0) (\<lambda>st.
        and_then (compile_value_with rr' H (obj
          [(''contributions'', JArr (rp_contributions st)), (''intent'', rp_intent st),
           (''capability_contract'', k)])) (f st))"
    if "only_settled st0" for src work submitted st0 k f
  proof (cases "fold_try (route_request H src work) submitted st0")
    case (Inr st)
    then have "only_settled st"
      using that route_request_only_settled by (rule fold_try_invariant)
    then show ?thesis using inner Inr by simp
  qed simp
  show ?thesis
    unfolding resolve_with_def Let_def by (subst step) (simp_all add: only_settled_def)
qed

text \<open>Hence the equation of the code: resolution compiles with itself.\<close>

theorem resolve_recursion: "resolve H v = resolve_with (resolve H) H v"
  unfolding resolve_def by (rule resolve_with_irrelevant)

end
