(* ===== verification/Decision_Safety.thy ===== *)
theory Decision_Safety
  imports Semantic_Routes
begin

text \<open>
  What a compiled decision guarantees to its reader, stated on the emitted value: which
  actions are ready, what restricts them, what the status means, who may end the task,
  and how little the order of the contributions matters.
\<close>

section \<open>Reading an emitted decision\<close>

abbreviation emitted :: "json \<Rightarrow> str \<Rightarrow> json list" where
  "emitted out k \<equiv> elements (ix out k)"

definition pending :: "json \<Rightarrow> str \<Rightarrow> json list" where
  "pending out k = elements (ix (ix out ''pending_consequences'') k)"

definition boundary :: "json \<Rightarrow> str \<Rightarrow> json list" where
  "boundary out k = elements (ix (ix out ''claim_boundary'') k)"

text \<open>Everything in force at the decision: its blockers and its open decisions.\<close>

definition restrictions :: "json \<Rightarrow> json list" where
  "restrictions out = emitted out ''blockers'' @ pending out ''decisions''"

definition restricts :: "json \<Rightarrow> str \<Rightarrow> bool" where
  "restricts r scope \<longleftrightarrow> JStr scope \<in> set (elements (ix r ''affects''))"

lemma elements_jstrs [simp]: "set (elements (jstrs xs)) = JStr ` set xs"
  by (simp add: jstrs_def)

lemma invocation_fields [simp]:
  "ix (invocation o') ''consequence_id'' = JStr (na_consequence_id (oa_action o'))"
  "ix (invocation o') ''operation_id'' = JStr (na_operation_id (oa_action o'))"
  "ix (invocation o') ''effects'' = jstrs (na_effects (oa_action o'))"
  "ix (invocation o') ''authority'' = JStr (na_authority (oa_action o'))"
  "ix (invocation o') ''source_owner'' = JStr (oa_owner o')"
  "ix (invocation o') ''arguments'' = na_arguments (oa_action o')"
  "ix (invocation o') ''kind'' = JStr INVOCATION_KIND"
  "ix (invocation o') ''operation_revision'' = JStr (na_operation_revision (oa_action o'))"
  "ix (invocation o') ''idempotency_key'' = JStr (na_logical_effect_id (oa_action o'))"
  "ix (invocation o') ''expected_dependency_revision'' = JStr (na_dependency_revision (oa_action o'))"
  by (simp_all add: invocation_def Let_def ix_jset)

lemma restricts_en [simp]:
  "restricts (en_blocker b) scope \<longleftrightarrow> scope \<in> set (nb_affects b)"
  "restricts (en_decision d) scope \<longleftrightarrow> scope \<in> set (nd_affects d)"
proof -
  have "ix (en_blocker b) ''affects'' = jstrs (nb_affects b)"
    by (simp add: en_blocker_def)
  then show "restricts (en_blocker b) scope \<longleftrightarrow> scope \<in> set (nb_affects b)"
    by (auto simp: restricts_def)
  have "ix (en_decision d) ''affects'' = jstrs (nd_affects d)"
    by (simp add: en_decision_def opt_field_def split: option.splits)
  then show "restricts (en_decision d) scope \<longleftrightarrow> scope \<in> set (nd_affects d)"
    by (auto simp: restricts_def)
qed

lemma compileE:
  assumes "compile H inp = Inr out"
  obtains p where "compiles (resolve H) H inp p out"
  using assms unfolding compile_def by (rule compile_withE)

section \<open>Ready actions\<close>

lemma ready_subset_available:
  "set (ready_actions capabilities relevant) \<subseteq> set (available_actions relevant)"
  by (auto simp: ready_actions_def)

lemma ready_unconstrained:
  "o' \<in> set (ready_actions capabilities relevant) \<Longrightarrow>
     unconstrained (constrained_scopes relevant) (oa_action o')"
  using ready_subset_available by (fastforce simp: available_actions_def)

lemma constrained_scopes_iff:
  "scope \<in> set (constrained_scopes relevant) \<longleftrightarrow>
     (\<exists>b \<in> set (all_blockers relevant). scope \<in> set (nb_affects b)) \<or>
     (\<exists>d \<in> set (all_decisions relevant). scope \<in> set (nd_affects d))"
  by (auto simp: constrained_scopes_def)

lemma TASK_constrained_nothing_available:
  "TASK \<in> set (constrained_scopes relevant) \<Longrightarrow> available_actions relevant = []"
  by (simp add: available_actions_def unconstrained_def)

lemma filter_one_of:
  "1 < length (filter P xs) \<Longrightarrow> \<exists>x \<in> set xs. P x"
  by (metis filter_empty_conv list.size(3) not_one_less_zero)

text \<open>With a ready action there is no composition blocker.\<close>

lemma ready_no_composition_blocker:
  assumes "compiles rr H inp p out" and "cp_ready (cd_composition p) \<noteq> []"
  shows "cp_composition_blocker (cd_composition p) = None"
proof -
  let ?rel = "cd_relevant p" and ?cc = "fr_capabilities (cd_frame p)"
  have ready: "ready_actions ?cc ?rel \<noteq> []"
    using assms compiles_composition(5) [OF assms(1)] by simp
  then have "all_independent ?cc (available_actions ?rel)"
    by (auto simp: ready_actions_def split: if_splits)
  moreover have "\<not> 1 < length (filter (\<lambda>d. TASK \<in> set (nd_affects d)) (all_decisions ?rel))"
  proof
    assume "1 < length (filter (\<lambda>d. TASK \<in> set (nd_affects d)) (all_decisions ?rel))"
    then have "TASK \<in> set (constrained_scopes ?rel)"
      using filter_one_of [of "\<lambda>d. TASK \<in> set (nd_affects d)"] constrained_scopes_iff by blast
    then show False
      using ready ready_subset_available [of ?cc ?rel] TASK_constrained_nothing_available by auto
  qed
  ultimately show ?thesis
    using assms(1) by (simp add: compiles_def compose_def Let_def action_composition_def)
qed

lemma restrictions_of_ready:
  assumes "compiles rr H inp p out" and "cp_ready (cd_composition p) \<noteq> []"
    and "r \<in> set (restrictions out)" and "restricts r scope"
  shows "scope \<in> set (constrained_scopes (cd_relevant p))"
proof -
  obtain revision where "ix out ''blockers'' = JArr (blocker_values H revision (cd_composition p))"
    using compiles_output(11) [OF assms(1)] by blast
  then have "r \<in> en_blocker ` set (all_blockers (cd_relevant p)) \<union> en_decision ` set (all_decisions (cd_relevant p))"
    using assms(3) compiles_output(5) [OF assms(1)] compiles_composition(1,2) [OF assms(1)]
      ready_no_composition_blocker [OF assms(1,2)]
    by (auto simp: restrictions_def pending_def blocker_values_def)
  then show ?thesis using assms(4) by (auto simp: constrained_scopes_iff)
qed

lemma ready_actions_restriction_free:
  assumes "compile H inp = Inr out"
    and "item \<in> set (emitted out ''ready_actions'')"
    and "r \<in> set (restrictions out)"
  shows "\<not> restricts r ''task'' \<and>
    (\<forall>c. ix item ''consequence_id'' = JStr c \<longrightarrow> \<not> restricts r c) \<and>
    (\<forall>e. JStr e \<in> set (elements (ix item ''effects'')) \<longrightarrow> \<not> restricts r (''effect:'' @ e))"
proof -
  obtain p where p: "compiles (resolve H) H inp p out" using compileE [OF assms(1)] .
  obtain o' where o': "o' \<in> set (cp_ready (cd_composition p))" "item = invocation o'"
    using assms(2) compiles_output(2) [OF p] by auto
  have u: "unconstrained (constrained_scopes (cd_relevant p)) (oa_action o')"
    using o'(1) compiles_composition(5) [OF p] ready_unconstrained by simp
  have ne: "cp_ready (cd_composition p) \<noteq> []" using o'(1) by auto
  note r = restrictions_of_ready [OF p ne assms(3)]
  show ?thesis
    using r u by (auto simp: unconstrained_def TASK_def o'(2) fmt_def)
qed

text \<open>C1: An action a decision offers as ready is restricted by nothing that is in force:
  no blocker and no open decision names the task as a whole, the action itself, or one
  of its effects.\<close>

theorem ready_actions_unrestricted:
  assumes "compile H inp = Inr out"
    and "item \<in> set (emitted out ''ready_actions'')"
    and "r \<in> set (restrictions out)"
  shows "\<not> restricts r ''task'' \<and>
    (\<forall>c. ix item ''consequence_id'' = JStr c \<longrightarrow> \<not> restricts r c) \<and>
    (\<forall>e. JStr e \<in> set (elements (ix item ''effects'')) \<longrightarrow> \<not> restricts r (''effect:'' @ e))"
  using ready_actions_restriction_free [OF assms] .

section \<open>The contract behind a decision\<close>

definition current_contract :: "host \<Rightarrow> decision_input_value \<Rightarrow> capability_contract option" where
  "current_contract H inp =
     (case iv_capability_contract inp of
        None \<Rightarrow> None
      | Some c \<Rightarrow> (case normalize_capability_contract H c of Inl _ \<Rightarrow> None | Inr cc \<Rightarrow> Some cc))"

lemma decision_frame_contract:
  "decision_frame H inp = Inr fr \<Longrightarrow> fr_capabilities fr = current_contract H inp"
  unfolding decision_frame_def current_contract_def
  by (cases "iv_capability_contract inp")
    (auto simp: and_then_Inr_iff split: if_splits option.splits prod.splits)

lemma compiles_contract:
  "compiles rr H inp p out \<Longrightarrow> fr_capabilities (cd_frame p) = current_contract H inp"
  by (auto simp: compiles_def Let_def decision_frame_contract)

lemma current_contract_Some:
  assumes "current_contract H inp = Some cc"
  shows "contract_ok cc"
proof -
  obtain c where "normalize_capability_contract H c = Inr cc"
    using assms by (auto simp: current_contract_def split: option.splits sum.splits)
  then show ?thesis by (rule normalize_capability_contract_ok)
qed

text \<open>The declared reads and writes of an emitted action: the whole admitted effect
  ceiling of its operation, not the effects the action names.\<close>

definition item_footprint :: "capability_contract \<Rightarrow> json \<Rightarrow> (str list \<times> str list) option" where
  "item_footprint cc item = do {
     owner \<leftarrow> as_str (ix item ''source_owner'');
     opid \<leftarrow> as_str (ix item ''operation_id'');
     co \<leftarrow> om_get (cc_owners cc) owner;
     oc \<leftarrow> om_get (co_operations co) opid;
     reads \<leftarrow> oc_reads oc;
     Some (reads, List.map_filter (om_get (co_effects co)) (oc_effects oc)) }"

lemma item_footprint_invocation: "item_footprint cc (invocation o') = footprint cc o'"
  by (simp add: item_footprint_def footprint_def)

text \<open>C2: Any two ready actions are independent under the current contract: both declare
  what they read, and neither writes a domain the other reads or writes.\<close>

theorem ready_actions_pairwise_independent:
  assumes "compile H inp = Inr out"
    and "i < j" and "j < length (emitted out ''ready_actions'')"
  shows "\<exists>cc lr lw rr rw. current_contract H inp = Some cc \<and>
    item_footprint cc (emitted out ''ready_actions'' ! i) = Some (lr, lw) \<and>
    item_footprint cc (emitted out ''ready_actions'' ! j) = Some (rr, rw) \<and>
    set lw \<inter> set rw = {} \<and> set lw \<inter> set rr = {} \<and> set rw \<inter> set lr = {}"
proof -
  obtain p where p: "compiles (resolve H) H inp p out" using compileE [OF assms(1)] .
  let ?ready = "cp_ready (cd_composition p)"
  have items: "emitted out ''ready_actions'' = map invocation ?ready"
    by (simp add: compiles_output(2) [OF p])
  have "?ready = ready_actions (current_contract H inp) (cd_relevant p)"
    using compiles_composition(5) [OF p] compiles_contract [OF p] by simp
  moreover have "?ready \<noteq> []" using assms(3) items by auto
  ultimately have "sorted_wrt (independent_actions (current_contract H inp)) ?ready"
    by (auto simp: ready_actions_def all_independent_def split: if_splits)
  then have "independent_actions (current_contract H inp) (?ready ! i) (?ready ! j)"
    using assms(2,3) items by (simp add: sorted_wrt_nth_less)
  then show ?thesis
    using assms(2,3)
    by (auto simp: items item_footprint_invocation independent_actions_def disjoint_lists_def
        list_all_iff disjoint_iff split: option.splits)
qed

lemma ready_action_declared:
  assumes "compiles rr H inp p out" and "o' \<in> set (cp_ready (cd_composition p))"
  obtains cc where "current_contract H inp = Some cc" and "action_entitled H cc (oa_owner o') (oa_action o')"
    and "oa_owner o' \<in> nc_owner ` set (cd_relevant p)" and "o' \<in> set (available_actions (cd_relevant p))"
proof -
  have av: "o' \<in> set (available_actions (cd_relevant p))"
    using assms(2) compiles_composition(5) [OF assms(1)] ready_subset_available by auto
  then have "o' \<in> set (all_actions (cd_relevant p))" by (simp add: available_actions_def)
  then obtain c where c: "c \<in> set (cd_relevant p)" "oa_owner o' = nc_owner c" "oa_action o' \<in> set (nc_actions c)"
    by (auto simp: all_actions_def)
  have ok: "contribution_ok H (current_contract H inp) c"
    using compiles_relevant_ok [OF assms(1) c(1)] compiles_contract [OF assms(1)] by simp
  then obtain cc where cc: "current_contract H inp = Some cc"
    using c(3) by (cases "current_contract H inp") (auto simp: contribution_ok_def)
  then have "action_entitled H cc (oa_owner o') (oa_action o')"
    using ok c(2,3) by (simp add: contribution_ok_def)
  then show ?thesis using that cc c(1,2) av by blast
qed

text \<open>C3: Every ready action is one its owner is entitled to under the current contract: the
  owner is declared, the operation is the owner's, the authority is the owner itself, the
  effects are within the declared ones, the arguments are valid for the declared schema,
  and the operation revision is the current one.\<close>

theorem ready_actions_entitled:
  assumes "compile H inp = Inr out"
    and "item \<in> set (emitted out ''ready_actions'')"
  shows "\<exists>cc owner opid co oc valid revision.
    current_contract H inp = Some cc \<and>
    ix item ''source_owner'' = JStr owner \<and> ix item ''authority'' = JStr owner \<and>
    ix item ''operation_id'' = JStr opid \<and>
    om_get (cc_owners cc) owner = Some co \<and> om_get (co_operations co) opid = Some oc \<and>
    set (elements (ix item ''effects'')) \<subseteq> JStr ` set (oc_effects oc) \<and>
    schema_build H (oc_input_schema oc) = Some valid \<and> valid (ix item ''arguments'') \<and>
    operation_revision H owner opid co = Inr revision \<and>
    ix item ''operation_revision'' = JStr revision"
proof -
  obtain p where p: "compiles (resolve H) H inp p out" using compileE [OF assms(1)] .
  obtain o' where o': "o' \<in> set (cp_ready (cd_composition p))" "item = invocation o'"
    using assms(2) compiles_output(2) [OF p] by auto
  from ready_action_declared [OF p o'(1)] obtain cc where
    "current_contract H inp = Some cc" "action_entitled H cc (oa_owner o') (oa_action o')" .
  then show ?thesis by (auto simp: action_entitled_def o'(2))
qed

section \<open>The status\<close>

lemma quiet_no_task_decision:
  assumes "compiles rr H inp p out" and "cp_ready (cd_composition p) = []"
    and "cp_composition_blocker (cd_composition p) = None" and "cp_decision_request (cd_composition p) = None"
    and "d \<in> set (cp_decisions (cd_composition p))"
  shows "TASK \<notin> set (nd_affects d)"
proof -
  let ?td = "task_decisions (cd_relevant p)"
  define composed where "composed = action_composition (fr_capabilities (cd_frame p)) (cd_relevant p)
    (input_revision_of H (fr_intent (cd_frame p)) (fr_capabilities (cd_frame p)) (cd_relevant p)
      (fr_context (cd_frame p)))"
  have "composed = None" "\<not> 1 < length ?td"
    using compiles_choices(1) [OF assms(1)] assms(2,3) by (auto simp: composed_def split: if_splits)
  then have "?td = []"
    using compiles_choices(2) [OF assms(1)] assms(2,4)
    by (cases ?td) (auto simp: choose_decision_def composed_def)
  then show ?thesis
    using assms(5) compiles_composition(2) [OF assms(1)] by (auto simp: task_decisions_def filter_empty_conv)
qed

lemma compiles_status:
  assumes "compiles rr H inp p out"
  defines "cp \<equiv> cd_composition p"
  shows "cp_status cp = decision_status (cp_terminal cp) (cp_ready cp)
    (cp_composition_blocker cp \<noteq> None \<or> (\<exists>b \<in> set (cp_blockers cp). TASK \<in> set (nb_affects b)))
    (cp_decision_request cp)"
  using assms by (simp add: compiles_def compose_def Let_def)

lemma direct_unrestricted:
  assumes "compiles rr H inp p out" and "cp_status (cd_composition p) = ''direct''"
    and "r \<in> set (restrictions out)"
  shows "\<not> restricts r ''task''"
proof -
  let ?cp = "cd_composition p"
  have none: "cp_ready ?cp = []" "cp_composition_blocker ?cp = None" "cp_decision_request ?cp = None"
    "\<forall>b \<in> set (cp_blockers ?cp). TASK \<notin> set (nb_affects b)"
    using assms(2) compiles_status [OF assms(1)] by (auto simp: decision_status_def split: if_splits)
  obtain revision where "ix out ''blockers'' = JArr (blocker_values H revision ?cp)"
    using compiles_output(11) [OF assms(1)] by blast
  then have "r \<in> en_blocker ` set (cp_blockers ?cp) \<union> en_decision ` set (cp_decisions ?cp)"
    using assms(3) compiles_output(5) [OF assms(1)] none(2)
    by (auto simp: restrictions_def pending_def blocker_values_def)
  then show ?thesis
    using none(4) quiet_no_task_decision [OF assms(1) none(1-3)] by (auto simp: TASK_def)
qed

lemma terminal_not_null: "terminal_authority i rel c a b \<noteq> Some JNull"
  by (auto simp: terminal_authority_def terminal_value_def bind_eq_Some_conv split: if_splits)

lemma en_decision_not_null [simp]: "en_decision d \<noteq> JNull"
  by (simp add: en_decision_def)

text \<open>A blocker that leaves nothing to do: it names the task as a whole, or it reports alternatives
  among which no owner chose.\<close>

definition blocks_everything :: "json \<Rightarrow> bool" where
  "blocks_everything b \<longleftrightarrow> restricts b ''task'' \<or> ix b ''alternatives'' \<noteq> JNull"

lemma blocks_everything_en: "blocks_everything (en_blocker b) \<longleftrightarrow> TASK \<in> set (nb_affects b)"
proof -
  have "ix (en_blocker b) ''alternatives'' = JNull" by (simp add: en_blocker_def opt_field_def split: option.splits)
  then show ?thesis by (simp add: blocks_everything_def TASK_def)
qed

lemma blocks_everything_reported:
  assumes "compiles rr H inp p out" and "cp_composition_blocker (cd_composition p) = Some b"
  shows "blocks_everything (reported_composition H revision b)"
proof -
  have "is_object b \<and> (\<exists>xs. ix b ''alternatives'' = JArr xs)"
    using assms(2) compiles_choices(1) [OF assms(1)]
    by (auto simp: action_composition_def decision_composition_def Let_def split: if_splits)
  then show ?thesis by (auto simp: blocks_everything_def reported_composition_def Let_def ix_jset)
qed

lemma globally_blocked_iff:
  assumes "compiles rr H inp p out"
  shows "(\<exists>b \<in> set (emitted out ''blockers''). blocks_everything b) \<longleftrightarrow>
    cp_composition_blocker (cd_composition p) \<noteq> None \<or>
    (\<exists>b \<in> set (cp_blockers (cd_composition p)). TASK \<in> set (nb_affects b))"
proof -
  obtain revision where "ix out ''blockers'' = JArr (blocker_values H revision (cd_composition p))"
    using compiles_output(11) [OF assms] by blast
  then show ?thesis
    using blocks_everything_reported [OF assms, of _ revision]
    by (auto simp: blocker_values_def blocks_everything_en split: option.splits)
qed

lemma decision_request_open:
  assumes "compiles rr H inp p out" and "cp_decision_request (cd_composition p) = Some d"
  shows "d \<in> set (cp_decisions (cd_composition p)) \<and> cp_ready (cd_composition p) = []"
  using assms(2) compiles_choices(2) [OF assms(1)] compiles_composition(2) [OF assms(1)]
  by (auto simp: choose_decision_def task_decisions_def filter_eq_Cons_iff split: if_splits list.splits)

text \<open>C4: Exactly what each of the five statuses means. A decision is terminal when there is terminal
  authority; otherwise actionable when an action is ready; otherwise blocked when a blocker names
  the task as a whole or reports a conflict between alternatives; otherwise it asks for the
  decision it requests, and with none it is direct. A requested decision is open and excludes
  ready actions, and nothing in force on direct work names the task as a whole.\<close>

theorem status_meaning:
  assumes "compile H inp = Inr out"
  shows "(ix out ''status'' = JStr ''terminal'' \<longleftrightarrow> ix out ''terminal_authority'' \<noteq> JNull) \<and>
    (ix out ''status'' = JStr ''actionable'' \<longleftrightarrow>
       ix out ''terminal_authority'' = JNull \<and> emitted out ''ready_actions'' \<noteq> []) \<and>
    (ix out ''status'' = JStr ''blocked'' \<longleftrightarrow>
       ix out ''terminal_authority'' = JNull \<and> emitted out ''ready_actions'' = [] \<and>
       (\<exists>b \<in> set (emitted out ''blockers''). blocks_everything b)) \<and>
    (ix out ''status'' = JStr ''decision'' \<longleftrightarrow>
       ix out ''terminal_authority'' = JNull \<and> emitted out ''ready_actions'' = [] \<and>
       \<not> (\<exists>b \<in> set (emitted out ''blockers''). blocks_everything b) \<and> ix out ''decision_request'' \<noteq> JNull) \<and>
    (ix out ''status'' = JStr ''direct'' \<longleftrightarrow>
       ix out ''terminal_authority'' = JNull \<and> emitted out ''ready_actions'' = [] \<and>
       \<not> (\<exists>b \<in> set (emitted out ''blockers''). blocks_everything b) \<and> ix out ''decision_request'' = JNull) \<and>
    (ix out ''decision_request'' \<noteq> JNull \<longrightarrow>
       ix out ''decision_request'' \<in> set (pending out ''decisions'') \<and> emitted out ''ready_actions'' = []) \<and>
    (ix out ''status'' = JStr ''direct'' \<longrightarrow> (\<forall>r \<in> set (restrictions out). \<not> restricts r ''task''))"
proof -
  obtain p where p: "compiles (resolve H) H inp p out" using compileE [OF assms] .
  have t: "jopt (\<lambda>v. v) (cp_terminal (cd_composition p)) = JNull \<longleftrightarrow> cp_terminal (cd_composition p) = None"
    using compiles_composition(8) [OF p] terminal_not_null by (auto simp: jopt_def split: option.splits)
  have d: "jopt en_decision x = JNull \<longleftrightarrow> x = None" for x
    by (simp add: jopt_def split: option.splits)
  have q: "ix out ''decision_request'' \<noteq> JNull \<longrightarrow>
      ix out ''decision_request'' \<in> set (pending out ''decisions'') \<and> emitted out ''ready_actions'' = []"
    using decision_request_open [OF p]
    by (auto simp: compiles_output(2,4) [OF p] pending_def compiles_output(5) [OF p] jopt_def split: option.splits)
  have s: "cp_status (cd_composition p) = decision_status (cp_terminal (cd_composition p)) (cp_ready (cd_composition p))
      (\<exists>b \<in> set (emitted out ''blockers''). blocks_everything b) (cp_decision_request (cd_composition p))"
    unfolding globally_blocked_iff [OF p] by (rule compiles_status [OF p])
  have direct: "ix out ''status'' = JStr ''direct'' \<longrightarrow> (\<forall>r \<in> set (restrictions out). \<not> restricts r ''task'')"
    using direct_unrestricted [OF p] by (simp add: compiles_output(1) [OF p])
  have ready: "emitted out ''ready_actions'' = [] \<longleftrightarrow> cp_ready (cd_composition p) = []"
    by (simp add: compiles_output(2) [OF p])
  show ?thesis
    using q direct unfolding compiles_output(1,4,9) [OF p] t d ready s
    by (auto simp: decision_status_def split: if_splits)
qed

lemma all_actions_identity:
  assumes "compiles rr H inp p out" and "o' \<in> set (all_actions (cd_relevant p))"
  shows "starts_with (na_consequence_id (oa_action o')) ''action:''"
proof -
  obtain c where c: "c \<in> set (cd_relevant p)" "oa_action o' \<in> set (nc_actions c)"
    using assms(2) by (auto simp: all_actions_def)
  have "contribution_ok H (fr_capabilities (cd_frame p)) c"
    using compiles_relevant_ok [OF assms(1) c(1)] by simp
  then show ?thesis
    using c(2) by (auto simp: contribution_ok_def action_entitled_def split: option.splits)
qed

text \<open>What a reported restriction can name.\<close>

lemma restriction_scope:
  assumes "compiles rr H inp p out" and "TASK \<notin> set (constrained_scopes (cd_relevant p))"
    and "r \<in> set (restrictions out)" and "restricts r scope"
  shows "scope \<in> set (constrained_scopes (cd_relevant p)) \<or> starts_with scope ''action:''"
proof -
  let ?cp = "cd_composition p" and ?rel = "cd_relevant p"
  obtain revision where rev: "ix out ''blockers'' = JArr (blocker_values H revision ?cp)"
    using compiles_output(11) [OF assms(1)] by blast
  consider "r \<in> en_blocker ` set (all_blockers ?rel) \<union> en_decision ` set (all_decisions ?rel)"
    | b where "cp_composition_blocker ?cp = Some b" "r = reported_composition H revision b"
    using assms(3) compiles_output(5) [OF assms(1)] compiles_composition(1,2) [OF assms(1)] rev
    by (auto simp: restrictions_def pending_def blocker_values_def split: option.splits)
  then show ?thesis
  proof cases
    case 1
    then show ?thesis using assms(4) by (auto simp: constrained_scopes_iff)
  next
    case (2 b)
    have "\<not> 1 < length (filter (\<lambda>d. TASK \<in> set (nd_affects d)) (all_decisions ?rel))"
      using assms(2) filter_one_of [of "\<lambda>d. TASK \<in> set (nd_affects d)"] constrained_scopes_iff by blast
    then obtain v where "action_composition (fr_capabilities (cd_frame p)) ?rel v = Some b"
      using 2(1) assms(1) by (auto simp: compiles_def compose_def Let_def split: if_splits)
    then have b: "is_object b" "ix b ''affects'' =
        jstrs (map (\<lambda>o'. na_consequence_id (oa_action o')) (available_actions ?rel))"
      by (auto simp: action_composition_def Let_def split: if_splits)
    then have "scope \<in> (\<lambda>o'. na_consequence_id (oa_action o')) ` set (available_actions ?rel)"
      using assms(4) 2(2) by (auto simp: restricts_def reported_composition_def Let_def ix_jset)
    then show ?thesis
      using all_actions_identity [OF assms(1)] by (auto simp: available_actions_def)
  qed
qed

lemma frame_intended_authority:
  assumes "decision_frame H inp = Inr fr" and "fr_intended fr = Some i"
  shows "\<exists>cc. fr_capabilities fr = Some cc \<and> om_get (cc_claim_authorities cc) (io_claim i) = Some (io_owner i)"
proof -
  have "check_intended (fr_intended fr) (fr_capabilities fr) = Inr ()"
    using assms(1) unfolding decision_frame_def
    by (auto simp: and_then_Inr_iff split: if_splits option.splits prod.splits)
  then show ?thesis using assms(2) by (auto simp: check_intended_def split: option.splits if_splits)
qed

text \<open>What the intent of the input states as its outcome; texts are trimmed.\<close>

lemma intended_outcome_stated:
  assumes "intended_outcome intent = Inr (Some i)"
  shows "\<exists>id owner claim. ix (ix intent ''outcome'') ''id'' = JStr id \<and> io_id i = trim id \<and>
    ix (ix intent ''outcome'') ''owner'' = JStr owner \<and> io_owner i = trim owner \<and>
    ix (ix intent ''outcome'') ''claim'' = JStr claim \<and> io_claim i = trim claim"
proof -
  obtain v parsed where v: "jget intent ''outcome'' = Some v" "is_object v" "de_intended v = Some parsed"
    "io_id i = trim (io_id parsed)" "io_owner i = trim (io_owner parsed)" "io_claim i = trim (io_claim parsed)"
    using assms unfolding intended_outcome_def
    by (auto simp: and_then_Inr_iff ok_or_Inr_iff require_text_Inr_iff split: option.splits if_splits)
  obtain m where m: "v = JObj m" using v(2) by (auto simp: is_object_iff)
  have "ix intent ''outcome'' = JObj m" using v(1) m by (simp add: ix_def)
  then show ?thesis
    using v(3-6) unfolding m
    by (auto simp: de_intended_def struct_fields_def req_def de_str_def as_str_Some_iff bind_eq_Some_conv ix_def jget_def)
qed

lemma routes_keep_outcome:
  assumes "normalize_semantic_routes intent = Inr (routes, intent')" and "is_object intent"
  shows "jget intent' ''outcome'' = jget intent ''outcome''"
  using assms unfolding normalize_semantic_routes_def conclude_routes_def Let_def
  by (auto simp: and_then_Inr_iff jget_jset split: if_splits option.splits)

lemma request_keeps_outcome:
  assumes "normalize_public_request H intent cc = Inr (r, intent')" and "is_object intent"
  shows "jget intent' ''outcome'' = jget intent ''outcome''"
  using assms unfolding normalize_public_request_def
  by (auto simp: and_then_Inr_iff jget_jset split: option.splits)

lemma routes_keep_object:
  assumes "normalize_semantic_routes intent = Inr (routes, intent')" and "is_object intent"
  shows "is_object intent'"
  using assms unfolding normalize_semantic_routes_def conclude_routes_def Let_def
  by (auto simp: and_then_Inr_iff split: if_splits option.splits)

lemma intended_outcome_cong:
  "jget intent' ''outcome'' = jget intent ''outcome'' \<Longrightarrow> intended_outcome intent' = intended_outcome intent"
  by (simp add: intended_outcome_def)

lemma frame_intended_stated:
  assumes "decision_frame H inp = Inr fr"
  shows "intended_outcome (iv_intent inp) = Inr (fr_intended fr)"
proof -
  obtain cc routes intent request intent' where ob: "is_object (iv_intent inp)"
    and r: "normalize_semantic_routes (iv_intent inp) = Inr (routes, intent)"
    and q: "normalize_public_request H intent cc = Inr (request, intent')"
    and g: "intended_outcome intent' = Inr (fr_intended fr)"
    using assms unfolding decision_frame_def
    by (auto simp: and_then_Inr_iff split: if_splits option.splits prod.splits)
  from request_keeps_outcome [OF q routes_keep_object [OF r ob]] routes_keep_outcome [OF r ob]
  have "jget intent' ''outcome'' = jget (iv_intent inp) ''outcome''" by simp
  from intended_outcome_cong [OF this] g show ?thesis by simp
qed

lemma compiles_owner_states:
  assumes "compiles rr H inp p out"
  shows "ix out ''owner_states'' = JArr (map owner_state (cd_relevant p))"
proof -
  obtain revision rest where
    out: "out = obj (answer_fields H revision (cd_relevant p) (cd_composition p) @ rest)"
    using compiles_shape [OF assms] .
  show ?thesis by (simp add: out answer_fields_def Let_def)
qed

lemma compiles_terminal:
  assumes "compiles rr H inp p out" and "ix out ''terminal_authority'' = t" and "t \<noteq> JNull"
  obtains i c u where "fr_intended (cd_frame p) = Some i" and "c \<in> set (cd_relevant p)" and "nc_owner c = io_owner i"
    and "outcome_complete i c u (constrained_scopes (cd_relevant p)) (cp_allowed (cd_composition p))
      (cp_blocked (cd_composition p))"
    and "t = terminal_value c u" and "ix out ''primary_action'' = JNull"
proof -
  obtain t' where t': "cp_terminal (cd_composition p) = Some t'" "t = t'"
    using assms(2,3) compiles_output(9) [OF assms(1)] by (auto simp: jopt_def split: option.splits)
  then obtain i c u where i: "fr_intended (cd_frame p) = Some i"
    and c: "find (\<lambda>c. nc_owner c = io_owner i) (cd_relevant p) = Some c"
    and ok: "outcome_complete i c u (constrained_scopes (cd_relevant p)) (cp_allowed (cd_composition p))
      (cp_blocked (cd_composition p))" and tv: "t = terminal_value c u"
    using compiles_composition(4,8) [OF assms(1)]
    by (auto simp: terminal_authority_def bind_eq_Some_conv split: if_splits)
  have rel: "c \<in> set (cd_relevant p)" "nc_owner c = io_owner i" using c by (auto simp: find_Some_iff)
  have "ix out ''primary_action'' = JNull"
    using compiles_output(3) [OF assms(1)] t'(1) by (simp add: primary_action_def jopt_def split: list.splits)
  with that i rel ok tv show ?thesis by blast
qed

text \<open>What a complete outcome leaves open: nothing.\<close>

lemma complete_unrestricted:
  assumes "compiles rr H inp p out"
    and "outcome_complete i c u (constrained_scopes (cd_relevant p)) allowed blocked"
    and "r \<in> set (restrictions out)"
  shows "\<not> restricts r ''task'' \<and> \<not> restricts r (''claim:'' @ io_claim i) \<and> \<not> restricts r (''outcome:'' @ io_id i)"
proof -
  have scopes: "TASK \<notin> set (constrained_scopes (cd_relevant p))"
    "''claim:'' @ io_claim i \<notin> set (constrained_scopes (cd_relevant p))"
    "''outcome:'' @ io_id i \<notin> set (constrained_scopes (cd_relevant p))"
    using assms(2) by (simp_all add: outcome_complete_def fmt_def)
  have other: "\<not> starts_with ''task'' ''action:''" "\<not> starts_with (''claim:'' @ x) ''action:''"
    "\<not> starts_with (''outcome:'' @ x) ''action:''" for x
    by (simp_all add: starts_with_def)
  show ?thesis using restriction_scope [OF assms(1) scopes(1) assms(3)] scopes other by (auto simp: TASK_def)
qed

lemma terminal_value_fields [simp]:
  "ix (terminal_value c u) ''owner'' = JStr (nc_owner c)" "ix (terminal_value c u) ''revision'' = JStr (nc_revision c)"
  "ix (terminal_value c u) ''id'' = JStr (ui_id u)" "ix (terminal_value c u) ''status'' = JStr (ui_status u)"
  "ix (terminal_value c u) ''claim'' = JStr (ui_claim u)"
  "ix (terminal_value c u) ''evidence_revision'' = JStr (ui_evidence_revision u)"
  "ix (terminal_value c u) ''residual_work'' = jstrs (ui_residual_work u)"
  "ix (terminal_value c u) ''required_claims'' = jstrs (ui_required_claims u)"
  by (simp_all add: terminal_value_def)

lemma owner_state_fields [simp]:
  "ix (owner_state c) ''owner'' = JStr (nc_owner c)" "ix (owner_state c) ''revision'' = JStr (nc_revision c)"
  by (simp_all add: owner_state_def)


text \<open>C6: The claim boundary of a decision is disjoint, and a claim is allowed only for an
  owner with the exclusive authority over it.\<close>

theorem claim_boundary_exclusive:
  assumes "compile H inp = Inr out" and "JStr claim \<in> set (boundary out ''allowed'')"
  shows "JStr claim \<notin> set (boundary out ''blocked'') \<and>
    (\<exists>cc owner. current_contract H inp = Some cc \<and>
       om_get (cc_claim_authorities cc) claim = Some owner \<and>
       JStr owner \<in> set (emitted out ''relevant_owners''))"
proof -
  obtain p where p: "compiles (resolve H) H inp p out" using compileE [OF assms(1)] .
  have "claim \<in> set (cp_allowed (cd_composition p))"
    using assms(2) compiles_output(7) [OF p] by (auto simp: boundary_def)
  then obtain c where c: "c \<in> set (cd_relevant p)" "claim \<in> set (nc_allowed c)"
    and nb: "claim \<notin> set (cp_blocked (cd_composition p))"
    using compiles_composition(7) [OF p] by auto
  have "contribution_ok H (current_contract H inp) c"
    using compiles_relevant_ok [OF p c(1)] compiles_contract [OF p] by simp
  then obtain cc where "current_contract H inp = Some cc"
    "om_get (cc_claim_authorities cc) claim = Some (nc_owner c)"
    using c(2) by (cases "current_contract H inp") (auto simp: contribution_ok_def)
  then show ?thesis
    using nb c(1) compiles_output(8,10) [OF p] by (auto simp: boundary_def)
qed

section \<open>Order and absence of contributions\<close>

lemma decision_frame_contributions [simp]:
  "decision_frame H (inp\<lparr>iv_contributions := cs\<rparr>) = decision_frame H inp"
proof -
  have "iv_intent (inp\<lparr>iv_contributions := cs\<rparr>) = iv_intent inp"
    "iv_decision_context (inp\<lparr>iv_contributions := cs\<rparr>) = iv_decision_context inp"
    "iv_capability_contract (inp\<lparr>iv_contributions := cs\<rparr>) = iv_capability_contract inp"
    by simp_all
  then show ?thesis unfolding decision_frame_def by (simp only:)
qed

lemma filter_singleton_perm:
  assumes "filter P xs = [c]" and "mset ys = mset xs"
  shows "filter P ys = [c]"
proof -
  have "mset (filter P ys) = mset (filter P xs)" using assms(2) by (simp only: mset_filter)
  then show ?thesis using assms(1) by (simp only: mset_single_iff mset.simps add_mset_commute)
qed

lemma resolve_public_request_perm:
  assumes "resolve_public_request r cs = Inr v" and "mset cs' = mset cs"
  shows "resolve_public_request r cs' = Inr v"
proof (cases r)
  case None
  then have "filter (\<lambda>c. nc_request_response c \<noteq> None) cs = []" "v = None"
    using assms(1) by (auto simp: resolve_public_request_def Let_def split: if_splits)
  then have "filter (\<lambda>c. nc_request_response c \<noteq> None) cs' = []"
    using mset_eq_setD [OF assms(2)] by (auto simp: filter_empty_conv)
  then show ?thesis using None \<open>v = None\<close> by (simp add: resolve_public_request_def)
next
  case (Some q)
  then obtain c where "filter (\<lambda>c. nc_request_response c \<noteq> None) cs = [c]"
    using assms(1) by (auto simp: resolve_public_request_def Let_def split: list.splits)
  then show ?thesis
    using assms(1) filter_singleton_perm [OF _ assms(2)] Some
    by (simp add: resolve_public_request_def)
qed

lemma relevant_contributions_perm:
  assumes "relevant_contributions cs = Inr rs" and "mset cs' = mset cs"
  shows "relevant_contributions cs' = Inr rs"
proof -
  have m: "mset (filter nc_relevant cs) = mset (filter nc_relevant cs')"
    using assms(2) by (simp only: mset_filter)
  have d: "distinct (map nc_owner (filter nc_relevant cs))" "rs = sort_key nc_owner (filter nc_relevant cs)"
    using assms(1) unfolding relevant_contributions_Inr_iff by auto
  have "mset (map nc_owner (filter nc_relevant cs')) = mset (map nc_owner (filter nc_relevant cs))"
    using m by (simp only: mset_map)
  then have "distinct (map nc_owner (filter nc_relevant cs'))"
    using d(1) mset_eq_imp_distinct_iff by blast
  then show ?thesis
    using sort_key_perm [OF m d(1)] d(2) unfolding relevant_contributions_Inr_iff by simp
qed

text \<open>C7: The order in which the contributions arrive does not matter: any permutation of
  them compiles to the same decision, identity and revision included.\<close>

theorem contribution_order_irrelevant:
  assumes "compile H inp = Inr out" and "mset cs = mset (iv_contributions inp)"
  shows "compile H (inp\<lparr>iv_contributions := cs\<rparr>) = Inr out"
proof -
  obtain p where p: "compiles (resolve H) H inp p out" using compileE [OF assms(1)] .
  let ?f = "\<lambda>c. normalize_contribution (resolve H) H c (fr_capabilities (cd_frame p)) (fr_intent (cd_frame p))"
  have "collect ?f (iv_contributions inp) = Inr (cd_normalized p)"
    using p by (simp add: compiles_def Let_def)
  then obtain n where n: "collect ?f cs = Inr n" "mset n = mset (cd_normalized p)"
    using collect_perm assms(2) by blast
  have rel: "relevant_contributions (cd_normalized p) = Inr (cd_relevant p)"
    using p by (simp add: compiles_def Let_def)
  have "relevant_contributions n = Inr (cd_relevant p)"
    using relevant_contributions_perm [OF rel n(2)] .
  moreover have "resolve_public_request (fr_request (cd_frame p)) n = Inr (cd_resolution p)"
  proof (rule resolve_public_request_perm [OF _ n(2)])
    show "resolve_public_request (fr_request (cd_frame p)) (cd_normalized p) = Inr (cd_resolution p)"
      using p by (simp add: compiles_def Let_def)
  qed
  ultimately have "compiles (resolve H) H (inp\<lparr>iv_contributions := cs\<rparr>) (p\<lparr>cd_normalized := n\<rparr>) out"
    using p n(1) by (auto simp: compiles_def Let_def)
  then show ?thesis unfolding compile_def using compile_with_Inr_iff by blast
qed

lemma terminal_authority_source:
  "terminal_authority i relevant c a b = Some t \<Longrightarrow> \<exists>o' \<in> set relevant. nc_outcome o' \<noteq> None"
  by (auto simp: terminal_authority_def bind_eq_Some_conv find_Some_iff)

text \<open>Without a capability contract nobody has authority: whatever is contributed, the
  decision has no action, no restriction, no allowed claim and no terminal authority, and
  leaves the work direct.\<close>

theorem no_contract_no_authority:
  assumes "compile H inp = Inr out" and "iv_capability_contract inp = None"
  shows "ix out ''status'' = JStr ''direct'' \<and> emitted out ''ready_actions'' = [] \<and>
    pending out ''actions'' = [] \<and> restrictions out = [] \<and>
    boundary out ''allowed'' = [] \<and> boundary out ''blocked'' = [] \<and>
    ix out ''terminal_authority'' = JNull"
proof -
  obtain p where p: "compiles (resolve H) H inp p out" using compileE [OF assms(1)] .
  let ?cp = "cd_composition p" and ?rel = "cd_relevant p"
  have none: "fr_capabilities (cd_frame p) = None"
    using compiles_contract [OF p] assms(2) by (simp add: current_contract_def)
  then have empty: "\<forall>c \<in> set ?rel. nc_actions c = [] \<and> nc_blockers c = [] \<and> nc_decisions c = [] \<and>
      nc_allowed c = [] \<and> nc_blocked c = [] \<and> nc_outcome c = None"
    using compiles_relevant_ok [OF p] by (auto simp: contribution_ok_def)
  have lists: "all_blockers ?rel = []" "all_decisions ?rel = []" "all_actions ?rel = []"
  proof -
    have e: "concat (map nc_blockers ?rel) = []" "concat (map nc_decisions ?rel) = []"
      "concat (map (\<lambda>c. map (\<lambda>a. \<lparr>oa_owner = nc_owner c, oa_action = a\<rparr>) (nc_actions c)) ?rel) = []"
      using empty by auto
    show "all_blockers ?rel = []" "all_decisions ?rel = []" "all_actions ?rel = []"
      unfolding all_blockers_def all_decisions_def all_actions_def e by simp_all
  qed
  have avail: "available_actions ?rel = []" by (simp add: available_actions_def lists)
  have ready: "cp_ready ?cp = []"
    using compiles_composition(5) [OF p] avail by (simp add: ready_actions_def)
  have blocker: "cp_composition_blocker ?cp = None" "cp_decision_request ?cp = None"
    using compiles_choices [OF p] compiles_composition(2) [OF p]
    by (simp_all add: action_composition_def avail all_independent_def task_decisions_def lists
        choose_decision_def)
  have terminal: "cp_terminal ?cp = None"
  proof (rule ccontr)
    assume "cp_terminal ?cp \<noteq> None"
    then show False
      using compiles_composition(8) [OF p] terminal_authority_source empty by (metis not_None_eq)
  qed
  have claims: "cp_allowed ?cp = []" "cp_blocked ?cp = []"
    using compiles_composition(6,7) [OF p] empty by auto
  obtain revision where "ix out ''blockers'' = JArr (blocker_values H revision ?cp)"
    using compiles_output(11) [OF p] by blast
  then show ?thesis
    using compiles_output [OF p] compiles_composition(1-3) [OF p] compiles_status [OF p]
      ready blocker terminal claims lists
    by (simp add: restrictions_def pending_def boundary_def blocker_values_def decision_status_def
        jstrs_def jopt_def)
qed

end
