(* ===== verification/Attempt.thy ===== *)
theory Attempt
  imports Decision_Safety
begin

text \<open>
  Effects and their results: admission of an invocation and validation of a result
  (\<open>admit_invocation_value\<close>, \<open>operation_result_value\<close> of \<open>src/src/core/src/lib.rs\<close>)
  and the retained attempt record (\<open>src/src/core/src/attempt.rs\<close>), a state machine
  with the states absent, uncertain and committed.
\<close>

section \<open>Admission and results\<close>

text \<open>The string a field holds, when it is a nonempty one.\<close>

definition nonempty_str :: "json \<Rightarrow> str option" where
  "nonempty_str v = (case as_str v of Some s \<Rightarrow> if s = [] then None else Some s | None \<Rightarrow> None)"

definition retained_compatible :: "json \<Rightarrow> json \<Rightarrow> json \<Rightarrow> bool" where
  "retained_compatible decision ivc previous \<longleftrightarrow>
     (let opid = text_or_empty (ix previous ''operation_id'');
          revision = nonempty_str (ix previous ''operation_revision'') in
      revision \<noteq> None \<and> as_str (ix (ix decision ''operation_revisions'') opid) = revision \<and>
      as_str (ix ivc ''operation_revision'') = revision)"

definition admit_invocation :: "json \<Rightarrow> json \<Rightarrow> json option \<Rightarrow> json res" where
  "admit_invocation decision ivc previous =
     (if Option.bind (jget ivc ''kind'') as_str \<noteq> Some INVOCATION_KIND
      then Inl (err ''unsupported invocation kind'')
      else if (case previous of None \<Rightarrow> False
               | Some p \<Rightarrow> \<not> retained_compatible decision ivc p)
      then Inl (err ''retained result is incompatible with current operation semantics'')
      else if previous \<noteq> Some ivc
        \<and> ivc \<notin> set (elements (ix decision ''ready_actions''))
      then Inl (err ''invocation is stale or differs from the exact returned action'')
      else if (case previous of None \<Rightarrow> False
               | Some p \<Rightarrow> jget p ''idempotency_key'' \<noteq> jget ivc ''idempotency_key'')
      then Inl (err ''receipt belongs to a different logical effect'')
      else Inr (obj [(''kind'', JStr ''agentic-workspace/invocation-admission/v1''),
        (''disposition'', JStr (if previous = None then ''execute'' else ''replay''))]))"

definition admit_invocation_value :: "json \<Rightarrow> json res" where
  "admit_invocation_value v =
     and_then (decoded (do {
       f \<leftarrow> struct_fields True [''decision'', ''invocation'', ''previous_invocation''] v;
       decision \<leftarrow> req de_any f ''decision'';
       ivc \<leftarrow> req de_any f ''invocation'';
       previous \<leftarrow> opt de_any f ''previous_invocation'';
       Some (decision, ivc, previous) })) (\<lambda>(decision, ivc, previous).
     admit_invocation decision ivc previous)"

record owner_outcome =
  ow_status :: str
  ow_effects :: "str list"
  ow_value :: json

definition de_owner_outcome :: "json \<Rightarrow> owner_outcome option" where
  "de_owner_outcome v = do {
     f \<leftarrow> struct_fields True [''status'', ''effects'', ''value''] v;
     status \<leftarrow> req de_str f ''status'';
     effects \<leftarrow> dflt de_strs [] f ''effects'';
     value \<leftarrow> dflt de_any JNull f ''value'';
     Some \<lparr>ow_status = status, ow_effects = effects, ow_value = value\<rparr> }"

definition operation_result :: "json \<Rightarrow> owner_outcome \<Rightarrow> json \<Rightarrow> json res" where
  "operation_result ivc outcome decision =
     (if ow_status outcome \<notin> {''applied'', ''unchanged'', ''rejected''}
      then Inl (err ''operation result status must be applied, unchanged, or rejected'')
      else
      and_then (ok_or (as_array (ix ivc ''effects''))
        (err ''invocation effects must be an array'')) (\<lambda>effects.
      if (\<exists>e \<in> set (ow_effects outcome). JStr e \<notin> set effects)
      then Inl (err ''operation result widened its declared effects'')
      else Inr (obj
        [(''kind'', JStr ''agentic-workspace/operation-result/v1''),
         (''operation_id'', ix ivc ''operation_id''),
         (''status'', JStr (ow_status outcome)), (''effects'', jstrs (ow_effects outcome)),
         (''value'', ow_value outcome),
         (''dependency_revision'', ix ivc ''expected_dependency_revision''),
         (''continuation_status'', JStr (if is_null decision then ''unavailable'' else ''current'')),
         (''next_decision'', decision)])))"

definition operation_result_value :: "json \<Rightarrow> json res" where
  "operation_result_value v =
     and_then (decoded (do {
       f \<leftarrow> struct_fields True [''invocation'', ''outcome'', ''decision''] v;
       ivc \<leftarrow> req de_any f ''invocation'';
       outcome \<leftarrow> req de_owner_outcome f ''outcome'';
       decision \<leftarrow> req de_any f ''decision'';
       Some (ivc, outcome, decision) })) (\<lambda>(ivc, outcome, decision).
     operation_result ivc outcome decision)"

section \<open>The attempt record\<close>

record attempt =
  at_kind :: str
  at_attempt_id :: str
  at_invocation :: json
  at_outcome :: "json option"
  at_record_revision :: str

definition ATTEMPT_KIND :: str where
  "ATTEMPT_KIND = ''agentic-workspace/effect-attempt/v1''"

definition de_attempt :: "json \<Rightarrow> attempt option" where
  "de_attempt v = do {
     f \<leftarrow> struct_fields True [''kind'', ''attempt_id'', ''invocation'', ''outcome'', ''record_revision''] v;
     kind \<leftarrow> req de_str f ''kind'';
     attempt_id \<leftarrow> req de_str f ''attempt_id'';
     ivc \<leftarrow> req de_any f ''invocation'';
     outcome \<leftarrow> opt de_any f ''outcome'';
     revision \<leftarrow> req de_str f ''record_revision'';
     Some \<lparr>at_kind = kind, at_attempt_id = attempt_id, at_invocation = ivc,
       at_outcome = outcome, at_record_revision = revision\<rparr> }"

definition en_attempt :: "attempt \<Rightarrow> json" where
  "en_attempt r = obj
     [(''kind'', JStr (at_kind r)), (''attempt_id'', JStr (at_attempt_id r)),
      (''invocation'', at_invocation r), (''outcome'', jopt (\<lambda>v. v) (at_outcome r)),
      (''record_revision'', JStr (at_record_revision r))]"

definition attempt_id :: "host \<Rightarrow> json \<Rightarrow> str res" where
  "attempt_id H ivc =
     and_then (ok_or (nonempty_str (ix ivc ''idempotency_key''))
       (err ''attempt requires logical effect identity'')) (\<lambda>effect.
     Inr (fmt [''attempt:'', digest H (obj
       [(''effect'', JStr effect), (''attempt'', JNum (PosInt 1))])]))"

definition attempt_revision :: "host \<Rightarrow> attempt \<Rightarrow> str" where
  "attempt_revision H r = digest H (obj
     [(''kind'', JStr (at_kind r)), (''attempt_id'', JStr (at_attempt_id r)),
      (''invocation'', at_invocation r), (''outcome'', jopt (\<lambda>v. v) (at_outcome r))])"

text \<open>The outcome as a result of the recorded invocation.\<close>

definition check_attempt_outcome :: "json \<Rightarrow> json \<Rightarrow> json res" where
  "check_attempt_outcome ivc outcome = operation_result_value (obj
     [(''invocation'', ivc), (''outcome'', outcome), (''decision'', JNull)])"

definition read_record :: "host \<Rightarrow> json \<Rightarrow> attempt res" where
  "read_record H v =
     and_then (decoded (de_attempt v)) (\<lambda>r.
     and_then (if at_kind r \<noteq> ATTEMPT_KIND then Inr False
               else and_then (attempt_id H (at_invocation r)) (\<lambda>k.
                 Inr (at_attempt_id r = k \<and> at_record_revision r = attempt_revision H r))) (\<lambda>valid.
     if \<not> valid then Inl (err ''retained attempt identity or content is invalid'')
     else
     and_then (opt_try (check_attempt_outcome (at_invocation r)) (at_outcome r)) (\<lambda>_. Inr r)))"

definition new_attempt :: "host \<Rightarrow> json \<Rightarrow> attempt res" where
  "new_attempt H ivc =
     and_then (attempt_id H ivc) (\<lambda>k.
     let r = \<lparr>at_kind = ATTEMPT_KIND, at_attempt_id = k, at_invocation = ivc,
           at_outcome = None, at_record_revision = ''''\<rparr>
     in Inr (r\<lparr>at_record_revision := attempt_revision H r\<rparr>))"

definition attempt_disposition :: "attempt option \<Rightarrow> str" where
  "attempt_disposition r =
     (case r of
        None \<Rightarrow> ''execute''
      | Some a \<Rightarrow> if at_outcome a \<noteq> None then ''replay'' else ''uncertain'')"

definition attempt_admission :: "str \<Rightarrow> attempt \<Rightarrow> json" where
  "attempt_admission disposition r = obj
     [(''kind'', JStr ''agentic-workspace/attempt-admission/v1''), (''disposition'', JStr disposition),
      (''logical_effect_id'', ix (at_invocation r) ''idempotency_key''),
      (''attempt_id'', JStr (at_attempt_id r)), (''owner'', ix (at_invocation r) ''source_owner''),
      (''effects'', ix (at_invocation r) ''effects''), (''record'', en_attempt r)]"

definition attempt_admit :: "host \<Rightarrow> json \<Rightarrow> json \<Rightarrow> json option \<Rightarrow> json res" where
  "attempt_admit H decision ivc record_value =
     and_then (opt_try (read_record H) record_value) (\<lambda>r.
     and_then (admit_invocation decision ivc (map_option at_invocation r)) (\<lambda>_.
     and_then (case r of Some a \<Rightarrow> Inr a | None \<Rightarrow> new_attempt H ivc) (\<lambda>a.
     Inr (attempt_admission (attempt_disposition r) a))))"

definition attempt_admit_value :: "host \<Rightarrow> json \<Rightarrow> json res" where
  "attempt_admit_value H v =
     and_then (decoded (do {
       f \<leftarrow> struct_fields True [''decision'', ''invocation'', ''record''] v;
       decision \<leftarrow> req de_any f ''decision'';
       ivc \<leftarrow> req de_any f ''invocation'';
       r \<leftarrow> opt de_any f ''record'';
       Some (decision, ivc, r) })) (\<lambda>(decision, ivc, r).
     attempt_admit H decision ivc r)"

definition attempt_commit :: "host \<Rightarrow> json \<Rightarrow> json \<Rightarrow> json res" where
  "attempt_commit H record_value outcome =
     and_then (read_record H record_value) (\<lambda>r.
     and_then (check_attempt_outcome (at_invocation r) outcome) (\<lambda>_.
     if at_outcome r \<noteq> None \<and> at_outcome r \<noteq> Some outcome
     then Inl (err ''committed attempt cannot change its outcome'')
     else
       let r' = r\<lparr>at_outcome := Some outcome\<rparr> in
       Inr (en_attempt (r'\<lparr>at_record_revision := attempt_revision H r'\<rparr>))))"

definition attempt_commit_value :: "host \<Rightarrow> json \<Rightarrow> json res" where
  "attempt_commit_value H v =
     and_then (decoded (do {
       f \<leftarrow> struct_fields True [''record'', ''outcome''] v;
       r \<leftarrow> req de_any f ''record'';
       outcome \<leftarrow> req de_any f ''outcome'';
       Some (r, outcome) })) (\<lambda>(r, outcome). attempt_commit H r outcome)"

section \<open>Admission of an invocation\<close>

lemma admit_invocation_None_iff:
  "admit_invocation d i None = Inr out \<longleftrightarrow>
     Option.bind (jget i ''kind'') as_str = Some INVOCATION_KIND \<and> i \<in> set (emitted d ''ready_actions'') \<and>
     out = obj [(''kind'', JStr ''agentic-workspace/invocation-admission/v1''),
       (''disposition'', JStr ''execute'')]"
  by (auto simp: admit_invocation_def)

lemma admit_invocation_Some_Inr:
  assumes "admit_invocation d i (Some prev) = Inr out"
  shows "ix out ''disposition'' = JStr ''replay'' \<and>
    jget prev ''idempotency_key'' = jget i ''idempotency_key'' \<and>
    (i = prev \<or> i \<in> set (emitted d ''ready_actions'')) \<and> retained_compatible d i prev"
  using assms by (auto simp: admit_invocation_def split: if_splits)

lemma ready_action_kind:
  assumes "compile H inp = Inr decision" and "i \<in> set (emitted decision ''ready_actions'')"
  shows "Option.bind (jget i ''kind'') as_str = Some INVOCATION_KIND"
proof -
  obtain p where p: "compiles (resolve H) H inp p decision" using compileE [OF assms(1)] .
  then obtain o' where "i = invocation o'" using assms(2) compiles_output(2) [OF p] by auto
  then have "ix i ''kind'' = JStr INVOCATION_KIND" by simp
  then show ?thesis by (auto simp: ix_def split: option.splits)
qed

text \<open>What a decision lets a client execute is exactly one of its ready actions, and
  therefore an action nothing in force at that decision restricts.\<close>

theorem executed_invocation_unrestricted:
  assumes "compile H inp = Inr decision"
    and "admit_invocation decision ivc None = Inr out"
  shows "ix out ''disposition'' = JStr ''execute'' \<and>
    ivc \<in> set (emitted decision ''ready_actions'') \<and>
    (\<forall>r \<in> set (restrictions decision). \<not> restricts r ''task'' \<and>
       (\<forall>e. JStr e \<in> set (elements (ix ivc ''effects'')) \<longrightarrow> \<not> restricts r (''effect:'' @ e)))"
proof -
  have a: "ivc \<in> set (emitted decision ''ready_actions'')" "ix out ''disposition'' = JStr ''execute''"
    using assms(2) by (auto simp: admit_invocation_None_iff)
  then show ?thesis using ready_actions_restriction_free [OF assms(1) a(1)] by simp
qed

section \<open>The attempt record as a state machine\<close>

definition valid_attempt :: "host \<Rightarrow> attempt \<Rightarrow> bool" where
  "valid_attempt H a \<longleftrightarrow>
     at_kind a = ATTEMPT_KIND \<and> attempt_id H (at_invocation a) = Inr (at_attempt_id a) \<and>
     at_record_revision a = attempt_revision H a \<and>
     (\<forall>o'. at_outcome a = Some o' \<longrightarrow> (\<exists>r. check_attempt_outcome (at_invocation a) o' = Inr r))"

lemma check_attempt_outcome_Null: "check_attempt_outcome ivc JNull \<noteq> Inr r"
  by (simp add: check_attempt_outcome_def operation_result_value_def de_owner_outcome_def
      struct_fields_def [of _ _ JNull] decoded_def ok_or_def)

lemma de_en_attempt: "at_outcome a \<noteq> Some JNull \<Longrightarrow> de_attempt (en_attempt a) = Some a"
  by (simp add: de_attempt_def en_attempt_def opt_jopt)

lemma valid_attempt_outcome: "valid_attempt H a \<Longrightarrow> at_outcome a \<noteq> Some JNull"
  using check_attempt_outcome_Null by (auto simp: valid_attempt_def)

lemma read_record_roundtrip_lemma:
  assumes "valid_attempt H a"
  shows "read_record H (en_attempt a) = Inr a"
  using assms de_en_attempt [OF valid_attempt_outcome [OF assms]]
  by (cases "at_outcome a") (auto simp: read_record_def valid_attempt_def)

text \<open>A valid attempt record survives serialization: reading back what was written
  gives the same record.\<close>

theorem read_record_roundtrip:
  assumes "valid_attempt H a"
  shows "read_record H (en_attempt a) = Inr a"
  using assms by (rule read_record_roundtrip_lemma)

lemma read_record_valid:
  assumes "read_record H v = Inr a"
  shows "valid_attempt H a"
proof -
  obtain k where k: "attempt_id H (at_invocation a) = Inr k" and c: "at_kind a = ATTEMPT_KIND"
    "at_attempt_id a = k" "at_record_revision a = attempt_revision H a"
    and o': "\<exists>w. opt_try (check_attempt_outcome (at_invocation a)) (at_outcome a) = Inr w"
    using assms by (auto simp: read_record_def result_simps split: if_splits)
  then show ?thesis
    by (cases "at_outcome a") (auto simp: valid_attempt_def result_simps)
qed

lemma new_attempt_valid:
  "new_attempt H i = Inr a \<Longrightarrow> valid_attempt H a \<and> at_invocation a = i \<and> at_outcome a = None"
  by (auto simp: new_attempt_def result_simps Let_def valid_attempt_def attempt_revision_def)

lemma attempt_admit_None:
  assumes "attempt_admit H d i None = Inr out"
  shows "\<exists>a. valid_attempt H a \<and> at_invocation a = i \<and> at_outcome a = None \<and>
    ix out ''record'' = en_attempt a \<and> ix out ''disposition'' = JStr ''execute''"
proof -
  obtain a where a: "new_attempt H i = Inr a" "out = attempt_admission ''execute'' a"
    using assms by (auto simp: attempt_admit_def result_simps attempt_disposition_def)
  then show ?thesis
    using new_attempt_valid [OF a(1)] by (intro exI [of _ a]) (simp add: attempt_admission_def)
qed

lemma attempt_admit_Some:
  assumes "attempt_admit H d i (Some (en_attempt a)) = Inr out" and "valid_attempt H a"
  shows "ix out ''record'' = en_attempt a \<and>
    ix out ''disposition'' = JStr (if at_outcome a = None then ''uncertain'' else ''replay'') \<and>
    jget (at_invocation a) ''idempotency_key'' = jget i ''idempotency_key''"
  using assms read_record_roundtrip_lemma [OF assms(2)] admit_invocation_Some_Inr
  by (auto simp: attempt_admit_def result_simps attempt_disposition_def attempt_admission_def)

lemma attempt_commit_Inr:
  assumes "attempt_commit H (en_attempt a) o' = Inr v" and "valid_attempt H a"
  shows "\<exists>b. v = en_attempt b \<and> valid_attempt H b \<and> at_outcome b = Some o' \<and>
    at_invocation b = at_invocation a \<and> at_attempt_id b = at_attempt_id a \<and>
    (at_outcome a = None \<or> at_outcome a = Some o')"
  using assms read_record_roundtrip_lemma [OF assms(2)]
  by (auto simp: attempt_commit_def result_simps Let_def valid_attempt_def attempt_revision_def
      intro!: exI split: if_splits)

text \<open>
  The life of one logical effect: the retained record, if any, and what the host may do
  with it. The host retains the record of an admission before it starts the effect.
\<close>

datatype attempt_event = Executed json | Replayed json | Uncertain | Committed json

inductive attempt_step :: "host \<Rightarrow> json option \<Rightarrow> attempt_event \<Rightarrow> json option \<Rightarrow> bool" for H where
  execute: "attempt_admit H d i None = Inr out \<Longrightarrow>
    attempt_step H None (Executed i) (Some (ix out ''record''))"
| again: "attempt_admit H d i (Some v) = Inr out \<Longrightarrow>
    e = (if ix out ''disposition'' = JStr ''replay'' then Replayed (ix (ix out ''record'') ''outcome'')
         else if ix out ''disposition'' = JStr ''uncertain'' then Uncertain else Executed i) \<Longrightarrow>
    attempt_step H (Some v) e (Some (ix out ''record''))"
| commit: "attempt_commit H v o' = Inr w \<Longrightarrow> attempt_step H (Some v) (Committed o') (Some w)"

inductive attempt_run :: "host \<Rightarrow> attempt_event list \<Rightarrow> json option \<Rightarrow> bool" for H where
  start: "attempt_run H [] None"
| step: "attempt_run H es s \<Longrightarrow> attempt_step H s e s' \<Longrightarrow> attempt_run H (es @ [e]) s'"

inductive_cases attempt_step_NoneE: "attempt_step H None e s"
inductive_cases attempt_step_SomeE: "attempt_step H (Some v) e s"

definition later_event :: "json option \<Rightarrow> attempt_event \<Rightarrow> bool" where
  "later_event outcome e \<longleftrightarrow>
     (case e of
        Executed _ \<Rightarrow> False
      | Replayed p \<Rightarrow> outcome = Some p
      | Uncertain \<Rightarrow> True
      | Committed p \<Rightarrow> outcome = Some p)"

definition run_invariant :: "host \<Rightarrow> attempt_event list \<Rightarrow> json option \<Rightarrow> bool" where
  "run_invariant H es s \<longleftrightarrow>
     (case s of
        None \<Rightarrow> es = []
      | Some v \<Rightarrow> (\<exists>a later. v = en_attempt a \<and> valid_attempt H a \<and>
          es = Executed (at_invocation a) # later \<and> list_all (later_event (at_outcome a)) later))"

lemma run_invariant_holds: "attempt_run H es s \<Longrightarrow> run_invariant H es s"
proof (induction rule: attempt_run.induct)
  case start
  then show ?case by (simp add: run_invariant_def)
next
  case (step es s e s')
  show ?case
  proof (cases s)
    case None
    with step.hyps(2) obtain d i out where
      "attempt_admit H d i None = Inr out" "e = Executed i" "s' = Some (ix out ''record'')"
      by (auto elim: attempt_step_NoneE)
    then show ?thesis
      using attempt_admit_None None step.IH by (fastforce simp: run_invariant_def)
  next
    case (Some v)
    then obtain a later where a: "v = en_attempt a" "valid_attempt H a"
      "es = Executed (at_invocation a) # later" "list_all (later_event (at_outcome a)) later"
      using step.IH by (auto simp: run_invariant_def)
    have "attempt_step H (Some (en_attempt a)) e s'" using step.hyps(2) Some a(1) by simp
    then consider (again) d i out where "attempt_admit H d i (Some (en_attempt a)) = Inr out"
        "e = (if ix out ''disposition'' = JStr ''replay'' then Replayed (ix (ix out ''record'') ''outcome'')
          else if ix out ''disposition'' = JStr ''uncertain'' then Uncertain else Executed i)"
        "s' = Some (ix out ''record'')"
      | (commit) o' w where "attempt_commit H (en_attempt a) o' = Inr w" "e = Committed o'" "s' = Some w"
      by (auto elim: attempt_step_SomeE)
    then show ?thesis
    proof cases
      case again
      then show ?thesis
        using a attempt_admit_Some [OF again(1) a(2)]
        by (auto simp: run_invariant_def later_event_def en_attempt_def jopt_def split: option.splits)
    next
      case commit
      obtain b where b: "w = en_attempt b" "valid_attempt H b" "at_outcome b = Some o'"
        "at_invocation b = at_invocation a" "at_outcome a = None \<or> at_outcome a = Some o'"
        using attempt_commit_Inr [OF commit(1) a(2)] by blast
      have "list_all (later_event (Some o')) later"
        using a(4) b(5) by (auto simp: list_all_iff later_event_def split: attempt_event.splits)
      then show ?thesis
        using commit b a(3) by (auto simp: run_invariant_def later_event_def)
    qed
  qed
qed

text \<open>C8: Along any run an effect is executed at most once, first; and every committed or
  replayed outcome is one and the same.\<close>

theorem effect_at_most_once:
  assumes "attempt_run H es s"
  shows "es = [] \<or> (\<exists>ivc outcome later. es = Executed ivc # later \<and>
    (\<forall>e \<in> set later. (\<forall>i. e \<noteq> Executed i) \<and>
       (\<forall>p. e = Replayed p \<or> e = Committed p \<longrightarrow> p = outcome)))"
proof (cases s)
  case None
  then show ?thesis using run_invariant_holds [OF assms] by (simp add: run_invariant_def)
next
  case (Some v)
  then obtain i o' later where "es = Executed i # later" "list_all (later_event o') later"
    using run_invariant_holds [OF assms] unfolding run_invariant_def Some option.case by blast
  have "(\<forall>i. e \<noteq> Executed i) \<and> (\<forall>p. e = Replayed p \<or> e = Committed p \<longrightarrow> p = the o')"
    if "e \<in> set later" for e
  proof -
    have "later_event o' e" using \<open>list_all (later_event o') later\<close> that by (simp add: list_all_iff)
    then show ?thesis by (cases e) (auto simp: later_event_def)
  qed
  then show ?thesis using \<open>es = Executed i # later\<close> by blast
qed

text \<open>What a decision returns can be carried out under it: a ready action names a logical effect and
  an operation the decision lists at the revision of the action.\<close>

lemma ready_action_current:
  assumes "compile H inp = Inr decision" and "ivc \<in> set (emitted decision ''ready_actions'')"
  obtains opid revision key where "ix ivc ''operation_id'' = JStr opid" and "ix ivc ''operation_revision'' = JStr revision"
    and "revision \<noteq> []" and "ix (ix decision ''operation_revisions'') opid = JStr revision"
    and "ix ivc ''idempotency_key'' = JStr key" and "key \<noteq> []"
    and "ix ivc ''effects'' = JArr (elements (ix ivc ''effects''))"
proof -
  obtain p where p: "compiles (resolve H) H inp p decision" using compileE [OF assms(1)] .
  obtain o' where o': "o' \<in> set (cp_ready (cd_composition p))" "ivc = invocation o'"
    using assms(2) compiles_output(2) [OF p] by auto
  from ready_action_declared [OF p o'(1)] obtain cc where cc: "current_contract H inp = Some cc"
    "action_entitled H cc (oa_owner o') (oa_action o')" "oa_owner o' \<in> nc_owner ` set (cd_relevant p)"
    "o' \<in> set (available_actions (cd_relevant p))" .
  obtain co where co: "om_get (cc_owners cc) (oa_owner o') = Some co" "na_logical_effect_id (oa_action o') \<noteq> []"
    "operation_revision H (oa_owner o') (na_operation_id (oa_action o')) co = Inr (na_operation_revision (oa_action o'))"
    using cc(2) unfolding action_entitled_def by blast
  have "na_operation_revision (oa_action o') \<noteq> []"
    using co(3) by (auto simp: operation_revision_def and_then_Inr_iff digest_def)
  moreover have "fr_capabilities (cd_frame p) = Some cc" using compiles_contract [OF p] cc(1) by simp
  from compiles_operation_revision [OF p this current_contract_Some [OF cc(1)] co(1) cc(3) co(3) cc(4)]
  have "ix (ix decision ''operation_revisions'') (na_operation_id (oa_action o')) = JStr (na_operation_revision (oa_action o'))" .
  ultimately show ?thesis
    using that [of "na_operation_id (oa_action o')" "na_operation_revision (oa_action o')" "na_logical_effect_id (oa_action o')"]
      co(2) by (simp add: o'(2) jstrs_def)
qed

text \<open>Which outcomes are results of an invocation: the ones it may have.\<close>

lemma check_attempt_outcome_declared:
  assumes "de_owner_outcome outcome = Some ow" and "ow_status ow \<in> {''applied'', ''unchanged'', ''rejected''}"
    and "ix ivc ''effects'' = JArr (elements (ix ivc ''effects''))"
    and "JStr ` set (ow_effects ow) \<subseteq> set (elements (ix ivc ''effects''))"
  shows "\<exists>result. check_attempt_outcome ivc outcome = Inr result"
proof -
  have "as_array (ix ivc ''effects'') = Some (elements (ix ivc ''effects''))" using assms(3) by (metis as_simps(2))
  then have "\<exists>r. operation_result ivc ow JNull = Inr r"
    using assms(2,4) by (auto simp: operation_result_def ok_or_def)
  then show ?thesis by (simp add: check_attempt_outcome_def operation_result_value_def decoded_def ok_or_def assms(1))
qed

lemma commit_admitted:
  assumes "attempt_admit H decision ivc None = Inr out" and "check_attempt_outcome ivc outcome = Inr result"
  obtains b where "attempt_commit H (ix out ''record'') outcome = Inr (en_attempt b)" and "valid_attempt H b"
    and "at_outcome b = Some outcome" and "at_invocation b = ivc"
proof -
  obtain a where a: "valid_attempt H a" "at_invocation a = ivc" "at_outcome a = None"
    "ix out ''record'' = en_attempt a" using attempt_admit_None [OF assms(1)] by blast
  have "attempt_commit H (en_attempt a) outcome \<noteq> Inl e" for e
    using a assms(2) by (simp add: attempt_commit_def read_record_roundtrip_lemma Let_def)
  then obtain w where w: "attempt_commit H (en_attempt a) outcome = Inr w" by (metis sum.exhaust)
  then show ?thesis using attempt_commit_Inr [OF w a(1)] a(2,4) that by metis
qed

text \<open>C32: Every ready action of a compiled decision can be completed. It is admitted with leave to
  execute; every outcome of an allowed status whose effects are among the declared ones is
  committed over the record of that admission; and from then on every decision that lists the
  operation at the revision of the action, this decision included, admits the invocation as a
  replay of exactly that outcome.\<close>

theorem admitted_effect_completes:
  assumes "compile H inp = Inr decision" and "ivc \<in> set (emitted decision ''ready_actions'')"
    and "de_owner_outcome outcome = Some ow" and "ow_status ow \<in> {''applied'', ''unchanged'', ''rejected''}"
    and "JStr ` set (ow_effects ow) \<subseteq> set (elements (ix ivc ''effects''))"
  shows "\<exists>out w opid. attempt_admit H decision ivc None = Inr out \<and> ix out ''disposition'' = JStr ''execute'' \<and>
    attempt_commit H (ix out ''record'') outcome = Inr w \<and> ix ivc ''operation_id'' = JStr opid \<and>
    ix (ix decision ''operation_revisions'') opid = ix ivc ''operation_revision'' \<and>
    (\<forall>later. ix (ix later ''operation_revisions'') opid = ix ivc ''operation_revision'' \<longrightarrow>
       (\<exists>again. attempt_admit H later ivc (Some w) = Inr again \<and> ix again ''disposition'' = JStr ''replay'' \<and>
          ix (ix again ''record'') ''outcome'' = outcome))"
proof -
  obtain opid revision key where c: "ix ivc ''operation_id'' = JStr opid" "ix ivc ''operation_revision'' = JStr revision"
    "revision \<noteq> []" "ix (ix decision ''operation_revisions'') opid = JStr revision"
    "ix ivc ''idempotency_key'' = JStr key" "key \<noteq> []" "ix ivc ''effects'' = JArr (elements (ix ivc ''effects''))"
    using ready_action_current [OF assms(1,2)] .
  note kind = ready_action_kind [OF assms(1,2)]
  have "\<exists>out. attempt_admit H decision ivc None = Inr out"
    using assms(2) kind c(5,6)
    by (simp add: attempt_admit_def admit_invocation_def new_attempt_def attempt_id_def nonempty_str_def ok_or_def Let_def)
  then obtain out where out: "attempt_admit H decision ivc None = Inr out" by blast
  have "ix out ''disposition'' = JStr ''execute''" using attempt_admit_None [OF out] by blast
  moreover obtain result where "check_attempt_outcome ivc outcome = Inr result"
    using check_attempt_outcome_declared [OF assms(3,4) c(7) assms(5)] by blast
  from commit_admitted [OF out this] obtain b where b: "attempt_commit H (ix out ''record'') outcome = Inr (en_attempt b)"
    "valid_attempt H b" "at_outcome b = Some outcome" "at_invocation b = ivc" .
  have "attempt_admit H later ivc (Some (en_attempt b)) = Inr (attempt_admission ''replay'' b)"
    if "ix (ix later ''operation_revisions'') opid = ix ivc ''operation_revision''" for later
  proof -
    have "retained_compatible later ivc ivc"
      using that c(1-3) by (simp add: retained_compatible_def text_or_empty_def nonempty_str_def)
    then show ?thesis
      using b kind by (simp add: attempt_admit_def read_record_roundtrip_lemma admit_invocation_def attempt_disposition_def)
  qed
  moreover have "ix (attempt_admission ''replay'' b) ''disposition'' = JStr ''replay''"
    "ix (ix (attempt_admission ''replay'' b) ''record'') ''outcome'' = outcome"
    using b(3) by (simp_all add: attempt_admission_def en_attempt_def jopt_def)
  ultimately show ?thesis using out b(1) c(1,2,4) by (metis (no_types, lifting))
qed

end
