(* ===== verification/Attempt_Store.thy ===== *)
theory Attempt_Store
  imports Attempt "HOL-Library.Sublist"
begin

text \<open>
  The evidence store (\<open>src/src/core/src/attempt_store.rs\<close>): one immutable admission file
  and one immutable result file per logical effect, below a canonical root. A disk maps a
  root to its tree, a tree a path to a node; every operation threads the disk, and one that
  fails may still have changed it, as in the code. Faults of the file system other than a
  missing, existing or ill-kinded entry are not modelled.
\<close>

section \<open>The file system\<close>

datatype node = FileNode str | DirNode | LinkNode | OtherNode

type_synonym path = "str list"
type_synonym tree = "path \<Rightarrow> node option"
type_synonym disk = "str \<Rightarrow> tree"

type_synonym 'a io = "disk \<Rightarrow> 'a res \<times> disk"

definition io_then :: "'a io \<Rightarrow> ('a \<Rightarrow> 'b io) \<Rightarrow> 'b io" where
  "io_then m f d = (case m d of (Inl e, d') \<Rightarrow> (Inl e, d') | (Inr x, d') \<Rightarrow> f x d')"

definition io_lift :: "'a res \<Rightarrow> 'a io" where
  "io_lift r d = (r, d)"

text \<open>
  Parameters: the kernel's host, \<open>serde_json::from_slice\<close>, and \<open>fs::canonicalize\<close>
  (\<open>None\<close> when it fails).
\<close>

record store_env =
  se_host :: host
  se_from_slice :: "str \<Rightarrow> json option"
  se_canonicalize :: "str \<Rightarrow> str option"

definition store_hash :: "store_env \<Rightarrow> str \<Rightarrow> str" where
  "store_hash E bytes = ''sha256:'' @ sha256_hex (se_host E) bytes"

datatype metadata = Missing | Unreadable | Present node

text \<open>\<open>symlink_metadata\<close>: the first parent that is no directory decides.\<close>

definition metadata_of :: "tree \<Rightarrow> path \<Rightarrow> metadata" where
  "metadata_of t p =
     (case find (\<lambda>k. t (take k p) \<noteq> Some DirNode) [1..<length p] of
        Some k \<Rightarrow> (if t (take k p) = None then Missing else Unreadable)
      | None \<Rightarrow> (if p = [] then Present DirNode
                 else case t p of None \<Rightarrow> Missing | Some n \<Rightarrow> Present n))"

definition put_node :: "str \<Rightarrow> path \<Rightarrow> node \<Rightarrow> disk \<Rightarrow> disk" where
  "put_node root p n d = d(root := (d root)(p \<mapsto> n))"

section \<open>Confinement\<close>

definition STORE_DIRECTORY :: str where
  "STORE_DIRECTORY = ''.agentic-workspace/local/effects''"

text \<open>The path the operating system resolves: empty and \<open>.\<close> segments name nothing.\<close>

definition resolved_path :: "str list \<Rightarrow> path" where
  "resolved_path parts = filter (\<lambda>s. s \<noteq> '''' \<and> s \<noteq> ''.'') parts"

text \<open>\<open>Path::components\<close> has only normal components: no root, no leading \<open>.\<close>, no \<open>..\<close>.\<close>

definition normal_components :: "str list \<Rightarrow> bool" where
  "normal_components parts \<longleftrightarrow> hd parts \<noteq> '''' \<and> hd parts \<noteq> ''.'' \<and> ''..'' \<notin> set parts"

text \<open>One segment of the walk; \<open>current\<close> is the path so far.\<close>

definition confine_step ::
  "str \<Rightarrow> bool \<Rightarrow> str \<Rightarrow> str \<Rightarrow> str list \<times> disk \<Rightarrow> core_error + (str list \<times> disk)" where
  "confine_step root create_parents name part = (\<lambda>(current, d).
     let current' = current @ [part]; p = resolved_path current' in
     case metadata_of (d root) p of
       Present n \<Rightarrow>
         if n = LinkNode then Inl (err ''effect evidence cannot traverse links'')
         else if part = name \<and> \<not> (case n of FileNode _ \<Rightarrow> True | _ \<Rightarrow> False)
         then Inl (err ''effect evidence must be a regular file'')
         else Inr (current', d)
     | Missing \<Rightarrow>
         if create_parents \<and> part \<noteq> name then
           (if metadata_of (d root) (butlast p) = Present DirNode
            then Inr (current', put_node root p DirNode d)
            else Inl (err ''io''))
         else Inr (current', d)
     | Unreadable \<Rightarrow> Inl (err ''io''))"

text \<open>The walk of a path; directories made before a failure stay.\<close>

fun confine_walk :: "str \<Rightarrow> bool \<Rightarrow> str \<Rightarrow> str list \<Rightarrow> str list \<Rightarrow> path io" where
  "confine_walk root create_parents name [] current d = (Inr (resolved_path current), d)"
| "confine_walk root create_parents name (part # parts) current d =
     (case confine_step root create_parents name part (current, d) of
        Inl e \<Rightarrow> (Inl e, d)
      | Inr (current', d') \<Rightarrow> confine_walk root create_parents name parts current' d')"

definition confined :: "str \<Rightarrow> str \<Rightarrow> bool \<Rightarrow> path io" where
  "confined root relative create_parents d =
     (let parts = split_on CHR 0x2F relative in
      if relative = '''' \<or> CHR 0x5C \<in> set relative \<or> \<not> normal_components parts
      then (Inl (err ''evidence path must be relative and confined''), d)
      else confine_walk root create_parents (last parts) parts [] d)"

definition ascii_hex :: "char \<Rightarrow> bool" where
  "ascii_hex c \<longleftrightarrow> lower_hex c \<or> (CHR ''A'' \<le> c \<and> c \<le> CHR ''F'')"

definition check_evidence_name :: "str \<Rightarrow> unit res" where
  "check_evidence_name relative =
     and_then (ok_or (strip_prefix relative (fmt [STORE_DIRECTORY, ''/'']))
       (err ''invalid effect evidence path'')) (\<lambda>name.
     and_then (ok_or (split_once CHR ''.'' name) (err ''invalid effect evidence name'')) (\<lambda>(key, suffix).
     if length key \<noteq> 64 \<or> \<not> list_all ascii_hex key \<or> suffix \<notin> {''attempt.json'', ''result.json''}
     then Inl (err ''invalid effect evidence name'') else Inr ()))"

definition checked :: "str \<Rightarrow> str \<Rightarrow> bool \<Rightarrow> path io" where
  "checked root relative create_parents =
     io_then (io_lift (check_evidence_name relative)) (\<lambda>_. confined root relative create_parents)"

section \<open>Evidence\<close>

record evidence =
  ev_target :: str
  ev_path :: str
  ev_owner :: str
  ev_revision :: str

record custody =
  cu_attempt :: evidence
  cu_committed :: "evidence option"

definition de_evidence :: "json \<Rightarrow> evidence option" where
  "de_evidence v = do {
     f \<leftarrow> struct_fields True [''target'', ''path'', ''owner'', ''revision''] v;
     target \<leftarrow> req de_str f ''target'';
     path \<leftarrow> req de_str f ''path'';
     owner \<leftarrow> req de_str f ''owner'';
     revision \<leftarrow> req de_str f ''revision'';
     Some \<lparr>ev_target = target, ev_path = path, ev_owner = owner, ev_revision = revision\<rparr> }"

definition en_evidence :: "evidence \<Rightarrow> json" where
  "en_evidence e = obj [(''target'', JStr (ev_target e)), (''path'', JStr (ev_path e)),
     (''owner'', JStr (ev_owner e)), (''revision'', JStr (ev_revision e))]"

definition de_custody :: "json \<Rightarrow> custody option" where
  "de_custody v = do {
     f \<leftarrow> struct_fields True [''attempt'', ''committed''] v;
     attempt \<leftarrow> req de_evidence f ''attempt'';
     committed \<leftarrow> opt de_evidence f ''committed'';
     Some \<lparr>cu_attempt = attempt, cu_committed = committed\<rparr> }"

definition en_custody :: "custody \<Rightarrow> json" where
  "en_custody c = obj [(''attempt'', en_evidence (cu_attempt c)),
     (''committed'', jopt en_evidence (cu_committed c))]"

definition store_root :: "store_env \<Rightarrow> str \<Rightarrow> str res" where
  "store_root E target = ok_or (se_canonicalize E target) (err ''io'')"

definition bound_root :: "store_env \<Rightarrow> str \<Rightarrow> json \<Rightarrow> str res" where
  "bound_root E target ivc =
     and_then (ok_or (as_str (ix (ix ivc ''arguments'') ''target''))
       (err ''stored effect requires an owner-derived target argument'')) (\<lambda>requested.
     and_then (store_root E target) (\<lambda>root.
     and_then (store_root E requested) (\<lambda>other.
     if other \<noteq> root then Inl (err ''storage target differs from the exact invocation target'')
     else Inr root)))"

definition effect_names :: "store_env \<Rightarrow> json \<Rightarrow> (str \<times> str) res" where
  "effect_names E ivc =
     and_then (ok_or (nonempty_str (ix ivc ''idempotency_key''))
       (err ''logical effect identity missing'')) (\<lambda>key.
     let hex = drop 7 (store_hash E key) in
     Inr (fmt [STORE_DIRECTORY, ''/'', hex, ''.attempt.json''],
          fmt [STORE_DIRECTORY, ''/'', hex, ''.result.json'']))"

definition write_paths :: "store_env \<Rightarrow> json \<Rightarrow> str list res" where
  "write_paths E ivc = and_then (effect_names E ivc) (\<lambda>(a, r). Inr [a, r])"

definition file_bytes :: "str \<Rightarrow> path \<Rightarrow> str io" where
  "file_bytes root p d =
     (case metadata_of (d root) p of
        Present (FileNode bytes) \<Rightarrow> (Inr bytes, d) | _ \<Rightarrow> (Inl (err ''io''), d))"

definition entry_exists :: "str \<Rightarrow> path \<Rightarrow> bool io" where
  "entry_exists root p d =
     (Inr (case metadata_of (d root) p of Present _ \<Rightarrow> True | _ \<Rightarrow> False), d)"

definition source_present :: "store_env \<Rightarrow> str \<Rightarrow> evidence \<Rightarrow> bool io" where
  "source_present E target reference =
     io_then (io_lift (store_root E target)) (\<lambda>root.
     io_then (io_lift (store_root E (ev_target reference))) (\<lambda>other.
     if root \<noteq> other then io_lift (Inl (err ''source custody belongs to a different target''))
     else
     io_then (checked root (ev_path reference) False) (\<lambda>p d.
       case metadata_of (d root) p of
         Present _ \<Rightarrow> (Inr True, d) | Missing \<Rightarrow> (Inr False, d) | Unreadable \<Rightarrow> (Inl (err ''io''), d))))"

definition read_source :: "store_env \<Rightarrow> str \<Rightarrow> evidence \<Rightarrow> json io" where
  "read_source E target reference =
     io_then (io_lift (store_root E target)) (\<lambda>root.
     io_then (io_lift (store_root E (ev_target reference))) (\<lambda>other.
     if root \<noteq> other then io_lift (Inl (err ''source custody belongs to a different target''))
     else
     io_then (confined root (ev_path reference) False) (\<lambda>p.
     io_then (file_bytes root p) (\<lambda>bytes.
     if store_hash E bytes \<noteq> ev_revision reference
     then io_lift (Inl (err ''former source changed; Planning reconciliation must reopen''))
     else io_lift (ok_or (se_from_slice E bytes) (err ''json''))))))"

definition read_evidence :: "store_env \<Rightarrow> str \<Rightarrow> evidence \<Rightarrow> json io" where
  "read_evidence E root reference =
     (if root \<noteq> ev_target reference
      then io_lift (Inl (err ''custody belongs to a different target''))
      else
      io_then (checked root (ev_path reference) False) (\<lambda>p.
      io_then (file_bytes root p) (\<lambda>bytes.
      if store_hash E bytes \<noteq> ev_revision reference
      then io_lift (Inl (err ''effect evidence differs from exact custody''))
      else
      io_then (io_lift (ok_or (se_from_slice E bytes) (err ''json''))) (\<lambda>r.
      if as_str (ix (ix r ''invocation'') ''source_owner'') \<noteq> Some (ev_owner reference)
      then io_lift (Inl (err ''effect evidence has a different owner''))
      else io_lift (Inr r)))))"

text \<open>\<open>OpenOptions::create_new\<close> and the write.\<close>

definition create_new :: "str \<Rightarrow> path \<Rightarrow> str \<Rightarrow> unit io" where
  "create_new root p bytes d =
     (case metadata_of (d root) p of
        Present _ \<Rightarrow> (Inl (err ''existing effect evidence requires exact custody; preserved''), d)
      | Unreadable \<Rightarrow> (Inl (err ''io''), d)
      | Missing \<Rightarrow>
          if metadata_of (d root) (butlast p) = Present DirNode
          then (Inr (), put_node root p (FileNode bytes) d) else (Inl (err ''io''), d))"

definition create_evidence :: "store_env \<Rightarrow> str \<Rightarrow> str \<Rightarrow> json \<Rightarrow> evidence io" where
  "create_evidence E root relative r =
     io_then (checked root relative True) (\<lambda>p.
     let bytes = to_vec (se_host E) r in
     io_then (create_new root p bytes) (\<lambda>_.
     io_lift (and_then (ok_or (as_str (ix (ix r ''invocation'') ''source_owner''))
         (err ''attempt owner missing'')) (\<lambda>owner.
       Inr \<lparr>ev_target = root, ev_path = relative, ev_owner = owner,
         ev_revision = store_hash E bytes\<rparr>))))"

section \<open>Operations\<close>

text \<open>The record the retained custody stands for.\<close>

definition retained_record ::
  "store_env \<Rightarrow> str \<Rightarrow> str \<Rightarrow> str \<Rightarrow> custody \<Rightarrow> json io" where
  "retained_record E root attempt_path result_path c =
     (if ev_path (cu_attempt c) \<noteq> attempt_path
      then io_lift (Inl (err ''custody belongs to a different effect''))
      else
      io_then (read_evidence E root (cu_attempt c)) (\<lambda>admitted.
      case cu_committed c of
        None \<Rightarrow> io_lift (Inr admitted)
      | Some committed \<Rightarrow>
          if ev_path committed \<noteq> result_path
          then io_lift (Inl (err ''committed custody belongs to a different effect''))
          else
          io_then (read_evidence E root committed) (\<lambda>r.
          if ix r ''invocation'' \<noteq> ix admitted ''invocation''
            \<or> ix r ''attempt_id'' \<noteq> ix admitted ''attempt_id''
          then io_lift (Inl (err ''commit belongs to a different attempt''))
          else io_lift (Inr r))))"

definition store_admit ::
  "store_env \<Rightarrow> str \<Rightarrow> json \<Rightarrow> json \<Rightarrow> custody option \<Rightarrow> json io" where
  "store_admit E target decision ivc c =
     io_then (io_lift (effect_names E ivc)) (\<lambda>(attempt_path, result_path).
     io_then (io_lift (bound_root E target ivc)) (\<lambda>root.
     case c of
       Some cu \<Rightarrow>
         io_then (retained_record E root attempt_path result_path cu) (\<lambda>r.
         io_lift (and_then (attempt_admit (se_host E) decision ivc
             (if is_null r then None else Some r)) (\<lambda>admission.
           Inr (jset ''custody'' (en_custody cu) admission))))
     | None \<Rightarrow>
         io_then (io_lift (attempt_admit (se_host E) decision ivc None)) (\<lambda>admission.
         io_then (checked root result_path False) (\<lambda>p.
         io_then (entry_exists root p) (\<lambda>present.
         if present then io_lift (Inl (err ''unowned result evidence exists; preserved''))
         else
         io_then (create_evidence E root attempt_path (ix admission ''record'')) (\<lambda>ev.
         io_lift (Inr (jset ''custody''
           (en_custody \<lparr>cu_attempt = ev, cu_committed = None\<rparr>) admission))))))))"

definition store_admit_value :: "store_env \<Rightarrow> json \<Rightarrow> json io" where
  "store_admit_value E v =
     io_then (io_lift (decoded (do {
       f \<leftarrow> struct_fields True [''target'', ''decision'', ''invocation'', ''custody''] v;
       target \<leftarrow> req de_str f ''target'';
       decision \<leftarrow> req de_any f ''decision'';
       ivc \<leftarrow> req de_any f ''invocation'';
       c \<leftarrow> opt de_custody f ''custody'';
       Some (target, decision, ivc, c) }))) (\<lambda>(target, decision, ivc, c).
     store_admit E target decision ivc c)"

definition custody_value :: "json \<Rightarrow> custody \<Rightarrow> json" where
  "custody_value r c = obj [(''record'', r), (''custody'', en_custody c)]"

text \<open>What every operation on retained custody does first.\<close>

definition admitted_attempt ::
  "store_env \<Rightarrow> str \<Rightarrow> custody \<Rightarrow> (str \<times> json \<times> str \<times> str) io" where
  "admitted_attempt E target c =
     io_then (io_lift (store_root E target)) (\<lambda>root.
     io_then (read_evidence E root (cu_attempt c)) (\<lambda>admitted.
     io_then (io_lift (bound_root E target (ix admitted ''invocation''))) (\<lambda>_.
     io_then (io_lift (effect_names E (ix admitted ''invocation''))) (\<lambda>(attempt_path, result_path).
     io_lift (Inr (root, admitted, attempt_path, result_path))))))"

definition store_commit :: "store_env \<Rightarrow> str \<Rightarrow> custody \<Rightarrow> json \<Rightarrow> json io" where
  "store_commit E target c outcome =
     io_then (admitted_attempt E target c) (\<lambda>(root, admitted, attempt_path, result_path).
     if ev_path (cu_attempt c) \<noteq> attempt_path
     then io_lift (Inl (err ''custody belongs to a different effect''))
     else
     io_then (io_lift (attempt_commit (se_host E) admitted outcome)) (\<lambda>r.
     io_then
       (case cu_committed c of
          Some reference \<Rightarrow>
            if ev_path reference \<noteq> result_path
            then io_lift (Inl (err ''committed outcome differs''))
            else io_then (read_evidence E root reference) (\<lambda>stored.
              if stored \<noteq> r then io_lift (Inl (err ''committed outcome differs''))
              else io_lift (Inr reference))
        | None \<Rightarrow> create_evidence E root result_path r) (\<lambda>committed.
     io_lift (Inr (custody_value r \<lparr>cu_attempt = cu_attempt c, cu_committed = Some committed\<rparr>)))))"

definition store_commit_value :: "store_env \<Rightarrow> json \<Rightarrow> json io" where
  "store_commit_value E v =
     io_then (io_lift (decoded (do {
       f \<leftarrow> struct_fields True [''target'', ''custody'', ''outcome''] v;
       target \<leftarrow> req de_str f ''target'';
       c \<leftarrow> req de_custody f ''custody'';
       outcome \<leftarrow> req de_any f ''outcome'';
       Some (target, c, outcome) }))) (\<lambda>(target, c, outcome). store_commit E target c outcome)"

text \<open>The identity a commit will have, without asserting that it happened.\<close>

definition prepare_commit :: "store_env \<Rightarrow> str \<Rightarrow> json \<Rightarrow> json \<Rightarrow> json io" where
  "prepare_commit E target custody_json outcome =
     io_then (io_lift (decoded (de_custody custody_json))) (\<lambda>c.
     io_then (admitted_attempt E target c) (\<lambda>(root, admitted, attempt_path, result_path).
     if ev_path (cu_attempt c) \<noteq> attempt_path
     then io_lift (Inl (err ''custody belongs to a different effect''))
     else
     io_then (io_lift (attempt_commit (se_host E) admitted outcome)) (\<lambda>r.
     let expected = \<lparr>ev_target = root, ev_path = result_path, ev_owner = ev_owner (cu_attempt c),
           ev_revision = store_hash E (to_vec (se_host E) r)\<rparr> in
     io_then (checked root result_path False) (\<lambda>p.
     io_then (entry_exists root p) (\<lambda>present.
     io_then (if present then
                io_then (read_evidence E root expected) (\<lambda>stored.
                  if stored \<noteq> r then io_lift (Inl (err ''existing commit differs from planned outcome''))
                  else io_lift (Inr ()))
              else io_lift (Inr ())) (\<lambda>_.
     if cu_committed c \<noteq> None \<and> cu_committed c \<noteq> Some expected
     then io_lift (Inl (err ''planned commit differs from retained committed custody''))
     else io_lift (Inr (custody_value r
       \<lparr>cu_attempt = cu_attempt c, cu_committed = Some expected\<rparr>))))))))"

definition inspect_committed :: "store_env \<Rightarrow> str \<Rightarrow> json \<Rightarrow> json io" where
  "inspect_committed E target custody_json =
     io_then (io_lift (decoded (de_custody custody_json))) (\<lambda>c.
     io_then (admitted_attempt E target c) (\<lambda>(root, admitted, attempt_path, result_path).
     io_then (io_lift (ok_or (cu_committed c) (err ''committed custody missing''))) (\<lambda>committed.
     if ev_path (cu_attempt c) \<noteq> attempt_path \<or> ev_path committed \<noteq> result_path
     then io_lift (Inl (err ''committed custody belongs to a different effect''))
     else
     io_then (read_evidence E root committed) (\<lambda>r.
     io_then (io_lift (attempt_commit (se_host E) admitted (ix r ''outcome''))) (\<lambda>expected.
     if r \<noteq> expected
     then io_lift (Inl (err ''committed result differs from its retained attempt''))
     else io_lift (Inr r))))))"

section \<open>What an operation may change\<close>

text \<open>Nothing that exists changes, and what is new lies in \<open>S\<close>.\<close>

definition grows :: "(str \<times> path) set \<Rightarrow> disk \<Rightarrow> disk \<Rightarrow> bool" where
  "grows S d d' \<longleftrightarrow> (\<forall>r p. d' r p = d r p \<or> (d r p = None \<and> (r, p) \<in> S))"

definition within :: "(str \<times> path) set \<Rightarrow> 'a io \<Rightarrow> bool" where
  "within S m \<longleftrightarrow> (\<forall>d. grows S d (snd (m d)))"

abbreviation pure_io :: "'a io \<Rightarrow> bool" where
  "pure_io m \<equiv> within {} m"

lemma grows_refl [simp, intro]: "grows S d d"
  by (simp add: grows_def)

lemma grows_trans: "grows S d d' \<Longrightarrow> grows S d' d'' \<Longrightarrow> grows S d d''"
  unfolding grows_def by metis

lemma grows_mono: "grows S d d' \<Longrightarrow> S \<subseteq> T \<Longrightarrow> grows T d d'"
  unfolding grows_def by blast

lemma grows_empty: "grows {} d d' \<longleftrightarrow> d' = d"
  by (auto simp: grows_def fun_eq_iff)

lemma grows_present: "grows S d d' \<Longrightarrow> d r p = Some n \<Longrightarrow> d' r p = Some n"
  unfolding grows_def by (metis option.distinct(1))

lemma within_mono: "within S m \<Longrightarrow> S \<subseteq> T \<Longrightarrow> within T m"
  unfolding within_def by (blast intro: grows_mono)

lemma within_then: "within S m \<Longrightarrow> (\<And>x. within S (f x)) \<Longrightarrow> within S (io_then m f)"
  unfolding within_def io_then_def
  by (auto split: sum.splits prod.splits) (metis grows_trans snd_conv)+

lemma within_lift [simp, intro]: "within S (io_lift r)"
  by (simp add: within_def io_lift_def)

lemma within_lift_then: "(\<And>x. r = Inr x \<Longrightarrow> within S (f x)) \<Longrightarrow> within S (io_then (io_lift r) f)"
  unfolding within_def io_then_def io_lift_def by (auto split: sum.splits)

lemma pure_io_within: "pure_io m \<Longrightarrow> within S m"
  by (erule within_mono) simp

lemma pure_io_snd: "pure_io m \<Longrightarrow> snd (m d) = d"
  by (simp add: within_def grows_empty)

lemma pure_file_bytes: "pure_io (file_bytes root p)"
  by (auto simp: within_def file_bytes_def split: metadata.splits node.splits)

lemma pure_entry_exists: "pure_io (entry_exists root p)"
  by (simp add: within_def entry_exists_def)

section \<open>The walk below the root\<close>

lemma metadata_present_parents:
  "metadata_of t p = Present n \<Longrightarrow> 0 < k \<Longrightarrow> k < length p \<Longrightarrow> t (take k p) = Some DirNode"
  by (force simp: metadata_of_def find_None_iff split: option.splits if_splits)

lemma metadata_present_node: "metadata_of t p = Present n \<Longrightarrow> p \<noteq> [] \<Longrightarrow> t p = Some n"
  by (auto simp: metadata_of_def split: option.splits if_splits)

lemma metadata_presentI:
  assumes "\<And>k. 0 < k \<Longrightarrow> k < length p \<Longrightarrow> t (take k p) = Some DirNode" and "p \<noteq> []" and "t p = Some n"
  shows "metadata_of t p = Present n"
proof -
  have "find (\<lambda>k. t (take k p) \<noteq> Some DirNode) [1..<length p] = None"
    using assms(1) by (auto simp: find_None_iff)
  then show ?thesis using assms(2,3) by (simp add: metadata_of_def)
qed

lemma parent_directories:
  assumes "metadata_of t (butlast p) = Present DirNode" and "0 < k" and "k < length p"
  shows "t (take k p) = Some DirNode"
proof (cases "k < length (butlast p)")
  case True
  then show ?thesis
    using metadata_present_parents [OF assms(1,2)] by (simp add: take_butlast)
next
  case False
  then have "k = length p - 1" using assms(3) by simp
  then have k: "take k p = butlast p" by (simp add: butlast_conv_take)
  then have "butlast p \<noteq> []" using assms(2,3) by auto
  then show ?thesis using metadata_present_node [OF assms(1)] k by simp
qed

lemma missing_absent:
  assumes "metadata_of t p = Missing" and "metadata_of t (butlast p) = Present DirNode"
  shows "t p = None"
proof -
  have "find (\<lambda>k. t (take k p) \<noteq> Some DirNode) [1..<length p] = None"
    using parent_directories [OF assms(2)] by (auto simp: find_None_iff)
  then show ?thesis using assms(1) by (auto simp: metadata_of_def split: if_splits option.splits)
qed

lemma grows_put_node:
  assumes "metadata_of (d root) p = Missing" and "metadata_of (d root) (butlast p) = Present DirNode"
    and "(root, p) \<in> S"
  shows "grows S d (put_node root p n d)"
  using missing_absent [OF assms(1,2)] assms(3) by (auto simp: grows_def put_node_def)

lemma metadata_grows: "metadata_of (d r) p = Present n \<Longrightarrow> grows S d d' \<Longrightarrow> metadata_of (d' r) p = Present n"
proof (cases "p = []")
  case True
  then show "metadata_of (d r) p = Present n \<Longrightarrow> ?thesis" by (simp add: metadata_of_def)
next
  case False
  assume m: "metadata_of (d r) p = Present n" and g: "grows S d d'"
  show ?thesis
    using grows_present [OF g metadata_present_parents [OF m]]
      grows_present [OF g metadata_present_node [OF m False]] False
    by (intro metadata_presentI) auto
qed

lemma metadata_put_node:
  assumes "metadata_of (d root) (butlast p) = Present DirNode" and "p \<noteq> []"
  shows "metadata_of (put_node root p n d root) p = Present n"
proof -
  have "take k p \<noteq> p" if "k < length p" for k using that by (metis length_take min_less_iff_conj nless_le)
  then show ?thesis
    using parent_directories [OF assms(1)] assms(2)
    by (intro metadata_presentI) (auto simp: put_node_def)
qed

text \<open>The entries an operation on \<open>relative\<close> may make: it and its parents.\<close>

definition entry_places :: "str \<Rightarrow> str \<Rightarrow> (str \<times> path) set" where
  "entry_places root relative = {root} \<times> {p. prefix p (resolved_path (split_on CHR 0x2F relative))}"

lemma resolved_path_append: "resolved_path (xs @ ys) = resolved_path xs @ resolved_path ys"
  by (simp add: resolved_path_def)

lemma confine_step_Inr:
  assumes "confine_step root c name part (current, d) = Inr (current', d')"
  shows "current' = current @ [part] \<and>
    grows (if c then {(root, resolved_path (current @ [part]))} else {}) d d'"
  using assms
  by (auto simp: confine_step_def Let_def intro!: grows_put_node split: metadata.splits if_splits node.splits)

lemma confine_walk_facts:
  "grows (if c then {root} \<times> {p. prefix p (resolved_path (current @ parts))} else {}) d
     (snd (confine_walk root c name parts current d)) \<and>
   (\<forall>p d'. confine_walk root c name parts current d = (Inr p, d') \<longrightarrow> p = resolved_path (current @ parts))"
proof (induction parts arbitrary: current d)
  case Nil
  then show ?case by simp
next
  case (Cons part parts)
  show ?case
  proof (cases "confine_step root c name part (current, d)")
    case (Inr s)
    obtain current' d' where s: "s = (current', d')" by fastforce
    have c': "current' = current @ [part]"
      and g: "grows (if c then {(root, resolved_path (current @ [part]))} else {}) d d'"
      using confine_step_Inr [OF Inr [unfolded s]] by simp_all
    have "prefix (resolved_path (current @ [part])) (resolved_path (current @ part # parts))"
      by (simp add: resolved_path_def)
    then have "grows (if c then {root} \<times> {p. prefix p (resolved_path (current @ part # parts))} else {})
        d d'"
      using g by (auto intro: grows_mono)
    moreover have ih: "grows (if c then {root} \<times> {p. prefix p (resolved_path (current @ part # parts))} else {}) d'
        (snd (confine_walk root c name parts (current @ [part]) d'))"
      using conjunct1 [OF Cons.IH [of "current @ [part]" d']]
      by (simp only: append_assoc append_Cons append_Nil)
    ultimately have "grows (if c then {root} \<times> {p. prefix p (resolved_path (current @ part # parts))} else {}) d
        (snd (confine_walk root c name parts (current @ [part]) d'))"
      by (rule grows_trans)
    moreover have "\<forall>p d''. confine_walk root c name parts (current @ [part]) d' = (Inr p, d'') \<longrightarrow>
        p = resolved_path (current @ part # parts)"
      using conjunct2 [OF Cons.IH [of "current @ [part]" d']] by simp
    ultimately show ?thesis
      unfolding confine_walk.simps Inr s c' sum.case prod.case by (rule conjI)
  qed simp
qed

lemma confine_walk_grows:
  "grows (if c then entry_places root relative else {}) d
     (snd (confine_walk root c name (split_on CHR 0x2F relative) [] d))"
proof -
  note f = confine_walk_facts [of c root "[]" "split_on CHR 0x2F relative" d name, unfolded append_Nil]
  show ?thesis unfolding entry_places_def by (rule conjunct1 [OF f])
qed

lemma confined_within: "within (if c then entry_places root relative else {}) (confined root relative c)"
  unfolding within_def
proof
  show "grows (if c then entry_places root relative else {}) d (snd (confined root relative c d))" for d
    using confine_walk_grows [of c root relative d "last (split_on CHR 0x2F relative)"]
    by (cases c) (simp_all add: confined_def Let_def)
qed

lemma confined_Inr:
  assumes "confined root relative c d = (Inr p, d')"
  shows "p = resolved_path (split_on CHR 0x2F relative)"
proof -
  note f = confine_walk_facts [of c root "[]" "split_on CHR 0x2F relative" d
      "last (split_on CHR 0x2F relative)", unfolded append_Nil]
  have "confine_walk root c (last (split_on CHR 0x2F relative)) (split_on CHR 0x2F relative) [] d = (Inr p, d')"
    using assms by (simp add: confined_def Let_def split: if_splits)
  then show ?thesis using conjunct2 [OF f] by blast
qed

lemma checked_within: "within (if c then entry_places root relative else {}) (checked root relative c)"
  unfolding checked_def by (rule within_lift_then) (rule confined_within)

lemma checked_pure: "pure_io (checked root relative False)"
  using checked_within [of False] by simp

text \<open>The entry an evidence path names.\<close>

definition evidence_entry :: "str \<Rightarrow> path" where
  "evidence_entry relative = resolved_path (split_on CHR 0x2F relative)"

lemma checked_Inr:
  "checked root relative c d = (Inr p, d') \<Longrightarrow>
     p = evidence_entry relative \<and> check_evidence_name relative = Inr ()"
  unfolding checked_def io_then_def io_lift_def evidence_entry_def
  by (auto split: sum.splits dest: confined_Inr)

lemma file_bytes_Inr:
  "file_bytes root p d = (Inr bytes, d') \<longleftrightarrow> d' = d \<and> metadata_of (d root) p = Present (FileNode bytes)"
  by (auto simp: file_bytes_def split: metadata.splits node.splits)

lemma io_then_Inr:
  "io_then m f d = (Inr y, d'') \<longleftrightarrow> (\<exists>x d'. m d = (Inr x, d') \<and> f x d' = (Inr y, d''))"
  by (auto simp: io_then_def split: prod.splits sum.splits)

lemma io_lift_Inr: "io_lift r d = (Inr x, d') \<longleftrightarrow> r = Inr x \<and> d' = d"
  by (auto simp: io_lift_def)

lemma io_if: "(if c then f else g) d = (if c then f d else g d)"
  by simp

lemmas io_simps = io_then_Inr io_lift_Inr file_bytes_Inr io_if result_simps

lemmas io_run = io_then_def io_lift_def io_if Let_def

lemma read_evidence_pure: "pure_io (read_evidence E root ev)"
  unfolding read_evidence_def
  by (auto intro!: within_then within_lift_then pure_file_bytes checked_pure)

section \<open>The shape of an evidence path\<close>

lemma split_on_absent: "c \<notin> set s \<Longrightarrow> split_on c s = [s]"
  by (induction s) auto

lemma split_on_append: "c \<notin> set a \<Longrightarrow> split_on c (a @ c # s) = a # split_on c s"
  by (induction a) auto

lemma split_once_Some: "split_once c s = Some (a, b) \<Longrightarrow> s = a @ c # b"
  by (induction s arbitrary: a) (auto split: if_splits option.splits)

definition store_parents :: "str list" where
  "store_parents = [''.agentic-workspace'', ''local'', ''effects'']"

lemma length_store_parents: "length store_parents = 3"
  by (simp add: store_parents_def)

lemma split_store_directory: "split_on CHR 0x2F (STORE_DIRECTORY @ CHR 0x2F # name) =
    store_parents @ split_on CHR 0x2F name"
  by (simp add: STORE_DIRECTORY_def store_parents_def)

lemma ascii_hex_plain: "ascii_hex c \<Longrightarrow> c \<noteq> CHR 0x2F \<and> c \<noteq> CHR 0x5C \<and> c \<noteq> CHR ''.''"
  by (auto simp: ascii_hex_def lower_hex_def ascii_digit_def less_eq_char_simp)

lemma evidence_name_shape:
  assumes "check_evidence_name relative = Inr ()"
  obtains key ext where "split_on CHR 0x2F relative = store_parents @ [key @ ''.'' @ ext]"
    "length key = 64" "list_all ascii_hex key" "ext = ''attempt.json'' \<or> ext = ''result.json''"
    "CHR 0x5C \<notin> set relative"
proof -
  obtain name key ext where n: "relative = STORE_DIRECTORY @ ''/'' @ name"
      "split_once CHR ''.'' name = Some (key, ext)" "length key = 64" "list_all ascii_hex key"
      "ext = ''attempt.json'' \<or> ext = ''result.json''"
    using assms unfolding check_evidence_name_def
    by (elim and_then_InrE) (auto simp: result_simps text_simps fmt_def split: if_splits elim!: and_then_InrE)
  have name: "name = key @ ''.'' @ ext" using split_once_Some [OF n(2)] by simp
  have "CHR 0x2F \<notin> set key" "CHR 0x5C \<notin> set key"
    using n(4) ascii_hex_plain by (auto simp: list_all_iff)
  moreover have "CHR 0x2F \<notin> set ext \<and> CHR 0x5C \<notin> set ext" using n(5) by (elim disjE) simp_all
  ultimately have "CHR 0x2F \<notin> set name" "CHR 0x5C \<notin> set name" by (simp_all add: name)
  then have "split_on CHR 0x2F name = [name]" "CHR 0x5C \<notin> set name"
    using split_on_absent by simp_all
  moreover have "CHR 0x5C \<notin> set STORE_DIRECTORY" by (simp add: STORE_DIRECTORY_def)
  ultimately have "split_on CHR 0x2F relative = store_parents @ [name]" "CHR 0x5C \<notin> set relative"
    using split_store_directory [of name] by (simp_all add: n(1))
  then show ?thesis using that n(3-5) by (simp add: name)
qed

lemma evidence_file_name:
  assumes "length key = 64"
  shows "key @ ''.'' @ ext \<notin> set store_parents" "key @ ''.'' @ ext \<noteq> ''..''"
    "key @ ''.'' @ ext \<noteq> ''.''" "key @ ''.'' @ ext \<noteq> ''''"
proof -
  have "\<forall>s \<in> set (store_parents @ [''..'', ''.'', '''']). length s \<noteq> length (key @ ''.'' @ ext)"
    using assms by (simp add: store_parents_def)
  then show "key @ ''.'' @ ext \<notin> set store_parents" "key @ ''.'' @ ext \<noteq> ''..''"
    "key @ ''.'' @ ext \<noteq> ''.''" "key @ ''.'' @ ext \<noteq> ''''"
    unfolding set_append Ball_def Un_iff by (metis list.set_intros)+
qed

lemma evidence_entry_shape:
  assumes "check_evidence_name relative = Inr ()"
  obtains name where "split_on CHR 0x2F relative = store_parents @ [name]"
    "evidence_entry relative = store_parents @ [name]" "name \<notin> set store_parents"
    "CHR 0x5C \<notin> set relative" "relative \<noteq> ''''" "normal_components (store_parents @ [name])"
proof -
  obtain key ext where k: "split_on CHR 0x2F relative = store_parents @ [key @ ''.'' @ ext]"
    "length key = 64" "CHR 0x5C \<notin> set relative"
    using evidence_name_shape [OF assms] by metis
  define name where "name = key @ ''.'' @ ext"
  note name = evidence_file_name [OF k(2), of ext, folded name_def]
  note k = k [folded name_def]
  have "resolved_path (store_parents @ [name]) = store_parents @ [name]"
    using name(3,4) by (simp add: resolved_path_def store_parents_def)
  moreover have "normal_components (store_parents @ [name])"
    using name(2) by (simp add: normal_components_def store_parents_def)
  moreover have "relative \<noteq> ''''" using k(1) by (auto simp: store_parents_def)
  ultimately show ?thesis using that [OF k(1) _ name(1) k(3)] by (simp add: evidence_entry_def k(1))
qed

text \<open>The evidence file a path names holds these bytes.\<close>

definition file_at :: "disk \<Rightarrow> str \<Rightarrow> str \<Rightarrow> str \<Rightarrow> bool" where
  "file_at d root relative bytes \<longleftrightarrow>
     metadata_of (d root) (evidence_entry relative) = Present (FileNode bytes)"

lemma file_at_grows: "grows S d d' \<Longrightarrow> file_at d root relative bytes \<Longrightarrow> file_at d' root relative bytes"
  unfolding file_at_def by (rule metadata_grows)

text \<open>An evidence file that is there is found, and nothing is made on the way.\<close>

lemma confined_present:
  assumes "check_evidence_name relative = Inr ()"
    and "file_at d root relative bytes"
  shows "checked root relative c d = (Inr (evidence_entry relative), d)"
proof -
  obtain name where n: "split_on CHR 0x2F relative = store_parents @ [name]"
    "evidence_entry relative = store_parents @ [name]" "name \<notin> set store_parents"
    "CHR 0x5C \<notin> set relative" "relative \<noteq> ''''" "normal_components (store_parents @ [name])"
    using evidence_entry_shape [OF assms(1)] by metis
  have leaf: "metadata_of (d root) (store_parents @ [name]) = Present (FileNode bytes)"
    using assms(2) n(2) by (simp add: file_at_def)
  have dir: "metadata_of (d root) (take k store_parents) = Present DirNode" if "0 < k" "k \<le> 3" for k
  proof (rule metadata_presentI)
    show "d root (take j (take k store_parents)) = Some DirNode" if "0 < j" "j < length (take k store_parents)" for j
      using metadata_present_parents [OF leaf, of j] that \<open>k \<le> 3\<close>
      by (simp add: length_store_parents)
    show "d root (take k store_parents) = Some DirNode"
      using metadata_present_parents [OF leaf, of k] that by (simp add: length_store_parents)
    show "take k store_parents \<noteq> []" using that by (simp add: store_parents_def)
  qed
  have dirs: "metadata_of (d root) [''.agentic-workspace''] = Present DirNode"
    "metadata_of (d root) [''.agentic-workspace'', ''local''] = Present DirNode"
    "metadata_of (d root) [''.agentic-workspace'', ''local'', ''effects''] = Present DirNode"
    using dir [of 1] dir [of 2] dir [of 3] by (simp_all add: store_parents_def)
  have res: "resolved_path (store_parents @ [name]) = store_parents @ [name]"
    using n(1,2) by (simp add: evidence_entry_def)
  have "confine_walk root c name (store_parents @ [name]) [] d = (Inr (store_parents @ [name]), d)"
    using dirs leaf n(3) res
    by (simp add: store_parents_def confine_step_def resolved_path_def split: if_splits)
  then show ?thesis
    using n assms(1) by (simp add: checked_def io_then_def io_lift_def confined_def)
qed

section \<open>Creating and reading evidence\<close>

lemma within_then_Inr:
  assumes "within S m" and "\<And>d x d'. m d = (Inr x, d') \<Longrightarrow> within S (f x)"
  shows "within S (io_then m f)"
  unfolding within_def
proof
  fix d
  obtain r d' where m: "m d = (r, d')" by fastforce
  have g: "grows S d d'" using assms(1) m by (simp add: within_def) (metis snd_conv)
  show "grows S d (snd (io_then m f d))"
  proof (cases r)
    case (Inr x)
    then have "grows S d' (snd (f x d'))" using assms(2) m by (simp add: within_def)
    then show ?thesis using g m Inr by (simp add: io_then_def grows_trans)
  qed (use g m in \<open>simp add: io_then_def\<close>)
qed

lemma create_new_within: "within {(root, p)} (create_new root p bytes)"
  by (auto simp: within_def create_new_def intro!: grows_put_node split: metadata.splits)

lemma create_new_Inr:
  assumes "create_new root p bytes d = (Inr u, d')" and "p \<noteq> []"
  shows "metadata_of (d' root) p = Present (FileNode bytes)"
  using assms by (auto simp: create_new_def intro!: metadata_put_node split: metadata.splits if_splits)

lemma create_evidence_within: "within (entry_places root relative) (create_evidence E root relative v)"
  unfolding create_evidence_def
proof (rule within_then_Inr)
  show "within (entry_places root relative) (checked root relative True)"
    using checked_within [of True] by simp
  fix d p d'
  assume "checked root relative True d = (Inr p, d')"
  then have "(root, p) \<in> entry_places root relative"
    using checked_Inr by (simp add: entry_places_def evidence_entry_def)
  then show "within (entry_places root relative) (let bytes = to_vec (se_host E) v in
      io_then (create_new root p bytes) (\<lambda>_. io_lift (and_then
        (ok_or (as_str (ix (ix v ''invocation'') ''source_owner'')) (err ''attempt owner missing'')) (\<lambda>owner.
         Inr \<lparr>ev_target = root, ev_path = relative, ev_owner = owner, ev_revision = store_hash E bytes\<rparr>))))"
    unfolding Let_def by (intro within_then within_lift within_mono [OF create_new_within]) simp
qed

lemma evidence_entry_nonempty: "check_evidence_name relative = Inr () \<Longrightarrow> evidence_entry relative \<noteq> []"
  using evidence_entry_shape by (metis Nil_is_append_conv not_Cons_self2)

lemma create_evidence_Inr:
  assumes "create_evidence E root relative v d = (Inr ev, d')"
  shows "check_evidence_name relative = Inr () \<and>
    file_at d' root relative (to_vec (se_host E) v) \<and>
    ev = \<lparr>ev_target = root, ev_path = relative, ev_owner = ev_owner ev,
      ev_revision = store_hash E (to_vec (se_host E) v)\<rparr> \<and>
    as_str (ix (ix v ''invocation'') ''source_owner'') = Some (ev_owner ev)"
proof -
  obtain p d1 d2 where c: "checked root relative True d = (Inr p, d1)"
    and n: "create_new root p (to_vec (se_host E) v) d1 = (Inr (), d2)"
    and e: "as_str (ix (ix v ''invocation'') ''source_owner'') = Some (ev_owner ev)" "d' = d2"
      "ev = \<lparr>ev_target = root, ev_path = relative, ev_owner = ev_owner ev,
        ev_revision = store_hash E (to_vec (se_host E) v)\<rparr>"
    using assms unfolding create_evidence_def Let_def by (auto simp: io_simps)
  have p: "p = evidence_entry relative" "check_evidence_name relative = Inr ()"
    using checked_Inr [OF c] by simp_all
  show ?thesis
    using create_new_Inr [OF n] evidence_entry_nonempty [OF p(2)] p e by (simp add: file_at_def)
qed

lemma read_evidence_Inr_iff:
  assumes "check_evidence_name (ev_path ev) = Inr ()"
    and "file_at d root (ev_path ev) bytes"
  shows "read_evidence E root ev d = (Inr v, d') \<longleftrightarrow>
    d' = d \<and> root = ev_target ev \<and> store_hash E bytes = ev_revision ev \<and> se_from_slice E bytes = Some v \<and>
    as_str (ix (ix v ''invocation'') ''source_owner'') = Some (ev_owner ev)"
  using confined_present [OF assms, of False] assms(2)
  unfolding read_evidence_def by (auto simp: file_at_def io_run file_bytes_def ok_or_def split: option.splits if_splits)

text \<open>What was read is the content of a regular file with exactly the digest in custody.\<close>

lemma read_evidence_Inr:
  assumes "read_evidence E root ev d = (Inr v, d')"
  shows "d' = d \<and> root = ev_target ev \<and> check_evidence_name (ev_path ev) = Inr () \<and>
    (\<exists>bytes. file_at d root (ev_path ev) bytes \<and>
       store_hash E bytes = ev_revision ev \<and> se_from_slice E bytes = Some v) \<and>
    as_str (ix (ix v ''invocation'') ''source_owner'') = Some (ev_owner ev)"
proof -
  obtain p d1 d2 bytes where c: "checked root (ev_path ev) False d = (Inr p, d1)"
    and f: "file_bytes root p d1 = (Inr bytes, d2)"
    using assms unfolding read_evidence_def by (auto simp: io_simps split: if_splits)
  have p: "p = evidence_entry (ev_path ev)" "check_evidence_name (ev_path ev) = Inr ()"
    using checked_Inr [OF c] by simp_all
  have "d1 = d" using pure_io_snd [OF checked_pure, of root "ev_path ev" d] c by simp
  then have m: "file_at d root (ev_path ev) bytes"
    using f p by (simp add: file_bytes_Inr file_at_def)
  show ?thesis using assms read_evidence_Inr_iff [OF p(2) m] p(2) m by blast
qed

lemma read_evidence_stable:
  assumes "read_evidence E root ev d = (Inr v, d0)" and "grows S d d'"
  shows "read_evidence E root ev d' = (Inr v, d')"
proof -
  obtain bytes where b: "file_at d root (ev_path ev) bytes"
    "store_hash E bytes = ev_revision ev" "se_from_slice E bytes = Some v"
    and r: "root = ev_target ev" "check_evidence_name (ev_path ev) = Inr ()"
    "as_str (ix (ix v ''invocation'') ''source_owner'') = Some (ev_owner ev)"
    using read_evidence_Inr [OF assms(1)] by blast
  show ?thesis
    using read_evidence_Inr_iff [where ev = ev, OF r(2) file_at_grows [OF assms(2) b(1)]] b r by blast
qed

lemma read_created:
  assumes "create_evidence E root relative v d = (Inr ev, d')" and "grows S d' d''"
    and "se_from_slice E (to_vec (se_host E) v) = Some v"
  shows "read_evidence E root ev d'' = (Inr v, d'')"
proof -
  have c: "check_evidence_name (ev_path ev) = Inr ()"
    "file_at d' root (ev_path ev) (to_vec (se_host E) v)"
    "ev_target ev = root" "ev_revision ev = store_hash E (to_vec (se_host E) v)"
    "as_str (ix (ix v ''invocation'') ''source_owner'') = Some (ev_owner ev)"
    using create_evidence_Inr [OF assms(1)] by (metis evidence.select_convs)+
  show ?thesis
    using read_evidence_Inr_iff [where ev = ev, OF c(1) file_at_grows [OF assms(2) c(2)]] c assms(3) by simp
qed

lemma create_evidence_exists:
  assumes "file_at d root relative bytes"
  shows "\<exists>e. create_evidence E root relative v d = (Inl e, d)"
proof (cases "check_evidence_name relative")
  case Inl
  then show ?thesis by (simp add: create_evidence_def checked_def io_then_def io_lift_def)
next
  case (Inr u)
  then show ?thesis
    using confined_present [OF _ assms, of True] assms
    by (simp add: file_at_def create_evidence_def io_run create_new_def)
qed

end
