(* ===== verification/Store_Safety.thy ===== *)
theory Store_Safety
  imports Attempt_Store
begin

text \<open>
  What the evidence store guarantees: nothing that exists is ever changed, new entries lie
  below the store's directory, an effect is admitted for execution at most once, and what
  custody names is what was written. The operations are used through the interface of an
  immutable store.
\<close>

section \<open>The interface of an immutable store\<close>

text \<open>
  What a client of \<open>create\<close> and \<open>read\<close> relies on: a place is taken at most once,
  and a reference given out stays readable in every later state.
\<close>

locale immutable_store =
  fixes create :: "'p \<Rightarrow> 'v \<Rightarrow> 's \<Rightarrow> ('e + 'r) \<times> 's"
    and read :: "'r \<Rightarrow> 's \<Rightarrow> ('e + 'v) \<times> 's"
    and later :: "'s \<Rightarrow> 's \<Rightarrow> bool"
    and fits :: "'v \<Rightarrow> bool"
  assumes later_refl: "later s s"
    and later_trans: "later s s' \<Longrightarrow> later s' s'' \<Longrightarrow> later s s''"
    and create_later: "later s (snd (create p v s))"
    and read_same: "snd (read r s) = s"
    and read_later: "read r s = (Inr v, s0) \<Longrightarrow> later s s' \<Longrightarrow> read r s' = (Inr v, s')"
    and read_create: "create p v s = (Inr r, s') \<Longrightarrow> fits v \<Longrightarrow> read r s' = (Inr v, s')"
    and create_once: "create p v s = (Inr r, s') \<Longrightarrow> later s' s'' \<Longrightarrow> \<exists>e. fst (create p w s'') = Inl e"
begin

fun create_all :: "('p \<times> 'v) list \<Rightarrow> 's \<Rightarrow> (('p \<times> 'v) \<times> ('e + 'r)) list \<times> 's" where
  "create_all [] s = ([], s)"
| "create_all (pv # pvs) s =
     (let (r, s') = create (fst pv) (snd pv) s; (rs, s'') = create_all pvs s' in ((pv, r) # rs, s''))"

lemma create_all_later: "later s (snd (create_all pvs s))"
proof (induction pvs arbitrary: s)
  case (Cons pv pvs)
  then show ?case
    using create_later [of s "fst pv" "snd pv"] later_trans by (simp split: prod.splits) (metis snd_conv)
qed (simp add: later_refl)

lemma taken_stays_taken:
  assumes "create p v s = (Inr r, s')" and "later s' s''" and "(q, Inr r') \<in> set (fst (create_all pvs s''))"
  shows "fst q \<noteq> p"
  using assms(2,3)
proof (induction pvs arbitrary: s'')
  case (Cons pv pvs)
  obtain x s1 where c: "create (fst pv) (snd pv) s'' = (x, s1)" by fastforce
  have l: "later s'' s1" using create_later [of s'' "fst pv" "snd pv"] c by simp
  from Cons.prems(2) consider "q = pv" "x = Inr r'" | "(q, Inr r') \<in> set (fst (create_all pvs s1))"
    by (auto simp: c split: prod.splits)
  then show ?case
  proof cases
    case 1
    obtain e where "fst (create p (snd pv) s'') = Inl e"
      using create_once [OF assms(1) Cons.prems(1)] by blast
    then show ?thesis using c 1 by auto
  next
    case 2
    then show ?thesis using Cons.IH later_trans [OF Cons.prems(1) l] by blast
  qed
qed simp

text \<open>Among any sequence of attempts to create, each place is acquired at most once.\<close>

lemma places_acquired_once:
  "distinct (map (\<lambda>x. fst (fst x)) (filter (\<lambda>x. \<not> isl (snd x)) (fst (create_all pvs s))))"
proof (induction pvs arbitrary: s)
  case (Cons pv pvs)
  obtain x s1 where c: "create (fst pv) (snd pv) s = (x, s1)" by fastforce
  obtain rs s2 where a: "create_all pvs s1 = (rs, s2)" by fastforce
  show ?case
  proof (cases x)
    case (Inr r)
    have "fst (fst y) \<noteq> fst pv" if "y \<in> set rs" "\<not> isl (snd y)" for y
      using taken_stays_taken [OF c [unfolded Inr] later_refl, of "fst y" "projr (snd y)" pvs] that a
      by (cases y) auto
    then have "fst pv \<notin> set (map (\<lambda>x. fst (fst x)) (filter (\<lambda>x. \<not> isl (snd x)) rs))" by force
    then show ?thesis using Cons.IH [of s1] by (simp add: c a)
  qed (use Cons.IH [of s1] in \<open>simp add: c a\<close>)
qed simp

lemma created_stays:
  "create p v s = (Inr r, s') \<Longrightarrow> fits v \<Longrightarrow> later s' s'' \<Longrightarrow> read r s'' = (Inr v, s'')"
  using read_create read_later by blast

end

text \<open>The serialization of a value is read back as that value.\<close>

definition survives :: "store_env \<Rightarrow> json \<Rightarrow> bool" where
  "survives E v \<longleftrightarrow> se_from_slice E (to_vec (se_host E) v) = Some v"

interpretation evidence_store: immutable_store
  "create_evidence E root" "read_evidence E root" "grows UNIV" "survives E"
proof unfold_locales
  show "grows UNIV s (snd (create_evidence E root p v s))" for s p v
    using create_evidence_within [of root p E v] grows_mono [OF _ subset_UNIV] by (auto simp: within_def)
  show "snd (read_evidence E root r s) = s" for r s by (rule pure_io_snd [OF read_evidence_pure])
  show "\<exists>e. fst (create_evidence E root p w s'') = Inl e"
    if a: "create_evidence E root p v s = (Inr r, s')" "grows UNIV s' s''" for p v s r s' s'' w
  proof -
    have "file_at s'' root p (to_vec (se_host E) v)"
      using create_evidence_Inr [OF a(1)] file_at_grows [OF a(2)] by blast
    then show ?thesis by (metis create_evidence_exists fst_conv)
  qed
qed (auto simp: survives_def intro: grows_trans read_evidence_stable read_created)

section \<open>The operations\<close>

text \<open>The entries the two evidence files of an effect and their parents occupy.\<close>

definition evidence_places :: "str \<Rightarrow> (str \<times> path) set" where
  "evidence_places root = {root} \<times> {p. \<exists>name. prefix p (store_parents @ [name])}"

definition target_places :: "store_env \<Rightarrow> str \<Rightarrow> (str \<times> path) set" where
  "target_places E target = (case se_canonicalize E target of None \<Rightarrow> {} | Some root \<Rightarrow> evidence_places root)"

lemma entry_places_evidence:
  assumes "check_evidence_name relative = Inr ()"
  shows "entry_places root relative \<subseteq> evidence_places root"
proof -
  obtain name where "evidence_entry relative = store_parents @ [name]"
    using evidence_entry_shape [OF assms] by metis
  then show ?thesis by (auto simp: entry_places_def evidence_places_def evidence_entry_def)
qed

lemma create_evidence_places: "within (evidence_places root) (create_evidence E root relative v)"
proof (cases "check_evidence_name relative")
  case (Inl e)
  then show ?thesis by (simp add: within_def create_evidence_def checked_def io_run)
next
  case (Inr u)
  then show ?thesis by (intro within_mono [OF create_evidence_within] entry_places_evidence) simp
qed

lemma retained_record_pure: "pure_io (retained_record E root ap rp c)"
  unfolding retained_record_def
  by (auto intro!: within_then [OF read_evidence_pure] split: option.split)

lemma store_root_Inr: "store_root E target = Inr root \<longleftrightarrow> se_canonicalize E target = Some root"
  by (simp add: store_root_def ok_or_Inr_iff)

lemma bound_root_Inr: "bound_root E target i = Inr root \<Longrightarrow> se_canonicalize E target = Some root"
  unfolding bound_root_def by (auto simp: result_simps store_root_Inr split: if_splits)

lemma store_admit_within: "within (target_places E target) (store_admit E target decision i c)"
  unfolding store_admit_def
proof (intro within_lift_then, clarsimp, intro within_lift_then)
  fix ap rp root
  assume r: "bound_root E target i = Inr root"
  show "within (target_places E target)
    (case c of
       None \<Rightarrow> io_then (io_lift (attempt_admit (se_host E) decision i None))
         (\<lambda>admission. io_then (checked root rp False) (\<lambda>p. io_then (entry_exists root p)
            (\<lambda>present. if present then io_lift (Inl (err ''unowned result evidence exists; preserved''))
              else io_then (create_evidence E root ap (ix admission ''record''))
                (\<lambda>ev. io_lift (Inr (jset ''custody''
                   (en_custody \<lparr>cu_attempt = ev, cu_committed = None\<rparr>) admission))))))
     | Some cu \<Rightarrow> io_then (retained_record E root ap rp cu)
         (\<lambda>r. io_lift (and_then (attempt_admit (se_host E) decision i (if is_null r then None else Some r))
           (\<lambda>admission. Inr (jset ''custody'' (en_custody cu) admission)))))"
    using create_evidence_places [of root E]
    by (auto simp: target_places_def bound_root_Inr [OF r] split: option.split intro!: within_then
        pure_io_within [OF checked_pure] pure_io_within [OF pure_entry_exists]
        pure_io_within [OF retained_record_pure])
qed

lemma admitted_attempt_pure: "pure_io (admitted_attempt E target c)"
  unfolding admitted_attempt_def
  by (auto intro!: within_then read_evidence_pure split: prod.split)

lemma admitted_attempt_Inr:
  assumes "admitted_attempt E target c d = (Inr (root, admitted, ap, rp), d')"
  shows "d' = d \<and> se_canonicalize E target = Some root \<and>
    read_evidence E root (cu_attempt c) d = (Inr admitted, d) \<and>
    bound_root E target (ix admitted ''invocation'') = Inr root \<and>
    effect_names E (ix admitted ''invocation'') = Inr (ap, rp)"
proof -
  have s: "store_root E target = Inr root"
    and r: "read_evidence E root (cu_attempt c) d = (Inr admitted, d)"
    and b: "\<exists>x. bound_root E target (ix admitted ''invocation'') = Inr x"
    and n: "effect_names E (ix admitted ''invocation'') = Inr (ap, rp)"
    using assms pure_io_snd [OF read_evidence_pure, of E root "cu_attempt c" d]
    unfolding admitted_attempt_def by (auto simp: io_simps)
  have "bound_root E target (ix admitted ''invocation'') = Inr root"
    using b bound_root_Inr s by (metis option.inject store_root_Inr)
  moreover have "d' = d" using pure_io_snd [OF admitted_attempt_pure, of E target c d] assms by simp
  ultimately show ?thesis using s r n by (simp add: store_root_Inr)
qed

lemma admitted_attempt_places:
  "admitted_attempt E target c d = (Inr (root, admitted, ap, rp), d') \<Longrightarrow>
     target_places E target = evidence_places root"
  using admitted_attempt_Inr by (simp add: target_places_def)

lemma store_commit_within: "within (target_places E target) (store_commit E target c outcome)"
  unfolding store_commit_def
  by (rule within_then_Inr [OF pure_io_within [OF admitted_attempt_pure]])
    (auto simp: admitted_attempt_places intro!: within_then create_evidence_places
      pure_io_within [OF read_evidence_pure] split: option.split)

lemma prepare_commit_pure: "pure_io (prepare_commit E target cj outcome)"
  unfolding prepare_commit_def Let_def
  by (auto intro!: within_then admitted_attempt_pure checked_pure pure_entry_exists read_evidence_pure
      split: prod.split)

lemma inspect_committed_pure: "pure_io (inspect_committed E target cj)"
  unfolding inspect_committed_def
  by (auto intro!: within_then admitted_attempt_pure read_evidence_pure split: prod.split)

text \<open>The calls as they arrive: with the fields of an object.\<close>

lemma store_admit_value_eq:
  "store_admit_value E (obj
     [(''target'', JStr target), (''decision'', decision), (''invocation'', ivc), (''custody'', c)]) =
   io_then (io_lift (decoded (if c = JNull then Some None else map_option Some (de_custody c))))
     (store_admit E target decision ivc)"
proof -
  have o: "(case c of JNull \<Rightarrow> Some None | w \<Rightarrow> map_option Some (de_custody w)) =
      (if c = JNull then Some None else map_option Some (de_custody c))" by (cases c) simp_all
  show ?thesis
    unfolding store_admit_value_def
    by (cases "de_custody c"; cases "c = JNull")
      (simp_all add: o fun_eq_iff io_run decoded_def ok_or_def split: json.splits)
qed

lemma store_admit_value_within:
  "within (target_places E target) (store_admit_value E (obj
     [(''target'', JStr target), (''decision'', decision), (''invocation'', ivc), (''custody'', c)]))"
  unfolding store_admit_value_eq by (intro within_then within_lift store_admit_within)

lemma store_commit_value_within:
  "within (target_places E target) (store_commit_value E (obj
     [(''target'', JStr target), (''custody'', c), (''outcome'', outcome)]))"
  unfolding store_commit_value_def
  by (rule within_lift_then) (auto simp: result_simps Option.bind_eq_Some_conv intro!: store_commit_within)

section \<open>Runs\<close>

text \<open>The calls the store answers, in any order and by any client.\<close>

datatype store_call =
    Admit str json json "custody option"
  | Commit str custody json
  | Prepare str json json
  | Inspect str json

fun perform :: "store_env \<Rightarrow> store_call \<Rightarrow> json io" where
  "perform E (Admit target decision i c) = store_admit E target decision i c"
| "perform E (Commit target c outcome) = store_commit E target c outcome"
| "perform E (Prepare target cj outcome) = prepare_commit E target cj outcome"
| "perform E (Inspect target cj) = inspect_committed E target cj"

fun perform_all :: "store_env \<Rightarrow> store_call list \<Rightarrow> disk \<Rightarrow> json res list \<times> disk" where
  "perform_all E [] d = ([], d)"
| "perform_all E (c # cs) d =
     (let (r, d') = perform E c d; (rs, d'') = perform_all E cs d' in (r # rs, d''))"

fun call_target :: "store_call \<Rightarrow> str" where
  "call_target (Admit target _ _ _) = target"
| "call_target (Commit target _ _) = target"
| "call_target (Prepare target _ _) = target"
| "call_target (Inspect target _) = target"

text \<open>Where the calls may add entries: below the store's directory of their targets.\<close>

definition store_places :: "store_env \<Rightarrow> store_call list \<Rightarrow> (str \<times> path) set" where
  "store_places E cs = (\<Union>c \<in> set cs. target_places E (call_target c))"

lemma perform_within: "within (target_places E (call_target c)) (perform E c)"
  by (cases c) (auto intro: store_admit_within store_commit_within
      pure_io_within prepare_commit_pure inspect_committed_pure)

lemma perform_all_grows: "grows (store_places E cs) d (snd (perform_all E cs d))"
proof (induction cs arbitrary: d)
  case (Cons c cs)
  obtain r d' where c: "perform E c d = (r, d')" by fastforce
  have "grows (target_places E (call_target c)) d d'"
    using perform_within [of E c] c unfolding within_def by (metis snd_conv)
  then have "grows (store_places E (c # cs)) d d'" by (rule grows_mono) (simp add: store_places_def)
  moreover have "grows (store_places E (c # cs)) d' (snd (perform_all E cs d'))"
    using Cons.IH by (rule grows_mono) (simp add: store_places_def)
  ultimately show ?case using grows_trans by (simp add: c case_prod_unfold Let_def)
qed simp

lemma perform_all_append:
  "perform_all E (xs @ ys) d =
     (fst (perform_all E xs d) @ fst (perform_all E ys (snd (perform_all E xs d))),
      snd (perform_all E ys (snd (perform_all E xs d))))"
  by (induction xs arbitrary: d) (simp_all add: case_prod_unfold Let_def)

lemma length_perform_all [simp]: "length (fst (perform_all E cs d)) = length cs"
  by (induction cs arbitrary: d) (simp_all add: case_prod_unfold Let_def)

lemma perform_all_nth:
  "i < length cs \<Longrightarrow>
     fst (perform_all E cs d) ! i = fst (perform E (cs ! i) (snd (perform_all E (take i cs) d)))"
proof (induction cs arbitrary: i d)
  case (Cons c cs)
  then show ?case by (cases i) (simp_all add: case_prod_unfold Let_def)
qed simp

lemma perform_all_Suc:
  "i < length cs \<Longrightarrow> snd (perform_all E (take (Suc i) cs) d) =
     snd (perform E (cs ! i) (snd (perform_all E (take i cs) d)))"
  by (simp add: take_Suc_conv_app_nth perform_all_append case_prod_unfold Let_def)

lemma perform_all_between:
  assumes "i < j" and "j \<le> length cs"
  shows "grows UNIV (snd (perform E (cs ! i) (snd (perform_all E (take i cs) d))))
    (snd (perform_all E (take j cs) d))"
proof -
  have "take j cs = take (Suc i) cs @ drop (Suc i) (take j cs)"
    using assms by (metis Suc_leI append_take_drop_id min_absorb2 take_take min.commute)
  then obtain ys where ys: "take j cs = take (Suc i) cs @ ys" by blast
  have "snd (perform_all E (take (Suc i) cs) d) = snd (perform E (cs ! i) (snd (perform_all E (take i cs) d)))"
    using assms by (intro perform_all_Suc) simp
  then show ?thesis
    using grows_mono [OF perform_all_grows [of E ys] subset_UNIV] by (simp add: ys perform_all_append)
qed

text \<open>C9: Whatever calls the store answers, successful or not, in whatever order: an entry
  of the file system that was there stays as it was, and an entry that is new lies on a
  store path below the canonical root of a called target.\<close>

theorem evidence_never_overwritten:
  assumes "snd (perform_all E cs d) r p \<noteq> d r p"
  shows "d r p = None \<and> (\<exists>c \<in> set cs. se_canonicalize E (call_target c) = Some r) \<and>
    (\<exists>name. prefix p (store_parents @ [name]))"
proof -
  have "d r p = None \<and> (r, p) \<in> store_places E cs"
    using perform_all_grows [of E cs d] assms unfolding grows_def by blast
  then obtain c where "d r p = None" "c \<in> set cs" "(r, p) \<in> target_places E (call_target c)"
    by (auto simp: store_places_def)
  then show ?thesis
    unfolding target_places_def evidence_places_def by (auto split: option.splits)
qed

lemma attempt_admit_again:
  assumes "attempt_admit H decision i (Some v) = Inr out"
  shows "ix out ''disposition'' \<noteq> JStr ''execute''"
  using assms
  by (auto simp: attempt_admit_def result_simps attempt_disposition_def attempt_admission_def split: if_splits)

lemma attempt_admit_object: "attempt_admit H decision i v = Inr out \<Longrightarrow> is_object out"
  by (auto simp: attempt_admit_def result_simps attempt_admission_def)

lemma retained_record_Inr:
  assumes "retained_record E root ap rp c d = (Inr v, d')"
  shows "d' = d \<and> v \<noteq> JNull \<and>
    (case cu_committed c of None \<Rightarrow> read_evidence E root (cu_attempt c) d = (Inr v, d)
     | Some committed \<Rightarrow> read_evidence E root committed d = (Inr v, d))"
proof -
  have d: "d' = d" using pure_io_snd [OF retained_record_pure, of E root ap rp c d] assms by simp
  have r: "case cu_committed c of None \<Rightarrow> read_evidence E root (cu_attempt c) d = (Inr v, d)
     | Some committed \<Rightarrow> read_evidence E root committed d = (Inr v, d)"
    using assms pure_io_snd [OF read_evidence_pure, of E root _ d]
    unfolding retained_record_def
    by (auto simp: io_simps split: if_splits option.splits) (metis snd_conv)+
  have "\<exists>ev. read_evidence E root ev d = (Inr v, d)" using r by (auto split: option.splits)
  then have "v \<noteq> JNull" using read_evidence_Inr by (fastforce simp: ix_def jget_def as_str_def)
  then show ?thesis using d r by blast
qed

lemma store_admit_execute:
  assumes "store_admit E target decision i c d = (Inr out, d')"
    and "ix out ''disposition'' = JStr ''execute''"
  shows "\<exists>root ap rp admission ev. se_canonicalize E target = Some root \<and> effect_names E i = Inr (ap, rp) \<and>
    attempt_admit (se_host E) decision i None = Inr admission \<and>
    create_evidence E root ap (ix admission ''record'') d = (Inr ev, d') \<and>
    out = jset ''custody'' (en_custody \<lparr>cu_attempt = ev, cu_committed = None\<rparr>) admission"
proof -
  obtain ap rp root where n: "effect_names E i = Inr (ap, rp)" "bound_root E target i = Inr root"
    using assms(1) unfolding store_admit_def by (auto simp: io_simps)
  show ?thesis
  proof (cases c)
    case None
    obtain admission ev d1 d2 b where s: "checked root rp False d = (Inr b, d1)"
      "entry_exists root b d1 = (Inr False, d2)"
      "create_evidence E root ap (ix admission ''record'') d2 = (Inr ev, d')"
      "attempt_admit (se_host E) decision i None = Inr admission"
      "out = jset ''custody'' (en_custody \<lparr>cu_attempt = ev, cu_committed = None\<rparr>) admission"
      using assms(1) n None unfolding store_admit_def by (auto simp: io_simps split: if_splits)
    have "d1 = d" "d2 = d1"
      using s pure_io_snd [OF checked_pure, of root rp d] pure_io_snd [OF pure_entry_exists, of root b d1]
      by simp_all
    then show ?thesis using s n bound_root_Inr by blast
  next
    case (Some cu)
    obtain v d1 adm where v: "retained_record E root ap rp cu d = (Inr v, d1)"
      "attempt_admit (se_host E) decision i (if is_null v then None else Some v) = Inr adm"
      "out = jset ''custody'' (en_custody cu) adm"
      using assms(1) n Some unfolding store_admit_def by (auto simp: io_simps)
    have "v \<noteq> JNull" using retained_record_Inr [OF v(1)] by blast
    then have "attempt_admit (se_host E) decision i (Some v) = Inr adm"
      using v(2) by (cases v) (simp_all add: is_null_def)
    then show ?thesis
      using attempt_admit_again attempt_admit_object assms(2) v(3) by (fastforce simp: ix_jset)
  qed
qed

text \<open>C10: For one target and one idempotency key, at most one call of any run of calls is
  answered with leave to execute.\<close>

theorem execute_admitted_once:
  assumes "i < j" and "j < length cs"
    and "cs ! i = Admit t1 decision1 i1 c1" and "cs ! j = Admit t2 decision2 i2 c2"
    and "se_canonicalize E t1 = se_canonicalize E t2"
    and "ix i1 ''idempotency_key'' = ix i2 ''idempotency_key''"
    and "fst (perform_all E cs d) ! i = Inr out1" and "ix out1 ''disposition'' = JStr ''execute''"
    and "fst (perform_all E cs d) ! j = Inr out2"
  shows "ix out2 ''disposition'' \<noteq> JStr ''execute''"
proof
  assume second: "ix out2 ''disposition'' = JStr ''execute''"
  let ?d = "\<lambda>k. snd (perform_all E (take k cs) d)"
  obtain d1 where r1: "store_admit E t1 decision1 i1 c1 (?d i) = (Inr out1, d1)"
    using assms(1,2,3,7) by (simp add: perform_all_nth) (metis prod.collapse)
  obtain d2 where r2: "store_admit E t2 decision2 i2 c2 (?d j) = (Inr out2, d2)"
    using assms(2,4,9) by (simp add: perform_all_nth) (metis prod.collapse)
  obtain root ap rp v ev where one: "se_canonicalize E t1 = Some root" "effect_names E i1 = Inr (ap, rp)"
    "create_evidence E root ap v (?d i) = (Inr ev, d1)"
    using store_admit_execute [OF r1 assms(8)] by blast
  obtain root' ap' rp' v' ev' where two: "se_canonicalize E t2 = Some root'"
    "effect_names E i2 = Inr (ap', rp')" "create_evidence E root' ap' v' (?d j) = (Inr ev', d2)"
    using store_admit_execute [OF r2 second] by blast
  have same: "root' = root" "ap' = ap" using one two assms(5,6) by (simp_all add: effect_names_def)
  have "grows UNIV d1 (?d j)"
    using perform_all_between [OF assms(1) less_imp_le [OF assms(2)], of E d] r1 assms(3) by simp
  then show False using evidence_store.create_once [OF one(3)] two(3) same by (metis fst_conv sum.distinct(1))
qed

section \<open>Custody\<close>

lemma de_en_evidence [simp]: "de_evidence (en_evidence e) = Some e"
  by (simp add: de_evidence_def en_evidence_def)

lemma de_en_custody [simp]: "de_custody (en_custody c) = Some c"
proof (cases "cu_committed c")
  case (Some e)
  have "(case en_evidence e of JNull \<Rightarrow> Some None | w \<Rightarrow> map_option Some (de_evidence w)) = Some (Some e)"
    using de_en_evidence [of e] by (simp add: en_evidence_def obj_def)
  then show ?thesis by (simp add: de_custody_def en_custody_def Some jopt_def)
qed (simp add: de_custody_def en_custody_def jopt_def)

lemma ix_custody_value [simp]:
  "ix (custody_value v c) ''record'' = v" "ix (custody_value v c) ''custody'' = en_custody c"
  by (simp_all add: custody_value_def)

lemma read_record_fields:
  assumes "read_record H v = Inr a" and "is_object v"
  shows "at_invocation a = ix v ''invocation'' \<and> JStr (at_attempt_id a) = ix v ''attempt_id''"
proof -
  obtain m where m: "v = JObj m" using assms(2) by (auto simp: is_object_iff)
  have "de_attempt v = Some a" using assms(1) by (auto simp: read_record_def result_simps split: if_splits)
  then show ?thesis
    by (auto simp: m de_attempt_def struct_fields_def req_def ix_def jget_def de_str_def de_any_def
        as_str_Some_iff Option.bind_eq_Some_conv split: if_splits)
qed

lemma attempt_commit_facts:
  assumes "attempt_commit H v outcome = Inr w" and "is_object v"
  shows "ix w ''invocation'' = ix v ''invocation'' \<and> ix w ''attempt_id'' = ix v ''attempt_id'' \<and>
    ix w ''outcome'' = outcome \<and> (\<exists>b. w = en_attempt b \<and> valid_attempt H b \<and> at_outcome b = Some outcome)"
proof -
  obtain a where a: "read_record H v = Inr a" using assms(1) by (auto simp: attempt_commit_def result_simps)
  have "attempt_commit H (en_attempt a) outcome = Inr w"
    using assms(1) a read_record_roundtrip_lemma [OF read_record_valid [OF a]] by (simp add: attempt_commit_def)
  then obtain b where b: "w = en_attempt b" "valid_attempt H b" "at_outcome b = Some outcome"
    "at_invocation b = at_invocation a" "at_attempt_id b = at_attempt_id a"
    using attempt_commit_Inr [OF _ read_record_valid [OF a]] by blast
  have "ix w ''invocation'' = at_invocation b \<and> ix w ''attempt_id'' = JStr (at_attempt_id b) \<and>
      ix w ''outcome'' = outcome"
    using b(3) by (simp add: b(1) en_attempt_def jopt_def)
  then show ?thesis using read_record_fields [OF a assms(2)] b by metis
qed

lemma read_evidence_object:
  assumes "read_evidence E root ev d = (Inr v, d')"
  shows "is_object v"
  using read_evidence_Inr [OF assms]
  by (cases v) (auto simp: ix_def jget_def as_str_def is_object_def)

text \<open>What a successful commit leaves behind: both pieces of evidence readable from then on.\<close>

lemma store_commit_Inr:
  assumes "store_commit E target c outcome d = (Inr v, d1)"
    and "survives E (ix v ''record'')" and "grows UNIV d1 d2"
  shows "\<exists>root admitted ap rp ev. v = custody_value (ix v ''record'') \<lparr>cu_attempt = cu_attempt c, cu_committed = Some ev\<rparr> \<and>
    se_canonicalize E target = Some root \<and> read_evidence E root (cu_attempt c) d = (Inr admitted, d) \<and>
    bound_root E target (ix admitted ''invocation'') = Inr root \<and>
    effect_names E (ix admitted ''invocation'') = Inr (ap, rp) \<and> ev_path (cu_attempt c) = ap \<and>
    ev_path ev = rp \<and> attempt_commit (se_host E) admitted outcome = Inr (ix v ''record'') \<and>
    read_evidence E root (cu_attempt c) d2 = (Inr admitted, d2) \<and>
    read_evidence E root ev d2 = (Inr (ix v ''record''), d2)"
proof -
  obtain root admitted ap rp d0 r d3 ev where
    a: "admitted_attempt E target c d = (Inr (root, admitted, ap, rp), d0)"
    and p: "ev_path (cu_attempt c) = ap" and r: "attempt_commit (se_host E) admitted outcome = Inr r"
    and s: "(case cu_committed c of
          Some reference \<Rightarrow>
            if ev_path reference \<noteq> rp
            then io_lift (Inl (err ''committed outcome differs''))
            else io_then (read_evidence E root reference) (\<lambda>stored.
              if stored \<noteq> r then io_lift (Inl (err ''committed outcome differs''))
              else io_lift (Inr reference))
        | None \<Rightarrow> create_evidence E root rp r) d0 = (Inr ev, d1)"
    and v: "v = custody_value r \<lparr>cu_attempt = cu_attempt c, cu_committed = Some ev\<rparr>"
    using assms(1) unfolding store_commit_def by (auto simp: io_simps split: if_splits)
  have a': "d0 = d" "se_canonicalize E target = Some root"
    "read_evidence E root (cu_attempt c) d = (Inr admitted, d)"
    "bound_root E target (ix admitted ''invocation'') = Inr root"
    "effect_names E (ix admitted ''invocation'') = Inr (ap, rp)"
    using admitted_attempt_Inr [OF a] by simp_all
  have rv: "ix v ''record'' = r" by (simp add: v)
  have "read_evidence E root ev d1 = (Inr r, d1) \<and> ev_path ev = rp"
  proof (cases "cu_committed c")
    case None
    then have cr: "create_evidence E root rp r d = (Inr ev, d1)" using s a'(1) by simp
    have "ev_path ev = rp" using create_evidence_Inr [OF cr] by (metis evidence.select_convs(2))
    then show ?thesis using evidence_store.read_create [OF cr] assms(2) rv by simp
  next
    case (Some ref)
    then have "read_evidence E root ref d = (Inr r, d1) \<and> ev = ref \<and> ev_path ref = rp"
      using s a'(1) by (auto simp: io_simps split: if_splits)
    then show ?thesis using evidence_store.read_same [of E root ref d] by auto
  qed
  moreover have "grows UNIV d d1"
    using store_commit_within [of E target c outcome] assms(1) grows_mono [OF _ subset_UNIV]
    unfolding within_def by (metis snd_conv)
  ultimately have "read_evidence E root (cu_attempt c) d2 = (Inr admitted, d2)"
    "read_evidence E root ev d2 = (Inr r, d2)" "ev_path ev = rp"
    using evidence_store.read_later [OF a'(3) grows_trans [OF _ assms(3)]]
      evidence_store.read_later [OF _ assms(3)] by blast+
  then show ?thesis using a'(2-5) p r v by (intro exI conjI) (simp_all add: rv)
qed

text \<open>C11: What a commit recorded can be inspected from then on: whatever the store answers
  in between, inspection of the returned custody gives exactly the committed record.\<close>

theorem commit_then_inspect:
  assumes "store_commit E target c outcome d = (Inr v, d1)"
    and "survives E (ix v ''record'')"
    and "d2 = snd (perform_all E cs d1)"
  shows "inspect_committed E target (ix v ''custody'') d2 = (Inr (ix v ''record''), d2) \<and>
    ix (ix v ''record'') ''outcome'' = outcome"
proof -
  have g: "grows UNIV d1 d2" using grows_mono [OF perform_all_grows subset_UNIV] assms(3) by simp
  obtain root admitted ap rp ev where
    v: "v = custody_value (ix v ''record'') \<lparr>cu_attempt = cu_attempt c, cu_committed = Some ev\<rparr>"
    and f: "se_canonicalize E target = Some root" "read_evidence E root (cu_attempt c) d = (Inr admitted, d)"
      "bound_root E target (ix admitted ''invocation'') = Inr root"
      "effect_names E (ix admitted ''invocation'') = Inr (ap, rp)" "ev_path (cu_attempt c) = ap"
      "ev_path ev = rp" "attempt_commit (se_host E) admitted outcome = Inr (ix v ''record'')"
      "read_evidence E root (cu_attempt c) d2 = (Inr admitted, d2)"
      "read_evidence E root ev d2 = (Inr (ix v ''record''), d2)"
    using store_commit_Inr [OF assms(1,2) g] by metis
  have o': "ix (ix v ''record'') ''outcome'' = outcome"
    using attempt_commit_facts [OF f(7) read_evidence_object [OF f(2)]] by simp
  have c: "ix v ''custody'' = en_custody \<lparr>cu_attempt = cu_attempt c, cu_committed = Some ev\<rparr>"
    using v by (metis ix_custody_value(2))
  have "admitted_attempt E target (\<lparr>cu_attempt = cu_attempt c, cu_committed = Some ev\<rparr>) d2 =
      (Inr (root, admitted, ap, rp), d2)"
    using f by (simp add: admitted_attempt_def io_run store_root_Inr [THEN iffD2])
  then show ?thesis
    using f o' by (simp add: c inspect_committed_def io_run ok_or_def)
qed

text \<open>C12: After a commit, admitting the effect again under the returned custody never gives
  leave to execute: it replays exactly the committed record.\<close>

theorem committed_effect_replays:
  assumes "store_commit E target c outcome d = (Inr v, d1)"
    and "survives E (ix v ''record'')"
    and "de_custody (ix v ''custody'') = Some c'"
    and "store_admit E target decision i (Some c') (snd (perform_all E cs d1)) = (Inr out, d3)"
  shows "ix out ''disposition'' = JStr ''replay'' \<and> ix out ''record'' = ix v ''record''"
proof -
  let ?d2 = "snd (perform_all E cs d1)"
  have g: "grows UNIV d1 ?d2" using grows_mono [OF perform_all_grows subset_UNIV] by simp
  obtain root admitted ap rp ev where
    v: "v = custody_value (ix v ''record'') \<lparr>cu_attempt = cu_attempt c, cu_committed = Some ev\<rparr>"
    and f: "se_canonicalize E target = Some root" "read_evidence E root (cu_attempt c) d = (Inr admitted, d)"
      "attempt_commit (se_host E) admitted outcome = Inr (ix v ''record'')"
      "read_evidence E root ev ?d2 = (Inr (ix v ''record''), ?d2)"
    using store_commit_Inr [OF assms(1,2) g] by metis
  have c': "c' = \<lparr>cu_attempt = cu_attempt c, cu_committed = Some ev\<rparr>"
    using assms(3) v by (metis ix_custody_value(2) de_en_custody option.inject)
  obtain b where b: "ix v ''record'' = en_attempt b" "valid_attempt (se_host E) b" "at_outcome b = Some outcome"
    using attempt_commit_facts [OF f(3) read_evidence_object [OF f(2)]] by blast
  obtain r root' ap' rp' d4 adm where a: "bound_root E target i = Inr root'"
    "retained_record E root' ap' rp' c' ?d2 = (Inr r, d4)"
    "attempt_admit (se_host E) decision i (if is_null r then None else Some r) = Inr adm"
    "out = jset ''custody'' (en_custody c') adm"
    using assms(4) unfolding store_admit_def by (auto simp: io_simps)
  have "root' = root" using bound_root_Inr [OF a(1)] f(1) by simp
  then have "r = ix v ''record''" using retained_record_Inr [OF a(2)] f(4) by (simp add: c')
  then have "attempt_admit (se_host E) decision i (Some (en_attempt b)) = Inr adm"
    using a(3) by (simp add: b(1) en_attempt_def is_null_def obj_def)
  then show ?thesis
    using attempt_admit_Some [OF _ b(2)] attempt_admit_object a(4) b by (simp add: ix_jset)
qed

text \<open>An effect that was admitted and not committed is never executed again: on any
  later disk its custody is answered as uncertain.\<close>

theorem uncommitted_effect_uncertain:
  assumes "store_admit E target decision1 i1 c d = (Inr out1, d1)"
    and "ix out1 ''disposition'' = JStr ''execute''"
    and "survives E (ix out1 ''record'')"
    and "de_custody (ix out1 ''custody'') = Some c'"
    and "store_admit E target decision2 i2 (Some c') (snd (perform_all E cs d1)) = (Inr out2, d2)"
  shows "ix out2 ''disposition'' = JStr ''uncertain'' \<and> ix out2 ''record'' = ix out1 ''record''"
proof -
  let ?d2 = "snd (perform_all E cs d1)"
  have g: "grows UNIV d1 ?d2" using grows_mono [OF perform_all_grows subset_UNIV] by simp
  obtain root ap rp admission ev where x: "se_canonicalize E target = Some root"
    "attempt_admit (se_host E) decision1 i1 None = Inr admission"
    "create_evidence E root ap (ix admission ''record'') d = (Inr ev, d1)"
    and out: "out1 = jset ''custody'' (en_custody \<lparr>cu_attempt = ev, cu_committed = None\<rparr>) admission"
    using store_admit_execute [OF assms(1,2)] by blast
  have r1: "ix out1 ''record'' = ix admission ''record''" and
    c': "c' = \<lparr>cu_attempt = ev, cu_committed = None\<rparr>"
    using out attempt_admit_object [OF x(2)] assms(4) by (simp_all add: ix_jset)
  obtain a where a: "valid_attempt (se_host E) a" "at_outcome a = None" "ix admission ''record'' = en_attempt a"
    using attempt_admit_None [OF x(2)] by blast
  obtain r root' ap' rp' d4 adm where y: "bound_root E target i2 = Inr root'"
    "retained_record E root' ap' rp' c' ?d2 = (Inr r, d4)"
    "attempt_admit (se_host E) decision2 i2 (if is_null r then None else Some r) = Inr adm"
    "out2 = jset ''custody'' (en_custody c') adm"
    using assms(5) unfolding store_admit_def by (auto simp: io_simps)
  have "root' = root" using bound_root_Inr [OF y(1)] x(1) by simp
  moreover have "read_evidence E root ev ?d2 = (Inr (en_attempt a), ?d2)"
    using evidence_store.created_stays [OF x(3) _ g] assms(3) r1 a(3) by simp
  ultimately have "r = en_attempt a" using retained_record_Inr [OF y(2)] by (simp add: c')
  then have "attempt_admit (se_host E) decision2 i2 (Some (en_attempt a)) = Inr adm"
    using y(3) by (simp add: en_attempt_def is_null_def obj_def)
  then show ?thesis
    using attempt_admit_Some [OF _ a(1)] attempt_admit_object y(4) a r1 by (simp add: ix_jset)
qed

text \<open>C13: Evidence nobody holds custody of is preserved: a first admission of an effect
  whose admission or result file exists is refused and changes nothing.\<close>

theorem unowned_evidence_refused:
  assumes "effect_names E i = Inr (ap, rp)" and "se_canonicalize E target = Some root"
    and "file_at d root ap b \<or> file_at d root rp b"
  shows "\<exists>e. store_admit E target decision i None d = (Inl e, d)"
proof (cases "bound_root E target i")
  case (Inl e)
  then show ?thesis using assms(1) by (simp add: store_admit_def io_run)
next
  case (Inr root')
  then have root: "bound_root E target i = Inr root" using bound_root_Inr [OF Inr] assms(2) by simp
  show ?thesis
  proof (cases "attempt_admit (se_host E) decision i None")
    case (Inl e)
    then show ?thesis using assms(1) root by (simp add: store_admit_def io_run)
  next
    case (Inr admission)
    note start = assms(1) root Inr
    obtain p where p: "checked root rp False d = (p, d)"
      using pure_io_snd [OF checked_pure, of root rp d] by (metis prod.collapse)
    show ?thesis
    proof (cases p)
      case (Inl e)
      then show ?thesis using p start by (simp add: store_admit_def io_run)
    next
      case (Inr q)
      then have q: "check_evidence_name rp = Inr ()" "q = evidence_entry rp" using p checked_Inr by simp_all
      show ?thesis
      proof (cases "metadata_of (d root) q")
        case (Present n)
        then show ?thesis using p Inr start by (simp add: store_admit_def io_run entry_exists_def)
      next
        case Missing
        then have "file_at d root ap b" using assms(3) q by (simp add: file_at_def)
        then obtain e where "create_evidence E root ap (ix admission ''record'') d = (Inl e, d)"
          using create_evidence_exists by metis
        then show ?thesis using p Inr start Missing by (simp add: store_admit_def io_run entry_exists_def)
      next
        case Unreadable
        then have "file_at d root ap b" using assms(3) q by (simp add: file_at_def)
        then obtain e where "create_evidence E root ap (ix admission ''record'') d = (Inl e, d)"
          using create_evidence_exists by metis
        then show ?thesis using p Inr start Unreadable by (simp add: store_admit_def io_run entry_exists_def)
      qed
    qed
  qed
qed

text \<open>C14: The identity prepared for a commit is the one the commit then has.\<close>

theorem prepared_commit_exact:
  assumes "prepare_commit E target (en_custody c) outcome d = (Inr v, d)"
    and "cu_committed c = None"
    and "store_commit E target c outcome (snd (perform_all E cs d)) = (Inr w, d2)"
  shows "w = v"
proof -
  let ?d1 = "snd (perform_all E cs d)"
  have g: "grows UNIV d ?d1" using grows_mono [OF perform_all_grows subset_UNIV] by simp
  obtain root admitted ap rp d0 r where a: "admitted_attempt E target c d = (Inr (root, admitted, ap, rp), d0)"
    and r: "attempt_commit (se_host E) admitted outcome = Inr r"
    and v: "v = custody_value r \<lparr>cu_attempt = cu_attempt c, cu_committed = Some
      \<lparr>ev_target = root, ev_path = rp, ev_owner = ev_owner (cu_attempt c),
       ev_revision = store_hash E (to_vec (se_host E) r)\<rparr>\<rparr>"
    using assms(1) unfolding prepare_commit_def Let_def by (auto simp: io_simps split: if_splits)
  obtain root' admitted' ap' rp' d0' r' ev where
    a': "admitted_attempt E target c ?d1 = (Inr (root', admitted', ap', rp'), d0')"
    and r': "attempt_commit (se_host E) admitted' outcome = Inr r'"
    and cr: "create_evidence E root' rp' r' d0' = (Inr ev, d2)"
    and w: "w = custody_value r' \<lparr>cu_attempt = cu_attempt c, cu_committed = Some ev\<rparr>"
    using assms(2,3) unfolding store_commit_def by (auto simp: io_simps split: if_splits)
  note f = admitted_attempt_Inr [OF a] and f' = admitted_attempt_Inr [OF a']
  have same: "root' = root" "admitted' = admitted" "rp' = rp"
    using f f' evidence_store.read_later [OF _ g, of E root "cu_attempt c" admitted d] by auto
  then have "r' = r" using r r' by simp
  have "is_object admitted" using read_evidence_object f by blast
  then have "ix r ''invocation'' = ix admitted ''invocation''" using attempt_commit_facts [OF r] by simp
  then have "ev_owner ev = ev_owner (cu_attempt c)"
    using create_evidence_Inr [OF cr] read_evidence_Inr [of E root "cu_attempt c" d admitted d] f \<open>r' = r\<close>
    by simp
  then show ?thesis using create_evidence_Inr [OF cr] v w same \<open>r' = r\<close> by metis
qed



end
