(* ===== verification/Task_Judgment.thy ===== *)
theory Task_Judgment
  imports Assessment
begin

text \<open>
  The identity of a direct task, the matching of task judgments with proof receipts and the
  requirements a judgment puts on an execution (\<open>src/src/core/src/direct_task.rs\<close>,
  \<open>task_judgment.rs\<close>, \<open>task_requirements.rs\<close>). The inputs are checked against a part of
  the source schema first; where the code unwraps what that schema guarantees and would
  panic otherwise, the model answers with the error \<open>panic\<close>.
\<close>

definition panic :: core_error where
  "panic = err ''panic''"

definition array_at :: "str \<Rightarrow> json \<Rightarrow> json list res" where
  "array_at k v = ok_or (as_array (ix v k)) panic"

definition string_at :: "str \<Rightarrow> json \<Rightarrow> str res" where
  "string_at k v = ok_or (as_str (ix v k)) panic"

definition strings_in :: "json list \<Rightarrow> str list res" where
  "strings_in vs = collect (\<lambda>v. ok_or (as_str v) panic) vs"

definition schema_part :: "str \<Rightarrow> json \<Rightarrow> json" where
  "schema_part name schema =
     jset ''$schema'' (ix schema ''$schema'') (at [''$defs'', name] schema)"

definition check_part :: "host \<Rightarrow> str \<Rightarrow> str \<Rightarrow> json \<Rightarrow> unit res" where
  "check_part H name field v =
     and_then (schema_validator H (schema_part name (source_schema H)) field) (\<lambda>valid.
     if valid v then Inr () else Inl (err (fmt [''invalid '', field, '' input''])))"

lemma strings_in_Inr: "strings_in vs = Inr ss \<longleftrightarrow> vs = map JStr ss"
  by (induction vs arbitrary: ss) (auto simp: strings_in_def and_then_Inr_iff ok_or_Inr_iff json_simps)

lemma array_at_Inr: "array_at k v = Inr xs \<longleftrightarrow> ix v k = JArr xs"
  by (simp add: array_at_def ok_or_Inr_iff json_simps)

lemma string_at_Inr: "string_at k v = Inr s \<longleftrightarrow> ix v k = JStr s"
  by (simp add: string_at_def ok_or_Inr_iff json_simps)

section \<open>The identity of a direct task\<close>

text \<open>Python's \<open>str.split()\<close>: Unicode white space and four separator controls.\<close>

definition split_space :: "str list" where
  "split_space = white_space @ [[CHR 0x1C], [CHR 0x1D], [CHR 0x1E], [CHR 0x1F]]"

definition flush :: "str \<Rightarrow> str list" where
  "flush cur = (if cur = [] then [] else [rev cur])"

function words_from :: "str list \<Rightarrow> str \<Rightarrow> str \<Rightarrow> str list" where
  "words_from ws cur [] = flush cur"
| "words_from ws cur (c # s) =
     (case find (\<lambda>w. w \<noteq> [] \<and> starts_with (c # s) w) ws of
        Some w \<Rightarrow> flush cur @ words_from ws [] (drop (length w) (c # s))
      | None \<Rightarrow> words_from ws (c # cur) s)"
  by pat_completeness auto
termination
  by (relation "measure (\<lambda>(ws, cur, s). length s)") (auto simp: find_Some_iff)

definition direct_subject :: "host \<Rightarrow> str \<Rightarrow> str list \<Rightarrow> json" where
  "direct_subject H task paths =
     (let revision = JStr (fmt [''direct-task:'', digest H (obj
        [(''task'', JStr (join_with '' '' (words_from split_space [] task))),
         (''paths'', jstrs (sort_dedup paths))])]) in
      obj [(''id'', revision), (''revision'', revision)])"

definition direct_task_view :: "host \<Rightarrow> json \<Rightarrow> json res" where
  "direct_task_view H v =
     and_then (check_part H ''direct_task_subject_input'' ''direct task subject'' v) (\<lambda>_.
     and_then (string_at ''task'' v) (\<lambda>task.
     and_then (array_at ''paths'' v) (\<lambda>ps.
     and_then (strings_in ps) (\<lambda>paths. Inr (direct_subject H task paths)))))"

section \<open>Judgments\<close>

definition task_identity :: "host \<Rightarrow> json \<Rightarrow> json res" where
  "task_identity H i =
     and_then (string_at ''task'' i) (\<lambda>task.
     and_then (array_at ''changed_paths'' i) (\<lambda>ps.
     and_then (strings_in ps) (\<lambda>paths. Inr (direct_subject H task paths))))"

definition task_bound :: "json \<Rightarrow> json \<Rightarrow> json \<Rightarrow> bool" where
  "task_bound i receipt identity \<longleftrightarrow>
     (let judgment = ix receipt ''task_claim_judgment'' in
      case jget judgment ''task_identity'' of
        Some v \<Rightarrow> v = identity
      | None \<Rightarrow>
          ix judgment ''work_ref'' = ix identity ''id'' \<and> ix judgment ''work_revision'' = ix identity ''id'' \<and>
          ix i ''work_ref'' = ix identity ''id'' \<and> ix i ''work_revision'' = ix identity ''id'')"

definition string_or :: "json \<Rightarrow> str" where
  "string_or v = (case as_str v of Some s \<Rightarrow> s | None \<Rightarrow> '''')"

definition judgment_candidate :: "json \<Rightarrow> json \<Rightarrow> bool" where
  "judgment_candidate i receipt \<longleftrightarrow>
     (let judgment = ix receipt ''task_claim_judgment'' in
      trim_with split_space (string_or (ix i ''task'')) \<noteq> '''' \<and>
      string_or (ix i ''work_ref'') \<noteq> '''' \<and> string_or (ix i ''work_revision'') \<noteq> '''' \<and>
      ix judgment ''work_ref'' = ix i ''work_ref'' \<and> ix judgment ''work_revision'' = ix i ''work_revision'' \<and>
      ix judgment ''claim_class'' = JStr ''slice_complete'' \<and> ix judgment ''status'' = JStr ''sufficient'')"

definition is_fingerprint :: "json \<Rightarrow> bool" where
  "is_fingerprint v \<longleftrightarrow>
     (case as_str v of Some s \<Rightarrow> length s = 64 \<and> list_all lower_hex s | None \<Rightarrow> False)"

definition binding_reasons :: "json \<Rightarrow> json \<Rightarrow> json \<Rightarrow> str list" where
  "binding_reasons i receipt identity =
     (let judgment = ix receipt ''task_claim_judgment'' in
      if judgment = JNull then [''task-claim-judgment-missing'']
      else
        (if judgment_candidate i receipt then [] else [''task-claim-mismatch-or-missing-identity'']) @
        (if task_bound i receipt identity then [] else [''exact-task-request-identity-mismatch'']) @
        (let stored = at [''proof_subject'', ''fingerprint''] receipt;
             judged = ix judgment ''proof_subject_fingerprint'' in
         if \<not> is_fingerprint stored \<or> \<not> is_fingerprint judged then [''proof-subject-fingerprint-invalid'']
         else if stored \<noteq> judged then [''task-judgment-proof-subject-binding-mismatch''] else []))"

text \<open>What keeps an observation from matching, and what then still keeps it from being current.\<close>

definition matching_reasons :: "json \<Rightarrow> json \<Rightarrow> json \<Rightarrow> str list" where
  "matching_reasons i identity observation =
     binding_reasons i (ix observation ''receipt'') identity @
     (if ix observation ''publication_current'' = JBool True then [] else [''current-producer-publication-missing'']) @
     (if ix observation ''proof_sufficient'' = JBool True then [] else [''receipt-proof-insufficient''])"

definition freshness_reasons :: "json \<Rightarrow> str list" where
  "freshness_reasons observation =
     (if ix observation ''evidence_freshness'' = JStr ''reusable'' then []
      else [''proof-evidence-freshness-unresolved''])"

definition classification :: "json \<Rightarrow> json \<Rightarrow> json \<Rightarrow> json" where
  "classification i identity observation =
     (let early = matching_reasons i identity observation; late = freshness_reasons observation in
      obj [(''matched'', JBool (early = [])), (''current'', JBool (early @ late = [])),
        (''reasons'', jstrs (early @ late))])"

definition judgment_summary :: "nat \<Rightarrow> nat \<Rightarrow> json list \<Rightarrow> bool \<Rightarrow> bool \<Rightarrow> json" where
  "judgment_summary current matched classifications manual independent = obj
     [(''status'', JStr (if independent then ''independent-review-required''
         else if manual then ''manual-evidence-required''
         else if 0 < current then ''accepted'' else ''task-judgment-required'')),
      (''current_judgment_count'', JNum (PosInt current)), (''matched_judgment_count'', JNum (PosInt matched)),
      (''classifications'', JArr classifications), (''manual_missing'', JBool manual),
      (''independent_missing'', JBool independent)]"

definition count_at :: "str \<Rightarrow> json \<Rightarrow> nat res" where
  "count_at k v = ok_or (as_u64 (ix v k)) panic"

text \<open>A sum of \<open>u64\<close> counts; release arithmetic wraps.\<close>

definition sum_counts :: "nat list \<Rightarrow> nat" where
  "sum_counts ns = sum_list ns mod 2 ^ 64"

definition summarize :: "json \<Rightarrow> json res" where
  "summarize i =
     and_then (array_at ''batches'' i) (\<lambda>batches.
     and_then (collect (count_at ''current_judgment_count'') batches) (\<lambda>current.
     and_then (collect (count_at ''matched_judgment_count'') batches) (\<lambda>matched.
     and_then (collect (array_at ''classifications'') batches) (\<lambda>classifications.
     Inr (judgment_summary (sum_counts current) (sum_counts matched) (concat classifications)
       (\<exists>b \<in> set batches. ix b ''manual_missing'' = JBool True)
       (\<exists>b \<in> set batches. ix b ''independent_missing'' = JBool True))))))"

definition independent_missing :: "json \<Rightarrow> bool" where
  "independent_missing i \<longleftrightarrow> ix i ''independent_required'' = JBool True \<and>
     as_str (ix i ''independent_status'') \<notin> {Some ''not-applicable'', Some ''satisfied''}"

definition manual_missing :: "json \<Rightarrow> bool" where
  "manual_missing i \<longleftrightarrow> ix i ''manual_required'' = JBool True \<and>
     as_str (ix i ''manual_status'') \<notin> {Some ''passed'', Some ''accepted'', Some ''satisfied'', Some ''not-required''}"

definition classify :: "json \<Rightarrow> json \<Rightarrow> json list \<Rightarrow> json" where
  "classify i identity observations =
     judgment_summary
       (length (filter (\<lambda>o'. matching_reasons i identity o' = [] \<and> freshness_reasons o' = []) observations))
       (length (filter (\<lambda>o'. matching_reasons i identity o' = []) observations))
       (map (classification i identity) observations) (manual_missing i) (independent_missing i)"

definition candidate_indices :: "json \<Rightarrow> json \<Rightarrow> json list \<Rightarrow> json" where
  "candidate_indices i identity receipts = obj [(''indices'', JArr
     (map (\<lambda>p. JNum (PosInt (fst p)))
       (filter (\<lambda>p. judgment_candidate i (snd p) \<and> task_bound i (snd p) identity)
         (zip [0..<length receipts] receipts))))]"

definition task_judgment :: "host \<Rightarrow> json \<Rightarrow> json res" where
  "task_judgment H i =
     and_then (check_part H ''task_judgment_input'' ''task judgment'' i) (\<lambda>_.
     if ix i ''action'' = JStr ''summarize'' then summarize i
     else
     and_then (task_identity H i) (\<lambda>identity.
     if ix i ''action'' = JStr ''candidates''
     then and_then (array_at ''receipts'' i) (\<lambda>receipts. Inr (candidate_indices i identity receipts))
     else and_then (array_at ''observations'' i) (\<lambda>observations. Inr (classify i identity observations))))"

text \<open>What an observation must show to count as a current judgment of the task.\<close>

definition exact_judgment :: "host \<Rightarrow> json \<Rightarrow> str \<Rightarrow> str list \<Rightarrow> json \<Rightarrow> bool" where
  "exact_judgment H i task paths observation \<longleftrightarrow>
     (let receipt = ix observation ''receipt''; judgment = ix receipt ''task_claim_judgment'';
          subject = direct_subject H task paths in
      judgment_candidate i receipt \<and>
      (jget judgment ''task_identity'' = Some subject \<or>
       jget judgment ''task_identity'' = None \<and> ix i ''work_ref'' = ix subject ''id'' \<and>
         ix i ''work_revision'' = ix subject ''id'') \<and>
      (\<exists>hash. length hash = 64 \<and> list_all lower_hex hash \<and>
         at [''proof_subject'', ''fingerprint''] receipt = JStr hash \<and>
         ix judgment ''proof_subject_fingerprint'' = JStr hash) \<and>
      ix observation ''publication_current'' = JBool True \<and> ix observation ''proof_sufficient'' = JBool True \<and>
      ix observation ''evidence_freshness'' = JStr ''reusable'')"

lemma is_fingerprint_iff: "is_fingerprint v \<longleftrightarrow> (\<exists>s. v = JStr s \<and> length s = 64 \<and> list_all lower_hex s)"
  by (auto simp: is_fingerprint_def json_simps split: option.splits)

lemma task_bound_iff:
  assumes "judgment_candidate i receipt"
  shows "task_bound i receipt subject \<longleftrightarrow>
    jget (ix receipt ''task_claim_judgment'') ''task_identity'' = Some subject \<or>
    jget (ix receipt ''task_claim_judgment'') ''task_identity'' = None \<and>
      ix i ''work_ref'' = ix subject ''id'' \<and> ix i ''work_revision'' = ix subject ''id''"
  using assms by (auto simp: task_bound_def judgment_candidate_def Let_def split: option.splits)

lemma current_iff:
  "matching_reasons i (direct_subject H task paths) observation = [] \<and> freshness_reasons observation = [] \<longleftrightarrow>
     exact_judgment H i task paths observation"
proof -
  let ?r = "ix observation ''receipt''" and ?subject = "direct_subject H task paths"
  have nn: "ix ?r ''task_claim_judgment'' \<noteq> JNull" if "judgment_candidate i ?r"
    using that by (auto simp: judgment_candidate_def Let_def ix_def [of JNull] jget_def [of JNull])
  have b: "binding_reasons i ?r ?subject = [] \<longleftrightarrow>
      judgment_candidate i ?r \<and> task_bound i ?r ?subject \<and>
      is_fingerprint (at [''proof_subject'', ''fingerprint''] ?r) \<and>
      at [''proof_subject'', ''fingerprint''] ?r = ix (ix ?r ''task_claim_judgment'') ''proof_subject_fingerprint''"
    using nn unfolding binding_reasons_def Let_def by (simp del: at_simps)
  have f: "is_fingerprint s \<and> s = t \<longleftrightarrow> (\<exists>hash. length hash = 64 \<and> list_all lower_hex hash \<and> s = JStr hash \<and> t = JStr hash)"
    for s t by (auto simp: is_fingerprint_iff)
  have m: "matching_reasons i ?subject observation = [] \<and> freshness_reasons observation = [] \<longleftrightarrow>
      binding_reasons i ?r ?subject = [] \<and> ix observation ''publication_current'' = JBool True \<and>
      ix observation ''proof_sufficient'' = JBool True \<and> ix observation ''evidence_freshness'' = JStr ''reusable''"
    by (simp add: matching_reasons_def freshness_reasons_def)
  show ?thesis
    unfolding m b f exact_judgment_def Let_def using task_bound_iff [of i ?r ?subject] by blast
qed

text \<open>C29: A task is accepted exactly when some observation is a judgment of exactly this task, work
  and proof subject, sufficient, published by its producer and fresh, no manual evidence is
  missing and no independent review is missing.\<close>

theorem task_accepted_iff:
  assumes "task_judgment H i = Inr out" and "ix i ''action'' = JStr ''classify''"
  shows "\<exists>task paths observations. ix i ''task'' = JStr task \<and> ix i ''changed_paths'' = jstrs paths \<and>
    ix i ''observations'' = JArr observations \<and>
    (ix out ''status'' = JStr ''accepted'' \<longleftrightarrow>
       (\<exists>observation \<in> set observations. exact_judgment H i task paths observation) \<and>
       (ix i ''manual_required'' = JBool True \<longrightarrow>
          ix i ''manual_status'' \<in> {JStr ''passed'', JStr ''accepted'', JStr ''satisfied'', JStr ''not-required''}) \<and>
       (ix i ''independent_required'' = JBool True \<longrightarrow>
          ix i ''independent_status'' \<in> {JStr ''not-applicable'', JStr ''satisfied''}))"
proof -
  obtain task paths observations where o: "ix i ''task'' = JStr task" "ix i ''changed_paths'' = jstrs paths"
    "ix i ''observations'' = JArr observations" "out = classify i (direct_subject H task paths) observations"
    using assms
    by (auto simp: task_judgment_def task_identity_def and_then_Inr_iff array_at_Inr string_at_Inr strings_in_Inr jstrs_def)
  let ?c = "filter (\<lambda>o'. matching_reasons i (direct_subject H task paths) o' = [] \<and> freshness_reasons o' = []) observations"
  have c: "0 < length ?c \<longleftrightarrow> (\<exists>observation \<in> set observations. exact_judgment H i task paths observation)"
    by (auto simp: current_iff filter_empty_conv)
  have "ix out ''status'' = JStr ''accepted'' \<longleftrightarrow> \<not> independent_missing i \<and> \<not> manual_missing i \<and> 0 < length ?c"
    by (simp add: o(4) classify_def judgment_summary_def)
  moreover have "\<not> independent_missing i \<longleftrightarrow> (ix i ''independent_required'' = JBool True \<longrightarrow>
      ix i ''independent_status'' \<in> {JStr ''not-applicable'', JStr ''satisfied''})"
    by (simp only: independent_missing_def insert_iff empty_iff as_str_Some_iff) blast
  moreover have "\<not> manual_missing i \<longleftrightarrow> (ix i ''manual_required'' = JBool True \<longrightarrow>
      ix i ''manual_status'' \<in> {JStr ''passed'', JStr ''accepted'', JStr ''satisfied'', JStr ''not-required''})"
    by (simp only: manual_missing_def insert_iff empty_iff as_str_Some_iff) blast
  ultimately show ?thesis unfolding c using o(1,2,3)
    by (intro exI [of _ task] exI [of _ paths] exI [of _ observations]) blast
qed

end
