(* ===== verification/Patch_Integration.thy ===== *)
theory Patch_Integration
  imports Patch Store_Safety Task_Judgment
begin

text \<open>
  The integration of an admitted patch (\<open>src/src/core/src/native_patch.rs\<close>): the proposal
  merged into the current files, and its publication file by file under one effect of the
  evidence store, with a recovery carrier written before the first file. A run has the disk, the
  faults of the file system still to come, and the turns other processes get while the caller
  revalidates; so it can be stopped after every change and interleaved with theirs.
\<close>

section \<open>Runs\<close>

text \<open>What becomes of one change of the disk: done, refused, or a new file torn after some bytes.\<close>

datatype fault = Done | Refused | Torn nat

text \<open>\<open>mc_locked\<close>: another process holds the lock of the integration.\<close>

record machine =
  mc_disk :: disk
  mc_faults :: "fault list"
  mc_turns :: "(disk \<Rightarrow> unit res \<times> disk) list"
  mc_locked :: bool

type_synonym 'a run = "machine \<Rightarrow> 'a res \<times> machine"

definition run_then :: "'a run \<Rightarrow> ('a \<Rightarrow> 'b run) \<Rightarrow> 'b run" where
  "run_then f g m = (case f m of (Inl e, m') \<Rightarrow> (Inl e, m') | (Inr x, m') \<Rightarrow> g x m')"

definition on_disk :: "'a io \<Rightarrow> 'a run" where
  "on_disk f m = (case f (mc_disk m) of (r, d) \<Rightarrow> (r, m\<lparr>mc_disk := d\<rparr>))"

definition run_lift :: "'a res \<Rightarrow> 'a run" where
  "run_lift r m = (r, m)"

definition next_fault :: "machine \<Rightarrow> fault \<times> machine" where
  "next_fault m = (case mc_faults m of [] \<Rightarrow> (Done, m) | f # fs \<Rightarrow> (f, m\<lparr>mc_faults := fs\<rparr>))"

text \<open>A change of the disk meets the next fault; \<open>torn\<close> is what a torn one leaves.\<close>

definition change_disk :: "disk \<Rightarrow> (nat \<Rightarrow> disk) \<Rightarrow> unit run" where
  "change_disk d torn m =
     (case next_fault m of
        (Done, m') \<Rightarrow> (Inr (), m'\<lparr>mc_disk := d\<rparr>)
      | (Refused, m') \<Rightarrow> (Inl (err ''io''), m')
      | (Torn k, m') \<Rightarrow> (Inl (err ''io''), m'\<lparr>mc_disk := torn k\<rparr>))"

text \<open>The callback of the caller, and what happens around it.\<close>

definition revalidate :: "unit run" where
  "revalidate m =
     (case mc_turns m of
        [] \<Rightarrow> (Inr (), m)
      | t # ts \<Rightarrow> (case t (mc_disk m) of (r, d) \<Rightarrow> (r, m\<lparr>mc_disk := d, mc_turns := ts\<rparr>)))"

section \<open>Files of the target\<close>

definition SOURCE_BYTES :: nat where
  "SOURCE_BYTES = 1048576"

text \<open>Evaluated as an integer, the bound stays a numeral.\<close>

lemma source_bytes_code [code_unfold]: "SOURCE_BYTES < n \<longleftrightarrow> (1048576 :: int) < int n"
  by (simp add: SOURCE_BYTES_def)

definition source_path :: "str \<Rightarrow> path res" where
  "source_path p =
     (if p = '''' \<or> CHR 0x5C \<in> set p \<or>
        (\<exists>part \<in> set (split_on CHR 0x2F p). part \<in> {'''', ''.'', ''..''} \<or> CHR '':'' \<in> set part)
      then Inl (err ''source path is not repository-relative'') else Inr (split_on CHR 0x2F p))"

text \<open>Whether the walk finds the entry, traversing no link.\<close>

fun entry_found :: "tree \<Rightarrow> path \<Rightarrow> path \<Rightarrow> bool res" where
  "entry_found t walked [] = Inr True"
| "entry_found t walked (part # parts) =
     (case metadata_of t (walked @ [part]) of
        Missing \<Rightarrow> Inr False
      | Unreadable \<Rightarrow> Inl (err ''Verification source is unreadable'')
      | Present n \<Rightarrow>
          if n = LinkNode then Inl (err ''Verification source cannot traverse links'')
          else entry_found t (walked @ [part]) parts)"

definition read_bounded :: "str \<Rightarrow> str \<Rightarrow> str option io" where
  "read_bounded root p d =
     (and_then (source_path p) (\<lambda>parts.
      and_then (entry_found (d root) [] parts) (\<lambda>found.
      if \<not> found then Inr None
      else
      (case metadata_of (d root) parts of
         Present (FileNode bytes) \<Rightarrow>
           if SOURCE_BYTES < length bytes then Inl (err ''Verification source exceeds bounded read'')
           else Inr (Some bytes)
       | _ \<Rightarrow> Inl (err ''Verification source is unreadable'')))), d)"

text \<open>\<open>OpenOptions::create_new\<close> and the write of all bytes.\<close>

definition write_new :: "str \<Rightarrow> path \<Rightarrow> str \<Rightarrow> unit run" where
  "write_new root p bytes m =
     (if metadata_of (mc_disk m root) p = Missing \<and> metadata_of (mc_disk m root) (butlast p) = Present DirNode
      then change_disk (put_node root p (FileNode bytes) (mc_disk m))
        (\<lambda>k. put_node root p (FileNode (take k bytes)) (mc_disk m)) m
      else (Inl (err ''io''), m))"

definition take_node :: "str \<Rightarrow> path \<Rightarrow> disk \<Rightarrow> disk" where
  "take_node root p d = d(root := (d root)(p := None))"

text \<open>\<open>rename\<close> replaces a file in one step.\<close>

definition rename_file :: "str \<Rightarrow> path \<Rightarrow> path \<Rightarrow> unit run" where
  "rename_file root p q m =
     (case metadata_of (mc_disk m root) p of
        Present (FileNode bytes) \<Rightarrow>
          (case metadata_of (mc_disk m root) q of
             Present (FileNode _) \<Rightarrow>
               change_disk (put_node root q (FileNode bytes) (take_node root p (mc_disk m))) (\<lambda>_. mc_disk m) m
           | _ \<Rightarrow> (Inl (err ''io''), m))
      | _ \<Rightarrow> (Inl (err ''io''), m))"

fun make_directories :: "str \<Rightarrow> path \<Rightarrow> path \<Rightarrow> unit run" where
  "make_directories root made [] m = (Inr (), m)"
| "make_directories root made (part # parts) m =
     (case metadata_of (mc_disk m root) (made @ [part]) of
        Present DirNode \<Rightarrow> make_directories root (made @ [part]) parts m
      | Missing \<Rightarrow>
          run_then (change_disk (put_node root (made @ [part]) DirNode (mc_disk m)) (\<lambda>_. mc_disk m))
            (\<lambda>_. make_directories root (made @ [part]) parts) m
      | _ \<Rightarrow> (Inl (err ''io''), m))"

text \<open>The lock file is made empty, and one that holds anything is not ours.\<close>

definition LOCK_PATH :: str where
  "LOCK_PATH = ''.agentic-workspace/local/effects/patch-integration.lock''"

definition open_lock :: "str \<Rightarrow> unit run" where
  "open_lock root m =
     (let p = split_on CHR 0x2F LOCK_PATH in
      case metadata_of (mc_disk m root) p of
        Present (FileNode bytes) \<Rightarrow>
          if bytes \<noteq> '''' then (Inl (err ''unrecognized patch integration lock preserved''), m)
          else if mc_locked m then (Inl (err ''io''), m) else (Inr (), m)
      | Missing \<Rightarrow>
          run_then (write_new root p '''') (\<lambda>_ m'. if mc_locked m' then (Inl (err ''io''), m') else (Inr (), m')) m
      | _ \<Rightarrow> (Inl (err ''io''), m))"

definition take_lock :: "str \<Rightarrow> unit run" where
  "take_lock root =
     run_then (on_disk (read_bounded root LOCK_PATH)) (\<lambda>_.
     run_then (make_directories root [] (butlast (split_on CHR 0x2F LOCK_PATH))) (\<lambda>_.
     run_then (on_disk (read_bounded root LOCK_PATH)) (\<lambda>_. open_lock root)))"

section \<open>The retained carrier\<close>

definition INTEGRATE :: str where
  "INTEGRATE = ''assignment/integrate-patch/v1''"

definition INTEGRATION :: str where
  "INTEGRATION = ''assignment.integrate-patch''"

definition RESULT_KIND :: str where
  "RESULT_KIND = ''agentic-workspace/patch-integration/v1''"

definition carrier_path :: "store_env \<Rightarrow> str \<Rightarrow> str" where
  "carrier_path E source =
     fmt [''.agentic-workspace/local/patch-integrations/'', drop 7 (digest (se_host E) (JStr source)), ''.json'']"

definition proposal_files :: "json \<Rightarrow> json" where
  "proposal_files ivc = at [''arguments'', ''proposal'', ''files''] ivc"

definition postimage :: "store_env \<Rightarrow> json \<Rightarrow> json res" where
  "postimage E f =
     and_then (string_at ''after'' f) (\<lambda>after.
     Inr (obj [(''path'', ix f ''path''), (''revision'', JStr (store_hash E after))]))"

definition integration_outcome :: "store_env \<Rightarrow> json \<Rightarrow> json res" where
  "integration_outcome E ivc =
     (let proposal = at [''arguments'', ''proposal''] ivc; files = elements (ix proposal ''files'') in
      and_then (collect (postimage E) files) (\<lambda>postimages.
      Inr (obj
        [(''status'', JStr ''applied''), (''effects'', jstrs [''implementation'']),
         (''value'', obj
           [(''kind'', JStr RESULT_KIND), (''status'', JStr ''integrated''),
            (''delta_revision'', ix proposal ''delta_revision''),
            (''changed_paths'', JArr (map (\<lambda>f. ix f ''path'') files)),
            (''execution_custody'', ix proposal ''execution_custody''),
            (''postimages'', JArr postimages),
            (''proof_authority'', JBool False), (''completion_authority'', JBool False)])])))"

definition patch_retained :: "store_env \<Rightarrow> str \<Rightarrow> str \<Rightarrow> json option io" where
  "patch_retained E target source =
     io_then (io_lift (store_root E target)) (\<lambda>root.
     io_then (read_bounded root (carrier_path E source)) (\<lambda>found.
     case found of
       None \<Rightarrow> io_lift (Inr None)
     | Some bytes \<Rightarrow>
         io_then (io_lift (ok_or (se_from_slice E bytes) (err ''json''))) (\<lambda>held.
         io_then (prepare_commit E target (ix held ''custody'') (ix held ''outcome'')) (\<lambda>prepared.
         let foreign = io_lift (Inl (err ''patch recovery lacks exact producer custody; preserved'')) in
         if at [''record'', ''invocation''] prepared \<noteq> ix held ''invocation''
           \<or> at [''invocation'', ''source_owner''] held \<noteq> JStr ''assignment''
           \<or> at [''invocation'', ''operation_id''] held \<noteq> JStr INTEGRATION
         then foreign
         else
         io_then (io_lift (integration_outcome E (ix held ''invocation''))) (\<lambda>expected.
         if ix held ''outcome'' \<noteq> expected then foreign
         else
         io_then (io_lift (ok_or (as_str (at [''custody'', ''committed'', ''path''] prepared)) panic)) (\<lambda>committed.
         io_then (read_bounded root committed) (\<lambda>present.
         case present of
           None \<Rightarrow> io_lift (Inr (Some held))
         | Some _ \<Rightarrow>
             io_then (inspect_committed E target (ix prepared ''custody'')) (\<lambda>_.
             io_lift (Inr (Some (jset ''custody'' (ix prepared ''custody'') held)))))))))))"

section \<open>The proposal\<close>

definition retained_file :: "json \<Rightarrow> str \<Rightarrow> json option" where
  "retained_file held p = find (\<lambda>f. ix f ''path'' = JStr p) (elements (proposal_files (ix held ''invocation'')))"

definition committed_held :: "json \<Rightarrow> bool" where
  "committed_held held \<longleftrightarrow> at [''custody'', ''committed''] held \<noteq> JNull"

text \<open>What the file held before: of an interrupted integration, what its carrier retained.\<close>

definition before_image :: "json option \<Rightarrow> str \<Rightarrow> str \<Rightarrow> str \<Rightarrow> str res" where
  "before_image held p current after =
     (case held of
        None \<Rightarrow> Inr current
      | Some h \<Rightarrow>
          and_then (ok_or (retained_file h p) (err ''patch recovery subject changed'')) (\<lambda>r.
          if ix r ''after'' \<noteq> JStr after \<or> (ix r ''before'' \<noteq> JStr current \<and> ix r ''after'' \<noteq> JStr current)
            \<or> (committed_held h \<and> ix r ''after'' \<noteq> JStr current)
          then Inl (err ''patch recovery target differs from exact before/postimage; preserved'')
          else ok_or (as_str (ix r ''before'')) (err ''patch recovery before image missing'')))"

definition required_file :: "str \<Rightarrow> str \<Rightarrow> str \<Rightarrow> str io" where
  "required_file root p failure =
     io_then (read_bounded root p) (\<lambda>bytes. io_lift (ok_or bytes (err failure)))"

text \<open>The files of the proposal, or (on the left) the repair a merge that fails asks for.\<close>

fun proposed_files ::
  "patch_env \<Rightarrow> str \<Rightarrow> bool \<Rightarrow> json option \<Rightarrow> json list \<Rightarrow> json list \<Rightarrow> (json + json list) io" where
  "proposed_files P root asked held [] files = io_lift (Inr (Inr files))"
| "proposed_files P root asked held (f # fs) files =
     io_then (io_lift (string_at ''path'' f)) (\<lambda>p.
     io_then (required_file root p ''patch target disappeared; source preserved'') (\<lambda>current.
     if \<not> valid_utf8 current then io_lift (Inl (err ''utf-8''))
     else
     io_then (io_lift (string_at ''before'' f)) (\<lambda>before.
     io_then (io_lift (string_at ''after'' f)) (\<lambda>worked.
     case merge_text P before worked current of
       Inl e \<Rightarrow>
         if asked then io_lift (Inl e)
         else io_lift (Inr (Inl (obj
           [(''status'', JStr ''repair-required''), (''reason'', JStr (message e)), (''requests'', JArr []),
            (''action'', JNull)])))
     | Inr after \<Rightarrow>
         io_then (io_lift (before_image held p current after)) (\<lambda>image.
         proposed_files P root asked held fs
           (files @ [obj [(''path'', JStr p), (''before'', JStr image), (''after'', JStr after)]]))))))"

definition integration_template :: "host \<Rightarrow> json \<Rightarrow> json \<Rightarrow> json \<Rightarrow> str \<Rightarrow> json \<Rightarrow> json" where
  "integration_template H work contract owner source proposal = obj
     [(''kind'', JStr ''agentic-workspace/public-request/v1''), (''id'', JStr INTEGRATE), (''owner'', JStr ''assignment''),
      (''owner_revision'', ix owner ''revision''), (''source_revision'', JStr source),
      (''capability_revision'', ix contract ''revision''), (''task_identity'', work), (''request_kind'', JStr INTEGRATE),
      (''arguments'', obj [(''proposal_revision'', JStr (digest H proposal))])]"

definition integration_proposal :: "json \<Rightarrow> json list \<Rightarrow> json" where
  "integration_proposal admission files = obj
     [(''delta_revision'', at [''delta'', ''revision''] admission),
      (''execution_custody'', ix admission ''execution_custody''), (''files'', JArr files)]"

definition integration_source_revision :: "host \<Rightarrow> json \<Rightarrow> json \<Rightarrow> json \<Rightarrow> str" where
  "integration_source_revision H work admission proposal = digest H (obj
     [(''work'', work), (''admission'', ix admission ''source_revision''), (''judgment'', ix admission ''judgment''),
      (''proposal'', proposal)])"

definition ready_value :: "str \<Rightarrow> str \<Rightarrow> json \<Rightarrow> json list \<Rightarrow> json" where
  "ready_value target source proposal submitted = obj
     [(''status'', JStr ''integration-ready''), (''proposal'', proposal), (''requests'', JArr []),
      (''action'', obj
        [(''operation_id'', JStr INTEGRATION), (''dependency_revision'', JStr source),
         (''arguments'', obj [(''target'', JStr target), (''proposal'', proposal)]),
         (''effects'', jstrs [''implementation'']), (''source_requests'', JArr submitted)])]"

definition integrated_value :: "json \<Rightarrow> json \<Rightarrow> json" where
  "integrated_value proposal held = obj
     [(''status'', JStr ''integrated''), (''proposal'', proposal), (''requests'', JArr []), (''action'', JNull),
      (''result'', at [''outcome'', ''value''] held), (''custody'', ix held ''custody'')]"

definition integration_request :: "json list \<Rightarrow> json option" where
  "integration_request submitted = find (\<lambda>r. ix r ''request_kind'' = JStr INTEGRATE) submitted"

text \<open>What a submitted request is answered with: an action, or the result of a committed one.\<close>

definition answer_integration ::
  "host \<Rightarrow> str \<Rightarrow> json \<Rightarrow> json \<Rightarrow> json list \<Rightarrow> bool \<Rightarrow> json option \<Rightarrow> json \<Rightarrow> json \<Rightarrow> str \<Rightarrow> json \<Rightarrow> json res" where
  "answer_integration H target work contract submitted executing held request template source proposal =
     and_then (prepare_request_value H (obj
       [(''request'', request), (''current_work'', work), (''capability_contract'', contract)])) (\<lambda>_.
     if request \<noteq> template then Inl (err ''patch integration proposal or authority changed'')
     else
     case held of
       Some h \<Rightarrow>
         if committed_held h \<and> \<not> executing then Inr (integrated_value proposal h)
         else Inr (ready_value target source proposal submitted)
     | None \<Rightarrow> Inr (ready_value target source proposal submitted))"

definition patch_view ::
  "store_env \<Rightarrow> patch_env \<Rightarrow> str \<Rightarrow> json \<Rightarrow> json \<Rightarrow> json list \<Rightarrow> json \<Rightarrow> bool \<Rightarrow> json io" where
  "patch_view E P target work admission submitted contract executing =
     (let request = integration_request submitted; H = se_host E in
      if ix admission ''result_use_allowed'' \<noteq> JBool True \<or> is_null (ix admission ''delta'')
      then io_lift (if request \<noteq> None then Inl (err ''current admitted patch result required before integration'')
        else Inr (obj [(''status'', JStr ''not-ready''), (''requests'', JArr []), (''action'', JNull)]))
      else
      io_then (io_lift (store_root E target)) (\<lambda>root.
      io_then (case request of
          None \<Rightarrow> io_lift (Inr None)
        | Some r \<Rightarrow> patch_retained E target (case as_str (ix r ''source_revision'') of None \<Rightarrow> '''' | Some s \<Rightarrow> s)) (\<lambda>held.
      io_then (io_lift (array_at ''files'' (ix admission ''delta''))) (\<lambda>delta.
      io_then (proposed_files P root (request \<noteq> None) held delta []) (\<lambda>proposed.
      case proposed of
        Inl repair \<Rightarrow> io_lift (Inr repair)
      | Inr files \<Rightarrow>
          let proposal = integration_proposal admission files;
              source = integration_source_revision H work admission proposal in
          io_lift
            (and_then (array_at ''owners'' contract) (\<lambda>owners.
             and_then (ok_or (find (\<lambda>o'. ix o' ''owner'' = JStr ''assignment'') owners) panic) (\<lambda>owner.
             let template = integration_template H work contract owner source proposal in
             case request of
               Some r \<Rightarrow> answer_integration H target work contract submitted executing held r template source proposal
             | None \<Rightarrow> Inr (obj
                 [(''status'', JStr ''proposal-ready''), (''proposal'', proposal),
                  (''requests'', JArr [JArr (submitted @ [template])]), (''action'', JNull)])))))))))"

section \<open>Publication\<close>

definition temporary_of :: "store_env \<Rightarrow> json \<Rightarrow> str \<Rightarrow> str" where
  "temporary_of E ivc p = fmt [p, ''.'', drop 7 (digest (se_host E) ivc), ''.tmp'']"

definition patch_file :: "json \<Rightarrow> (str \<times> str \<times> str) res" where
  "patch_file f =
     and_then (string_at ''path'' f) (\<lambda>p. and_then (string_at ''before'' f) (\<lambda>before.
     and_then (string_at ''after'' f) (\<lambda>after. Inr (p, before, after))))"

text \<open>The temporary file: one that is there is only taken over from the same, interrupted invocation.\<close>

definition stage_file :: "str \<Rightarrow> str \<Rightarrow> bool \<Rightarrow> str \<Rightarrow> unit run" where
  "stage_file root temporary held after =
     run_then (on_disk (read_bounded root temporary)) (\<lambda>found.
     case found of
       Some bytes \<Rightarrow>
         run_lift (if \<not> held \<or> bytes \<noteq> after then Inl (err ''unowned patch temporary preserved'') else Inr ())
     | None \<Rightarrow> write_new root (split_on CHR 0x2F temporary) after)"

text \<open>The file changes only when it still holds the before image after the last revalidation.\<close>

definition replace_file :: "store_env \<Rightarrow> str \<Rightarrow> bool \<Rightarrow> json \<Rightarrow> str \<Rightarrow> str \<Rightarrow> str \<Rightarrow> unit run" where
  "replace_file E root held ivc p before after =
     (let temporary = temporary_of E ivc p in
      run_then (stage_file root temporary held after) (\<lambda>_.
      run_then revalidate (\<lambda>_.
      run_then (on_disk (read_bounded root p)) (\<lambda>again.
      if again \<noteq> Some before then run_lift (Inl (err ''patch target changed at publication; preserved''))
      else rename_file root (split_on CHR 0x2F temporary) (split_on CHR 0x2F p)))))"

definition publish_file :: "store_env \<Rightarrow> str \<Rightarrow> bool \<Rightarrow> json \<Rightarrow> json \<Rightarrow> unit run" where
  "publish_file E root held ivc f =
     run_then (run_lift (patch_file f)) (\<lambda>(p, before, after).
     run_then (on_disk (required_file root p ''patch target disappeared'')) (\<lambda>current.
     if current = after then run_lift (Inr ())
     else if current \<noteq> before then run_lift (Inl (err ''patch target changed before publication; preserved''))
     else replace_file E root held ivc p before after))"

fun publish_files :: "store_env \<Rightarrow> str \<Rightarrow> bool \<Rightarrow> json \<Rightarrow> json list \<Rightarrow> unit run" where
  "publish_files E root held ivc [] = run_lift (Inr ())"
| "publish_files E root held ivc (f # fs) =
     run_then (publish_file E root held ivc f) (\<lambda>_. publish_files E root held ivc fs)"

fun check_postimages :: "str \<Rightarrow> json list \<Rightarrow> unit io" where
  "check_postimages root [] = io_lift (Inr ())"
| "check_postimages root (f # fs) =
     io_then (io_lift (string_at ''path'' f)) (\<lambda>p.
     io_then (read_bounded root p) (\<lambda>bytes.
     io_then (io_lift (string_at ''after'' f)) (\<lambda>after.
     if bytes \<noteq> Some after then io_lift (Inl (err ''patch postimage changed before completion; preserved''))
     else check_postimages root fs)))"

text \<open>The carrier is written before the first file is touched.\<close>

definition write_carrier :: "store_env \<Rightarrow> str \<Rightarrow> str \<Rightarrow> json \<Rightarrow> json \<Rightarrow> json \<Rightarrow> unit run" where
  "write_carrier E root source ivc admission outcome =
     (let p = split_on CHR 0x2F (carrier_path E source);
          carrier = to_vec (se_host E) (obj
            [(''invocation'', ivc), (''custody'', ix admission ''custody''), (''outcome'', outcome)]) in
      run_then (make_directories root [] (butlast p)) (\<lambda>_.
      if SOURCE_BYTES < length carrier then run_lift (Inl (err ''patch recovery carrier exceeds reader bound''))
      else write_new root p carrier))"

definition integration_source :: "json \<Rightarrow> str res" where
  "integration_source ivc =
     and_then (ok_or (case as_array (ix ivc ''source_requests'') of
         None \<Rightarrow> None | Some rs \<Rightarrow> integration_request rs) (err ''exact integration request missing'')) (\<lambda>request.
     ok_or (as_str (ix request ''source_revision'')) (err ''integration source revision missing''))"

definition carrier_bound :: "store_env \<Rightarrow> str \<Rightarrow> json \<Rightarrow> json \<Rightarrow> nat" where
  "carrier_bound E target ivc outcome =
     length (to_vec (se_host E) (obj [(''invocation'', ivc), (''outcome'', outcome)]))
       + 3 * length (to_vec (se_host E) (JStr target)) + 16384"

lemma carrier_bound_code [code_unfold]:
  "int (carrier_bound E target ivc outcome) =
     int (length (to_vec (se_host E) (obj [(''invocation'', ivc), (''outcome'', outcome)])))
       + 3 * int (length (to_vec (se_host E) (JStr target))) + 16384"
  by (simp add: carrier_bound_def)

definition integration_report :: "json \<Rightarrow> json \<Rightarrow> json" where
  "integration_report outcome cu = obj
     [(''outcome'', outcome), (''custody'', cu),
      (''post_effect_changed_paths'', at [''value'', ''changed_paths''] outcome)]"

text \<open>What happens once the effect is admitted: publish, check, commit.\<close>

definition publish_and_commit ::
  "store_env \<Rightarrow> str \<Rightarrow> str \<Rightarrow> bool \<Rightarrow> json \<Rightarrow> json \<Rightarrow> json \<Rightarrow> json list \<Rightarrow> json run" where
  "publish_and_commit E target root held ivc outcome admission files =
     run_then (publish_files E root held ivc files) (\<lambda>_.
     run_then revalidate (\<lambda>_.
     run_then (on_disk (check_postimages root files)) (\<lambda>_.
     run_then (on_disk (store_commit_value E (obj
       [(''target'', JStr target), (''custody'', ix admission ''custody''), (''outcome'', outcome)]))) (\<lambda>committed.
     run_lift (Inr (integration_report outcome (ix committed ''custody'')))))))"

definition integrate_files ::
  "store_env \<Rightarrow> str \<Rightarrow> str \<Rightarrow> str \<Rightarrow> json option \<Rightarrow> json \<Rightarrow> json \<Rightarrow> json \<Rightarrow> json run" where
  "integrate_files E target root source held ivc outcome admission =
     run_then (if held = None then write_carrier E root source ivc admission outcome else run_lift (Inr ())) (\<lambda>_.
     run_then (run_lift (ok_or (as_array (proposal_files ivc)) panic))
       (publish_and_commit E target root (held \<noteq> None) ivc outcome admission))"

text \<open>The effect is admitted, replayed, or refused.\<close>

definition admit_integration ::
  "store_env \<Rightarrow> str \<Rightarrow> str \<Rightarrow> str \<Rightarrow> json option \<Rightarrow> json \<Rightarrow> json \<Rightarrow> json \<Rightarrow> json run" where
  "admit_integration E target root source held decision ivc outcome =
     run_then (on_disk (store_admit_value E (obj
       [(''target'', JStr target), (''decision'', decision), (''invocation'', ivc),
        (''custody'', case held of None \<Rightarrow> JNull | Some h \<Rightarrow> ix h ''custody'')]))) (\<lambda>admission.
     if ix admission ''disposition'' = JStr ''replay''
     then run_lift (Inr (integration_report (at [''record'', ''outcome''] admission) (ix admission ''custody'')))
     else if ix admission ''disposition'' \<noteq> JStr ''execute'' \<and>
       \<not> (ix admission ''disposition'' = JStr ''uncertain'' \<and> held \<noteq> None)
     then run_lift (Inl (err ''patch integration requires exact recovery''))
     else integrate_files E target root source held ivc outcome admission)"

definition execute_at :: "store_env \<Rightarrow> str \<Rightarrow> str \<Rightarrow> json \<Rightarrow> json \<Rightarrow> json run" where
  "execute_at E target root decision ivc =
     run_then (take_lock root) (\<lambda>_.
     run_then revalidate (\<lambda>_.
     run_then (run_lift (integration_source ivc)) (\<lambda>source.
     run_then (on_disk (patch_retained E target source)) (\<lambda>held.
     run_then (run_lift (integration_outcome E ivc)) (\<lambda>outcome.
     if SOURCE_BYTES < carrier_bound E target ivc outcome
     then run_lift (Inl (err ''complete patch recovery carrier exceeds its bounded reader''))
     else if (case held of None \<Rightarrow> False | Some h \<Rightarrow> ix h ''invocation'' \<noteq> ivc)
     then run_lift (Inl (err ''patch integration custody collision; preserved''))
     else admit_integration E target root source held decision ivc outcome)))))"

definition execute_patch :: "store_env \<Rightarrow> str \<Rightarrow> json \<Rightarrow> json \<Rightarrow> json run" where
  "execute_patch E target decision ivc =
     run_then (run_lift (store_root E target)) (\<lambda>root. execute_at E target root decision ivc)"

section \<open>What a run does to the disk\<close>

text \<open>What others do in their turns.\<close>

definition turn_steps :: "(disk \<Rightarrow> unit res \<times> disk) list \<Rightarrow> (disk \<times> disk) set" where
  "turn_steps ts = {(d, snd (t d)) | t d. t \<in> set ts}"

text \<open>While others keep to \<open>Q\<close>, every own change is in \<open>R\<close>.\<close>

definition obeys :: "((disk \<Rightarrow> unit res \<times> disk) \<Rightarrow> bool) \<Rightarrow> (disk \<times> disk) set \<Rightarrow> 'a run \<Rightarrow> bool" where
  "obeys Q R f \<longleftrightarrow>
     (\<forall>m r m'. f m = (r, m') \<longrightarrow> list_all Q (mc_turns m) \<longrightarrow>
        (mc_disk m, mc_disk m') \<in> (R \<union> turn_steps (mc_turns m))\<^sup>* \<and> (\<exists>k. mc_turns m' = drop k (mc_turns m)))"

lemma obeysI:
  assumes "\<And>m r m'. f m = (r, m') \<Longrightarrow> list_all Q (mc_turns m) \<Longrightarrow>
      (mc_disk m, mc_disk m') \<in> (R \<union> turn_steps (mc_turns m))\<^sup>* \<and> (\<exists>k. mc_turns m' = drop k (mc_turns m))"
  shows "obeys Q R f"
  using assms unfolding obeys_def by blast

lemma obeysD:
  assumes "obeys Q R f" and "f m = (r, m')" and "list_all Q (mc_turns m)"
  shows "(mc_disk m, mc_disk m') \<in> (R \<union> turn_steps (mc_turns m))\<^sup>*" and "\<exists>k. mc_turns m' = drop k (mc_turns m)"
  using assms unfolding obeys_def by blast+

lemma turn_steps_drop: "turn_steps (drop k ts) \<subseteq> turn_steps ts"
  unfolding turn_steps_def using set_drop_subset by fast

lemma list_all_drop: "list_all Q ts \<Longrightarrow> list_all Q (drop k ts)"
  unfolding list_all_iff using set_drop_subset by fast

lemma obeys_step:
  assumes "(d, d') \<in> (R \<union> turn_steps ts)\<^sup>*" and "ts' = drop k ts" and "(d', d'') \<in> (R \<union> turn_steps ts')\<^sup>*"
  shows "(d, d'') \<in> (R \<union> turn_steps ts)\<^sup>*"
proof -
  have "R \<union> turn_steps ts' \<subseteq> R \<union> turn_steps ts" using turn_steps_drop assms(2) by blast
  then have "(d', d'') \<in> (R \<union> turn_steps ts)\<^sup>*" using assms(3) rtrancl_mono by blast
  with assms(1) show ?thesis by (rule rtrancl_trans)
qed

lemma run_then_result:
  "run_then f g m = (r, m'') \<Longrightarrow>
     (\<exists>e. f m = (Inl e, m'') \<and> r = Inl e) \<or> (\<exists>x m'. f m = (Inr x, m') \<and> g x m' = (r, m''))"
  by (auto simp: run_then_def split: prod.splits sum.splits)

lemma obeys_then:
  assumes "obeys Q R f" and "\<And>x. obeys Q R (g x)"
  shows "obeys Q R (run_then f g)"
proof (rule obeysI)
  fix m r m''
  assume run: "run_then f g m = (r, m'')" and q: "list_all Q (mc_turns m)"
  from run_then_result [OF run] show
    "(mc_disk m, mc_disk m'') \<in> (R \<union> turn_steps (mc_turns m))\<^sup>* \<and> (\<exists>k. mc_turns m'' = drop k (mc_turns m))"
  proof (elim disjE exE conjE)
    fix e assume "f m = (Inl e, m'')"
    then show ?thesis using obeysD [OF assms(1) _ q] by blast
  next
    fix x m' assume f: "f m = (Inr x, m')" and g: "g x m' = (r, m'')"
    obtain k where k: "mc_turns m' = drop k (mc_turns m)" using obeysD(2) [OF assms(1) f q] by blast
    have q': "list_all Q (mc_turns m')" using q by (simp add: k list_all_drop)
    obtain j where j: "mc_turns m'' = drop j (mc_turns m')" using obeysD(2) [OF assms(2) g q'] by blast
    have "mc_turns m'' = drop (j + k) (mc_turns m)" by (simp add: j k)
    with obeys_step [OF obeysD(1) [OF assms(1) f q] k obeysD(1) [OF assms(2) g q']] show ?thesis by blast
  qed
qed

lemma obeys_lift [simp, intro]: "obeys Q R (run_lift r)"
  by (rule obeysI) (auto simp: run_lift_def intro: exI [of _ 0])

lemma obeys_if: "obeys Q R f \<Longrightarrow> obeys Q R g \<Longrightarrow> obeys Q R (if b then f else g)"
  by simp

lemma obeys_disk: "within S f \<Longrightarrow> {(d, d'). grows S d d'} \<subseteq> R \<Longrightarrow> obeys Q R (on_disk f)"
proof (rule obeysI)
  fix m r m'
  assume w: "within S f" and s: "{(d, d'). grows S d d'} \<subseteq> R" and run: "on_disk f m = (r, m')"
  have "grows S (mc_disk m) (snd (f (mc_disk m)))" using w by (simp add: within_def)
  moreover have "mc_disk m' = snd (f (mc_disk m))" "mc_turns m' = mc_turns m"
    using run by (auto simp: on_disk_def split: prod.splits)
  ultimately show "(mc_disk m, mc_disk m') \<in> (R \<union> turn_steps (mc_turns m))\<^sup>* \<and> (\<exists>k. mc_turns m' = drop k (mc_turns m))"
    using s by (auto intro: r_into_rtrancl exI [of _ 0])
qed

lemma obeys_revalidate: "obeys Q R revalidate"
proof (rule obeysI)
  fix m r m'
  assume run: "revalidate m = (r, m')"
  show "(mc_disk m, mc_disk m') \<in> (R \<union> turn_steps (mc_turns m))\<^sup>* \<and> (\<exists>k. mc_turns m' = drop k (mc_turns m))"
  proof (cases "mc_turns m")
    case Nil
    then show ?thesis using run by (auto simp: revalidate_def)
  next
    case (Cons t ts)
    then have "mc_disk m' = snd (t (mc_disk m))" "mc_turns m' = ts"
      using run by (auto simp: revalidate_def split: prod.splits)
    then show ?thesis
      by (auto simp: Cons turn_steps_def intro!: r_into_rtrancl exI [of _ 1])
  qed
qed

lemma next_fault_frame:
  "next_fault m = (x, m') \<Longrightarrow> mc_disk m' = mc_disk m \<and> mc_turns m' = mc_turns m \<and> mc_locked m' = mc_locked m"
  by (auto simp: next_fault_def split: list.splits)

lemma change_disk_cases:
  assumes "change_disk d torn m = (r, m')"
  shows "mc_turns m' = mc_turns m \<and> mc_disk m' \<in> {d, mc_disk m} \<union> range torn \<and> (r = Inr () \<longrightarrow> mc_disk m' = d)"
  using assms by (auto simp: change_disk_def split: prod.splits fault.splits dest: next_fault_frame)

lemma grows_change:
  assumes "change_disk d torn m = (r, m')" and "grows S (mc_disk m) d" and "\<And>k. grows S (mc_disk m) (torn k)"
  shows "grows S (mc_disk m) (mc_disk m')"
  using change_disk_cases [OF assms(1)] assms(2,3) by auto

section \<open>Own places\<close>

text \<open>AW's own directory of a target, with the directories above it.\<close>

definition custody_place :: "path \<Rightarrow> bool" where
  "custody_place p \<longleftrightarrow>
     prefix p [''.agentic-workspace'', ''local''] \<or> prefix [''.agentic-workspace'', ''local''] p"

definition custody_places :: "str \<Rightarrow> (str \<times> path) set" where
  "custody_places root = {root} \<times> Collect custody_place"

definition temporary_places :: "store_env \<Rightarrow> str \<Rightarrow> json \<Rightarrow> (str \<times> path) set" where
  "temporary_places E root ivc =
     {(root, split_on CHR 0x2F (temporary_of E ivc p)) | p. JStr p \<in> (\<lambda>f. ix f ''path'') ` set (elements (proposal_files ivc))}"

text \<open>A step that only adds entries of its own.\<close>

definition adding :: "(str \<times> path) set \<Rightarrow> (disk \<times> disk) set" where
  "adding S = {(d, d'). grows S d d'}"

text \<open>The step that publishes a file: what was the before image is the after image, at once.\<close>

definition publishing :: "store_env \<Rightarrow> str \<Rightarrow> json \<Rightarrow> (disk \<times> disk) set" where
  "publishing E root ivc =
     {(d, d'). \<exists>f \<in> set (elements (proposal_files ivc)). \<exists>p before after. patch_file f = Inr (p, before, after) \<and>
        d root (split_on CHR 0x2F p) = Some (FileNode before) \<and>
        d' = put_node root (split_on CHR 0x2F p) (FileNode after)
          (take_node root (split_on CHR 0x2F (temporary_of E ivc p)) d)}"

definition own_steps :: "store_env \<Rightarrow> str \<Rightarrow> json \<Rightarrow> (disk \<times> disk) set" where
  "own_steps E root ivc = adding (custody_places root \<union> temporary_places E root ivc) \<union> publishing E root ivc"

text \<open>Others leave the temporary files of this integration alone.\<close>

definition spares :: "store_env \<Rightarrow> str \<Rightarrow> json \<Rightarrow> (disk \<Rightarrow> unit res \<times> disk) \<Rightarrow> bool" where
  "spares E root ivc t \<longleftrightarrow> (\<forall>d. \<forall>(r, p) \<in> temporary_places E root ivc. snd (t d) r p = d r p)"

lemma sparesD: "spares E root ivc t \<Longrightarrow> (r, p) \<in> temporary_places E root ivc \<Longrightarrow> snd (t d) r p = d r p"
  by (auto simp: spares_def)

lemma obeys_adding:
  assumes "\<And>m r m'. f m = (r, m') \<Longrightarrow> grows S (mc_disk m) (mc_disk m') \<and> mc_turns m' = mc_turns m"
    and "adding S \<subseteq> R"
  shows "obeys Q R f"
proof (rule obeysI)
  fix m r m' assume "f m = (r, m')"
  then have "(mc_disk m, mc_disk m') \<in> R" "mc_turns m' = mc_turns m"
    using assms unfolding adding_def by fast+
  then show "(mc_disk m, mc_disk m') \<in> (R \<union> turn_steps (mc_turns m))\<^sup>* \<and> (\<exists>k. mc_turns m' = drop k (mc_turns m))"
    by (auto intro: r_into_rtrancl exI [of _ 0])
qed

lemma write_new_grows:
  assumes "write_new root p bytes m = (r, m')" and "(root, p) \<in> S"
  shows "grows S (mc_disk m) (mc_disk m') \<and> mc_turns m' = mc_turns m"
proof (cases "metadata_of (mc_disk m root) p = Missing \<and> metadata_of (mc_disk m root) (butlast p) = Present DirNode")
  case True
  then have c: "change_disk (put_node root p (FileNode bytes) (mc_disk m))
      (\<lambda>k. put_node root p (FileNode (take k bytes)) (mc_disk m)) m = (r, m')"
    using assms(1) by (simp add: write_new_def)
  have g: "grows S (mc_disk m) (put_node root p n (mc_disk m))" for n
    using True assms(2) grows_put_node [of "mc_disk m" root p S n] by blast
  show ?thesis using grows_change [OF c g g] change_disk_cases [OF c] by blast
next
  case False
  then show ?thesis using assms(1) by (simp only: write_new_def if_False prod.inject) auto
qed

lemma make_directories_grows:
  assumes "make_directories root made parts m = (r, m')" and "metadata_of (mc_disk m root) made = Present DirNode"
    and "\<And>q. prefix q (made @ parts) \<Longrightarrow> (root, q) \<in> S"
  shows "grows S (mc_disk m) (mc_disk m') \<and> mc_turns m' = mc_turns m"
  using assms
proof (induction parts arbitrary: made m)
  case (Cons part parts)
  let ?p = "made @ [part]"
  have s: "\<And>q. prefix q (?p @ parts) \<Longrightarrow> (root, q) \<in> S" using Cons.prems(3) by simp
  consider "metadata_of (mc_disk m root) ?p = Present DirNode" "make_directories root ?p parts m = (r, m')"
    | "m' = m"
    | "metadata_of (mc_disk m root) ?p = Missing"
      "run_then (change_disk (put_node root ?p DirNode (mc_disk m)) (\<lambda>_. mc_disk m))
        (\<lambda>_. make_directories root ?p parts) m = (r, m')"
    using Cons.prems(1) by (auto split: metadata.splits node.splits)
  then show ?case
  proof cases
    case 1
    show ?thesis by (rule Cons.IH [OF 1(2,1) s])
  next
    case 3
    have g: "grows S (mc_disk m) (put_node root ?p DirNode (mc_disk m))"
      using grows_put_node [where d = "mc_disk m", of root ?p S DirNode] 3(1) by (simp add: Cons.prems(2) s)
    from run_then_result [OF 3(2)] show ?thesis
    proof (elim disjE exE conjE)
      fix e assume "change_disk (put_node root ?p DirNode (mc_disk m)) (\<lambda>_. mc_disk m) m = (Inl e, m')"
      then show ?thesis using grows_change [OF _ g] change_disk_cases by blast
    next
      fix x m1
      assume c: "change_disk (put_node root ?p DirNode (mc_disk m)) (\<lambda>_. mc_disk m) m = (Inr x, m1)"
        and d: "make_directories root ?p parts m1 = (r, m')"
      have m1: "mc_disk m1 = put_node root ?p DirNode (mc_disk m)" "mc_turns m1 = mc_turns m"
        using change_disk_cases [OF c] by simp_all
      have "metadata_of (mc_disk m1 root) ?p = Present DirNode"
        unfolding m1 by (rule metadata_put_node) (simp_all add: Cons.prems(2))
      from Cons.IH [OF d this s] have "grows S (mc_disk m1) (mc_disk m')" "mc_turns m' = mc_turns m1"
        by blast+
      then show ?thesis using g m1 grows_trans by metis
    qed
  qed simp
qed simp

section \<open>The parts of a run\<close>

lemma read_bounded_pure [simp]: "pure_io (read_bounded root p)"
  by (simp add: within_def read_bounded_def)

lemma read_bounded_snd [simp]: "snd (read_bounded root p d) = d"
  by (simp add: read_bounded_def)

lemma source_path_Inr: "source_path p = Inr parts \<longleftrightarrow> source_path p \<noteq> Inl (err ''source path is not repository-relative'') \<and> parts = split_on CHR 0x2F p"
  by (auto simp: source_path_def)

lemma read_bounded_Some:
  assumes "read_bounded root p d = (Inr (Some bytes), d')"
  shows "d' = d \<and> metadata_of (d root) (split_on CHR 0x2F p) = Present (FileNode bytes) \<and>
    d root (split_on CHR 0x2F p) = Some (FileNode bytes) \<and> length bytes \<le> SOURCE_BYTES"
proof -
  have "metadata_of (d root) (split_on CHR 0x2F p) = Present (FileNode bytes)" "length bytes \<le> SOURCE_BYTES" "d' = d"
    using assms by (auto simp: read_bounded_def and_then_Inr_iff source_path_Inr
        split: if_splits metadata.splits node.splits)
  then show ?thesis using metadata_present_node [OF _ split_on_nonempty] by blast
qed

lemma required_pure [simp]: "pure_io (required_file root p e)"
  by (auto simp: required_file_def intro!: within_then)

lemma required_Inr:
  assumes "required_file root p e d = (Inr bytes, d')"
  shows "read_bounded root p d = (Inr (Some bytes), d) \<and> d' = d"
  using assms read_bounded_snd [of root p d] unfolding required_file_def
  by (auto simp: io_simps)

lemma prepare_pure [simp]: "pure_io (prepare_commit E target c out)"
  by (rule prepare_commit_pure)

lemma inspect_pure [simp]: "pure_io (inspect_committed E target c)"
  by (rule inspect_committed_pure)

lemma patch_retained_pure [simp]: "pure_io (patch_retained E target source)"
  unfolding patch_retained_def Let_def
  by (auto intro!: within_then split: option.splits)

lemma check_postimages_pure [simp]: "pure_io (check_postimages root fs)"
  by (induction fs) (auto intro!: within_then)

lemma proposed_files_pure: "pure_io (proposed_files P root asked held fs files)"
  by (induction fs arbitrary: files) (auto intro!: within_then split: sum.splits)

lemma obeys_pure: "pure_io f \<Longrightarrow> adding S \<subseteq> R \<Longrightarrow> obeys Q R (on_disk f)"
  by (rule obeys_disk [where S = S]) (auto simp: adding_def within_def intro: grows_mono)

lemma obeys_lift_then: "(\<And>x. r = Inr x \<Longrightarrow> obeys Q R (g x)) \<Longrightarrow> obeys Q R (run_then (run_lift r) g)"
  unfolding obeys_def by (cases r) (auto simp: run_then_def run_lift_def intro: exI [of _ 0])

lemma custody_prefix:
  assumes "prefix q ([''.agentic-workspace'', ''local''] @ rest)"
  shows "custody_place q"
  using prefix_same_cases [OF assms, of "[''.agentic-workspace'', ''local'']"] by (auto simp: custody_place_def)

lemma evidence_custody: "evidence_places root \<subseteq> custody_places root"
  using custody_prefix [of _ "[''effects'', name]" for name]
  by (auto simp: evidence_places_def custody_places_def store_parents_def)

lemma metadata_root [simp]: "metadata_of t [] = Present DirNode"
  by (simp add: metadata_of_def)

lemma obeys_make_directories:
  assumes "adding S \<subseteq> R" and "\<And>q. prefix q parts \<Longrightarrow> (root, q) \<in> S"
  shows "obeys Q R (make_directories root [] parts)"
  by (rule obeys_adding [OF _ assms(1)]) (rule make_directories_grows, auto intro: assms(2))

lemma obeys_write_new: "adding S \<subseteq> R \<Longrightarrow> (root, p) \<in> S \<Longrightarrow> obeys Q R (write_new root p bytes)"
  by (rule obeys_adding) (rule write_new_grows)

lemma lock_parts: "split_on CHR 0x2F LOCK_PATH =
    [''.agentic-workspace'', ''local''] @ [''effects'', ''patch-integration.lock'']"
  by code_simp

lemma obeys_open_lock:
  assumes "adding (custody_places root) \<subseteq> R"
  shows "obeys Q R (open_lock root)"
proof (rule obeysI)
  fix m r m'
  assume run: "open_lock root m = (r, m')" and q: "list_all Q (mc_turns m)"
  let ?p = "split_on CHR 0x2F LOCK_PATH"
  let ?g = "\<lambda>_ m'. if mc_locked m' then (Inl (err ''io''), m') else (Inr (), m')"
  have "obeys Q R (run_then (write_new root ?p '''') ?g)"
  proof (rule obeys_then [OF obeys_write_new [OF assms]])
    show "(root, ?p) \<in> custody_places root"
      using custody_prefix [of ?p "[''effects'', ''patch-integration.lock'']"] by (simp add: lock_parts custody_places_def)
    show "obeys Q R (?g x)" for x
      unfolding obeys_def by (auto split: if_splits intro: exI [of _ 0])
  qed
  note made = obeysD [OF this _ q]
  have "m' = m \<or> run_then (write_new root ?p '''') ?g m = (r, m')"
    using run unfolding open_lock_def Let_def by (auto split: metadata.splits node.splits if_splits)
  then show "(mc_disk m, mc_disk m') \<in> (R \<union> turn_steps (mc_turns m))\<^sup>* \<and> (\<exists>k. mc_turns m' = drop k (mc_turns m))"
  proof
    assume "m' = m"
    then show ?thesis by (auto intro: exI [of _ 0])
  next
    assume "run_then (write_new root ?p '''') ?g m = (r, m')"
    from made [OF this] show ?thesis by (rule conjI)
  qed
qed

lemma obeys_take_lock:
  assumes "adding (custody_places root) \<subseteq> R"
  shows "obeys Q R (take_lock root)"
  unfolding take_lock_def
  by (intro obeys_then obeys_pure [OF _ assms] obeys_open_lock [OF assms] obeys_make_directories [OF assms])
    (auto simp: custody_places_def lock_parts intro!: custody_prefix)

lemma carrier_parts:
  "\<exists>rest. split_on CHR 0x2F (carrier_path E source) = [''.agentic-workspace'', ''local''] @ ''patch-integrations'' # rest"
proof -
  have "split_on CHR 0x2F (''.agentic-workspace/local/patch-integrations/'' @ s) =
      [''.agentic-workspace'', ''local''] @ ''patch-integrations'' # split_on CHR 0x2F s" for s
    by simp
  then show ?thesis by (auto simp: carrier_path_def fmt_def)
qed

lemma obeys_write_carrier:
  assumes "adding (custody_places root) \<subseteq> R"
  shows "obeys Q R (write_carrier E root source ivc admission outcome)"
proof -
  let ?p = "split_on CHR 0x2F (carrier_path E source)"
  obtain rest where p: "?p = [''.agentic-workspace'', ''local''] @ ''patch-integrations'' # rest"
    using carrier_parts by blast
  have c: "(root, q) \<in> custody_places root" if "prefix q ?p" for q
    using that custody_prefix unfolding p custody_places_def by blast
  have "prefix q ?p" if "prefix q (butlast ?p)" for q
    using that prefixeq_butlast prefix_order.trans by blast
  then show ?thesis
    unfolding write_carrier_def Let_def
    by (intro obeys_then obeys_make_directories [OF assms] obeys_if obeys_lift obeys_write_new [OF assms]) (auto intro: c)
qed

section \<open>Publication obeys\<close>

lemma on_disk_pure:
  "pure_io f \<Longrightarrow> on_disk f m = (r, m') \<Longrightarrow> m' = m \<and> f (mc_disk m) = (r, mc_disk m)"
  unfolding on_disk_def using pure_io_snd [of f "mc_disk m"] by (cases "f (mc_disk m)") auto

lemma temporary_place:
  "f \<in> set (elements (proposal_files ivc)) \<Longrightarrow> patch_file f = Inr (p, before, after) \<Longrightarrow>
     (root, split_on CHR 0x2F (temporary_of E ivc p)) \<in> temporary_places E root ivc"
  by (force simp: temporary_places_def patch_file_def result_simps string_at_def as_str_Some_iff)

lemma stage_file_run:
  assumes "stage_file root temporary held after m = (r, m')" and "(root, split_on CHR 0x2F temporary) \<in> S"
  shows "grows S (mc_disk m) (mc_disk m') \<and> mc_turns m' = mc_turns m \<and>
    (r = Inr () \<longrightarrow> mc_disk m' root (split_on CHR 0x2F temporary) = Some (FileNode after))"
  using run_then_result [OF assms(1) [unfolded stage_file_def]]
proof (elim disjE exE conjE)
  fix e assume f: "on_disk (read_bounded root temporary) m = (Inl e, m')" and e: "r = Inl e"
  have "m' = m" using on_disk_pure [OF read_bounded_pure f] by simp
  then show ?thesis using e by simp
next
  fix found m1
  assume f: "on_disk (read_bounded root temporary) m = (Inr found, m1)"
    and g: "(case found of None \<Rightarrow> write_new root (split_on CHR 0x2F temporary) after
      | Some bytes \<Rightarrow> run_lift (if \<not> held \<or> bytes \<noteq> after
          then Inl (err ''unowned patch temporary preserved'') else Inr ())) m1 = (r, m')"
  have m1: "m1 = m" "read_bounded root temporary (mc_disk m) = (Inr found, mc_disk m)"
    using on_disk_pure [OF read_bounded_pure f] by simp_all
  show ?thesis
  proof (cases found)
    case None
    then have w: "write_new root (split_on CHR 0x2F temporary) after m = (r, m')" using g m1 by simp
    have "mc_disk m' root (split_on CHR 0x2F temporary) = Some (FileNode after)" if "r = Inr ()"
      using w that change_disk_cases by (force simp: write_new_def put_node_def split: if_splits)
    then show ?thesis using write_new_grows [OF w assms(2)] by blast
  next
    case (Some bytes)
    then show ?thesis
      using g m1 read_bounded_Some by (force simp: run_lift_def split: if_splits)
  qed
qed

lemma rename_file_run:
  assumes "rename_file root p q m = (r, m')"
  shows "mc_turns m' = mc_turns m \<and>
    (mc_disk m' = mc_disk m \<and> r \<noteq> Inr () \<or>
     (\<exists>bytes. metadata_of (mc_disk m root) p = Present (FileNode bytes) \<and> r = Inr () \<and>
        mc_disk m' = put_node root q (FileNode bytes) (take_node root p (mc_disk m))))"
  using assms unfolding rename_file_def
  by (auto simp: change_disk_def split: metadata.splits node.splits prod.splits fault.splits dest: next_fault_frame)

lemma revalidate_run:
  assumes "revalidate m = (r, m')" and "list_all Q (mc_turns m)"
  shows "mc_disk m' = mc_disk m \<or> (\<exists>t. Q t \<and> t \<in> set (mc_turns m) \<and> mc_disk m' = snd (t (mc_disk m)))"
  using assms unfolding revalidate_def by (auto split: list.splits prod.splits)

lemma replace_file_obeys:
  assumes "f \<in> set (elements (proposal_files ivc))" and "patch_file f = Inr (p, before, after)"
  shows "obeys (spares E root ivc) (own_steps E root ivc) (replace_file E root held ivc p before after)"
proof (rule obeysI)
  let ?R = "own_steps E root ivc" and ?tmp = "temporary_of E ivc p"
  let ?t = "split_on CHR 0x2F ?tmp" and ?p = "split_on CHR 0x2F p"
  let ?good = "\<lambda>m m'. (mc_disk m, mc_disk m') \<in> (?R \<union> turn_steps (mc_turns m))\<^sup>* \<and>
    (\<exists>k. mc_turns m' = drop k (mc_turns m))"
  fix m r m'
  assume run: "replace_file E root held ivc p before after m = (r, m')"
    and q: "list_all (spares E root ivc) (mc_turns m)"
  have t: "(root, ?t) \<in> temporary_places E root ivc" by (rule temporary_place [OF assms])
  let ?S = "custody_places root \<union> temporary_places E root ivc"
  have step: "(d, d') \<in> ?R" if "grows ?S d d'" for d d'
    using that by (simp add: own_steps_def adding_def)
  have staged: "grows ?S (mc_disk m) (mc_disk m1) \<and> mc_turns m1 = mc_turns m"
    if "stage_file root ?tmp held after m = (x, m1)" for x m1
    using stage_file_run [OF that] t by blast
  from run_then_result [OF run [unfolded replace_file_def Let_def]] show "?good m m'"
  proof (elim disjE exE conjE)
    fix e assume "stage_file root ?tmp held after m = (Inl e, m')"
    from staged [OF this] show ?thesis using step by (auto intro: r_into_rtrancl exI [of _ 0])
  next
    fix x m1
    assume s: "stage_file root ?tmp held after m = (Inr x, m1)"
      and rest: "run_then revalidate (\<lambda>_. run_then (on_disk (read_bounded root p)) (\<lambda>again.
        if again \<noteq> Some before then run_lift (Inl (err ''patch target changed at publication; preserved''))
        else rename_file root ?t ?p)) m1 = (r, m')"
    have m1: "mc_disk m1 root ?t = Some (FileNode after)" using stage_file_run [OF s t] by simp
    note st = staged [OF s]
    have first: "(mc_disk m, mc_disk m1) \<in> (?R \<union> turn_steps (mc_turns m))\<^sup>*" "mc_turns m1 = drop 0 (mc_turns m)"
      using st step by (auto intro: r_into_rtrancl)
    have q1: "list_all (spares E root ivc) (mc_turns m1)" using q st by simp
    have chain: "?good m m'" if "?good m1 m'"
      using obeys_step [OF first conjunct1 [OF that]] that first(2) by auto
    from run_then_result [OF rest] show ?thesis
    proof (elim disjE exE conjE)
      fix e assume "revalidate m1 = (Inl e, m')"
      then show ?thesis by (intro chain conjI obeysD [OF obeys_revalidate _ q1])
    next
      fix y m2
      assume v: "revalidate m1 = (Inr y, m2)"
        and rest2: "run_then (on_disk (read_bounded root p)) (\<lambda>again.
          if again \<noteq> Some before then run_lift (Inl (err ''patch target changed at publication; preserved''))
          else rename_file root ?t ?p) m2 = (r, m')"
      have w: "(mc_disk m1, mc_disk m2) \<in> (?R \<union> turn_steps (mc_turns m1))\<^sup>*"
        by (rule obeysD [OF obeys_revalidate v q1])
      obtain k where k: "mc_turns m2 = drop k (mc_turns m1)"
        using obeysD(2) [OF obeys_revalidate v q1] by blast
      have m2: "mc_disk m2 root ?t = Some (FileNode after)"
        using revalidate_run [OF v q1]
      proof
        assume "\<exists>t'. spares E root ivc t' \<and> t' \<in> set (mc_turns m1) \<and> mc_disk m2 = snd (t' (mc_disk m1))"
        then obtain t' where t': "spares E root ivc t'" "mc_disk m2 = snd (t' (mc_disk m1))" by blast
        show ?thesis unfolding t'(2) sparesD [OF t'(1) t] by (rule m1)
      qed (simp add: m1)
      have finish: "?good m1 m'" if "(mc_disk m2, mc_disk m') \<in> ?R\<^sup>*" "mc_turns m' = mc_turns m2"
      proof -
        have "(mc_disk m2, mc_disk m') \<in> (?R \<union> turn_steps (mc_turns m1))\<^sup>*"
          by (rule subsetD [OF rtrancl_mono that(1)]) (rule Un_upper1)
        with w have "(mc_disk m1, mc_disk m') \<in> (?R \<union> turn_steps (mc_turns m1))\<^sup>*" by (rule rtrancl_trans)
        moreover have "mc_turns m' = drop k (mc_turns m1)" using that(2) k by simp
        ultimately show ?thesis by blast
      qed
      from run_then_result [OF rest2] show ?thesis
      proof (elim disjE exE conjE)
        fix e assume "on_disk (read_bounded root p) m2 = (Inl e, m')"
        then have "m' = m2" using on_disk_pure [OF read_bounded_pure] by blast
        then show ?thesis by (intro chain finish) simp_all
      next
        fix again m3
        assume a: "on_disk (read_bounded root p) m2 = (Inr again, m3)"
          and z: "(if again \<noteq> Some before then run_lift (Inl (err ''patch target changed at publication; preserved''))
            else rename_file root ?t ?p) m3 = (r, m')"
        have m3: "m3 = m2" "read_bounded root p (mc_disk m2) = (Inr again, mc_disk m2)"
          using on_disk_pure [OF read_bounded_pure a] by simp_all
        show ?thesis
        proof (cases "again = Some before")
          case False
          then have "m' = m2" using z m3 by (simp add: run_lift_def)
          then show ?thesis by (intro chain finish) simp_all
        next
          case True
          then have rn: "rename_file root ?t ?p m2 = (r, m')" and b: "mc_disk m2 root ?p = Some (FileNode before)"
            using z m3 read_bounded_Some [of root p "mc_disk m2" before] by simp_all
          have "(mc_disk m2, mc_disk m') \<in> ?R\<^sup>*"
            using rename_file_run [OF rn]
          proof (elim conjE disjE exE)
            fix bytes
            assume n: "metadata_of (mc_disk m2 root) ?t = Present (FileNode bytes)"
              and d: "mc_disk m' = put_node root ?p (FileNode bytes) (take_node root ?t (mc_disk m2))"
            have "bytes = after" using metadata_present_node [OF n split_on_nonempty] m2 by simp
            then have "(mc_disk m2, mc_disk m') \<in> publishing E root ivc"
              using assms b d unfolding publishing_def by blast
            then show ?thesis by (auto simp: own_steps_def)
          qed simp
          then show ?thesis using rename_file_run [OF rn] by (intro chain finish) simp_all
        qed
      qed
    qed
  qed
qed

lemma publish_file_obeys:
  assumes "f \<in> set (elements (proposal_files ivc))"
  shows "obeys (spares E root ivc) (own_steps E root ivc) (publish_file E root held ivc f)"
proof -
  have R: "adding (custody_places root \<union> temporary_places E root ivc) \<subseteq> own_steps E root ivc"
    by (simp add: own_steps_def)
  show ?thesis
    unfolding publish_file_def case_prod_unfold
    by (rule obeys_lift_then)
      (intro obeys_then obeys_pure [OF _ R] obeys_if obeys_lift required_pure replace_file_obeys [OF assms], simp)
qed

lemma publish_files_obeys:
  "set fs \<subseteq> set (elements (proposal_files ivc)) \<Longrightarrow>
     obeys (spares E root ivc) (own_steps E root ivc) (publish_files E root held ivc fs)"
  by (induction fs) (auto intro!: obeys_then publish_file_obeys)

lemma own_custody: "adding (custody_places root) \<subseteq> own_steps E root ivc"
  by (auto simp: own_steps_def adding_def intro: grows_mono)

lemma target_custody: "se_canonicalize E target = Some root \<Longrightarrow> target_places E target \<subseteq> custody_places root"
  using evidence_custody by (simp add: target_places_def)

lemma obeys_custody:
  assumes "within S f" and "S \<subseteq> custody_places root"
  shows "obeys Q (own_steps E root ivc) (on_disk f)"
  by (rule obeys_disk [OF assms(1)]) (use assms(2) own_custody in \<open>force simp: adding_def intro: grows_mono\<close>)

lemma integrate_files_obeys:
  assumes "se_canonicalize E target = Some root"
  shows "obeys (spares E root ivc) (own_steps E root ivc)
    (integrate_files E target root source held ivc outcome admission)"
  unfolding integrate_files_def
proof (intro obeys_then [of _ _ "if held = None then _ else _"] obeys_lift_then)
  fix files assume "ok_or (as_array (proposal_files ivc)) panic = Inr files"
  then have "set files \<subseteq> set (elements (proposal_files ivc))" by (simp add: result_simps as_array_Some_iff)
  then show "obeys (spares E root ivc) (own_steps E root ivc)
      (publish_and_commit E target root (held \<noteq> None) ivc outcome admission files)"
    unfolding publish_and_commit_def
    by (intro obeys_then obeys_lift obeys_revalidate publish_files_obeys
        obeys_pure [OF check_postimages_pure own_custody]
        obeys_custody [OF store_commit_value_within target_custody [OF assms]])
qed (intro obeys_if obeys_lift obeys_write_carrier [OF own_custody])

lemma execute_patch_obeys:
  assumes "se_canonicalize E target = Some root"
  shows "obeys (spares E root ivc) (own_steps E root ivc) (execute_patch E target decision ivc)"
  unfolding execute_patch_def
proof (rule obeys_lift_then)
  fix root' assume "store_root E target = Inr root'"
  then have "root' = root" using assms by (simp add: store_root_Inr)
  then show "obeys (spares E root ivc) (own_steps E root ivc) (execute_at E target root' decision ivc)"
    unfolding execute_at_def admit_integration_def
    by (intro obeys_then obeys_if obeys_lift obeys_revalidate
        obeys_pure [OF patch_retained_pure own_custody] 
        obeys_custody [OF store_admit_value_within target_custody [OF assms]])
      (simp_all add: obeys_take_lock [OF own_custody] integrate_files_obeys [OF assms])
qed

text \<open>C16: Whatever fails, wherever it stops and whatever others do in their turns (short of touching
  its temporary files), an integration changes the disk only by adding entries of its own and by
  replacing, at once, a file of the proposal that holds its before image by the after image.\<close>

theorem integration_guarantee:
  assumes "execute_patch E target decision ivc m = (r, m')" and "se_canonicalize E target = Some root"
    and "list_all (spares E root ivc) (mc_turns m)"
  shows "(mc_disk m, mc_disk m') \<in> (own_steps E root ivc \<union> turn_steps (mc_turns m))\<^sup>*"
  using obeysD(1) [OF execute_patch_obeys [OF assms(2)] assms(1,3)] .

section \<open>What a run that returns leaves\<close>

definition reaches :: "(disk \<times> disk) set \<Rightarrow> machine \<Rightarrow> machine \<Rightarrow> bool" where
  "reaches R m m' \<longleftrightarrow> (mc_disk m, mc_disk m') \<in> (R \<union> turn_steps (mc_turns m))\<^sup>* \<and>
     (\<exists>k. mc_turns m' = drop k (mc_turns m))"

abbreviation anyone :: "(disk \<Rightarrow> unit res \<times> disk) \<Rightarrow> bool" where
  "anyone \<equiv> \<lambda>_. True"

lemma reaches_refl [simp]: "reaches R m m"
  by (auto simp: reaches_def intro: exI [of _ 0])

lemma reaches_trans: "reaches R m m' \<Longrightarrow> reaches R m' m'' \<Longrightarrow> reaches R m m''"
proof -
  assume a: "reaches R m m'" and b: "reaches R m' m''"
  obtain j k where j: "mc_turns m' = drop j (mc_turns m)" and k: "mc_turns m'' = drop k (mc_turns m')"
    using a b unfolding reaches_def by blast
  have "mc_turns m'' = drop (k + j) (mc_turns m)" using j k by simp
  moreover have "(mc_disk m, mc_disk m'') \<in> (R \<union> turn_steps (mc_turns m))\<^sup>*"
    by (rule obeys_step [OF _ j, of _ "mc_disk m'"]) (use a b in \<open>simp_all add: reaches_def\<close>)
  ultimately show "reaches R m m''" unfolding reaches_def by blast
qed

lemma obeys_reaches: "obeys anyone R f \<Longrightarrow> f m = (r, m') \<Longrightarrow> reaches R m m'"
  unfolding obeys_def reaches_def by (simp add: list_all_iff)

lemma run_thenE:
  assumes "run_then f g m = (Inr y, m'')" and "obeys anyone R f"
  obtains x m' where "f m = (Inr x, m')" and "g x m' = (Inr y, m'')" and "reaches R m m'"
  using run_then_result [OF assms(1)] obeys_reaches [OF assms(2)] by blast

lemma run_then_Inr:
  "run_then f g m = (Inr y, m'') \<longleftrightarrow> (\<exists>x m'. f m = (Inr x, m') \<and> g x m' = (Inr y, m''))"
  by (auto simp: run_then_def split: prod.splits sum.splits)

lemma run_lift_Inr: "run_lift r m = (Inr x, m') \<longleftrightarrow> r = Inr x \<and> m' = m"
  by (auto simp: run_lift_def)

lemma on_disk_Inr:
  "on_disk f m = (Inr x, m') \<longleftrightarrow> (\<exists>d. f (mc_disk m) = (Inr x, d) \<and> m' = m\<lparr>mc_disk := d\<rparr>)"
  by (auto simp: on_disk_def split: prod.splits)

lemmas run_simps = run_then_Inr run_lift_Inr on_disk_Inr

lemma entry_found_grows:
  "entry_found (d r) walked parts = Inr True \<Longrightarrow> grows S d d' \<Longrightarrow> entry_found (d' r) walked parts = Inr True"
proof (induction parts arbitrary: walked)
  case (Cons part parts)
  then obtain n where n: "metadata_of (d r) (walked @ [part]) = Present n" "n \<noteq> LinkNode"
    "entry_found (d r) (walked @ [part]) parts = Inr True"
    by (auto split: metadata.splits if_splits)
  then show ?case using metadata_grows [OF n(1) Cons.prems(2)] Cons.IH [OF n(3) Cons.prems(2)] by simp
qed simp

lemma read_bounded_grows:
  assumes "read_bounded root p d = (Inr (Some bytes), d)" and "grows S d d'"
  shows "read_bounded root p d' = (Inr (Some bytes), d')"
proof -
  obtain parts where s: "source_path p = Inr parts" "entry_found (d root) [] parts = Inr True"
    "metadata_of (d root) parts = Present (FileNode bytes)" "\<not> SOURCE_BYTES < length bytes"
    using assms(1) by (auto simp: read_bounded_def and_then_Inr_iff split: if_splits metadata.splits node.splits)
  then show ?thesis
    using entry_found_grows [OF s(2) assms(2)] metadata_grows [OF s(3) assms(2)] by (simp add: read_bounded_def)
qed

lemma check_postimages_Inr:
  assumes "check_postimages root fs d = (Inr (), d')"
  shows "\<forall>f \<in> set fs. \<exists>p after. ix f ''path'' = JStr p \<and> ix f ''after'' = JStr after \<and>
    read_bounded root p d = (Inr (Some after), d)"
  using assms
proof (induction fs)
  case (Cons f fs)
  then obtain p after bytes d1 where x: "ix f ''path'' = JStr p" "ix f ''after'' = JStr after"
    "read_bounded root p d = (Inr bytes, d1)" "bytes = Some after" "check_postimages root fs d1 = (Inr (), d')"
    by (auto simp: io_simps string_at_def as_str_Some_iff split: if_splits)
  then have "d1 = d" using read_bounded_snd by (metis snd_conv)
  then show ?case using x Cons.IH by auto
qed simp

lemma publish_and_commit_Inr:
  assumes "publish_and_commit E target root held ivc outcome admission files m = (Inr out, m')"
  obtains d committed where "store_commit_value E (obj
       [(''target'', JStr target), (''custody'', ix admission ''custody''), (''outcome'', outcome)]) d = (Inr committed, mc_disk m')"
    and "out = integration_report outcome (ix committed ''custody'')"
    and "\<forall>f \<in> set files. \<exists>p after. ix f ''path'' = JStr p \<and> ix f ''after'' = JStr after \<and>
      read_bounded root p (mc_disk m') = (Inr (Some after), mc_disk m')"
proof -
  obtain u m1 d v d' where x: "check_postimages root files (mc_disk m1) = (Inr u, d)"
    "store_commit_value E (obj
       [(''target'', JStr target), (''custody'', ix admission ''custody''), (''outcome'', outcome)]) d = (Inr v, d')"
    "m' = m1\<lparr>mc_disk := d, mc_disk := d'\<rparr>" "out = integration_report outcome (ix v ''custody'')"
    using assms unfolding publish_and_commit_def by (auto simp: run_simps)
  have d: "d = mc_disk m1" using pure_io_snd [OF check_postimages_pure, of root files "mc_disk m1"] x(1) by simp
  have "grows (target_places E target) d d'"
    using store_commit_value_within [of E target "ix admission ''custody''" outcome] x(2)
    unfolding within_def by (metis snd_conv)
  then have g: "grows (target_places E target) (mc_disk m1) (mc_disk m')" by (simp add: x(3) d)
  have "check_postimages root files (mc_disk m1) = (Inr (), d)" using x(1) by simp
  from check_postimages_Inr [OF this] have "\<forall>f \<in> set files. \<exists>p after. ix f ''path'' = JStr p \<and> ix f ''after'' = JStr after \<and>
      read_bounded root p (mc_disk m') = (Inr (Some after), mc_disk m')"
    using read_bounded_grows [OF _ g] by blast
  moreover have "store_commit_value E (obj
       [(''target'', JStr target), (''custody'', ix admission ''custody''), (''outcome'', outcome)]) d = (Inr v, mc_disk m')"
    using x(2) by (simp add: x(3))
  ultimately show ?thesis using that [OF _ x(4)] by blast
qed

text \<open>Up to the admission an integration only takes its lock and lets others have a turn.\<close>

lemma execute_patch_admission:
  assumes "execute_patch E target decision ivc m = (Inr out, m')" and "se_canonicalize E target = Some root"
  obtains m2 source held outcome where "reaches (adding (custody_places root)) m m2"
    and "patch_retained E target source (mc_disk m2) = (Inr held, mc_disk m2)"
    and "integration_outcome E ivc = Inr outcome" and "\<forall>h. held = Some h \<longrightarrow> ix h ''invocation'' = ivc"
    and "admit_integration E target root source held decision ivc outcome m2 = (Inr out, m')"
proof -
  let ?R = "adding (custody_places root)"
  have "execute_at E target root decision ivc m = (Inr out, m')"
    using assms by (auto simp: execute_patch_def run_simps store_root_Inr)
  note run = this [unfolded execute_at_def]
  obtain m1 where m1: "reaches ?R m m1" and run1: "run_then revalidate (\<lambda>_.
     run_then (run_lift (integration_source ivc)) (\<lambda>source.
     run_then (on_disk (patch_retained E target source)) (\<lambda>held.
     run_then (run_lift (integration_outcome E ivc)) (\<lambda>outcome.
     if SOURCE_BYTES < carrier_bound E target ivc outcome
     then run_lift (Inl (err ''complete patch recovery carrier exceeds its bounded reader''))
     else if (case held of None \<Rightarrow> False | Some h \<Rightarrow> ix h ''invocation'' \<noteq> ivc)
     then run_lift (Inl (err ''patch integration custody collision; preserved''))
     else admit_integration E target root source held decision ivc outcome)))) m1 = (Inr out, m')"
    by (rule run_thenE [OF run obeys_take_lock [OF order_refl]]) auto
  show ?thesis
  proof (rule run_thenE [OF run1 obeys_revalidate [where R = ?R]], goal_cases)
    case (1 x m2)
    then obtain source held d2 outcome where r: "patch_retained E target source (mc_disk m2) = (Inr held, d2)"
      "integration_outcome E ivc = Inr outcome" "\<forall>h. held = Some h \<longrightarrow> ix h ''invocation'' = ivc"
      "admit_integration E target root source held decision ivc outcome (m2\<lparr>mc_disk := d2\<rparr>) = (Inr out, m')"
      by (auto simp: run_simps split: if_splits option.splits)
    moreover have "d2 = mc_disk m2" using pure_io_snd [OF patch_retained_pure, of E target source "mc_disk m2"] r(1) by simp
    ultimately show ?case using that [OF reaches_trans [OF m1 1(3)]] by simp
  qed
qed

lemma integrate_files_Inr:
  assumes "integrate_files E target root source held ivc outcome admission m = (Inr out, m')"
  obtains files d committed where "proposal_files ivc = JArr files"
    and "store_commit_value E (obj [(''target'', JStr target), (''custody'', ix admission ''custody''), (''outcome'', outcome)]) d =
      (Inr committed, mc_disk m')"
    and "out = integration_report outcome (ix committed ''custody'')"
    and "\<forall>f \<in> set files. \<exists>p after. ix f ''path'' = JStr p \<and> ix f ''after'' = JStr after \<and>
      read_bounded root p (mc_disk m') = (Inr (Some after), mc_disk m')"
proof -
  obtain files m4 where f: "as_array (proposal_files ivc) = Some files"
    and p: "publish_and_commit E target root (held \<noteq> None) ivc outcome admission files m4 = (Inr out, m')"
    using assms unfolding integrate_files_def by (auto simp: run_simps result_simps)
  have "proposal_files ivc = JArr files" using f by (simp add: as_array_Some_iff)
  with publish_and_commit_Inr [OF p] that show ?thesis by metis
qed

lemma admit_integration_answer:
  assumes "admit_integration E target root source held decision ivc outcome m = (Inr out, m')"
    and "se_canonicalize E target = Some root"
  obtains admission m3 where "store_admit_value E (obj [(''target'', JStr target), (''decision'', decision), (''invocation'', ivc),
      (''custody'', case held of None \<Rightarrow> JNull | Some h \<Rightarrow> ix h ''custody'')]) (mc_disk m) = (Inr admission, mc_disk m3)"
    and "reaches (adding (custody_places root)) m m3"
    and "ix admission ''disposition'' = JStr ''replay'' \<longrightarrow>
      m' = m3 \<and> out = integration_report (at [''record'', ''outcome''] admission) (ix admission ''custody'')"
    and "ix admission ''disposition'' \<noteq> JStr ''replay'' \<longrightarrow>
      integrate_files E target root source held ivc outcome admission m3 = (Inr out, m')"
proof -
  let ?R = "adding (custody_places root)"
  have o': "obeys anyone ?R (on_disk (store_admit_value E (obj [(''target'', JStr target), (''decision'', decision), (''invocation'', ivc),
      (''custody'', case held of None \<Rightarrow> JNull | Some h \<Rightarrow> ix h ''custody'')])))"
    by (rule obeys_disk [OF store_admit_value_within])
      (use target_custody [OF assms(2)] in \<open>force simp: adding_def intro: grows_mono\<close>)
  from run_thenE [OF assms(1) [unfolded admit_integration_def] o'] obtain admission m3 where
    "on_disk (store_admit_value E (obj [(''target'', JStr target), (''decision'', decision), (''invocation'', ivc),
      (''custody'', case held of None \<Rightarrow> JNull | Some h \<Rightarrow> ix h ''custody'')])) m = (Inr admission, m3)" "reaches ?R m m3"
    "(if ix admission ''disposition'' = JStr ''replay''
     then run_lift (Inr (integration_report (at [''record'', ''outcome''] admission) (ix admission ''custody'')))
     else if ix admission ''disposition'' \<noteq> JStr ''execute'' \<and>
       \<not> (ix admission ''disposition'' = JStr ''uncertain'' \<and> held \<noteq> None)
     then run_lift (Inl (err ''patch integration requires exact recovery''))
     else integrate_files E target root source held ivc outcome admission) m3 = (Inr out, m')" by metis
  then show ?thesis using that [of admission m3] by (auto simp: on_disk_Inr run_lift_def split: if_splits)
qed

text \<open>C17: An integration that returns was admitted by the evidence store on a disk of its run, first or
  under the custody retained for this invocation. If the store answered otherwise than with a replay, every file of the proposal now holds its after
  image, the store has committed the outcome the invocation stands for, under the custody of that
  admission and as the last change of the run, and the report is of this outcome and commit. If the
  store replayed, the report is the outcome and custody of the store's own answer, and the run has
  only added entries of AW's own directory (others may have had their turns).\<close>

theorem integration_complete:
  assumes "execute_patch E target decision ivc m = (Inr out, m')" and "se_canonicalize E target = Some root"
  shows "\<exists>custody d d' admission. store_admit_value E (obj [(''target'', JStr target), (''decision'', decision),
      (''invocation'', ivc), (''custody'', custody)]) d = (Inr admission, d') \<and>
    (custody = JNull \<or> (\<exists>source h. patch_retained E target source d = (Inr (Some h), d) \<and>
       ix h ''invocation'' = ivc \<and> custody = ix h ''custody'')) \<and>
    (mc_disk m, d) \<in> (adding (custody_places root) \<union> turn_steps (mc_turns m))\<^sup>* \<and>
    (if ix admission ''disposition'' = JStr ''replay''
     then mc_disk m' = d' \<and> out = integration_report (at [''record'', ''outcome''] admission) (ix admission ''custody'') \<and>
       (mc_disk m, mc_disk m') \<in> (adding (custody_places root) \<union> turn_steps (mc_turns m))\<^sup>*
     else \<exists>files outcome d'' committed. proposal_files ivc = JArr files \<and> integration_outcome E ivc = Inr outcome \<and>
       store_commit_value E (obj [(''target'', JStr target), (''custody'', ix admission ''custody''), (''outcome'', outcome)]) d'' =
         (Inr committed, mc_disk m') \<and>
       out = integration_report outcome (ix committed ''custody'') \<and>
       (\<forall>f \<in> set files. \<exists>p after. ix f ''path'' = JStr p \<and> ix f ''after'' = JStr after \<and>
          read_bounded root p (mc_disk m') = (Inr (Some after), mc_disk m')))"
proof -
  obtain m2 source held outcome where a: "reaches (adding (custody_places root)) m m2"
    "patch_retained E target source (mc_disk m2) = (Inr held, mc_disk m2)" "integration_outcome E ivc = Inr outcome"
    "\<forall>h. held = Some h \<longrightarrow> ix h ''invocation'' = ivc"
    "admit_integration E target root source held decision ivc outcome m2 = (Inr out, m')"
    using execute_patch_admission [OF assms] .
  let ?c = "case held of None \<Rightarrow> JNull | Some h \<Rightarrow> ix h ''custody''"
  obtain admission m3 where b: "store_admit_value E (obj [(''target'', JStr target), (''decision'', decision),
      (''invocation'', ivc), (''custody'', ?c)]) (mc_disk m2) = (Inr admission, mc_disk m3)"
    "reaches (adding (custody_places root)) m2 m3"
    "ix admission ''disposition'' = JStr ''replay'' \<longrightarrow>
      m' = m3 \<and> out = integration_report (at [''record'', ''outcome''] admission) (ix admission ''custody'')"
    "ix admission ''disposition'' \<noteq> JStr ''replay'' \<longrightarrow>
      integrate_files E target root source held ivc outcome admission m3 = (Inr out, m')"
    using admit_integration_answer [OF a(5) assms(2)] .
  have c: "?c = JNull \<or> (\<exists>source h. patch_retained E target source (mc_disk m2) = (Inr (Some h), mc_disk m2) \<and>
      ix h ''invocation'' = ivc \<and> ?c = ix h ''custody'')"
    using a(2,4) by (cases held) auto
  have r: "reaches (adding (custody_places root)) m m3" using a(1) b(2) by (rule reaches_trans)
  show ?thesis
  proof (cases "ix admission ''disposition'' = JStr ''replay''")
    case True
    then show ?thesis using b(1,3) c a(1) r unfolding reaches_def
      by (intro exI [of _ ?c] exI [of _ "mc_disk m2"] exI [of _ "mc_disk m3"] exI [of _ admission]) simp
  next
    case False
    from integrate_files_Inr [OF b(4) [rule_format, OF False]] obtain files d committed where "proposal_files ivc = JArr files"
      "store_commit_value E (obj [(''target'', JStr target), (''custody'', ix admission ''custody''), (''outcome'', outcome)]) d =
        (Inr committed, mc_disk m')"
      "out = integration_report outcome (ix committed ''custody'')"
      "\<forall>f \<in> set files. \<exists>p after. ix f ''path'' = JStr p \<and> ix f ''after'' = JStr after \<and>
        read_bounded root p (mc_disk m') = (Inr (Some after), mc_disk m')" .
    with a(3) have "\<exists>files outcome d'' committed. proposal_files ivc = JArr files \<and>
       integration_outcome E ivc = Inr outcome \<and>
       store_commit_value E (obj [(''target'', JStr target), (''custody'', ix admission ''custody''), (''outcome'', outcome)]) d'' =
         (Inr committed, mc_disk m') \<and>
       out = integration_report outcome (ix committed ''custody'') \<and>
       (\<forall>f \<in> set files. \<exists>p after. ix f ''path'' = JStr p \<and> ix f ''after'' = JStr after \<and>
          read_bounded root p (mc_disk m') = (Inr (Some after), mc_disk m'))" by blast
    then show ?thesis using False b(1) c a(1) unfolding reaches_def
      by (intro exI [of _ ?c] exI [of _ "mc_disk m2"] exI [of _ "mc_disk m3"] exI [of _ admission]) simp
  qed
qed

section \<open>Recovery\<close>

text \<open>Nothing but the directories it stands in is on the way to an entry.\<close>

definition clear_entry :: "tree \<Rightarrow> str \<Rightarrow> bool" where
  "clear_entry t p \<longleftrightarrow> source_path p = Inr (split_on CHR 0x2F p) \<and>
     (\<forall>k. 0 < k \<longrightarrow> k < length (split_on CHR 0x2F p) \<longrightarrow> t (take k (split_on CHR 0x2F p)) = Some DirNode)"

abbreviation node_of :: "disk \<Rightarrow> str \<Rightarrow> str \<Rightarrow> node option" where
  "node_of d root p \<equiv> d root (split_on CHR 0x2F p)"

text \<open>A file that is yet to be published, or is: its image is one of the two, and its temporary file
  is missing or complete.\<close>

definition publishable :: "store_env \<Rightarrow> str \<Rightarrow> json \<Rightarrow> disk \<Rightarrow> json \<Rightarrow> bool" where
  "publishable E root ivc d f \<longleftrightarrow>
     (\<exists>p before after. patch_file f = Inr (p, before, after) \<and>
        clear_entry (d root) p \<and> clear_entry (d root) (temporary_of E ivc p) \<and>
        node_of d root p \<in> {Some (FileNode before), Some (FileNode after)} \<and>
        node_of d root (temporary_of E ivc p) \<in> {None, Some (FileNode after)} \<and>
        length before \<le> SOURCE_BYTES \<and> length after \<le> SOURCE_BYTES)"

definition file_places :: "store_env \<Rightarrow> json \<Rightarrow> json \<Rightarrow> path list" where
  "file_places E ivc f = (case patch_file f of
     Inl _ \<Rightarrow> [] | Inr (p, _, _) \<Rightarrow> [split_on CHR 0x2F p, split_on CHR 0x2F (temporary_of E ivc p)])"

text \<open>Nobody else changes the disk, and no write is torn; any change may still be refused.\<close>

definition quiet :: "machine \<Rightarrow> bool" where
  "quiet m \<longleftrightarrow> (\<forall>t \<in> set (mc_turns m). \<forall>d. snd (t d) = d) \<and> (\<forall>k. Torn k \<notin> set (mc_faults m))"

abbreviation calm :: "machine \<Rightarrow> bool" where
  "calm m \<equiv> mc_faults m = [] \<and> mc_turns m = []"

text \<open>It stays so, and with no fault or turn to come there is none afterwards.\<close>

definition keeps :: "machine \<Rightarrow> machine \<Rightarrow> bool" where
  "keeps m m' \<longleftrightarrow> quiet m' \<and> (calm m \<longrightarrow> calm m')"

lemma metadata_clear:
  assumes "\<And>k. 0 < k \<Longrightarrow> k < length p \<Longrightarrow> t (take k p) = Some DirNode" and "p \<noteq> []"
  shows "metadata_of t p = (case t p of None \<Rightarrow> Missing | Some n \<Rightarrow> Present n)"
proof -
  have "find (\<lambda>k. t (take k p) \<noteq> Some DirNode) [1..<length p] = None"
    using assms(1) by (auto simp: find_None_iff)
  then show ?thesis using assms(2) by (simp add: metadata_of_def)
qed

lemma metadata_parent:
  assumes "\<And>k. 0 < k \<Longrightarrow> k < length p \<Longrightarrow> t (take k p) = Some DirNode" and "p \<noteq> []"
  shows "metadata_of t (butlast p) = Present DirNode"
proof (cases "butlast p = []")
  case False
  then have "0 < length p - 1" using assms(2) by (metis length_butlast length_greater_0_conv)
  moreover have "length p - 1 < length p" using assms(2) by simp
  moreover have "take k (butlast p) = take k p" if "k < length (butlast p)" for k
    using that by (simp add: take_butlast)
  ultimately show ?thesis
    using False assms(1) by (intro metadata_presentI) (auto simp: butlast_conv_take)
qed simp

lemma entry_found_clear:
  assumes "\<And>k. 0 < k \<Longrightarrow> k < length (walked @ parts) \<Longrightarrow> t (take k (walked @ parts)) = Some DirNode" and "parts \<noteq> []"
    and "t (walked @ parts) \<in> {None, Some (FileNode b)}"
  shows "entry_found t walked parts = Inr (t (walked @ parts) \<noteq> None)"
  using assms
proof (induction parts arbitrary: walked)
  case (Cons part parts)
  let ?p = "walked @ [part]"
  have m: "metadata_of t ?p = (case t ?p of None \<Rightarrow> Missing | Some n \<Rightarrow> Present n)"
  proof (rule metadata_clear)
    fix k assume "0 < k" "k < length ?p"
    then show "t (take k ?p) = Some DirNode" using Cons.prems(1) [of k] by (simp add: take_append)
  qed simp
  show ?case
  proof (cases "parts = []")
    case True
    then show ?thesis using m Cons.prems(3) by (auto split: option.splits)
  next
    case False
    then have "t ?p = Some DirNode" using Cons.prems(1) [of "Suc (length walked)"] by simp
    then show ?thesis using m Cons.IH [of ?p] Cons.prems False by simp
  qed
qed simp

lemma read_clear:
  assumes "clear_entry (d root) p" and "node_of d root p \<in> {None, Some (FileNode b)}" and "length b \<le> SOURCE_BYTES"
  shows "read_bounded root p d = (Inr (if node_of d root p = None then None else Some b), d)"
proof -
  let ?p = "split_on CHR 0x2F p"
  have e: "entry_found (d root) [] ?p = Inr (d root ?p \<noteq> None)"
    using entry_found_clear [of "[]" ?p "d root" b] assms by (auto simp: clear_entry_def split_on_nonempty)
  have m: "metadata_of (d root) ?p = (case d root ?p of None \<Rightarrow> Missing | Some n \<Rightarrow> Present n)"
    using assms by (intro metadata_clear) (auto simp: clear_entry_def split_on_nonempty)
  have s: "source_path p = Inr ?p" using assms(1) by (simp add: clear_entry_def)
  show ?thesis using assms(2,3) by (auto simp: read_bounded_def s e m)
qed

text \<open>Changing files leaves the way to every entry clear.\<close>

lemma clear_entry_frame:
  assumes "clear_entry t p" and "\<And>q. t q = Some DirNode \<Longrightarrow> t' q = Some DirNode"
  shows "clear_entry t' p"
  using assms by (simp add: clear_entry_def)

lemma quiet_fault:
  assumes "quiet m"
  obtains m' where "mc_disk m' = mc_disk m" "quiet m'" "mc_turns m' = mc_turns m" "next_fault m = (Done, m')"
  | m' where "mc_disk m' = mc_disk m" "quiet m'" "mc_turns m' = mc_turns m" "next_fault m = (Refused, m')" "\<not> calm m"
proof (cases "mc_faults m")
  case Nil
  then show ?thesis using assms that(1) by (simp add: next_fault_def)
next
  case (Cons f fs)
  then have "next_fault m = (f, m\<lparr>mc_faults := fs\<rparr>)" "quiet (m\<lparr>mc_faults := fs\<rparr>)" "\<And>k. f \<noteq> Torn k"
    using assms by (auto simp: next_fault_def quiet_def)
  then show ?thesis
    using Cons that(1,2) [of "m\<lparr>mc_faults := fs\<rparr>"] by (cases f) (simp, simp, blast)
qed

lemma quiet_change:
  assumes "change_disk d torn m = (r, m')" and "quiet m"
  shows "keeps m m' \<and> (r = Inr () \<and> mc_disk m' = d \<or> (r \<noteq> Inr () \<and> mc_disk m' = mc_disk m \<and> \<not> calm m))"
  using assms(1) by (cases rule: quiet_fault [OF assms(2)])
    (auto simp: change_disk_def quiet_def keeps_def next_fault_def split: list.splits)

lemma quiet_revalidate: "revalidate m = (r, m') \<Longrightarrow> quiet m \<Longrightarrow>
    keeps m m' \<and> mc_disk m' = mc_disk m \<and> (calm m \<longrightarrow> r = Inr ())"
  by (auto simp: revalidate_def quiet_def keeps_def split: list.splits prod.splits) (metis snd_conv)

lemma keeps_trans: "keeps m m' \<Longrightarrow> keeps m' m'' \<Longrightarrow> keeps m m''"
  by (simp add: keeps_def)

lemma keeps_quiet: "keeps m m' \<Longrightarrow> quiet m'"
  by (simp add: keeps_def)

lemma keeps_refl: "quiet m \<Longrightarrow> keeps m m"
  by (simp add: keeps_def)

text \<open>A file and its temporary before and after a step that touches nothing else.\<close>

lemma write_new_quiet:
  assumes "write_new root (split_on CHR 0x2F q) bytes m = (r, m')" and "quiet m"
    and "clear_entry (mc_disk m root) q" and "node_of (mc_disk m) root q = None"
  shows "keeps m m' \<and>
    (r = Inr () \<and> mc_disk m' = put_node root (split_on CHR 0x2F q) (FileNode bytes) (mc_disk m) \<or>
     r \<noteq> Inr () \<and> mc_disk m' = mc_disk m \<and> \<not> calm m)"
proof -
  let ?q = "split_on CHR 0x2F q"
  have c: "0 < k \<Longrightarrow> k < length ?q \<Longrightarrow> mc_disk m root (take k ?q) = Some DirNode" for k
    using assms(3) by (simp add: clear_entry_def)
  have "metadata_of (mc_disk m root) ?q = Missing"
    using metadata_clear [of ?q "mc_disk m root"] c assms(4) by (simp add: split_on_nonempty)
  moreover have "metadata_of (mc_disk m root) (butlast ?q) = Present DirNode"
    using metadata_parent [of ?q "mc_disk m root"] c by (simp add: split_on_nonempty)
  ultimately show ?thesis
    using quiet_change [OF _ assms(2)] assms(1) by (simp add: write_new_def)
qed

lemma stage_file_quiet:
  assumes "stage_file root q held after m = (r, m')" and "quiet m" and "clear_entry (mc_disk m root) q"
    and "node_of (mc_disk m) root q \<in> {None, Some (FileNode after)}" and "length after \<le> SOURCE_BYTES"
  shows "keeps m m' \<and> (r = Inr () \<and>
       (mc_disk m' = put_node root (split_on CHR 0x2F q) (FileNode after) (mc_disk m) \<or>
        mc_disk m' = mc_disk m \<and> node_of (mc_disk m) root q = Some (FileNode after)) \<or>
     r \<noteq> Inr () \<and> mc_disk m' = mc_disk m \<and> (held \<longrightarrow> \<not> calm m))"
proof -
  note rd = read_clear [where d = "mc_disk m", OF assms(3-5)]
  show ?thesis
  proof (cases "node_of (mc_disk m) root q = None")
    case True
    then have "on_disk (read_bounded root q) m = (Inr None, m)" using rd by (simp add: on_disk_def)
    then have "write_new root (split_on CHR 0x2F q) after m = (r, m')"
      using assms(1) by (simp add: stage_file_def run_then_def)
    from write_new_quiet [OF this assms(2,3) True] show ?thesis by blast
  next
    case False
    then have "on_disk (read_bounded root q) m = (Inr (Some after), m)" using rd by (simp add: on_disk_def)
    then have "run_lift (if \<not> held then Inl (err ''unowned patch temporary preserved'') else Inr ()) m = (r, m')"
      using assms(1) by (simp add: stage_file_def run_then_def)
    then show ?thesis using assms(2,4) False by (auto simp: run_lift_def keeps_refl split: if_splits)
  qed
qed

lemma rename_quiet:
  assumes "rename_file root (split_on CHR 0x2F q) (split_on CHR 0x2F p) m = (r, m')" and "quiet m"
    and "clear_entry (mc_disk m root) q" and "node_of (mc_disk m) root q = Some (FileNode after)"
    and "clear_entry (mc_disk m root) p" and "node_of (mc_disk m) root p = Some (FileNode before)"
  shows "keeps m m' \<and>
    (r = Inr () \<and> mc_disk m' = put_node root (split_on CHR 0x2F p) (FileNode after)
        (take_node root (split_on CHR 0x2F q) (mc_disk m)) \<or>
     r \<noteq> Inr () \<and> mc_disk m' = mc_disk m \<and> \<not> calm m)"
proof -
  have c: "metadata_of (mc_disk m root) (split_on CHR 0x2F x) = Present n"
    if "clear_entry (mc_disk m root) x" "node_of (mc_disk m) root x = Some n" for x n
    using metadata_clear [of "split_on CHR 0x2F x" "mc_disk m root"] that by (simp add: clear_entry_def split_on_nonempty)
  show ?thesis
    using assms(1) quiet_change [OF _ assms(2)] unfolding rename_file_def c [OF assms(3,4)] c [OF assms(5,6)]
    by simp
qed

definition settled :: "store_env \<Rightarrow> str \<Rightarrow> json \<Rightarrow> bool \<Rightarrow> machine \<Rightarrow> json \<Rightarrow> unit res \<Rightarrow> machine \<Rightarrow> bool" where
  "settled E root ivc held m f r m' \<longleftrightarrow>
     keeps m m' \<and> publishable E root ivc (mc_disk m') f \<and>
     (\<forall>q. q \<notin> set (file_places E ivc f) \<longrightarrow> mc_disk m' root q = mc_disk m root q) \<and>
     (\<forall>q. mc_disk m root q = Some DirNode \<longrightarrow> mc_disk m' root q = Some DirNode) \<and>
     (held \<and> calm m \<longrightarrow> r = Inr ()) \<and>
     (r = Inr () \<longrightarrow> (\<exists>p before after. patch_file f = Inr (p, before, after) \<and>
        node_of (mc_disk m') root p = Some (FileNode after)))"

lemma publish_file_quiet:
  assumes "publish_file E root held ivc f m = (r, m')" and "quiet m" and "publishable E root ivc (mc_disk m) f"
    and "distinct (file_places E ivc f)"
  shows "settled E root ivc held m f r m'"
proof -
  obtain p before after where f: "patch_file f = Inr (p, before, after)"
    and c: "clear_entry (mc_disk m root) p" "clear_entry (mc_disk m root) (temporary_of E ivc p)"
    and n: "node_of (mc_disk m) root p \<in> {Some (FileNode before), Some (FileNode after)}"
      "node_of (mc_disk m) root (temporary_of E ivc p) \<in> {None, Some (FileNode after)}"
    and l: "length before \<le> SOURCE_BYTES" "length after \<le> SOURCE_BYTES"
    using assms(3) unfolding publishable_def by blast
  let ?tmp = "temporary_of E ivc p"
  let ?p = "split_on CHR 0x2F p" and ?t = "split_on CHR 0x2F ?tmp"
  have places: "file_places E ivc f = [?p, ?t]" by (simp add: file_places_def f)
  have pt: "?p \<noteq> ?t" using assms(4) by (simp add: places)
  have result: "settled E root ivc held m f r m'"
    if q: "keeps m m'" and b: "\<And>q. q \<notin> {?p, ?t} \<Longrightarrow> mc_disk m' root q = mc_disk m root q"
      and np: "node_of (mc_disk m') root p \<in> {Some (FileNode before), Some (FileNode after)}"
      and nt: "node_of (mc_disk m') root ?tmp \<in> {None, Some (FileNode after)}"
      and ok: "held \<and> calm m \<longrightarrow> r = Inr ()"
      and fin: "r = Inr () \<longrightarrow> node_of (mc_disk m') root p = Some (FileNode after)"
  proof -
    have dirs: "mc_disk m' root x = Some DirNode" if "mc_disk m root x = Some DirNode" for x
      using that n b [of x] by (cases "x = ?p"; cases "x = ?t") auto
    have "publishable E root ivc (mc_disk m') f"
      unfolding publishable_def
      using f np nt l clear_entry_frame [OF c(1), of "mc_disk m' root"] clear_entry_frame [OF c(2), of "mc_disk m' root"]
        dirs by blast
    then show ?thesis unfolding settled_def places using q b dirs ok fin f by auto
  qed
  have rp: "read_bounded root p d = (Inr (Some x), d)"
    if "clear_entry (d root) p" "node_of d root p = Some (FileNode x)" "length x \<le> SOURCE_BYTES" for d x
    using read_clear [of d root p x] that by simp
  have req: "on_disk (required_file root p ''patch target disappeared'') m = (Inr x, m)"
    if "node_of (mc_disk m) root p = Some (FileNode x)" "length x \<le> SOURCE_BYTES" for x
    using rp [where d = "mc_disk m", OF c(1) that] by (simp add: required_file_def on_disk_def io_run ok_or_def)
  show ?thesis
  proof (cases "node_of (mc_disk m) root p = Some (FileNode after)")
    case True
    then have "r = Inr () \<and> m' = m"
      using assms(1) req [OF True l(2)] by (simp add: publish_file_def f run_then_def run_lift_def)
    then show ?thesis using True n assms(2) by (intro result) (auto simp: keeps_refl)
  next
    case False
    then have b: "node_of (mc_disk m) root p = Some (FileNode before)" "before \<noteq> after" using n by auto
    have run: "replace_file E root held ivc p before after m = (r, m')"
      using assms(1) req [OF b(1) l(1)] b(2) by (simp add: publish_file_def f run_then_def run_lift_def)
    obtain r1 m1 where s: "stage_file root ?tmp held after m = (r1, m1)" by fastforce
    note st = stage_file_quiet [OF s assms(2) c(2) n(2) l(2)]
    show ?thesis
    proof (cases "r1 = Inr ()")
      case False
      then obtain e where "r1 = Inl e" by (cases r1) auto
      then have "r \<noteq> Inr () \<and> m' = m1" using run s by (auto simp: replace_file_def run_then_def Let_def)
      then show ?thesis using st False b n by (intro result) auto
    next
      case True
      have m1: "keeps m m1" "\<And>q. q \<noteq> ?t \<Longrightarrow> mc_disk m1 root q = mc_disk m root q"
        "node_of (mc_disk m1) root ?tmp = Some (FileNode after)"
        using st True by (auto simp: put_node_def)
      have d1: "mc_disk m1 root x = Some DirNode" if "mc_disk m root x = Some DirNode" for x
        using m1(2) [of x] that n(2) by (cases "x = ?t") auto
      have c1: "clear_entry (mc_disk m1 root) p" "clear_entry (mc_disk m1 root) ?tmp"
        using clear_entry_frame [OF c(1), of "mc_disk m1 root"] clear_entry_frame [OF c(2), of "mc_disk m1 root"] d1 by blast+
      have b1: "node_of (mc_disk m1) root p = Some (FileNode before)" using m1(2) pt b(1) by simp
      obtain r2 m2 where v: "revalidate m1 = (r2, m2)" by fastforce
      note vq = quiet_revalidate [OF v keeps_quiet [OF m1(1)]]
      have k2: "keeps m m2" using m1(1) vq keeps_trans by blast
      show ?thesis
      proof (cases r2)
        case (Inl e)
        then have "r = Inl e \<and> m' = m2" using run s True v by (simp add: replace_file_def run_then_def Let_def)
        then show ?thesis using vq Inl m1 b1 n b k2 by (intro result) (auto simp: keeps_def)
      next
        case (Inr u)
        have a: "on_disk (read_bounded root p) m2 = (Inr (Some before), m2)"
          using rp [where d = "mc_disk m1", OF c1(1) b1 l(1)] vq by (simp add: on_disk_def)
        have rn: "rename_file root ?t ?p m2 = (r, m')"
          using run s True v Inr a by (simp add: replace_file_def run_then_def Let_def)
        have e2: "mc_disk m2 = mc_disk m1" using vq by blast
        have k3: "keeps m2 m' \<and> (r = Inr () \<and> mc_disk m' = put_node root ?p (FileNode after) (take_node root ?t (mc_disk m1)) \<or>
            r \<noteq> Inr () \<and> mc_disk m' = mc_disk m1 \<and> \<not> calm m2)"
          using rename_quiet [OF rn keeps_quiet [OF k2]] c1 m1(3) b1 unfolding e2 by blast
        have km: "keeps m m'" using k2 k3 keeps_trans by blast
        have calm: "calm m \<longrightarrow> calm m2" using k2 by (simp add: keeps_def)
        show ?thesis
        proof (cases "r = Inr ()")
          case True
          then have d: "mc_disk m' = put_node root ?p (FileNode after) (take_node root ?t (mc_disk m1))" using k3 by blast
          show ?thesis
          proof (rule result [OF km])
            show "mc_disk m' root q = mc_disk m root q" if "q \<notin> {?p, ?t}" for q
              using that m1(2) [of q] by (simp add: d put_node_def take_node_def)
          qed (use pt True in \<open>simp_all add: d put_node_def take_node_def\<close>)
        next
          case False
          then have d: "mc_disk m' = mc_disk m1" and f: "\<not> calm m2" using k3 by blast+
          show ?thesis
          proof (rule result [OF km])
            show "mc_disk m' root q = mc_disk m root q" if "q \<notin> {?p, ?t}" for q
              using that m1(2) [of q] by (simp add: d)
            show "held \<and> calm m \<longrightarrow> r = Inr ()" using calm f by blast
          qed (use b1 m1(3) False in \<open>simp_all add: d\<close>)
        qed
      qed
    qed
  qed
qed

definition published :: "str \<Rightarrow> disk \<Rightarrow> json \<Rightarrow> bool" where
  "published root d f \<longleftrightarrow> (\<exists>p before after. patch_file f = Inr (p, before, after) \<and>
     node_of d root p = Some (FileNode after))"

lemma publishable_frame:
  assumes "publishable E root ivc d f" and "\<And>q. q \<in> set (file_places E ivc f) \<Longrightarrow> d' root q = d root q"
    and "\<And>q. d root q = Some DirNode \<Longrightarrow> d' root q = Some DirNode"
  shows "publishable E root ivc d' f" and "published root d f \<Longrightarrow> published root d' f"
proof -
  obtain p before after where f: "patch_file f = Inr (p, before, after)"
    and c: "clear_entry (d root) p" "clear_entry (d root) (temporary_of E ivc p)"
    and n: "node_of d root p \<in> {Some (FileNode before), Some (FileNode after)}"
      "node_of d root (temporary_of E ivc p) \<in> {None, Some (FileNode after)}"
    and l: "length before \<le> SOURCE_BYTES" "length after \<le> SOURCE_BYTES"
    using assms(1) unfolding publishable_def by blast
  have e: "node_of d' root p = node_of d root p"
    "node_of d' root (temporary_of E ivc p) = node_of d root (temporary_of E ivc p)"
    using assms(2) by (simp_all add: file_places_def f)
  have c': "clear_entry (d' root) p" "clear_entry (d' root) (temporary_of E ivc p)"
    using clear_entry_frame [OF c(1), of "d' root"] clear_entry_frame [OF c(2), of "d' root"] assms(3) by blast+
  show "publishable E root ivc d' f" unfolding publishable_def using f c' n l e by auto
  show "published root d f \<Longrightarrow> published root d' f" unfolding published_def using f e by auto
qed

lemma publish_files_quiet:
  assumes "publish_files E root held ivc fs m = (r, m')" and "quiet m"
    and "\<forall>f \<in> set fs. publishable E root ivc (mc_disk m) f" and "distinct (concat (map (file_places E ivc) fs))"
  shows "keeps m m' \<and> (\<forall>f \<in> set fs. publishable E root ivc (mc_disk m') f) \<and>
    (\<forall>q. q \<notin> set (concat (map (file_places E ivc) fs)) \<longrightarrow> mc_disk m' root q = mc_disk m root q) \<and>
    (\<forall>q. mc_disk m root q = Some DirNode \<longrightarrow> mc_disk m' root q = Some DirNode) \<and>
    (held \<and> calm m \<longrightarrow> r = Inr ()) \<and> (r = Inr () \<longrightarrow> (\<forall>f \<in> set fs. published root (mc_disk m') f))"
  using assms
proof (induction fs arbitrary: m)
  case Nil
  then show ?case by (simp add: run_lift_def keeps_refl)
next
  case (Cons f fs)
  obtain r1 m1 where p: "publish_file E root held ivc f m = (r1, m1)" by fastforce
  have d: "distinct (file_places E ivc f)" "distinct (concat (map (file_places E ivc) fs))"
    "set (file_places E ivc f) \<inter> set (concat (map (file_places E ivc) fs)) = {}"
    using Cons.prems(4) by simp_all
  have s: "settled E root ivc held m f r1 m1"
    using publish_file_quiet [OF p Cons.prems(2) _ d(1)] Cons.prems(3) by simp
  have s1: "keeps m m1" "publishable E root ivc (mc_disk m1) f"
    "\<And>q. q \<notin> set (file_places E ivc f) \<Longrightarrow> mc_disk m1 root q = mc_disk m root q"
    "\<And>q. mc_disk m root q = Some DirNode \<Longrightarrow> mc_disk m1 root q = Some DirNode"
    "held \<and> calm m \<longrightarrow> r1 = Inr ()" "r1 = Inr () \<longrightarrow> published root (mc_disk m1) f"
    using s unfolding settled_def published_def by blast+
  have rest: "\<forall>g \<in> set fs. publishable E root ivc (mc_disk m1) g"
  proof
    fix g assume g: "g \<in> set fs"
    then have "set (file_places E ivc g) \<subseteq> set (concat (map (file_places E ivc) fs))" by auto
    then have "mc_disk m1 root q = mc_disk m root q" if "q \<in> set (file_places E ivc g)" for q
      using that d(3) by (intro s1(3)) blast
    then show "publishable E root ivc (mc_disk m1) g"
      using publishable_frame(1) [of E root ivc "mc_disk m" g "mc_disk m1"] Cons.prems(3) g s1(4) by simp
  qed
  show ?case
  proof (cases r1)
    case (Inl e)
    then have "r = Inl e" "m' = m1" using Cons.prems(1) p by (simp_all add: run_then_def)
    then show ?thesis using s1 rest Inl by simp
  next
    case (Inr u)
    then have "publish_files E root held ivc fs m1 = (r, m')" using Cons.prems(1) p by (simp add: run_then_def)
    note ih = Cons.IH [OF this keeps_quiet [OF s1(1)] rest d(2)]
    have same: "mc_disk m' root q = mc_disk m1 root q" if "q \<in> set (file_places E ivc f)" for q
      using ih that d(3) by blast
    have f: "publishable E root ivc (mc_disk m') f" "published root (mc_disk m') f"
      using publishable_frame [OF s1(2), of "mc_disk m'"] same ih s1(6) Inr by auto
    have "keeps m m'" using ih s1(1) keeps_trans by blast
    moreover have "held \<and> calm m \<longrightarrow> r = Inr ()" using ih s1(1) by (simp add: keeps_def)
    ultimately show ?thesis using ih f s1(3,4) by simp
  qed
qed


text \<open>Only a torn write stops that for good: a temporary file that is not the after image is preserved, and
  with it every later publication of the file fails.\<close>

lemma torn_temporary_stuck:
  assumes "patch_file f = Inr (p, before, after)" and "before \<noteq> after"
    and "clear_entry (mc_disk m root) p" and "node_of (mc_disk m) root p = Some (FileNode before)"
    and "clear_entry (mc_disk m root) (temporary_of E ivc p)"
    and "node_of (mc_disk m) root (temporary_of E ivc p) = Some (FileNode torn)" and "torn \<noteq> after"
    and "length before \<le> SOURCE_BYTES" and "length torn \<le> SOURCE_BYTES"
  shows "publish_file E root held ivc f m = (Inl (err ''unowned patch temporary preserved''), m)"
proof -
  have "read_bounded root p (mc_disk m) = (Inr (Some before), mc_disk m)"
    "read_bounded root (temporary_of E ivc p) (mc_disk m) = (Inr (Some torn), mc_disk m)"
    using read_clear [of "mc_disk m" root p before] read_clear [of "mc_disk m" root "temporary_of E ivc p" torn] assms
    by simp_all
  then have "on_disk (required_file root p ''patch target disappeared'') m = (Inr before, m)"
    "on_disk (read_bounded root (temporary_of E ivc p)) m = (Inr (Some torn), m)"
    by (simp_all add: required_file_def on_disk_def io_run ok_or_def)
  then show ?thesis
    using assms(1,2,7)
    by (simp add: publish_file_def replace_file_def stage_file_def run_then_def run_lift_def Let_def)
qed

end
