(* ===== verification/Component_Examples.thy ===== *)
theory Component_Examples
  imports Applicability Dependency Assignment
begin

text \<open>
  Concrete inputs of the component theories on which their properties are evaluated.
\<close>

definition plain_host :: host where
  "plain_host = \<lparr>sha256_hex = (\<lambda>_. replicate 64 CHR ''0''), to_vec = (\<lambda>_. ''''),
     schema_build = (\<lambda>_. Some (\<lambda>_. True)), source_schema = JNull\<rparr>"

lemma projr_code: "\<not> isl r \<Longrightarrow> r = Inr (projr r)"
  by (cases r) simp_all

lemma the_code: "\<not> Option.is_none r \<Longrightarrow> r = Some (the r)"
  by (cases r) simp_all

section \<open>Applicability\<close>

definition scoped :: json where
  "scoped = obj [(''paths'', jstrs [''src/**'']), (''routes'', jstrs [''ops/deploy/**'']),
     (''changed_paths'', jstrs [''src/main.rs'', ''docs/a'']), (''selected_routes'', jstrs [''ops/deploy/prod'']),
     (''route_posture'', JStr ''selected'')]"

definition plain_schema :: json where
  "plain_schema = obj [(''$schema'', JStr DRAFT)]"

definition scoped_view :: json where
  "scoped_view = projr (applicability_view plain_host plain_schema scoped)"

definition scoped_input :: applicability_input where
  "scoped_input = the (de_applicability scoped)"

lemma scoped_evaluated:
  "\<not> isl (applicability_view plain_host plain_schema scoped)" "\<not> Option.is_none (de_applicability scoped)"
  "ix scoped_view ''applies'' = JBool True" "ix scoped_view ''matched_paths'' = jstrs [''src/main.rs'']"
  by code_simp+

lemma scoped_runs:
  "applicability_view plain_host plain_schema scoped = Inr scoped_view"
  "de_applicability scoped = Some scoped_input"
  using projr_code [OF scoped_evaluated(1)] the_code [OF scoped_evaluated(2)]
  by (simp_all add: scoped_view_def scoped_input_def)

theorem applicability_exact_witness:
  "\<exists>ms. ix scoped_view ''matched_paths'' = jstrs ms \<and> distinct ms"
  using applicability_exact [OF scoped_runs] by blast

theorem applicability_verdict_witness: "ix scoped_view ''status'' = JStr ''applicable''"
  using applicability_verdict [OF scoped_runs] scoped_evaluated(3) by blast

section \<open>Dependencies\<close>

definition plain_file :: file_meta where
  "plain_file = \<lparr>fm_file = True, fm_dir = False, fm_link = False, fm_len = 3, fm_modified = Some 1,
     fm_created = None, fm_dev = 1, fm_ino = 2\<rparr>"

text \<open>A world in which the file holds three bytes at every moment and the fourth call is the read that
  finds the end.\<close>

definition quiet_world :: world where
  "quiet_world = \<lparr>w_stat = (\<lambda>_ _. Entry plain_file), w_open = (\<lambda>_. True), w_fstat = (\<lambda>_. Some plain_file),
     w_read = (\<lambda>t _. Some (if t = 3 then ''abc'' else ''''))\<rparr>"

lemma quiet_observed:
  "observe_raw_with_limit plain_host quiet_world ''f'' 10 0 =
     Inr (Some (sha256_revision_of plain_host ''abc'', 3))"
  by code_simp


definition seen :: "str \<Rightarrow> currentness \<Rightarrow> observation" where
  "seen n status = \<lparr>ob_identity = n, ob_scheme = RawBytes, ob_revision = Some ''r'', ob_status = status\<rparr>"

definition basis_of :: "currentness \<Rightarrow> basis" where
  "basis_of status = \<lparr>ba_conclusion = JNull, ba_dependencies = [seen ''a'' Current, seen ''b'' status]\<rparr>"

theorem comparison_current_iff_witness:
  "co_status (compare_basis (basis_of Current) (Some (basis_of Current))) = Current"
  using comparison_current_iff [of "basis_of Current" "basis_of Current"] by (simp add: basis_of_def seen_def)

theorem comparison_changed_exact_witness:
  "''b'' \<in> set (co_changed (compare_basis (basis_of MissingSource) (Some (basis_of Current))))"
  using comparison_changed_exact [of "''b''" "basis_of MissingSource" "basis_of Current"]
  by (simp add: basis_of_def seen_def)

theorem comparison_reports_unreadable_witness:
  "unreadable (co_status (compare_basis (basis_of MissingSource) (Some (basis_of Current))))"
  using comparison_reports_unreadable [of "basis_of MissingSource" "basis_of Current"]
  by (simp add: basis_of_def seen_def unreadable_def)

section \<open>Assignment\<close>

definition target_outcome :: json where
  "target_outcome = obj [(''admitted'', JBool True), (''target_executed'', JBool True),
     (''context_sufficient'', JBool True), (''transport_sufficient'', JBool True),
     (''failure_stage'', JStr ''execution''), (''target'', JStr ''t'')]"

definition target_attribution :: json where
  "target_attribution = projr (attribute_outcome target_outcome)"

lemma target_evaluated:
  "\<not> isl (attribute_outcome target_outcome)" "\<not> Option.is_none (de_outcome_evidence target_outcome)"
  "ix (ix target_attribution ''routing_effect'') ''target_evidence_allowed'' = JBool True"
  by code_simp+

theorem target_evidence_sound_witness: "ix target_attribution ''status'' = JStr ''attributed''"
  using target_evidence_sound [OF projr_code [OF target_evaluated(1), folded target_attribution_def]
      the_code [OF target_evaluated(2)] target_evaluated(3)] by blast

definition plain_candidate :: "str \<Rightarrow> bool \<Rightarrow> json" where
  "plain_candidate n safe = en_candidate
     \<lparr>ec_id = n, ec_target = ''t'', ec_transport = ''cli'', ec_capability_revision = ''r'', ec_current = True,
      ec_authorized = True, ec_safe = safe, ec_constructible = True, ec_result_classes = [''patch''],
      ec_proof_classes = [], ec_independent_context = True, ec_concurrency_available = True,
      ec_execution_guarantees = [], ec_execution = obj []\<rparr>"

definition choice :: json where
  "choice = obj [(''work'', obj [(''id'', JStr ''w''), (''revision'', JStr ''1'')]),
     (''required_result_classes'', jstrs [''patch'']), (''required_proof_classes'', jstrs []),
     (''independent_context'', JBool False),
     (''candidates'', JArr [plain_candidate ''a'' False, plain_candidate ''b'' True]),
     (''selection'', obj [(''revision'', JStr (''sha256:'' @ replicate 64 CHR ''0'')), (''candidate'', JStr ''b'')])]"

definition chosen :: json where
  "chosen = projr (configurations plain_host choice)"

lemma chosen_evaluated:
  "\<not> isl (configurations plain_host choice)" "\<not> Option.is_none (de_configurations choice)"
  "ix chosen ''selected'' \<noteq> JNull"
  by code_simp+

theorem selected_configuration_feasible_witness:
  "\<exists>c \<in> set (cf_candidates (the (de_configurations choice))). ec_id c = ''b'' \<and> ec_safe c"
proof -
  have "map_option (map_option cs_candidate \<circ> cf_selection) (de_configurations choice) = Some (Some ''b'')"
    by code_simp
  then show ?thesis
    using selected_configuration_feasible [OF projr_code [OF chosen_evaluated(1), folded chosen_def]
        the_code [OF chosen_evaluated(2)] chosen_evaluated(3)] by auto
qed

definition current_packet :: json where
  "current_packet = obj [(''assignment_id'', JStr ''a''), (''assignment_revision'', JStr ''r1''),
     (''run_id'', JStr ''run''), (''packet_integrity'', JStr (''sha256:'' @ replicate 64 CHR ''0'')),
     (''assignment_identity'', obj [(''slice_id'', JStr ''w''), (''plan_revision'', JStr ''1'')]),
     (''return_contract'', obj [(''required_identity'', obj []), (''required_fields'', jstrs [''target''])])]"

definition plain_execution :: json where
  "plain_execution = obj [(''target'', JStr ''t''), (''target_identity_ref'', JStr ''i''),
     (''target_revision'', JStr ''2''), (''adapter'', obj []), (''transport'', JStr ''cli'')]"

definition replacing :: replacement_input where
  "replacing =
     (let work = obj [(''id'', JStr ''w''), (''revision'', JStr ''1'')];
          source = obj [(''reference'', JStr ''human''), (''revision'', JStr ''1''),
            (''human_override_policy'', JStr ''explicit-only'')] in
      \<lparr>ri_current = current_packet, ri_work = work, ri_source = source,
       ri_admission = Some (obj [(''packet_integrity'', ix current_packet ''packet_integrity''),
         (''assignment_id'', JStr ''a''), (''assignment_revision'', JStr ''r1''), (''work'', work),
         (''source'', source), (''execution'', plain_execution)]),
       ri_eligibility = Some (obj [(''owner'', JStr ''assignment''), (''eligible'', JBool True), (''work'', work),
         (''execution'', plain_execution), (''packet_integrity'', ix current_packet ''packet_integrity'')]),
       ri_execution = plain_execution,
       ri_request = \<lparr>rq_assignment_revision = ''r1'', rq_target = ''t'', rq_transport = ''cli''\<rparr>\<rparr>)"

lemma replacing_succeeds: "ix (replace_assignment plain_host replacing) ''status'' = JStr ''replaced''"
  by code_simp

theorem replacement_admitted_witness:
  "\<exists>packet. ix (admit_packet plain_host (obj [(''packet'', packet), (''canonical'', packet),
      (''source'', ri_source replacing), (''work'', ri_work replacing),
      (''execution'', ri_execution replacing)])) ''status'' = JStr ''current''"
  using replacement_admitted [OF replacing_succeeds refl]
  by (intro exI [of _ "ix (replace_assignment plain_host replacing) ''packet''"]) simp

end
