(* ===== verification/Examples.thy ===== *)
theory Examples
  imports Decision_Safety
begin

text \<open>
  Concrete inputs on which the properties are evaluated. The host has a constant digest of
  the right shape and accepts every schema; two owners contribute one action each.
\<close>

definition demo_host :: host where
  "demo_host = \<lparr>sha256_hex = (\<lambda>_. replicate 64 CHR ''0''), to_vec = (\<lambda>_. ''''),
     schema_build = (\<lambda>_. Some (\<lambda>_. True)), source_schema = JNull\<rparr>"

definition demo_schema :: json where
  "demo_schema = obj [(''$schema'', JStr DRAFT)]"

definition demo_operation :: "str \<Rightarrow> str list \<Rightarrow> operation_capability_input" where
  "demo_operation n effects = \<lparr>oci_id = n, oci_semantic_revision = ''s1'', oci_reads = Some [],
     oci_input_schema = demo_schema, oci_result_kind = ''r'', oci_effects = effects, oci_claims = []\<rparr>"

definition demo_owner :: "str \<Rightarrow> str \<Rightarrow> capability_owner_input" where
  "demo_owner o' d = \<lparr>coi_owner = o', coi_revision = ''v1'', coi_domains = [d],
     coi_effects = [\<lparr>eai_id = ''write-'' @ d, eai_domain = d\<rparr>],
     coi_operations = [demo_operation (o' @ ''.write'') [''write-'' @ d]], coi_requests = []\<rparr>"

definition demo_contract :: capability_contract_input where
  "demo_contract = \<lparr>cci_kind = CAPABILITY_CONTRACT_KIND,
     cci_revision = ''sha256:'' @ replicate 64 CHR ''a'',
     cci_owners = [demo_owner ''a'' ''x'', demo_owner ''b'' ''y''],
     cci_claim_authorities = [\<lparr>cai_claim = ''done'', cai_owner = ''a''\<rparr>],
     cci_restriction_authorities = [\<lparr>rai_owner = ''a'', rai_affects = [''effect:z'', ''task'']\<rparr>]\<rparr>"

definition demo_action :: "str \<Rightarrow> str \<Rightarrow> action_input" where
  "demo_action o' d = \<lparr>ai_source_requests = [], ai_dependency_revision = ''d1'', ai_effect_generation = '''',
     ai_operation_id = o' @ ''.write'', ai_arguments = obj [], ai_effects = [''write-'' @ d],
     ai_authority = None, ai_extra = []\<rparr>"

definition demo_blocker :: "str \<Rightarrow> blocker_input" where
  "demo_blocker scope = \<lparr>bi_basis = None, bi_code = ''c'', bi_message = ''m'', bi_owner = None,
     bi_recovery = None, bi_affects = [scope]\<rparr>"

definition demo_contribution ::
  "str \<Rightarrow> action_input list \<Rightarrow> blocker_input list \<Rightarrow> str list \<Rightarrow> outcome_input option \<Rightarrow> contribution_input" where
  "demo_contribution o' actions blockers claims outcome = \<lparr>ci_restriction_basis = None, ci_owner = o',
     ci_revision = ''r1'', ci_relevant = True, ci_settled = False, ci_facts = obj [], ci_material = None,
     ci_blockers = blockers, ci_decisions = [], ci_actions = actions, ci_allowed = claims, ci_blocked = [],
     ci_outcome = outcome, ci_request_response = None, ci_extra = []\<rparr>"

definition demo_outcome :: outcome_input where
  "demo_outcome = \<lparr>ui_required_claims = [], ui_id = ''goal'', ui_status = ''complete'', ui_claim = ''done'',
     ui_evidence_revision = ''r1'', ui_residual_work = []\<rparr>"

definition demo_a :: contribution_input where
  "demo_a = demo_contribution ''a'' [demo_action ''a'' ''x''] [demo_blocker ''effect:z''] [''done'']
     (Some demo_outcome)"

definition demo_b :: contribution_input where
  "demo_b = demo_contribution ''b'' [demo_action ''b'' ''y''] [] [] None"

definition demo_intent :: json where
  "demo_intent = obj [(''outcome'', obj
     [(''id'', JStr ''goal''), (''owner'', JStr ''a''), (''claim'', JStr ''done'')])]"

definition demo_input :: decision_input_value where
  "demo_input = \<lparr>iv_contributions = [demo_b, demo_a], iv_decision_context = None,
     iv_intent = demo_intent, iv_capability_contract = Some demo_contract\<rparr>"

definition demo_out :: json where
  "demo_out = projr (compile demo_host demo_input)"

lemma demo_evaluated:
  "case compile demo_host demo_input of
     Inl _ \<Rightarrow> False
   | Inr out \<Rightarrow> length (emitted out ''ready_actions'') = 2 \<and> length (restrictions out) = 1 \<and>
       ix out ''terminal_authority'' \<noteq> JNull \<and> JStr ''done'' \<in> set (boundary out ''allowed'')"
  by code_simp

lemma demo_compiles: "compile demo_host demo_input = Inr demo_out"
  using demo_evaluated by (auto simp: demo_out_def split: sum.splits)

lemma demo_facts:
  "length (emitted demo_out ''ready_actions'') = 2" "length (restrictions demo_out) = 1"
  "ix demo_out ''terminal_authority'' \<noteq> JNull" "JStr ''done'' \<in> set (boundary demo_out ''allowed'')"
  using demo_evaluated unfolding demo_compiles by simp_all

lemma demo_member:
  "hd (emitted demo_out ''ready_actions'') \<in> set (emitted demo_out ''ready_actions'')"
  "hd (restrictions demo_out) \<in> set (restrictions demo_out)"
  using demo_facts(1,2) by (auto intro!: hd_in_set)

text \<open>The same contributions without a contract that admits them carry no authority.\<close>

definition bare_input :: decision_input_value where
  "bare_input = \<lparr>iv_contributions = [demo_contribution ''a'' [] [] [] None], iv_decision_context = None,
     iv_intent = obj [], iv_capability_contract = None\<rparr>"

lemma bare_compiles: "\<exists>out. compile demo_host bare_input = Inr out"
proof -
  have "\<not> isl (compile demo_host bare_input)" by code_simp
  then show ?thesis by (cases "compile demo_host bare_input") simp_all
qed

section \<open>Applying the properties\<close>

theorem ready_actions_unrestricted_witness:
  "\<not> restricts (hd (restrictions demo_out)) ''task''"
  using ready_actions_unrestricted [OF demo_compiles demo_member] by blast

theorem ready_actions_pairwise_independent_witness:
  "\<exists>cc. current_contract demo_host demo_input = Some cc \<and>
     item_footprint cc (emitted demo_out ''ready_actions'' ! 0) \<noteq> None"
proof -
  have "(0::nat) < 1" "1 < length (emitted demo_out ''ready_actions'')" using demo_facts(1) by simp_all
  from ready_actions_pairwise_independent [OF demo_compiles this] show ?thesis by auto
qed

theorem ready_actions_entitled_witness:
  "\<exists>owner. ix (hd (emitted demo_out ''ready_actions'')) ''authority'' = JStr owner"
  using ready_actions_entitled [OF demo_compiles demo_member(1)] by blast

theorem status_meaning_witness: "ix demo_out ''status'' = JStr ''terminal''"
  using status_meaning [OF demo_compiles] demo_facts(3) by blast


theorem claim_boundary_exclusive_witness: "JStr ''done'' \<notin> set (boundary demo_out ''blocked'')"
  using claim_boundary_exclusive [OF demo_compiles demo_facts(4)] by blast

theorem contribution_order_irrelevant_witness:
  "compile demo_host (demo_input\<lparr>iv_contributions := [demo_a, demo_b]\<rparr>) = Inr demo_out"
proof -
  have "mset [demo_a, demo_b] = mset (iv_contributions demo_input)"
    by (simp add: demo_input_def)
  then show ?thesis by (rule contribution_order_irrelevant [OF demo_compiles])
qed

theorem no_contract_no_authority_witness:
  "\<exists>out. compile demo_host bare_input = Inr out \<and> ix out ''status'' = JStr ''direct''"
proof -
  obtain out where out: "compile demo_host bare_input = Inr out" using bare_compiles by blast
  have "iv_capability_contract bare_input = None" by (simp add: bare_input_def)
  from no_contract_no_authority [OF out this] show ?thesis using out by blast
qed

theorem contract_normal_form_witness:
  "\<exists>cc. normalize_capability_contract demo_host demo_contract = Inr cc \<and> contract_ok cc"
proof -
  have "\<not> isl (normalize_capability_contract demo_host demo_contract)" by code_simp
  then obtain cc where "normalize_capability_contract demo_host demo_contract = Inr cc" by (metis isl_def sum.exhaust)
  then show ?thesis using contract_normal_form by blast
qed

end
