(* ===== verification/Store_Examples.thy ===== *)
theory Store_Examples
  imports Store_Safety Examples
begin

text \<open>
  One effect through the store, on an empty disk: admitted, prepared, committed, inspected,
  replayed. The digest is constant and two byte strings stand for the two records.
\<close>

definition demo_hash :: str where
  "demo_hash = replicate 64 CHR ''0''"

definition demo_ivc :: json where
  "demo_ivc = obj [(''kind'', JStr INVOCATION_KIND), (''idempotency_key'', JStr ''k''),
     (''source_owner'', JStr ''o''), (''effects'', jstrs []),
     (''operation_id'', JStr ''op''), (''operation_revision'', JStr ''v1''),
     (''arguments'', obj [(''target'', JStr ''/t'')])]"

definition demo_ready :: json where
  "demo_ready = obj [(''ready_actions'', JArr [demo_ivc]),
     (''operation_revisions'', obj [(''op'', JStr ''v1'')])]"

definition demo_owner_outcome :: json where
  "demo_owner_outcome = obj [(''status'', JStr ''applied'')]"

definition demo_attempt :: "json option \<Rightarrow> attempt" where
  "demo_attempt outcome = \<lparr>at_kind = ATTEMPT_KIND, at_attempt_id = ''attempt:sha256:'' @ demo_hash,
     at_invocation = demo_ivc, at_outcome = outcome, at_record_revision = ''sha256:'' @ demo_hash\<rparr>"

definition demo_store :: store_env where
  "demo_store = \<lparr>se_host = \<lparr>sha256_hex = (\<lambda>_. demo_hash),
       to_vec = (\<lambda>v. if is_null (ix v ''outcome'') then ''attempt'' else ''result''),
       schema_build = (\<lambda>_. None), source_schema = JNull\<rparr>,
     se_from_slice = (\<lambda>s. if s = ''attempt'' then Some (en_attempt (demo_attempt None))
       else Some (en_attempt (demo_attempt (Some demo_owner_outcome)))),
     se_canonicalize = Some\<rparr>"

definition demo_evidence :: "str \<Rightarrow> evidence" where
  "demo_evidence tail = \<lparr>ev_target = ''/t'',
     ev_path = STORE_DIRECTORY @ ''/'' @ demo_hash @ tail, ev_owner = ''o'',
     ev_revision = ''sha256:'' @ demo_hash\<rparr>"

definition demo_custody :: custody where
  "demo_custody = \<lparr>cu_attempt = demo_evidence ''.attempt.json'', cu_committed = None\<rparr>"

definition demo_committed :: custody where
  "demo_committed = demo_custody\<lparr>cu_committed := Some (demo_evidence ''.result.json'')\<rparr>"

definition empty_disk :: disk where
  "empty_disk = (\<lambda>_ _. None)"

definition demo_calls :: "store_call list" where
  "demo_calls = [Admit ''/t'' demo_ready demo_ivc None, Admit ''/t'' demo_ready demo_ivc None,
     Admit ''/t'' demo_ready demo_ivc (Some demo_custody), Prepare ''/t'' (en_custody demo_custody) demo_owner_outcome,
     Commit ''/t'' demo_custody demo_owner_outcome,
     Admit ''/t'' demo_ready demo_ivc (Some demo_committed)]"

lemma demo_run:
  "let rs = fst (perform_all demo_store demo_calls empty_disk);
       a = projr (rs ! 0); b = projr (rs ! 2); p = projr (rs ! 3); c = projr (rs ! 4); e = projr (rs ! 5) in
     map isl rs = [False, True, False, False, False, False] \<and>
     ix a ''disposition'' = JStr ''execute'' \<and> ix a ''custody'' = en_custody demo_custody \<and>
     ix a ''record'' = en_attempt (demo_attempt None) \<and>
     ix b ''disposition'' = JStr ''uncertain'' \<and> p = c \<and>
     c = custody_value (en_attempt (demo_attempt (Some demo_owner_outcome))) demo_committed \<and>
     ix e ''disposition'' = JStr ''replay''"
  by code_simp

lemma demo_new_entry:
  "snd (perform_all demo_store (take 1 demo_calls) empty_disk) ''/t'' [''.agentic-workspace''] = Some DirNode"
  by code_simp

lemma demo_canonical: "se_canonicalize demo_store = Some"
  by (simp add: demo_store_def)

section \<open>The run\<close>

definition demo_disk :: "nat \<Rightarrow> disk" where
  "demo_disk k = snd (perform_all demo_store (take k demo_calls) empty_disk)"

definition demo_result :: "nat \<Rightarrow> json" where
  "demo_result k = projr (fst (perform_all demo_store demo_calls empty_disk) ! k)"

lemma demo_results:
  "fst (perform_all demo_store demo_calls empty_disk) ! 0 = Inr (demo_result 0)"
  "fst (perform_all demo_store demo_calls empty_disk) ! 2 = Inr (demo_result 2)"
  "fst (perform_all demo_store demo_calls empty_disk) ! 3 = Inr (demo_result 3)"
  "fst (perform_all demo_store demo_calls empty_disk) ! 4 = Inr (demo_result 4)"
  "fst (perform_all demo_store demo_calls empty_disk) ! 5 = Inr (demo_result 5)"
  "ix (demo_result 0) ''disposition'' = JStr ''execute''"
  "ix (demo_result 0) ''custody'' = en_custody demo_custody"
  "ix (demo_result 0) ''record'' = en_attempt (demo_attempt None)"
  "demo_result 4 = custody_value (en_attempt (demo_attempt (Some demo_owner_outcome))) demo_committed"
proof -
  let ?rs = "fst (perform_all demo_store demo_calls empty_disk)"
  have m: "map isl ?rs = [False, True, False, False, False, False]" using demo_run by (simp add: Let_def)
  have "isl (?rs ! k) = [False, True, False, False, False, False] ! k" if "k < 6" for k
  proof -
    have "length ?rs = 6" unfolding length_perform_all by (simp add: demo_calls_def)
    then show ?thesis using m that by (metis nth_map)
  qed
  from this [of 0] this [of 2] this [of 3] this [of 4] this [of 5]
  show "?rs ! 0 = Inr (demo_result 0)" "?rs ! 2 = Inr (demo_result 2)" "?rs ! 3 = Inr (demo_result 3)"
    "?rs ! 4 = Inr (demo_result 4)" "?rs ! 5 = Inr (demo_result 5)"
    by (simp_all add: demo_result_def)
  show "ix (demo_result 0) ''disposition'' = JStr ''execute''"
    "ix (demo_result 0) ''custody'' = en_custody demo_custody"
    "ix (demo_result 0) ''record'' = en_attempt (demo_attempt None)"
    "demo_result 4 = custody_value (en_attempt (demo_attempt (Some demo_owner_outcome))) demo_committed"
    using demo_run unfolding demo_result_def Let_def by blast+
qed

lemma demo_step:
  assumes "k < 6" and "fst (perform_all demo_store demo_calls empty_disk) ! k = Inr v"
  shows "perform demo_store (demo_calls ! k) (demo_disk k) = (Inr v, demo_disk (Suc k))"
proof -
  have "k < length demo_calls" using assms(1) by (simp add: demo_calls_def)
  then show ?thesis
    using assms(2) unfolding demo_disk_def
    by (simp add: perform_all_nth perform_all_Suc prod_eq_iff)
qed

lemma demo_admitted:
  "store_admit demo_store ''/t'' demo_ready demo_ivc None empty_disk = (Inr (demo_result 0), demo_disk 1)"
  using demo_step [of 0, OF _ demo_results(1)] by (simp add: demo_calls_def demo_disk_def)

lemma demo_uncertain:
  "store_admit demo_store ''/t'' demo_ready demo_ivc (Some demo_custody) (demo_disk 2) =
     (Inr (demo_result 2), demo_disk 3)"
  using demo_step [of 2, OF _ demo_results(2)] by (simp add: demo_calls_def)

lemma demo_prepared:
  "prepare_commit demo_store ''/t'' (en_custody demo_custody) demo_owner_outcome (demo_disk 3) =
     (Inr (demo_result 3), demo_disk 3)"
  using demo_step [of 3, OF _ demo_results(3)]
    pure_io_snd [OF prepare_commit_pure, of demo_store "''/t''" "en_custody demo_custody" demo_owner_outcome "demo_disk 3"]
  by (simp add: demo_calls_def)

lemma demo_commit:
  "store_commit demo_store ''/t'' demo_custody demo_owner_outcome (demo_disk 4) =
     (Inr (demo_result 4), demo_disk 5)"
  using demo_step [of 4, OF _ demo_results(4)] by (simp add: demo_calls_def)

lemma demo_replay:
  "store_admit demo_store ''/t'' demo_ready demo_ivc (Some demo_committed) (demo_disk 5) =
     (Inr (demo_result 5), demo_disk 6)"
  using demo_step [of 5, OF _ demo_results(5)] by (simp add: demo_calls_def)

lemma demo_survives:
  "survives demo_store (en_attempt (demo_attempt None))"
  "survives demo_store (en_attempt (demo_attempt (Some demo_owner_outcome)))"
  by code_simp+

section \<open>Applying the properties\<close>

theorem evidence_never_overwritten_witness:
  "\<exists>c \<in> set (take 1 demo_calls). se_canonicalize demo_store (call_target c) = Some ''/t''"
  using evidence_never_overwritten [of demo_store "take 1 demo_calls" empty_disk "''/t''" "[''.agentic-workspace'']"]
    demo_new_entry by (simp add: empty_disk_def)

theorem execute_admitted_once_witness: "ix (demo_result 2) ''disposition'' \<noteq> JStr ''execute''"
proof -
  have i: "(0::nat) < 2" and j: "2 < length demo_calls"
    and a: "demo_calls ! 0 = Admit ''/t'' demo_ready demo_ivc None"
    and b: "demo_calls ! 2 = Admit ''/t'' demo_ready demo_ivc (Some demo_custody)"
    by (simp_all add: demo_calls_def)
  show ?thesis
    by (rule execute_admitted_once [OF i j a b refl refl demo_results(1,6,2)])
qed

theorem commit_then_inspect_witness:
  "inspect_committed demo_store ''/t'' (en_custody demo_committed) (demo_disk 5) =
     (Inr (en_attempt (demo_attempt (Some demo_owner_outcome))), demo_disk 5)"
  using commit_then_inspect [OF demo_commit, of "demo_disk 5" "[]"] demo_survives(2)
  by (simp add: demo_results(9))

theorem committed_effect_replays_witness: "ix (demo_result 5) ''disposition'' = JStr ''replay''"
  using committed_effect_replays [OF demo_commit, of demo_committed demo_ready demo_ivc "[]" "demo_result 5" "demo_disk 6"]
    demo_survives(2) demo_replay
  by (simp add: demo_results(9))

theorem uncommitted_effect_uncertain_witness: "ix (demo_result 2) ''disposition'' = JStr ''uncertain''"
proof -
  have "demo_disk 2 = snd (perform_all demo_store [demo_calls ! 1] (demo_disk 1))"
    by (simp add: demo_disk_def demo_calls_def numeral_2_eq_2 case_prod_unfold Let_def)
  then have "store_admit demo_store ''/t'' demo_ready demo_ivc (Some demo_custody)
      (snd (perform_all demo_store [demo_calls ! 1] (demo_disk 1))) = (Inr (demo_result 2), demo_disk 3)"
    using demo_uncertain by simp
  from uncommitted_effect_uncertain [OF demo_admitted demo_results(6) _ _ this]
  show ?thesis using demo_survives(1) by (simp add: demo_results(7,8))
qed

theorem unowned_evidence_refused_witness:
  "\<exists>e. store_admit demo_store ''/t'' demo_ready demo_ivc None (demo_disk 1) = (Inl e, demo_disk 1)"
proof -
  have n: "effect_names demo_store demo_ivc =
      Inr (ev_path (demo_evidence ''.attempt.json''), ev_path (demo_evidence ''.result.json''))"
    by code_simp
  obtain root ap rp adm ev where "se_canonicalize demo_store ''/t'' = Some root"
    "effect_names demo_store demo_ivc = Inr (ap, rp)"
    "create_evidence demo_store root ap (ix adm ''record'') empty_disk = (Inr ev, demo_disk 1)"
    using store_admit_execute [OF demo_admitted demo_results(6)] by blast
  then have "file_at (demo_disk 1) ''/t'' (ev_path (demo_evidence ''.attempt.json''))
      (to_vec (se_host demo_store) (ix adm ''record''))"
    using n create_evidence_Inr by (simp add: demo_canonical)
  then have "file_at (demo_disk 1) ''/t'' (ev_path (demo_evidence ''.attempt.json''))
      (to_vec (se_host demo_store) (ix adm ''record'')) \<or> file_at (demo_disk 1) ''/t''
      (ev_path (demo_evidence ''.result.json'')) (to_vec (se_host demo_store) (ix adm ''record''))"
    by (rule disjI1)
  moreover have "se_canonicalize demo_store ''/t'' = Some ''/t''" by (simp add: demo_canonical)
  ultimately show ?thesis using unowned_evidence_refused [OF n] by blast
qed

theorem prepared_commit_exact_witness: "demo_result 4 = demo_result 3"
proof -
  have "demo_disk 4 = demo_disk 3"
    using demo_step [of 3, OF _ demo_results(3)] demo_prepared by (simp add: demo_calls_def)
  then have "store_commit demo_store ''/t'' demo_custody demo_owner_outcome
      (snd (perform_all demo_store [] (demo_disk 3))) = (Inr (demo_result 4), demo_disk 5)"
    using demo_commit by simp
  from prepared_commit_exact [OF demo_prepared _ this] show ?thesis by (simp add: demo_custody_def)
qed

theorem executed_invocation_unrestricted_witness:
  "\<not> restricts (hd (restrictions demo_out)) ''task''"
proof -
  let ?i = "hd (emitted demo_out ''ready_actions'')"
  have "Option.bind (jget ?i ''kind'') as_str = Some INVOCATION_KIND"
    using ready_action_kind [OF demo_compiles demo_member(1)] .
  then have "admit_invocation demo_out ?i None =
      Inr (obj [(''kind'', JStr ''agentic-workspace/invocation-admission/v1''), (''disposition'', JStr ''execute'')])"
    using demo_member(1) by (simp add: admit_invocation_None_iff)
  from executed_invocation_unrestricted [OF demo_compiles this] demo_member(2) show ?thesis by blast
qed

theorem read_record_roundtrip_witness:
  "read_record (se_host demo_store) (en_attempt (demo_attempt None)) = Inr (demo_attempt None)"
proof -
  have "case read_record (se_host demo_store) (en_attempt (demo_attempt None)) of
      Inr a \<Rightarrow> a = demo_attempt None | _ \<Rightarrow> False" by code_simp
  then have "valid_attempt (se_host demo_store) (demo_attempt None)"
    using read_record_valid by (auto split: sum.splits)
  then show ?thesis by (rule read_record_roundtrip)
qed

theorem effect_at_most_once_witness:
  "\<exists>later. [Executed demo_ivc, Committed demo_owner_outcome] = Executed demo_ivc # later \<and>
     Executed demo_ivc \<notin> set later"
proof -
  let ?H = "se_host demo_store"
  have "case attempt_admit ?H demo_ready demo_ivc None of
      Inl _ \<Rightarrow> False
    | Inr out \<Rightarrow> \<not> isl (attempt_commit ?H (ix out ''record'') demo_owner_outcome)" by code_simp
  then obtain out w where a: "attempt_admit ?H demo_ready demo_ivc None = Inr out"
    "attempt_commit ?H (ix out ''record'') demo_owner_outcome = Inr w"
    by (auto split: sum.splits simp: isl_def) (metis sum.exhaust)
  have "attempt_run ?H [Executed demo_ivc, Committed demo_owner_outcome] (Some w)"
    using attempt_run.step [OF attempt_run.step [OF attempt_run.start attempt_step.execute [OF a(1)]]
        attempt_step.commit [OF a(2)]] by simp
  from effect_at_most_once [OF this] show ?thesis by auto
qed

theorem admitted_effect_completes_witness:
  "\<exists>out w. attempt_admit demo_host demo_out (hd (emitted demo_out ''ready_actions'')) None = Inr out \<and>
     attempt_commit demo_host (ix out ''record'') demo_owner_outcome = Inr w"
proof -
  have o': "de_owner_outcome demo_owner_outcome = Some \<lparr>ow_status = ''applied'', ow_effects = [], ow_value = JNull\<rparr>"
    by code_simp
  from admitted_effect_completes [OF demo_compiles demo_member(1) o'] show ?thesis by auto
qed

end
