(* ===== verification/Patch_Examples.thy ===== *)
theory Patch_Examples
  imports Patch_Integration Component_Examples Store_Examples
begin

text \<open>The properties of text deltas at a one-hunk patch of a two-line file.\<close>

definition line_of :: "str \<Rightarrow> str" where
  "line_of s = s @ [CHR 0x0A]"

definition base_text :: str where
  "base_text = line_of ''a'' @ line_of ''b''"

definition new_text :: str where
  "new_text = line_of ''a'' @ line_of ''c''"

definition demo_hunk :: hunk where
  "demo_hunk = \<lparr>hk_old_start = 1, hk_old_len = 2, hk_new_start = 1, hk_new_len = 2,
     hk_lines = [Context (line_of ''a''), Delete (line_of ''b''), Insert (line_of ''c'')]\<rparr>"

definition demo_patch :: file_patch where
  "demo_patch = \<lparr>fp_original = Some ''original'', fp_modified = Some ''modified'', fp_hunks = [demo_hunk]\<rparr>"

lemmas patch_evaluation =
  line_of_def base_text_def new_text_def demo_hunk_def demo_patch_def apply_exact_def apply_hunk_def apply_line_def
  range_start_def take_line_def PATCH_BYTES_def

lemma demo_applied: "apply_exact base_text demo_patch = Inr new_text"
  by (simp add: patch_evaluation)

lemma demo_whole: "whole_text base_text" "whole_patch demo_patch" "length base_text \<le> PATCH_BYTES"
  by (auto simp: patch_evaluation whole_text_def whole_patch_def whole_line_def)

theorem patch_applied_exactly_witness:
  "patches [demo_hunk] 0 0 [line_of ''a'', line_of ''b''] [line_of ''a'', line_of ''c'']"
proof -
  have "fp_hunks demo_patch = [demo_hunk]" "split_lines base_text = [line_of ''a'', line_of ''b'']"
    "split_lines new_text = [line_of ''a'', line_of ''c'']"
    by (simp_all add: demo_patch_def base_text_def new_text_def line_of_def)
  with patch_applied_exactly [OF demo_whole(1,2), of new_text] demo_applied show ?thesis by simp
qed


text \<open>An environment that knows one patch, and a merge that takes the returned text.\<close>

definition patch_demo :: patch_env where
  "patch_demo = \<lparr>pe_parse = (\<lambda>t. if t = ''diff'' then Some demo_patch else None), pe_text = (\<lambda>_. ''diff''),
     pe_merge = (\<lambda>b c a. if c = b then Some a else None),
     pe_json = (\<lambda>_. Some (JArr [obj [(''path'', JStr ''f''), (''diff'', JStr ''diff'')]])), pe_alias = (\<lambda>s. s)\<rparr>"

definition patch_packet :: json where
  "patch_packet = obj
     [(''assignment_revision'', JStr ''1''), (''scope'', jstrs [''*'']),
      (''assignment_identity'', obj
        [(''mutation_paths'', jstrs [''f'']),
         (''input_capsule'', JArr [obj [(''reference'', JStr ''f''), (''content'', JStr base_text), (''revision'', JStr ''r'')]])])]"

definition patch_return :: json where
  "patch_return = obj [(''patch'', JStr ''text''), (''changed_paths'', jstrs [''f''])]"

lemma patch_scope: "concrete_path ''f'' = Inr ()" "in_scope patch_packet ''f''"
  "baseline_of patch_packet ''f'' =
     Some (obj [(''reference'', JStr ''f''), (''content'', JStr base_text), (''revision'', JStr ''r'')])"
  by code_simp+

lemma two_fields_item: "two_fields (obj [(''path'', JStr ''f''), (''diff'', JStr ''diff'')])"
  by code_simp

lemma patch_diff: "patched patch_demo base_text ''diff'' = Inr new_text"
proof -
  have "new_text \<noteq> base_text" by (simp add: patch_evaluation)
  with demo_applied show ?thesis
    by (simp add: patched_def patch_demo_def ok_or_def and_then_def) (simp add: demo_patch_def)
qed

lemma patch_return_evaluated:
  "\<not> isl (patch_delta plain_host patch_demo patch_packet patch_return)"
proof -
  have n: "normalize_text base_text = Inr base_text" "normalize_text ''diff'' = Inr ''diff''"
    by (simp_all add: normalize_text_def patch_evaluation)
  have item: "delta_item patch_demo patch_packet (obj [(''path'', JStr ''f''), (''diff'', JStr ''diff'')]) no_patches =
    Inr \<lparr>ps_paths = [''f''], ps_aliases = [''f''], ps_files = [delta_file ''f'' (JStr ''r'') base_text new_text], ps_total = 8\<rparr>"
    using two_fields_item by (simp add: delta_item_def no_patches_def patch_scope patch_diff n ok_or_def and_then_def)
      (simp add: patch_demo_def base_text_def new_text_def line_of_def PATCH_BYTES_def)
  have r: "returned_patches patch_demo patch_return = Inr [obj [(''path'', JStr ''f''), (''diff'', JStr ''diff'')]]"
    by (simp add: returned_patches_def patch_return_def patch_demo_def PATCH_BYTES_def ok_or_def)
  have c: "as_array (ix patch_return ''changed_paths'') = Some [JStr ''f'']"
    by (simp add: patch_return_def jstrs_def)
  show ?thesis by (simp add: patch_delta_def r c item ok_or_def and_then_def)
qed

theorem delta_sound_witness:
  "\<exists>out f. patch_delta plain_host patch_demo patch_packet patch_return = Inr out \<and> ix out ''files'' = JArr [f] \<and>
     ix f ''path'' = JStr ''f'' \<and> justified patch_demo patch_packet f"
proof -
  have d: "patch_delta plain_host patch_demo patch_packet patch_return =
      Inr (projr (patch_delta plain_host patch_demo patch_packet patch_return))" (is "_ = Inr ?out")
    by (rule projr_code [OF patch_return_evaluated])
  obtain files paths changed where f: "ix ?out ''files'' = JArr files"
    "map (\<lambda>f. ix f ''path'') files = map JStr paths" "\<forall>f \<in> set files. justified patch_demo patch_packet f"
    "ix patch_return ''changed_paths'' = JArr changed" "set changed = JStr ` set paths" "sorted_wrt (<) paths"
    using delta_sound [OF d] by blast
  have p: "JStr ` set paths = JStr ` {''f''}" using f(4) f(5) [symmetric] by (auto simp: patch_return_def jstrs_def)
  have "set paths = {''f''}" by (rule inj_image_eq_iff [THEN iffD1, OF _ p]) (simp add: inj_on_def)
  moreover have "distinct paths" using f(6) strict_sorted_iff by blast
  ultimately have "paths = [''f'']"
    by (cases paths; cases "tl paths") auto
  then obtain x where "files = [x]" "ix x ''path'' = JStr ''f''" using f(2) by (auto simp: map_eq_Cons_conv)
  then show ?thesis using d f(1,3) by auto
qed

theorem merge_keeps_line_ends_witness:
  "has_crlf (with_crlf base_text) \<and>
   merge_text patch_demo base_text new_text (with_crlf base_text) = Inr (with_crlf new_text) \<and>
   with_crlf new_text = with_crlf (replace_crlf (with_crlf new_text))"
proof -
  have m: "merge_text patch_demo base_text new_text (with_crlf base_text) = Inr (with_crlf new_text)"
    by (simp add: merge_text_def normalize_text_def patch_evaluation with_crlf_def patch_demo_def ok_or_def)
  have c: "has_crlf (with_crlf base_text)"
    by (simp add: with_crlf_def base_text_def line_of_def)
  have "\<And>b o' t m. pe_merge patch_demo b o' t = Some m \<Longrightarrow> CHR 0x0D \<in> set m \<Longrightarrow> CHR 0x0D \<in> set (b @ o' @ t)"
    by (auto simp: patch_demo_def split: if_splits)
  from merge_keeps_line_ends [OF m this] m c show ?thesis by simp
qed

section \<open>An integration\<close>

definition patch_ivc :: json where
  "patch_ivc = obj [(''kind'', JStr INVOCATION_KIND), (''idempotency_key'', JStr ''k''),
     (''source_owner'', JStr ''assignment''), (''effects'', jstrs [''implementation'']),
     (''operation_id'', JStr INTEGRATION), (''operation_revision'', JStr ''v1''),
     (''source_requests'', JArr [obj [(''request_kind'', JStr INTEGRATE), (''source_revision'', JStr ''s'')]]),
     (''arguments'', obj [(''target'', JStr ''/t''), (''proposal'', obj [(''files'', JArr
        [obj [(''path'', JStr ''f''), (''before'', JStr ''a''), (''after'', JStr ''b'')]])])])]"

definition patch_ready :: json where
  "patch_ready = obj [(''ready_actions'', JArr [patch_ivc]),
     (''operation_revisions'', obj [(INTEGRATION, JStr ''v1'')])]"

definition patch_attempt :: attempt where
  "patch_attempt = \<lparr>at_kind = ATTEMPT_KIND, at_attempt_id = ''attempt:sha256:'' @ demo_hash,
     at_invocation = patch_ivc, at_outcome = None, at_record_revision = ''sha256:'' @ demo_hash\<rparr>"

definition patch_store :: store_env where
  "patch_store = demo_store\<lparr>se_from_slice := (\<lambda>s. Some (en_attempt patch_attempt))\<rparr>"

definition patch_machine :: "fault list \<Rightarrow> machine" where
  "patch_machine faults = \<lparr>mc_disk = put_node ''/t'' [''f''] (FileNode ''a'') empty_disk, mc_faults = faults,
     mc_turns = [], mc_locked = False\<rparr>"

lemma patch_executed:
  "case execute_patch patch_store ''/t'' patch_ready patch_ivc (patch_machine []) of (r, m) \<Rightarrow>
     \<not> isl r \<and> mc_disk m ''/t'' [''f''] = Some (FileNode ''b'') \<and>
     at [''outcome'', ''status''] (projr r) = JStr ''applied''"
  by code_simp

definition patched_machine :: machine where
  "patched_machine = snd (execute_patch patch_store ''/t'' patch_ready patch_ivc (patch_machine []))"

definition patch_report :: json where
  "patch_report = projr (fst (execute_patch patch_store ''/t'' patch_ready patch_ivc (patch_machine [])))"

lemma patch_run:
  "execute_patch patch_store ''/t'' patch_ready patch_ivc (patch_machine []) = (Inr patch_report, patched_machine)"
  "mc_disk patched_machine ''/t'' [''f''] = Some (FileNode ''b'')"
proof -
  obtain r m where e: "execute_patch patch_store ''/t'' patch_ready patch_ivc (patch_machine []) = (r, m)" by fastforce
  have x: "\<not> isl r" "mc_disk m ''/t'' [''f''] = Some (FileNode ''b'')" using patch_executed by (simp_all add: e)
  then show "execute_patch patch_store ''/t'' patch_ready patch_ivc (patch_machine []) = (Inr patch_report, patched_machine)"
    "mc_disk patched_machine ''/t'' [''f''] = Some (FileNode ''b'')"
    using projr_code [OF x(1)] by (simp_all add: patch_report_def patched_machine_def e)
qed

lemma patch_target: "se_canonicalize patch_store ''/t'' = Some ''/t''"
  by (simp add: patch_store_def demo_canonical)

lemma patch_turns: "mc_turns (patch_machine faults) = []" "turn_steps [] = {}"
  by (simp_all add: patch_machine_def turn_steps_def)

theorem integration_guarantee_witness:
  "\<exists>d. (mc_disk (patch_machine []), d) \<in> (own_steps patch_store ''/t'' patch_ivc)\<^sup>* \<and>
     d ''/t'' [''f''] = Some (FileNode ''b'')"
  using integration_guarantee [OF patch_run(1) patch_target] patch_run(2)
  by (auto simp: patch_turns)

lemma adding_keeps:
  "(d, d') \<in> (adding S)\<^sup>* \<Longrightarrow> d r p = Some n \<Longrightarrow> d' r p = Some n"
  by (induction rule: rtrancl_induct) (auto simp: adding_def intro: grows_present)

theorem integration_complete_witness:
  "\<exists>p after. ix (ix (ix patch_ivc ''arguments'') ''proposal'') ''files'' = JArr [obj [(''path'', JStr p),
       (''before'', JStr ''a''), (''after'', JStr after)]] \<and>
     read_bounded ''/t'' p (mc_disk patched_machine) = (Inr (Some after), mc_disk patched_machine)"
proof -
  have f: "proposal_files patch_ivc = JArr [obj [(''path'', JStr ''f''), (''before'', JStr ''a''), (''after'', JStr ''b'')]]"
    by code_simp
  have "\<not> (mc_disk (patch_machine []), mc_disk patched_machine) \<in> (adding (custody_places ''/t'') \<union> turn_steps (mc_turns (patch_machine [])))\<^sup>*"
  proof
    assume "(mc_disk (patch_machine []), mc_disk patched_machine) \<in> (adding (custody_places ''/t'') \<union> turn_steps (mc_turns (patch_machine [])))\<^sup>*"
    then have r: "(mc_disk (patch_machine []), mc_disk patched_machine) \<in> (adding (custody_places ''/t''))\<^sup>*"
      by (simp add: patch_turns)
    have "mc_disk (patch_machine []) ''/t'' [''f''] = Some (FileNode ''a'')"
      by (simp add: patch_machine_def put_node_def)
    from adding_keeps [OF r this] show False using patch_run(2) by simp
  qed
  then have "\<exists>files. proposal_files patch_ivc = JArr files \<and>
      (\<forall>f \<in> set files. \<exists>p after. ix f ''path'' = JStr p \<and> ix f ''after'' = JStr after \<and>
         read_bounded ''/t'' p (mc_disk patched_machine) = (Inr (Some after), mc_disk patched_machine))"
    using integration_complete [OF patch_run(1) patch_target] by (metis (no_types, lifting))
  then have "read_bounded ''/t'' ''f'' (mc_disk patched_machine) = (Inr (Some ''b''), mc_disk patched_machine)"
    by (auto simp: f)
  moreover have "ix (ix (ix patch_ivc ''arguments'') ''proposal'') ''files'' = proposal_files patch_ivc"
    by code_simp
  ultimately show ?thesis using f by auto
qed

text \<open>Stopped at the renaming, and finished later.\<close>

lemma patch_publishable:
  "publishable patch_store ''/t'' patch_ivc (mc_disk (patch_machine [Done, Refused]))
     (obj [(''path'', JStr ''f''), (''before'', JStr ''a''), (''after'', JStr ''b'')])"
  "distinct (file_places patch_store patch_ivc (obj [(''path'', JStr ''f''), (''before'', JStr ''a''), (''after'', JStr ''b'')]))"
proof -
  let ?f = "obj [(''path'', JStr ''f''), (''before'', JStr ''a''), (''after'', JStr ''b'')]"
  have f: "patch_file ?f = Inr (''f'', ''a'', ''b'')" by code_simp
  have p: "source_path ''f'' = Inr [''f'']" "split_on CHR 0x2F ''f'' = [''f'']" by code_simp+
  have t: "source_path (temporary_of patch_store patch_ivc ''f'') = Inr [''f.'' @ demo_hash @ ''.tmp'']"
    "split_on CHR 0x2F (temporary_of patch_store patch_ivc ''f'') = [''f.'' @ demo_hash @ ''.tmp'']" by code_simp+
  have ne: "''f.'' @ demo_hash @ ''.tmp'' \<noteq> ''f''" by simp
  show "publishable patch_store ''/t'' patch_ivc (mc_disk (patch_machine [Done, Refused])) ?f"
    unfolding publishable_def
    by (intro exI [of _ "''f''"] exI [of _ "''a''"] exI [of _ "''b''"])
      (simp add: f p t ne clear_entry_def patch_machine_def put_node_def empty_disk_def SOURCE_BYTES_def)
  show "distinct (file_places patch_store patch_ivc ?f)" by (simp add: file_places_def f p t ne)
qed


end
