(* ===== verification/Planning.thy ===== *)
theory Planning
  imports Store_Safety Assessment
begin

text \<open>
  The reconciliation of a former Planning source (\<open>src/src/core/src/planning.rs\<close>) and the
  lifetimes of its fields (\<open>planning_lifetime.rs\<close>): the source is read under its digest,
  projected to a semantic subject, offered as an action of the decision, and recorded once
  through the evidence store. The inspections of creation and update provenance
  (\<open>native_planning_create.rs\<close>, \<open>native_planning_update.rs\<close>) are arguments of the model.
\<close>

section \<open>Lifetimes\<close>

definition LIFETIMES :: str where
  "LIFETIMES = ''material_lifetimes''"

definition PROPOSAL :: str where
  "PROPOSAL = ''integration_proposal''"

definition lifetime_paths :: "(str \<times> str option \<times> str) list" where
  "lifetime_paths =
     [(''next_action'', None, ''next_action''), (''external_posture'', Some ''relationships'', ''external_posture''),
      (''continuation_frontier'', Some ''continuation'', ''frontier''), (''proof_observed'', Some ''proof'', ''observed'')]"

definition remove_in :: "str \<Rightarrow> str \<Rightarrow> json \<Rightarrow> json" where
  "remove_in parent field v =
     (case jget v parent of
        None \<Rightarrow> v
      | Some p \<Rightarrow> if is_object p then jset parent (jremove field p) v else v)"

definition drop_observation :: "json \<Rightarrow> str \<times> str option \<times> str \<Rightarrow> json \<Rightarrow> json" where
  "drop_observation body = (\<lambda>(key, parent, field) v.
     if ix (ix body LIFETIMES) key \<noteq> JStr ''observation'' then v
     else (case parent of None \<Rightarrow> jset field (JStr '''') v | Some p \<Rightarrow> remove_in p field v))"

definition durable :: "json \<Rightarrow> json" where
  "durable body = fold (drop_observation body) lifetime_paths body"

section \<open>The semantic subject\<close>

text \<open>\<open>v[a][b]\<close> used as a place: what is missing on the way is made.\<close>

definition change_at :: "str list \<Rightarrow> (json \<Rightarrow> json) \<Rightarrow> json \<Rightarrow> json" where
  "change_at path f v = jset_in path (f (at path v)) v"

definition remove_all :: "str list \<Rightarrow> json \<Rightarrow> json" where
  "remove_all keys v = fold jremove keys v"

definition handoff_observations :: "(str \<times> str list) list" where
  "handoff_observations =
     [(''assignment'', [''attempt'', ''attempt_id'', ''run_id'', ''status'', ''started_at'', ''updated_at'']),
      (''returned'', [''result'', ''result_id'', ''status'', ''received_at'', ''updated_at'']),
      (''integration_pending'', [''result'', ''result_id'', ''status'', ''received_at'', ''updated_at''])]"

definition settle_handoff :: "str list \<Rightarrow> json \<Rightarrow> json" where
  "settle_handoff keys v = remove_all keys (if v = JNull then obj [] else v)"

definition semantic_subject :: "json \<Rightarrow> json" where
  "semantic_subject state =
     fold (\<lambda>(field, keys). change_at [''handoff'', field] (settle_handoff keys)) handoff_observations
      (change_at [''proof'', ''declared''] (remove_all [''refs''])
       (change_at [''frontier''] (remove_all [''lifecycle'', ''phase'']) state))"

section \<open>The material of a source\<close>

definition ASSURANCE_FIELDS :: "str list" where
  "ASSURANCE_FIELDS = [''adaptive_assurance'', ''risk_registry_refs'', ''invariant_refs'']"

definition OPTIONAL_FIELDS :: "str list" where
  "OPTIONAL_FIELDS = [''assignment_inputs'', LIFETIMES, PROPOSAL]"

definition base_material :: "json \<Rightarrow> json" where
  "base_material body =
     (let rel = ix body ''relationships'' in obj
       [(''outcome'', obj [(''intent'', ix body ''intent''), (''goals'', ix body ''goal'')]),
        (''canonical_core'', ix body ''canonical_core''),
        (''scope'', obj [(''declared'', ix body ''scope''), (''paths'', ix body ''touched_paths''),
          (''owner_level'', ix body ''owner_level''), (''selection'', ix rel ''selection'')]),
        (''dependencies'', obj [(''declared'', ix rel ''dependencies''), (''parent'', ix body ''parent''),
          (''references'', ix body ''references''), (''external_posture'', ix rel ''external_posture'')]),
        (''constraints'', obj [(''non_goals'', ix body ''non_goals''), (''bounds'', ix body ''execution_bounds'')]),
        (''frontier'', obj [(''lifecycle'', ix body ''lifecycle''), (''phase'', ix body ''phase''),
          (''next_action'', ix body ''next_action''), (''blockers'', ix body ''blockers'')]),
        (''proof'', obj [(''declared'', ix body ''proof''), (''commands'', ix body ''validation_commands''),
          (''completion_criteria'', ix body ''completion_criteria''), (''posture'', ix rel ''proof_posture'')]),
        (''handoff'', obj [(''delegation'', ix rel ''delegation''), (''assignment'', ix rel ''assignment''),
          (''returned'', ix rel ''returned''), (''integration_pending'', ix rel ''integration_pending''),
          (''contracts'', ix body ''specialist_contracts'')]),
        (''residual'', obj [(''continuation'', ix body ''continuation''),
          (''intent_continuity'', ix body ''intent_continuity'')])])"

definition carry :: "json \<Rightarrow> str \<Rightarrow> str list \<Rightarrow> json \<Rightarrow> json" where
  "carry body key path material =
     (case jget body key of None \<Rightarrow> material | Some v \<Rightarrow> jset_in (path @ [key]) v material)"

definition material_of :: "json \<Rightarrow> json" where
  "material_of body =
     carry body PROPOSAL [''residual'']
      (carry body LIFETIMES [''constraints'']
       (fold (\<lambda>key. carry body key [''proof'']) ASSURANCE_FIELDS
        (carry body ''assignment_inputs'' [] (base_material body))))"

section \<open>Coverage\<close>

definition known_fields :: "str list" where
  "known_fields =
     [''assignment_inputs'', ''kind'', ''id'', ''title'', ''owner_level'', ''revision'', ''intent'', ''goal'',
      ''canonical_core'', ''scope'', ''touched_paths'', ''parent'', ''references'', ''non_goals'',
      ''execution_bounds'', ''lifecycle'', ''phase'', ''next_action'', ''blockers'', ''proof'',
      ''validation_commands'', ''completion_criteria'', ''relationships'', ''specialist_contracts'',
      ''continuation'', ''intent_continuity'', ''material_lifetimes'', ''integration_proposal'']"

definition known_relationships :: "str list" where
  "known_relationships =
     [''selection'', ''proof_posture'', ''external_posture'', ''delegation'', ''dependencies'',
      ''assignment'', ''returned'', ''integration_pending'']"

definition unknown_keys :: "(str, json) omap \<Rightarrow> str list" where
  "unknown_keys m = filter (\<lambda>k. k \<notin> set known_fields \<and> k \<notin> set ASSURANCE_FIELDS) (om_keys m)"

definition omitted_history :: "bool \<Rightarrow> (str, json) omap \<Rightarrow> str list" where
  "omitted_history irrelevant m = filter (\<lambda>k. irrelevant \<and> k = ''drift_log'') (unknown_keys m)"

definition ambiguities :: "bool \<Rightarrow> (str, json) omap \<Rightarrow> json \<Rightarrow> str list" where
  "ambiguities irrelevant m body =
     filter (\<lambda>k. \<not> (irrelevant \<and> k = ''drift_log'')) (unknown_keys m) @
     (case as_object (ix body ''relationships'') of
        None \<Rightarrow> []
      | Some rel \<Rightarrow> map (\<lambda>k. fmt [''relationships.'', k]) (filter (\<lambda>k. k \<notin> set known_relationships) (om_keys rel)))"

section \<open>Reconciliation\<close>

text \<open>
  Parameters: the store, the two schema documents, and the provenance inspections: those of
  a target (which may read files) and the portable ones of a body alone.
\<close>

record planning_env =
  pl_store :: store_env
  pl_schema :: json
  pl_canonical :: json
  pl_origin :: "str \<Rightarrow> str \<Rightarrow> json \<Rightarrow> disk \<Rightarrow> bool res"
  pl_update :: "str \<Rightarrow> str \<Rightarrow> json \<Rightarrow> disk \<Rightarrow> bool res"
  pl_portable_origin :: "str \<Rightarrow> json \<Rightarrow> bool res"
  pl_portable_update :: "str \<Rightarrow> json \<Rightarrow> bool res"

abbreviation pl_host :: "planning_env \<Rightarrow> host" where
  "pl_host P \<equiv> se_host (pl_store P)"

record planning_input =
  pi_source_requests :: "json list"
  pi_target :: str
  pi_relevant :: bool
  pi_source :: "evidence option"
  pi_irrelevant_history :: bool
  pi_intent :: json
  pi_contract :: "json option"
  pi_custody :: "json option"
  pi_invocation :: "json option"
  pi_transition :: "json option"

definition de_planning_input :: "json \<Rightarrow> planning_input option" where
  "de_planning_input v = do {
     f \<leftarrow> struct_fields True [''source_requests'', ''target'', ''relevant'', ''source'', ''irrelevant_history'',
       ''intent'', ''capability_contract'', ''custody'', ''invocation'', ''selection_transition''] v;
     requests \<leftarrow> dflt (de_list de_any) [] f ''source_requests'';
     target \<leftarrow> req de_str f ''target'';
     relevant \<leftarrow> req de_bool f ''relevant'';
     src \<leftarrow> opt de_evidence f ''source'';
     history \<leftarrow> dflt de_bool False f ''irrelevant_history'';
     intent \<leftarrow> dflt de_any (obj []) f ''intent'';
     contract \<leftarrow> opt de_any f ''capability_contract'';
     custody \<leftarrow> opt de_any f ''custody'';
     ivc \<leftarrow> opt de_any f ''invocation'';
     transition \<leftarrow> opt de_any f ''selection_transition'';
     Some \<lparr>pi_source_requests = requests, pi_target = target, pi_relevant = relevant, pi_source = src,
       pi_irrelevant_history = history, pi_intent = intent, pi_contract = contract, pi_custody = custody,
       pi_invocation = ivc, pi_transition = transition\<rparr> }"

definition io_ask :: "(disk \<Rightarrow> 'a res) \<Rightarrow> 'a io" where
  "io_ask f d = (f d, d)"

text \<open>A provenance record that an inspection accepts is taken off the body; the code unwraps it as an object.\<close>

definition without_provenance :: "bool \<Rightarrow> str \<Rightarrow> json \<Rightarrow> json res" where
  "without_provenance accepted key body =
     (if \<not> accepted then Inr body
      else if is_object body then Inr (jremove key body) else Inl (err ''panic''))"

definition inspected_body :: "planning_env \<Rightarrow> str \<Rightarrow> str \<Rightarrow> json \<Rightarrow> json io" where
  "inspected_body P target path body =
     io_then (io_ask (pl_origin P target path body)) (\<lambda>origin.
     io_then (io_ask (pl_update P target path body)) (\<lambda>update.
     io_then (io_lift (if origin then Inr True else pl_portable_origin P path body)) (\<lambda>created.
     io_then (io_lift (if update then Inr True else pl_portable_update P path body)) (\<lambda>updated.
     io_lift (and_then (without_provenance created ''creation_provenance'' body) (\<lambda>body'.
       without_provenance updated ''update_provenance'' body'))))))"

definition validated :: "host \<Rightarrow> json \<Rightarrow> str \<Rightarrow> str \<Rightarrow> json \<Rightarrow> unit res" where
  "validated H schema label failure v =
     and_then (schema_validator H schema label) (\<lambda>valid. if valid v then Inr () else Inl (err failure))"

definition former_schema :: "json \<Rightarrow> json" where
  "former_schema schema =
     jset ''$schema'' (ix schema ''$schema'') (at [''$defs'', ''former_execplan''] schema)"

definition assurance_schema :: "json \<Rightarrow> json" where
  "assurance_schema canonical = obj
     [(''$schema'', ix canonical ''$schema''), (''$defs'', ix canonical ''$defs''), (''type'', JStr ''object''),
      (''properties'', obj (map (\<lambda>k. (k, at [''properties'', k] canonical)) (ASSURANCE_FIELDS @ OPTIONAL_FIELDS)))]"

definition reconciled_value :: "planning_env \<Rightarrow> planning_input \<Rightarrow> evidence \<Rightarrow> str \<Rightarrow> str \<Rightarrow> (str, json) omap \<Rightarrow> json \<Rightarrow> json" where
  "reconciled_value P i reference root name m body =
     (let H = pl_host P; material = material_of body; open' = ambiguities (pi_irrelevant_history i) m body in obj
       [(''kind'', JStr ''agentic-planning/reconciliation/v1''), (''owner'', JStr ''planning''),
        (''former_source'', en_evidence reference),
        (''subject'', obj
          [(''id'', JStr (fmt [''planning:'', digest H (obj [(''target'', JStr root), (''id'', JStr name)])])),
           (''revision'', JStr (digest H (semantic_subject material))), (''label'', ix body ''title''),
           (''state'', material)]),
        (''coverage'', obj [(''complete'', JBool (open' = [])), (''ambiguities'', jstrs open'),
          (''omitted_history'', jstrs (omitted_history (pi_irrelevant_history i) m))]),
        (''former_source_retained'', JBool True)])"

definition planning_reconciliation :: "planning_env \<Rightarrow> planning_input \<Rightarrow> json io" where
  "planning_reconciliation P i =
     io_then (io_lift (ok_or (pi_source i) (err ''Planning source admission required''))) (\<lambda>reference.
     if ev_owner reference \<noteq> ''planning''
     then io_lift (Inl (err ''former source is not admitted as Planning-owned; preserve and route its disposition''))
     else
     io_then (read_source (pl_store P) (pi_target i) reference) (\<lambda>source.
     io_then (io_lift (store_root (pl_store P) (pi_target i))) (\<lambda>target.
     io_then (inspected_body P target (ev_path reference) source) (\<lambda>stripped.
     io_lift
      (and_then (validated (pl_host P) (former_schema (pl_schema P)) ''former Planning source''
         ''invalid former Planning source; preserve it'' stripped) (\<lambda>_.
       and_then (ok_or (nonempty_str (ix stripped ''id'')) (err ''former Planning subject identity missing'')) (\<lambda>name.
       let body = durable stripped in
       and_then (validated (pl_host P) (assurance_schema (pl_canonical P)) ''Planning assurance source''
         ''invalid Planning assurance declaration; preserve source'' body) (\<lambda>_.
       and_then (ok_or (as_object body) (err ''former source must be an object'')) (\<lambda>m.
       and_then (store_root (pl_store P) (ev_target reference)) (\<lambda>root.
       Inr (reconciled_value P i reference root name m body)))))))))))"

section \<open>The decision\<close>

definition planning_operation :: "json \<Rightarrow> json option" where
  "planning_operation contract =
     find (\<lambda>operation. ix operation ''id'' = JStr ''planning.reconcile'')
       (concat (map (\<lambda>owner. elements (ix owner ''operations''))
         (filter (\<lambda>owner. ix owner ''owner'' = JStr ''planning'') (elements (ix contract ''owners'')))))"

definition base_action :: "host \<Rightarrow> planning_input \<Rightarrow> json \<Rightarrow> json" where
  "base_action H i reconciled = obj
     [(''operation_id'', JStr ''planning.reconcile''),
      (''dependency_revision'', JStr (case pi_contract i of
          Some contract \<Rightarrow> digest H (obj [(''reconciliation'', reconciled), (''capability_revision'', ix contract ''revision'')])
        | None \<Rightarrow> digest H reconciled)),
      (''arguments'', obj [(''target'', JStr (pi_target i)), (''reconciliation'', reconciled)]),
      (''effects'', jstrs [''planning-state''])]"

definition worked_action :: "planning_input \<Rightarrow> json \<Rightarrow> json" where
  "worked_action i action =
     (let a = (case jget (pi_intent i) ''current_work'' of
          Some work \<Rightarrow> jset_in [''arguments'', ''current_work''] work action | None \<Rightarrow> action) in
      if pi_source_requests i = [] then a else jset ''source_requests'' (JArr (pi_source_requests i)) a)"

definition transition_schema :: "json \<Rightarrow> json" where
  "transition_schema schema =
     jset ''$defs'' (ix schema ''$defs'')
      (jset ''$schema'' (ix schema ''$schema'') (at [''$defs'', ''selection_transition''] schema))"

definition transition_action :: "host \<Rightarrow> json \<Rightarrow> json \<Rightarrow> json" where
  "transition_action H transition action =
     jset_in [''arguments'', ''selection_transition''] transition
      (jset ''dependency_revision'' (JStr (digest H (obj
        [(''reconciliation_dependency'', ix action ''dependency_revision''), (''selection_transition'', transition)])))
       action)"

definition planning_actions :: "planning_env \<Rightarrow> planning_input \<Rightarrow> json \<Rightarrow> bool \<Rightarrow> json list res" where
  "planning_actions P i reconciled current =
     (let actions = (if \<not> current \<and> at [''coverage'', ''complete''] reconciled = JBool True
          then [worked_action i (base_action (pl_host P) i reconciled)] else []) in
      case pi_transition i of
        None \<Rightarrow> Inr actions
      | Some transition \<Rightarrow>
          and_then (validated (pl_host P) (transition_schema (pl_schema P)) ''Planning selection transition''
            ''invalid selection transition'' transition) (\<lambda>_.
          Inr (map (transition_action (pl_host P) transition) actions)))"

definition planning_decision_input :: "planning_env \<Rightarrow> planning_input \<Rightarrow> json \<Rightarrow> bool \<Rightarrow> json res" where
  "planning_decision_input P i reconciled current =
     and_then (planning_actions P i reconciled current) (\<lambda>actions.
     let value = obj
       [(''contributions'', JArr [obj
          [(''owner'', JStr ''planning''), (''revision'', JStr (digest (pl_host P) reconciled)),
           (''facts'', obj [(''reconciliation'', reconciled), (''current'', JBool current)]),
           (''actions'', JArr actions), (''settled'', JBool current)]]),
        (''intent'', pi_intent i)] in
     case pi_contract i of
       None \<Rightarrow> Inr value
     | Some contract \<Rightarrow>
         if (case planning_operation contract of None \<Rightarrow> True
             | Some operation \<Rightarrow> ix operation ''semantic_revision'' \<noteq> JStr ''planning-reconciliation-v1'')
         then Inl (err ''current Planning reconciliation semantics are not admitted'')
         else Inr (jset ''capability_contract'' contract value))"

definition planning_decision :: "planning_env \<Rightarrow> planning_input \<Rightarrow> json \<Rightarrow> bool \<Rightarrow> json res" where
  "planning_decision P i reconciled current =
     and_then (planning_decision_input P i reconciled current) (\<lambda>v.
     and_then (compile_value (pl_host P) v) (\<lambda>result.
     Inr (jset ''planning'' (obj [(''reconciliation'', reconciled), (''current'', JBool current)]) result)))"

section \<open>Views\<close>

definition planning_detail :: "json \<Rightarrow> bool \<Rightarrow> json" where
  "planning_detail reconciled current = obj [(''reconciliation'', reconciled), (''current'', JBool current)]"

definition committed_detail :: "json \<Rightarrow> json \<Rightarrow> json" where
  "committed_detail reconciled admission = obj
     [(''reconciliation'', reconciled), (''current'', JBool True),
      (''committed_operation'', obj
        [(''invocation'', at [''record'', ''invocation''] admission), (''outcome'', at [''record'', ''outcome''] admission),
         (''custody'', ix admission ''custody'')])]"

definition planning_admission :: "planning_env \<Rightarrow> planning_input \<Rightarrow> json \<Rightarrow> json \<Rightarrow> json \<Rightarrow> json io" where
  "planning_admission P i waiting ivc custody = store_admit_value (pl_store P) (obj
     [(''target'', JStr (pi_target i)), (''decision'', waiting), (''invocation'', ivc), (''custody'', custody)])"

definition mismatch :: core_error where
  "mismatch = err ''committed Planning reconciliation does not match current source semantics''"

definition composed :: "planning_env \<Rightarrow> planning_input \<Rightarrow> json \<Rightarrow> bool \<Rightarrow> json \<Rightarrow> (json \<times> json) io" where
  "composed P i reconciled current detail =
     io_lift (and_then (planning_decision_input P i reconciled current) (\<lambda>v. Inr (v, detail)))"

definition requested_invocation :: "planning_input \<Rightarrow> json \<Rightarrow> json" where
  "requested_invocation i waiting = (case pi_invocation i of Some ivc \<Rightarrow> ivc | None \<Rightarrow> ix waiting ''primary_action'')"

definition compose_input :: "planning_env \<Rightarrow> json \<Rightarrow> (json \<times> json) io" where
  "compose_input P v =
     io_then (io_lift (decoded (de_planning_input v))) (\<lambda>i.
     if \<not> pi_relevant i then io_lift (Inr (obj [(''contributions'', JArr []), (''intent'', pi_intent i)], JNull))
     else
     io_then (planning_reconciliation P i) (\<lambda>reconciled.
     io_then (io_lift (planning_decision P i reconciled False)) (\<lambda>waiting.
     if at [''coverage'', ''complete''] reconciled \<noteq> JBool True
     then composed P i reconciled False (planning_detail reconciled False)
     else
       (case pi_custody i of
          None \<Rightarrow> composed P i reconciled False (planning_detail reconciled False)
        | Some custody \<Rightarrow>
            io_then (planning_admission P i waiting (requested_invocation i waiting) custody) (\<lambda>admission.
            if ix admission ''disposition'' = JStr ''replay'' then
              (if at [''record'', ''outcome'', ''value''] admission \<noteq> reconciled then io_lift (Inl mismatch)
               else composed P i reconciled True (committed_detail reconciled admission))
            else composed P i reconciled False (planning_detail reconciled False))))))"

definition planning_view :: "planning_env \<Rightarrow> json \<Rightarrow> json io" where
  "planning_view P v =
     io_then (compose_input P v) (\<lambda>(value, detail).
     io_lift (and_then (compile_value (pl_host P) value) (\<lambda>result.
       Inr (if detail = JNull then result else jset ''planning'' detail result))))"

section \<open>The reconciling effect\<close>

definition stored_operation :: "json \<Rightarrow> json" where
  "stored_operation stored = obj
     [(''invocation'', at [''record'', ''invocation''] stored), (''outcome'', at [''record'', ''outcome''] stored),
      (''custody'', ix stored ''custody'')]"

text \<open>The fresh continuation; that it cannot be resolved does not undo the commit.\<close>

definition continuation :: "planning_env \<Rightarrow> planning_input \<Rightarrow> json \<Rightarrow> json option io" where
  "continuation P i stored d =
     (case io_then (planning_reconciliation P i) (\<lambda>current. io_lift
        (and_then (planning_decision P i current True) (\<lambda>next'.
         Inr (jset_in [''planning'', ''committed_operation''] (stored_operation stored) next')))) d of
        (Inr v, d') \<Rightarrow> (Inr (Some v), d')
      | (Inl _, d') \<Rightarrow> (Inr None, d'))"

text \<open>
  \<open>reconcile_retaining_checked\<close>; \<open>retain\<close> keeps custody in the owner's record and
  \<open>revalidate\<close> derives the composed decision again.
\<close>

definition settle_effect ::
  "planning_env \<Rightarrow> planning_input \<Rightarrow> unit io \<Rightarrow> json \<Rightarrow> json \<Rightarrow> json io" where
  "settle_effect P i revalidate reconciled admission =
     (if ix admission ''disposition'' = JStr ''replay''
      then io_lift (Inr (obj [(''record'', ix admission ''record''), (''custody'', ix admission ''custody'')]))
      else
      io_then (planning_reconciliation P i) (\<lambda>_.
      io_then revalidate (\<lambda>_.
      store_commit_value (pl_store P) (obj
        [(''target'', JStr (pi_target i)), (''custody'', ix admission ''custody''),
         (''outcome'', obj [(''status'', JStr ''applied''), (''effects'', jstrs [''planning-state'']),
           (''value'', reconciled)])]))))"

definition reconcile_retaining_checked :: "planning_env \<Rightarrow> (json \<Rightarrow> unit io) \<Rightarrow> unit io \<Rightarrow> json \<Rightarrow> json io" where
  "reconcile_retaining_checked P retain revalidate v =
     io_then (io_lift (decoded (de_planning_input v))) (\<lambda>i.
     if \<not> pi_relevant i then io_lift (Inl (err ''no Planning reconciliation is applicable''))
     else
     io_then (planning_reconciliation P i) (\<lambda>reconciled.
     io_then (io_lift (planning_decision P i reconciled False)) (\<lambda>waiting.
     io_then (io_lift (ok_or (pi_invocation i) (err ''exact Planning invocation required''))) (\<lambda>ivc.
     io_then (planning_admission P i waiting ivc (jopt (\<lambda>c. c) (pi_custody i))) (\<lambda>admission.
     io_then (retain (ix admission ''custody'')) (\<lambda>_.
     io_then (settle_effect P i revalidate reconciled admission) (\<lambda>stored.
     io_then (retain (ix stored ''custody'')) (\<lambda>_.
     if at [''record'', ''outcome'', ''value''] stored \<noteq> reconciled then io_lift (Inl mismatch)
     else
     io_then (continuation P i stored) (\<lambda>next'.
     io_lift (and_then (operation_result_value (obj
        [(''invocation'', at [''record'', ''invocation''] stored), (''outcome'', at [''record'', ''outcome''] stored),
         (''decision'', jopt (\<lambda>n. n) next')])) (\<lambda>result.
       Inr (jset ''custody'' (ix stored ''custody'') result))))))))))))"

definition reconcile_planning :: "planning_env \<Rightarrow> json \<Rightarrow> json io" where
  "reconcile_planning P = reconcile_retaining_checked P (\<lambda>_. io_lift (Inr ())) (io_lift (Inr ()))"


section \<open>What a view and an effect may change\<close>

lemma pure_ask [simp]: "pure_io (io_ask f)"
  by (simp add: within_def io_ask_def)

lemma confined_pure: "pure_io (confined root relative False)"
  using confined_within [of False] by simp

lemma read_source_pure: "pure_io (read_source E target ev)"
  unfolding read_source_def by (auto intro!: within_then confined_pure pure_file_bytes)

lemma reconciliation_pure: "pure_io (planning_reconciliation P i)"
  unfolding planning_reconciliation_def inspected_body_def by (auto intro!: within_then read_source_pure)

lemma planning_admission_eq:
  "planning_admission P i waiting ivc c = io_then
     (io_lift (decoded (if c = JNull then Some None else map_option Some (de_custody c))))
     (store_admit (pl_store P) (pi_target i) waiting ivc)"
  by (simp add: planning_admission_def store_admit_value_eq)

lemma planning_admission_within:
  "within (target_places (pl_store P) (pi_target i)) (planning_admission P i waiting ivc c)"
  unfolding planning_admission_eq by (intro within_then within_lift store_admit_within)

lemma store_admit_custody_pure: "pure_io (store_admit E target decision ivc (Some c))"
  unfolding store_admit_def by (auto intro!: within_then retained_record_pure split: prod.split)

lemma planning_admission_pure: "c \<noteq> JNull \<Longrightarrow> pure_io (planning_admission P i waiting ivc c)"
  unfolding planning_admission_eq
  by (rule within_lift_then) (auto simp: result_simps intro!: store_admit_custody_pure)

lemma continuation_pure: "pure_io (continuation P i stored)"
proof -
  define m where "m = io_then (planning_reconciliation P i) (\<lambda>current. io_lift
        (and_then (planning_decision P i current True) (\<lambda>next'.
         Inr (jset_in [''planning'', ''committed_operation''] (stored_operation stored) next'))))"
  have "pure_io m" unfolding m_def by (intro within_then reconciliation_pure within_lift)
  then have "snd (m d) = d" for d by (rule pure_io_snd)
  moreover have "snd (continuation P i stored d) = snd (m d)" for d
    unfolding continuation_def m_def [symmetric] by (simp split: prod.split sum.split)
  ultimately show ?thesis by (simp add: within_def)
qed

text \<open>The effect of a reconciliation; what custody keeping and revalidation change is in \<open>S\<close>.\<close>

lemma reconcile_within:
  assumes "target_places (pl_store P) (pi_target i) \<subseteq> S" and "de_planning_input v = Some i"
    and "\<And>c. within S (retain c)" and "within S revalidate"
  shows "within S (reconcile_retaining_checked P retain revalidate v)"
  unfolding reconcile_retaining_checked_def assms(2) decoded_Some
  by (rule within_lift_then)
    (auto simp: settle_effect_def intro!: within_then assms(3,4) within_mono [OF planning_admission_within assms(1)]
      within_mono [OF store_commit_value_within assms(1)] pure_io_within [OF reconciliation_pure]
      pure_io_within [OF continuation_pure])

lemma opt_any_not_null: "opt de_any f k = Some w \<Longrightarrow> w \<noteq> Some JNull"
  by (auto simp: opt_def split: option.splits json.splits if_splits)

lemma de_planning_custody: "de_planning_input v = Some i \<Longrightarrow> pi_custody i \<noteq> Some JNull"
  unfolding de_planning_input_def Option.bind_eq_Some_conv by (elim exE conjE) (auto dest: opt_any_not_null)

lemma compose_input_pure: "pure_io (compose_input P v)"
  unfolding compose_input_def
  by (rule within_lift_then)
    (auto simp: result_simps composed_def dest: de_planning_custody split: option.split
      intro!: within_then reconciliation_pure planning_admission_pure)

lemma planning_view_pure: "pure_io (planning_view P v)"
  unfolding planning_view_def by (auto intro!: within_then compose_input_pure split: prod.split)

section \<open>What a reconciliation records\<close>

lemma de_owner_outcome_value:
  assumes "de_owner_outcome v = Some w" and "ix v ''value'' \<noteq> JNull"
  shows "ow_value w = ix v ''value''"
proof -
  obtain m where m: "v = JObj m" using assms(2) by (cases v) (simp_all add: ix_def jget_def)
  then show ?thesis using assms
    by (auto simp: de_owner_outcome_def struct_fields_def dflt_def de_any_def ix_def jget_def
        Option.bind_eq_Some_conv split: option.splits if_splits)
qed

lemma read_record_outcome:
  assumes "read_record H v = Inr a" and "is_object v" and "at_outcome a = Some o'"
  shows "ix v ''outcome'' = o'"
proof -
  obtain m where m: "v = JObj m" using assms(2) by (auto simp: is_object_iff)
  have "de_attempt v = Some a" using assms(1) by (auto simp: read_record_def result_simps split: if_splits)
  then show ?thesis using assms(3)
    by (auto simp: m de_attempt_def struct_fields_def opt_def ix_def jget_def de_any_def
        Option.bind_eq_Some_conv split: if_splits option.splits json.splits)
qed

lemma attempt_admit_replayed:
  assumes "attempt_admit H decision ivc (Some v) = Inr out" and "is_object v"
    and "ix out ''disposition'' = JStr ''replay''"
  shows "at [''record'', ''outcome''] out = ix v ''outcome''"
proof -
  obtain a where a: "read_record H v = Inr a" "out = attempt_admission (attempt_disposition (Some a)) a"
    using assms(1) by (auto simp: attempt_admit_def result_simps)
  then obtain o' where "at_outcome a = Some o'"
    using assms(3) by (auto simp: attempt_admission_def attempt_disposition_def split: if_splits)
  then show ?thesis
    using read_record_outcome [OF a(1) assms(2)] by (simp add: a(2) attempt_admission_def en_attempt_def jopt_def)
qed

text \<open>What is replayed under custody is a committed record the store holds.\<close>

lemma planning_admission_replay:
  assumes "planning_admission P i waiting ivc c d = (Inr out, d')" and "c \<noteq> JNull"
    and "ix out ''disposition'' = JStr ''replay''"
  obtains root ev r where "se_canonicalize (pl_store P) (pi_target i) = Some root"
    and "read_evidence (pl_store P) root ev d = (Inr r, d)"
    and "at [''record'', ''outcome''] out = ix r ''outcome''"
proof -
  obtain cu where "store_admit (pl_store P) (pi_target i) waiting ivc (Some cu) d = (Inr out, d')"
    using assms(1,2) unfolding planning_admission_eq by (auto simp: io_simps)
  then obtain ap rp root r d1 adm where a: "bound_root (pl_store P) (pi_target i) ivc = Inr root"
    "retained_record (pl_store P) root ap rp cu d = (Inr r, d1)"
    "attempt_admit (pl_host P) waiting ivc (if is_null r then None else Some r) = Inr adm"
    "out = jset ''custody'' (en_custody cu) adm"
    unfolding store_admit_def by (auto simp: io_simps)
  obtain ev where ev: "read_evidence (pl_store P) root ev d = (Inr r, d)"
    using retained_record_Inr [OF a(2)] a(2) by (auto split: option.splits)
  have r: "is_object r" using read_evidence_object [OF ev] .
  then have adm: "attempt_admit (pl_host P) waiting ivc (Some r) = Inr adm"
    using a(3) by (cases r) (simp_all add: is_null_def is_object_def)
  have f: "ix out k = ix adm k" if "k \<noteq> ''custody''" for k
    using attempt_admit_object [OF adm] that by (simp add: a(4) ix_jset)
  have "at [''record'', ''outcome''] adm = ix r ''outcome''"
    by (rule attempt_admit_replayed [OF adm r]) (use assms(3) f in simp)
  then show ?thesis using that bound_root_Inr [OF a(1)] ev f by simp
qed

lemma reconciliation_Inr:
  assumes "planning_reconciliation P i d = (Inr reconciled, d')"
  obtains reference source stripped root name m where "pi_source i = Some reference"
    and "ev_owner reference = ''planning''" and "read_source (pl_store P) (pi_target i) reference d = (Inr source, d)"
    and "as_object (durable stripped) = Some m"
    and "reconciled = reconciled_value P i reference root name m (durable stripped)"
proof -
  from assms obtain reference source d1 stripped root name m where "pi_source i = Some reference"
    "ev_owner reference = ''planning''" "read_source (pl_store P) (pi_target i) reference d = (Inr source, d1)"
    "as_object (durable stripped) = Some m"
    "reconciled = reconciled_value P i reference root name m (durable stripped)"
    by (auto simp: planning_reconciliation_def io_simps Let_def split: if_splits)
  moreover from this have "d1 = d" using pure_io_snd [OF read_source_pure, of "pl_store P" "pi_target i" reference d] by simp
  ultimately show thesis using that by blast
qed

lemma reconciliation_value:
  assumes "planning_reconciliation P i d = (Inr reconciled, d')"
  shows "d' = d \<and> is_object reconciled"
proof
  show "d' = d" using pure_io_snd [OF reconciliation_pure, of P i d] assms by simp
  show "is_object reconciled"
    by (rule reconciliation_Inr [OF assms]) (simp add: reconciled_value_def Let_def)
qed

text \<open>A view of the Planning owner writes nothing, and it calls the owner's subject current
  only when the store's evidence in custody is a committed record whose value is exactly the
  complete reconciliation of the source as it is now.\<close>

theorem planning_current_recorded:
  assumes "compose_input P v d = (Inr (value, detail), d')"
  shows "d' = d \<and>
    (ix detail ''current'' = JBool True \<longrightarrow>
      (\<exists>i reconciled root ev r. de_planning_input v = Some i \<and>
         planning_reconciliation P i d = (Inr reconciled, d) \<and> ix detail ''reconciliation'' = reconciled \<and>
         at [''coverage'', ''complete''] reconciled = JBool True \<and>
         se_canonicalize (pl_store P) (pi_target i) = Some root \<and>
         read_evidence (pl_store P) root ev d = (Inr r, d) \<and> at [''outcome'', ''value''] r = reconciled))"
proof (intro conjI impI)
  show "d' = d" using pure_io_snd [OF compose_input_pure, of P v d] assms by simp
  assume c: "ix detail ''current'' = JBool True"
  have n: "ix JNull ''current'' \<noteq> JBool True" "ix (planning_detail x False) ''current'' \<noteq> JBool True" for x
    by (simp_all add: planning_detail_def ix_def [of JNull] jget_def [of JNull])
  obtain i reconciled waiting custody admission d1 d2 where x: "de_planning_input v = Some i"
    "planning_reconciliation P i d = (Inr reconciled, d1)" "at [''coverage'', ''complete''] reconciled = JBool True"
    "pi_custody i = Some custody"
    "planning_admission P i waiting (requested_invocation i waiting) custody d1 = (Inr admission, d2)"
    "ix admission ''disposition'' = JStr ''replay''" "at [''record'', ''outcome'', ''value''] admission = reconciled"
    "detail = committed_detail reconciled admission"
    using assms c n unfolding compose_input_def
    by (auto simp: io_simps composed_def simp del: at_simps split: if_splits option.splits)
  have d1: "d1 = d" using reconciliation_value [OF x(2)] by simp
  have "custody \<noteq> JNull" using de_planning_custody [OF x(1)] x(4) by simp
  from planning_admission_replay [OF x(5) this x(6)] obtain root ev r where
    "se_canonicalize (pl_store P) (pi_target i) = Some root" "read_evidence (pl_store P) root ev d1 = (Inr r, d1)"
    "at [''record'', ''outcome''] admission = ix r ''outcome''" .
  then show "\<exists>i reconciled root ev r. de_planning_input v = Some i \<and>
         planning_reconciliation P i d = (Inr reconciled, d) \<and> ix detail ''reconciliation'' = reconciled \<and>
         at [''coverage'', ''complete''] reconciled = JBool True \<and>
         se_canonicalize (pl_store P) (pi_target i) = Some root \<and>
         read_evidence (pl_store P) root ev d = (Inr r, d) \<and> at [''outcome'', ''value''] r = reconciled"
    using x(1,2,3,7,8) d1 by (intro exI [of _ i] exI [of _ reconciled] exI [of _ root] exI [of _ ev] exI [of _ r])
      (simp add: committed_detail_def)
qed

lemma reconcile_planning_within:
  "de_planning_input v = Some i \<Longrightarrow> within (target_places (pl_store P) (pi_target i)) (reconcile_planning P v)"
  unfolding reconcile_planning_def by (rule reconcile_within) auto

lemma reconcile_planning_Inr:
  assumes "de_planning_input v = Some i" and "reconcile_planning P v d = (Inr out, d')"
  shows "pi_relevant i \<and> (\<exists>reconciled. planning_reconciliation P i d = (Inr reconciled, d) \<and> ix out ''value'' = reconciled)"
proof -
  obtain reconciled d1 stored d2 result next' where x: "pi_relevant i" "planning_reconciliation P i d = (Inr reconciled, d1)"
    "at [''record'', ''outcome'', ''value''] stored = reconciled"
    "operation_result_value (obj [(''invocation'', at [''record'', ''invocation''] stored),
       (''outcome'', at [''record'', ''outcome''] stored), (''decision'', next')]) = Inr result"
    "out = jset ''custody'' (ix stored ''custody'') result"
    using assms unfolding reconcile_planning_def reconcile_retaining_checked_def
    by (auto simp: io_simps simp del: at_simps split: if_splits)
  have nn: "reconciled \<noteq> JNull" and d1: "d1 = d"
    using reconciliation_value [OF x(2)] by (auto simp: is_object_def)
  obtain w where w: "de_owner_outcome (at [''record'', ''outcome''] stored) = Some w"
    "ix result ''value'' = ow_value w" "is_object result"
    using x(4) by (auto simp: operation_result_value_def operation_result_def result_simps
        Option.bind_eq_Some_conv simp del: at_simps split: if_splits)
  have "ix (at [''record'', ''outcome''] stored) ''value'' = reconciled" using x(3) by simp
  then have "ow_value w = reconciled" using de_owner_outcome_value [OF w(1)] nn by simp
  then show ?thesis using x(1,2,5) d1 w by (simp add: ix_jset)
qed

text \<open>C33: The effect of a reconciliation writes nothing but the store's own evidence, whether it
  succeeds or not, and what it returns is exactly the reconciliation of the source as it was
  when the effect began.\<close>

theorem reconciliation_recorded:
  assumes "de_planning_input v = Some i"
  shows "grows (target_places (pl_store P) (pi_target i)) d (snd (reconcile_planning P v d)) \<and>
    (\<forall>out. fst (reconcile_planning P v d) = Inr out \<longrightarrow>
       pi_relevant i \<and> (\<exists>reconciled. planning_reconciliation P i d = (Inr reconciled, d) \<and> ix out ''value'' = reconciled))"
proof (intro conjI allI impI)
  show "grows (target_places (pl_store P) (pi_target i)) d (snd (reconcile_planning P v d))"
    using reconcile_planning_within [OF assms] by (simp add: within_def)
  fix out
  assume "fst (reconcile_planning P v d) = Inr out"
  then have "reconcile_planning P v d = (Inr out, snd (reconcile_planning P v d))" by (metis prod.collapse)
  note r = reconcile_planning_Inr [OF assms this]
  show "pi_relevant i" "\<exists>reconciled. planning_reconciliation P i d = (Inr reconciled, d) \<and> ix out ''value'' = reconciled"
    using r by blast+
qed


section \<open>What keeps a subject current\<close>

lemma om_del_put: "om_ok m \<Longrightarrow> om_del j (om_put k x m) = (if j = k then om_del j m else om_put k x (om_del j m))"
  by (rule om_ext) (auto simp: om_ok_del om_ok_put om_get_del om_get_put fun_eq_iff)

lemma remove_all_jset:
  "json_ok v \<Longrightarrow> is_object v \<Longrightarrow> k \<in> set keys \<Longrightarrow> remove_all keys (jset k x v) = remove_all keys v"
  unfolding remove_all_def
proof (induction keys arbitrary: v)
  case (Cons j keys)
  obtain m where m: "v = JObj m" "om_ok m" using Cons.prems by (auto simp: is_object_iff)
  have "json_ok (jremove j v)"
    using Cons.prems(1) m om_ok_del [OF m(2), of j] by (auto simp: jremove_def om_del_def)
  moreover have "is_object (jremove j v)" using Cons.prems(2) by simp
  moreover have "jremove j (jset k x v) = (if j = k then jremove j v else jset k x (jremove j v))"
    using m by (simp add: jremove_def jset_def om_del_put)
  ultimately show ?case using Cons.IH [of "jremove j v"] Cons.prems(3) by (cases "j = k") auto
qed simp

lemma ix_remove_all: "ix (remove_all keys v) k = (if k \<in> set keys then JNull else ix v k)"
  unfolding remove_all_def by (induction keys arbitrary: v) (auto simp: ix_def jget_jremove)

lemma settle_handoff_jset:
  assumes "json_ok v" and "k \<in> set keys"
  shows "settle_handoff keys (jset k x v) = settle_handoff keys v"
proof (cases v)
  case JNull
  have "jset k x JNull = jset k x (obj [])" "is_object (obj [])" "json_ok (obj [])"
    by (simp_all add: jset_def obj_def om_of_def om_ok_def is_object_def)
  then show ?thesis using JNull remove_all_jset [of "obj []" k keys x] assms(2)
    by (simp add: settle_handoff_def jset_def obj_def om_of_def)
next
  case (JObj m)
  then show ?thesis using remove_all_jset [of v k keys x] assms by (simp add: settle_handoff_def is_object_def jset_def)
qed (simp_all add: jset_def)

lemma ix_settle_handoff: "k \<notin> set keys \<Longrightarrow> ix (settle_handoff keys v) k = ix v k"
  by (simp add: settle_handoff_def ix_remove_all ix_def [of JNull] jget_def [of JNull] ix_obj)

text \<open>The subject of a state whose parts are objects, part by part.\<close>

definition settled_handoff :: "json \<Rightarrow> json" where
  "settled_handoff h = fold (\<lambda>(field, keys) h. jset field (settle_handoff keys (ix h field)) h) handoff_observations h"

lemma settled_handoff_object: "is_object h \<Longrightarrow> is_object (settled_handoff h)"
  by (simp add: settled_handoff_def handoff_observations_def)

definition shaped :: "json \<Rightarrow> bool" where
  "shaped state \<longleftrightarrow> is_object state \<and> is_object (ix state ''frontier'') \<and> is_object (ix state ''proof'') \<and>
     is_object (ix state ''handoff'')"

lemma semantic_subject_shaped:
  assumes "shaped state"
  shows "semantic_subject state =
    jset ''handoff'' (settled_handoff (ix state ''handoff''))
     (jset ''proof'' (jset ''declared'' (remove_all [''refs''] (at [''proof'', ''declared''] state)) (ix state ''proof''))
      (jset ''frontier'' (remove_all [''lifecycle'', ''phase''] (ix state ''frontier'')) state))"
  using assms
  by (simp add: shaped_def semantic_subject_def settled_handoff_def handoff_observations_def change_at_def ix_jset)


text \<open>Everything of a state that is not the bookkeeping of attempts and returned evidence.\<close>

definition same_material :: "json \<Rightarrow> json \<Rightarrow> bool" where
  "same_material a b \<longleftrightarrow>
     (\<forall>k. k \<notin> {''frontier'', ''proof'', ''handoff''} \<longrightarrow> ix a k = ix b k) \<and>
     (\<forall>k. k \<notin> {''lifecycle'', ''phase''} \<longrightarrow> at [''frontier'', k] a = at [''frontier'', k] b) \<and>
     (\<forall>k. k \<noteq> ''declared'' \<longrightarrow> at [''proof'', k] a = at [''proof'', k] b) \<and>
     (\<forall>k. k \<noteq> ''refs'' \<longrightarrow> at [''proof'', ''declared'', k] a = at [''proof'', ''declared'', k] b) \<and>
     (\<forall>k. k \<notin> set (map fst handoff_observations) \<longrightarrow> at [''handoff'', k] a = at [''handoff'', k] b) \<and>
     (\<forall>(field, keys) \<in> set handoff_observations. \<forall>k. k \<notin> set keys \<longrightarrow>
        at [''handoff'', field, k] a = at [''handoff'', field, k] b)"

lemma ix_settled_handoff:
  assumes "is_object h"
  shows "ix (settled_handoff h) k = (case map_of handoff_observations k of
      Some keys \<Rightarrow> settle_handoff keys (ix h k) | None \<Rightarrow> ix h k)"
  using assms by (simp add: settled_handoff_def handoff_observations_def ix_jset)

lemma same_subject_same_material:
  assumes "shaped a" and "shaped b" and "semantic_subject a = semantic_subject b"
  shows "same_material a b"
proof -
  have eq: "at p (semantic_subject a) = at p (semantic_subject b)" for p by (simp add: assms(3))
  have o: "is_object s" "is_object (ix s ''frontier'')" "is_object (ix s ''proof'')" "is_object (ix s ''handoff'')"
    if "shaped s" for s using that by (simp_all add: shaped_def)
  have top: "ix (semantic_subject s) k =
      (if k = ''handoff'' then settled_handoff (ix s ''handoff'')
       else if k = ''proof'' then jset ''declared'' (remove_all [''refs''] (at [''proof'', ''declared''] s)) (ix s ''proof'')
       else if k = ''frontier'' then remove_all [''lifecycle'', ''phase''] (ix s ''frontier'') else ix s k)"
    if "shaped s" for s k
    using o [OF that] by (simp add: semantic_subject_shaped [OF that] ix_jset)
  note h = ix_settled_handoff [OF o(4)]
  have a1: "ix a k = ix b k" if "k \<notin> {''frontier'', ''proof'', ''handoff''}" for k
    using eq [of "[k]"] that by (simp add: top assms(1,2))
  have a2: "at [''frontier'', k] a = at [''frontier'', k] b" if "k \<notin> {''lifecycle'', ''phase''}" for k
    using eq [of "[''frontier'', k]"] that by (simp add: top assms(1,2) ix_remove_all)
  have a3: "at [''proof'', k] a = at [''proof'', k] b" if "k \<noteq> ''declared''" for k
    using eq [of "[''proof'', k]"] that o assms(1,2) by (simp add: top ix_jset)
  have a4: "at [''proof'', ''declared'', k] a = at [''proof'', ''declared'', k] b" if "k \<noteq> ''refs''" for k
    using eq [of "[''proof'', ''declared'', k]"] that o assms(1,2) by (simp add: top ix_jset ix_remove_all)
  have a5: "at [''handoff'', k] a = at [''handoff'', k] b" if "k \<notin> set (map fst handoff_observations)" for k
  proof -
    have "map_of handoff_observations k = None" using that by (simp add: map_of_eq_None_iff)
    then show ?thesis using eq [of "[''handoff'', k]"] assms(1,2) by (simp add: top h)
  qed
  have a6: "at [''handoff'', field, k] a = at [''handoff'', field, k] b"
    if "(field, keys) \<in> set handoff_observations" "k \<notin> set keys" for field keys k
  proof -
    have "map_of handoff_observations field = Some keys"
      using that(1) by (intro map_of_is_SomeI) (simp_all add: handoff_observations_def)
    then show ?thesis using eq [of "[''handoff'', field, k]"] assms(1,2) that(2)
      by (simp add: top h ix_settle_handoff)
  qed
  show ?thesis
    unfolding same_material_def by (intro conjI allI impI ballI) ((rule a1 a2 a3 a4 a5, assumption) | (clarify, rule a6, assumption, assumption))+
qed

text \<open>Three places of an object set one after the other.\<close>

lemma three_set:
  fixes g1 g2 g3 :: "json \<Rightarrow> json" and a b c :: str
  defines "F \<equiv> \<lambda>h. jset c (g3 (ix h c)) (jset b (g2 (ix h b)) (jset a (g1 (ix h a)) h))"
  assumes "is_object h" and "a \<noteq> b" "a \<noteq> c" "b \<noteq> c"
  shows "g1 y = g1 (ix h a) \<Longrightarrow> F (jset a y h) = F h"
    and "g2 y = g2 (ix h b) \<Longrightarrow> F (jset b y h) = F h"
    and "g3 y = g3 (ix h c) \<Longrightarrow> F (jset c y h) = F h"
  using assms(2-5) unfolding F_def
  by (simp_all add: ix_jset jset_swap [of _ a b] jset_swap [of _ a c] jset_swap [of _ b c])

lemma settled_handoff_three:
  assumes "is_object h"
  obtains a k1 b k2 c k3 where "handoff_observations = [(a, k1), (b, k2), (c, k3)]" and "a \<noteq> b" "a \<noteq> c" "b \<noteq> c"
    and "\<And>h. is_object h \<Longrightarrow> settled_handoff h =
      jset c (settle_handoff k3 (ix h c)) (jset b (settle_handoff k2 (ix h b)) (jset a (settle_handoff k1 (ix h a)) h))"
proof -
  obtain a k1 b k2 c k3 where "handoff_observations = [(a, k1), (b, k2), (c, k3)]" "a \<noteq> b" "a \<noteq> c" "b \<noteq> c"
    by (simp add: handoff_observations_def)
  note o = this
  have "settled_handoff h =
      jset c (settle_handoff k3 (ix h c)) (jset b (settle_handoff k2 (ix h b)) (jset a (settle_handoff k1 (ix h a)) h))"
    if "is_object h" for h
    using that o(2-4) unfolding settled_handoff_def o(1) by (simp add: ix_jset)
  then show thesis by (rule that [OF o])
qed

lemma settled_handoff_jset:
  assumes "is_object h" and "json_ok (ix h field)" and "(field, keys) \<in> set handoff_observations" and "k \<in> set keys"
  shows "settled_handoff (jset field (jset k x (ix h field)) h) = settled_handoff h"
proof -
  obtain a k1 b k2 c k3 where o: "handoff_observations = [(a, k1), (b, k2), (c, k3)]" "a \<noteq> b" "a \<noteq> c" "b \<noteq> c"
    and s: "\<And>h. is_object h \<Longrightarrow> settled_handoff h =
      jset c (settle_handoff k3 (ix h c)) (jset b (settle_handoff k2 (ix h b)) (jset a (settle_handoff k1 (ix h a)) h))"
    using settled_handoff_three [OF assms(1)] by blast
  have e: "settle_handoff keys (jset k x (ix h field)) = settle_handoff keys (ix h field)"
    by (rule settle_handoff_jset [OF assms(2,4)])
  consider "field = a" "keys = k1" | "field = b" "keys = k2" | "field = c" "keys = k3"
    using assms(3) unfolding o(1) by auto
  then show ?thesis
    using three_set [OF assms(1) o(2-4), where ?g1.0 = "settle_handoff k1" and ?g2.0 = "settle_handoff k2" and
        ?g3.0 = "settle_handoff k3"] e
    by cases (simp_all add: s assms(1))
qed

text \<open>Starting, finishing or returning an attempt never expires a Planning subject: a change of
  the attempt bookkeeping, of the frontier's lifecycle and phase or of the proof references
  leaves the semantic subject, while two states with the same subject agree everywhere else.\<close>

theorem subject_ignores_attempts:
  assumes "json_ok state" and "shaped state"
  shows "(\<forall>(field, keys) \<in> set handoff_observations. \<forall>k \<in> set keys. \<forall>x.
       semantic_subject (jset_in [''handoff'', field, k] x state) = semantic_subject state) \<and>
    (\<forall>k \<in> {''lifecycle'', ''phase''}. \<forall>x.
       semantic_subject (jset_in [''frontier'', k] x state) = semantic_subject state) \<and>
    (is_object (at [''proof'', ''declared''] state) \<longrightarrow> (\<forall>x.
       semantic_subject (jset_in [''proof'', ''declared'', ''refs''] x state) = semantic_subject state)) \<and>
    (\<forall>other. shaped other \<longrightarrow> semantic_subject other = semantic_subject state \<longrightarrow> same_material other state)"
proof (intro conjI allI impI)
  note o = assms(2) [unfolded shaped_def]
  have ok: "json_ok (ix v k)" if "json_ok v" for v k
    using that by (cases v) (fastforce simp: ix_def jget_def dest: map_of_SomeD split: option.split)+
  have sw: "''proof'' \<noteq> ''handoff''" "''frontier'' \<noteq> ''handoff''" "''frontier'' \<noteq> ''proof''" by simp_all
  show "\<forall>(field, keys) \<in> set handoff_observations. \<forall>k \<in> set keys. \<forall>x.
       semantic_subject (jset_in [''handoff'', field, k] x state) = semantic_subject state"
  proof clarify
    fix field keys k x
    assume f: "(field, keys) \<in> set handoff_observations" "k \<in> set keys"
    define h where "h = jset field (jset k x (ix (ix state ''handoff'') field)) (ix state ''handoff'')"
    have h: "settled_handoff h = settled_handoff (ix state ''handoff'')" "is_object h"
      using settled_handoff_jset [OF _ _ f, of "ix state ''handoff''" x] o ok assms(1) by (simp_all add: h_def)
    have s: "shaped (jset ''handoff'' h state)" using o h(2) by (simp add: shaped_def ix_jset)
    show "semantic_subject (jset_in [''handoff'', field, k] x state) = semantic_subject state"
      using o h semantic_subject_shaped [OF s] semantic_subject_shaped [OF assms(2)]
      by (simp add: h_def [symmetric] ix_jset jset_swap [of _ "''handoff''"])
  qed
  show "\<forall>k \<in> {''lifecycle'', ''phase''}. \<forall>x. semantic_subject (jset_in [''frontier'', k] x state) = semantic_subject state"
  proof (intro ballI allI)
    fix k x
    assume k: "k \<in> {''lifecycle'', ''phase''}"
    define f where "f = jset k x (ix state ''frontier'')"
    have f: "remove_all [''lifecycle'', ''phase''] f = remove_all [''lifecycle'', ''phase''] (ix state ''frontier'')" "is_object f"
      using remove_all_jset [of "ix state ''frontier''" k "[''lifecycle'', ''phase'']" x] o ok assms(1) k by (auto simp: f_def)
    have s: "shaped (jset ''frontier'' f state)" using o f(2) by (simp add: shaped_def ix_jset)
    show "semantic_subject (jset_in [''frontier'', k] x state) = semantic_subject state"
      using o f semantic_subject_shaped [OF s] semantic_subject_shaped [OF assms(2)]
      by (simp add: f_def [symmetric] ix_jset)
  qed
  show "semantic_subject (jset_in [''proof'', ''declared'', ''refs''] x state) = semantic_subject state"
    if d: "is_object (at [''proof'', ''declared''] state)" for x
  proof -
    define p where "p = jset ''declared'' (jset ''refs'' x (at [''proof'', ''declared''] state)) (ix state ''proof'')"
    have p: "remove_all [''refs''] (jset ''refs'' x (at [''proof'', ''declared''] state)) = remove_all [''refs''] (at [''proof'', ''declared''] state)"
      "is_object p"
      using remove_all_jset [of "at [''proof'', ''declared''] state" "''refs''" "[''refs'']" x] o ok assms(1) d
      by (simp_all add: p_def)
    have s: "shaped (jset ''proof'' p state)" using o p(2) by (simp add: shaped_def ix_jset)
    have "jset_in [''proof'', ''declared'', ''refs''] x state = jset ''proof'' p state" by (simp add: p_def)
    then show ?thesis
      using o p semantic_subject_shaped [OF s] semantic_subject_shaped [OF assms(2)]
      by (simp add: ix_jset jset_swap [of _ "''proof''" "''frontier''"]) (simp add: p_def ix_jset)
  qed
  show "same_material other state" if "shaped other" "semantic_subject other = semantic_subject state" for other
    by (rule same_subject_same_material [OF that(1) assms(2) that(2)])
qed

end
