(* ===== verification/Assurance.thy ===== *)
theory Assurance
  imports Task_Judgment Applicability
begin

text \<open>
  Which assurance requirements apply to the current work
  (\<open>src/src/core/src/modules/verification/assurance_applicability.rs\<close>): exact facts decide
  first, a current judgment may only answer what they leave open.
\<close>

definition strings_of :: "json \<Rightarrow> str list" where
  "strings_of v = List.map_filter as_str (elements v)"

lemma set_strings_of: "set (strings_of v) = {s. JStr s \<in> set (elements v)}"
proof -
  have "set (List.map_filter as_str xs) = {s. JStr s \<in> set xs}" for xs
    by (induction xs) (auto simp: List.map_filter_def json_simps)
  then show ?thesis by (simp add: strings_of_def)
qed

definition requirement_ids :: "json list \<Rightarrow> str list res" where
  "requirement_ids requirements =
     fold_try (\<lambda>row seen.
       case as_str (ix row ''id'') of
         None \<Rightarrow> Inl (err ''assurance requirement id must be nonempty'')
       | Some s \<Rightarrow>
           if s = '''' then Inl (err ''assurance requirement id must be nonempty'')
           else if s \<in> set seen then Inl (err ''duplicate assurance requirement id'')
           else Inr (s # seen)) requirements []"

text \<open>The gap of a judgment that is about something else; a judgment of an unknown requirement is refused.\<close>

definition applicability_gap :: "json \<Rightarrow> str list \<Rightarrow> str option res" where
  "applicability_gap i ids =
     (let judgment = ix i ''judgment'' in
      if judgment = JNull then Inr None
      else
      and_then (ok_or (as_object (ix judgment ''decisions'')) panic) (\<lambda>decisions.
      if \<not> set (om_keys decisions) \<subseteq> set ids
      then Inl (err ''assurance judgment names unknown requirement'')
      else if \<exists>k \<in> {''source_revision'', ''task_identity'', ''current_work''}. ix i k \<noteq> ix judgment k
      then Inr (Some ''assurance-applicability-judgment-stale'') else Inr None))"

definition path_hits :: "json \<Rightarrow> json \<Rightarrow> (str \<times> str) list" where
  "path_hits i requirement =
     filter (\<lambda>(path, pattern). pattern_matches pattern path)
       (concat (map (\<lambda>path. map (Pair path) (strings_of (ix requirement ''applies_to_paths'')))
         (strings_of (ix i ''changed_paths''))))"

definition planning_selectors :: "(str \<times> str \<times> str) list" where
  "planning_selectors =
     [(''applies_to_planning_refs'', ''refs'', ''planning ref''),
      (''applies_to_proof_profiles'', ''proof_profiles'', ''proof profile''),
      (''applies_to_risk_refs'', ''risk_refs'', ''risk ref''),
      (''applies_to_invariant_refs'', ''invariant_refs'', ''invariant ref'')]"

definition planning_hits :: "json \<Rightarrow> json \<Rightarrow> str list" where
  "planning_hits i requirement =
     concat (map (\<lambda>(selector, named, label).
         map (\<lambda>v. fmt [label, '' matched '', v])
           (filter (\<lambda>v. v \<in> set (strings_of (ix (ix i ''planning_facts'') named)))
             (strings_of (ix requirement selector))))
       planning_selectors)"

definition planning_unknown :: "json \<Rightarrow> json \<Rightarrow> bool" where
  "planning_unknown i requirement \<longleftrightarrow>
     (\<exists>(selector, named, label) \<in> set planning_selectors.
        strings_of (ix requirement selector) \<noteq> [] \<and> ix (ix i ''planning_facts'') named = JNull)"

definition route_posture :: "json \<Rightarrow> str" where
  "route_posture i =
     (let route_fact = ix i ''route_fact'' in
      if (case as_str (ix route_fact ''status'') of Some s \<Rightarrow> s \<noteq> ''current'' | None \<Rightarrow> False) then ''unresolved''
      else (case as_str (ix route_fact ''posture'') of Some s \<Rightarrow> s | None \<Rightarrow> ''unresolved''))"

definition route_hit :: "host \<Rightarrow> json \<Rightarrow> json \<Rightarrow> json \<Rightarrow> bool res" where
  "route_hit H schema i requirement =
     (let selectors = strings_of (ix requirement ''applies_to_semantic_routes'') in
      if selectors \<noteq> [] \<and> route_posture i = ''selected''
      then
        and_then (applicability_view H schema (obj
          [(''paths'', JArr []), (''routes'', jstrs selectors), (''changed_paths'', JArr []),
           (''selected_routes'', ix (ix i ''route_fact'') ''routes''), (''route_posture'', JStr ''selected'')]))
          (\<lambda>result. Inr (ix result ''applies'' = JBool True))
      else Inr False)"

definition semantic_unknown :: "json \<Rightarrow> json \<Rightarrow> bool" where
  "semantic_unknown i requirement \<longleftrightarrow>
     strings_of (ix requirement ''applies_to_task_markers'') \<noteq> [] \<or>
     (\<exists>r \<in> set (strings_of (ix requirement ''applies_to_planning_refs'')).
        r \<in> set (strings_of (ix (ix i ''planning_facts'') ''legacy_refs''))) \<or>
     planning_unknown i requirement \<or>
     strings_of (ix requirement ''applies_to_semantic_routes'') \<noteq> [] \<and>
       route_posture i \<notin> {''selected'', ''none''}"

text \<open>Reasons from exact facts.\<close>

definition exact_reasons :: "json \<Rightarrow> json \<Rightarrow> bool \<Rightarrow> str list" where
  "exact_reasons i requirement routed =
     (if jget requirement ''freshness'' \<noteq> None then [''repository current-evidence freshness requirement''] else []) @
     map (\<lambda>(path, pattern). fmt [''changed path matched '', pattern]) (path_hits i requirement) @
     planning_hits i requirement @
     (if routed then [''current semantic task route matched''] else [])"

definition judged_answer :: "json \<Rightarrow> str option \<Rightarrow> json \<Rightarrow> str option" where
  "judged_answer i gap requirement =
     (if gap = None
      then as_str (ix (ix (ix i ''judgment'') ''decisions'') (string_or (ix requirement ''id''))) else None)"

definition requirement_status :: "json \<Rightarrow> str option \<Rightarrow> json \<Rightarrow> bool \<Rightarrow> str" where
  "requirement_status i gap requirement routed =
     (if exact_reasons i requirement routed \<noteq> [] then ''applicable''
      else if planning_unknown i requirement then ''unresolved''
      else if semantic_unknown i requirement
      then (case judged_answer i gap requirement of Some s \<Rightarrow> s | None \<Rightarrow> ''unresolved'')
      else ''not-applicable'')"

definition blocking_claims :: "json \<Rightarrow> json" where
  "blocking_claims requirement =
     (if strings_of (ix requirement ''blocking_claims'') = []
        \<and> as_str (ix requirement ''force'') \<in> {Some ''blocking'', Some ''required-before-closeout''}
      then jstrs [''claim-work-complete'', ''close-parent-lane''] else ix requirement ''blocking_claims'')"

definition requirement_row :: "json \<Rightarrow> str option \<Rightarrow> json \<Rightarrow> bool \<Rightarrow> json" where
  "requirement_row i gap requirement routed =
     (let reasons = exact_reasons i requirement routed; status = requirement_status i gap requirement routed;
          judged = (reasons = [] \<and> semantic_unknown i requirement \<and>
            judged_answer i gap requirement \<noteq> None \<and> \<not> planning_unknown i requirement) in
      obj
       [(''id'', JStr (string_or (ix requirement ''id''))), (''status'', JStr status),
        (''applies_because'', jstrs (reasons @ (if judged then [''current agent applicability judgment''] else []))),
        (''matched_paths'', jstrs (sort_dedup (map fst (path_hits i requirement)))),
        (''legacy_scope'', ix requirement ''applies_to_task_markers''),
        (''authority_refs'', ix requirement ''authority_refs''), (''force'', ix requirement ''force''),
        (''source_requirement'', requirement), (''blocking_claims'', blocking_claims requirement),
        (''gap'', JStr (if status = ''unresolved''
          then (case gap of Some g \<Rightarrow> g | None \<Rightarrow> ''assurance-semantic-scope-unresolved'') else ''''))])"

definition assurance_view :: "host \<Rightarrow> json \<Rightarrow> json \<Rightarrow> json \<Rightarrow> json res" where
  "assurance_view H schema route_schema i =
     and_then (schema_validator H schema ''assurance applicability'') (\<lambda>valid.
     if \<not> valid i then Inl (err ''schema violation'')
     else
     and_then (array_at ''requirements'' i) (\<lambda>requirements.
     and_then (requirement_ids requirements) (\<lambda>ids.
     and_then (applicability_gap i ids) (\<lambda>gap.
     and_then (collect (\<lambda>requirement.
         and_then (route_hit H route_schema i requirement) (\<lambda>routed.
         Inr (requirement_row i gap requirement routed))) requirements) (\<lambda>rows.
     Inr (obj
       [(''kind'', JStr ''agentic-workspace/assurance-applicability/v1''), (''revision'', JStr (digest H i)),
        (''requirements'', JArr rows),
        (''authority_boundary'', JStr ''applicability-only; no waiver, evidence, execution or claim grants'')]))))))"

text \<open>The input the native owner composes from configuration, Planning facts and context.\<close>

definition planning_facts_of :: "json option \<Rightarrow> json \<Rightarrow> json" where
  "planning_facts_of planning context =
     (case planning of
        None \<Rightarrow>
          if at [''planning'', ''status''] context = JStr ''direct''
          then obj [(''refs'', JArr []), (''proof_profiles'', JArr []), (''risk_refs'', JArr []), (''invariant_refs'', JArr [])]
          else obj []
      | Some subject \<Rightarrow>
          let proof_facts = at [''state'', ''proof''] subject in
          fold (\<lambda>(field, v) facts. if v = JNull then facts else jset field v facts)
            [(''proof_profiles'', at [''adaptive_assurance'', ''proof_profiles''] proof_facts),
             (''risk_refs'', ix proof_facts ''risk_registry_refs''), (''invariant_refs'', ix proof_facts ''invariant_refs'')]
            (obj [(''refs'', JArr [ix subject ''id''])]))"

definition identified_rows :: "json \<Rightarrow> json list res" where
  "identified_rows config =
     collect (\<lambda>(k, row). if row = JNull \<or> is_object row then Inr (jset ''id'' (JStr k) row) else Inl panic)
       (case as_object (at [''assurance'', ''requirements''] config) of Some m \<Rightarrow> m | None \<Rightarrow> [])"

definition assurance_input :: "host \<Rightarrow> json \<Rightarrow> str \<Rightarrow> str \<Rightarrow> str list \<Rightarrow> json \<Rightarrow> json option \<Rightarrow> json \<Rightarrow> json res" where
  "assurance_input H config revision task changed work planning context =
     and_then (identified_rows config) (\<lambda>requirements.
      let facts = planning_facts_of planning context in
      Inr (obj
       [(''requirements'', JArr requirements), (''changed_paths'', jstrs changed), (''planning_facts'', facts),
        (''route_fact'', ix context ''route_fact''),
        (''source_revision'', JStr (digest H (obj
          [(''source'', JStr revision),
           (''planning'', jopt (\<lambda>p. obj [(''id'', ix p ''id''), (''revision'', ix p ''revision'')]) planning),
           (''planning_facts'', facts), (''route_fact'', ix context ''route_fact'')]))),
        (''task_identity'', direct_subject H task changed), (''current_work'', work)]))"

section \<open>What a judgment can answer\<close>

lemma assurance_view_Inr:
  assumes "assurance_view H schema route_schema i = Inr out"
  obtains requirements ids gap rows where "ix i ''requirements'' = JArr requirements"
    and "applicability_gap i ids = Inr gap" and "ix out ''requirements'' = JArr rows"
    and "list_all2 (\<lambda>r row. \<exists>routed. route_hit H route_schema i r = Inr routed \<and>
      requirement_row i gap r routed = row) requirements rows"
  using assms
  by (auto simp: assurance_view_def and_then_Inr_iff array_at_Inr collect_Inr_iff split: if_splits)

lemma current_answer:
  assumes "applicability_gap i ids = Inr gap" and "judged_answer i gap r = Some s"
  shows "ix i ''judgment'' \<noteq> JNull \<and>
    (\<forall>k \<in> {''source_revision'', ''task_identity'', ''current_work''}. ix i k = ix (ix i ''judgment'') k) \<and>
    ix (ix (ix i ''judgment'') ''decisions'') (string_or (ix r ''id'')) = JStr s"
proof -
  have g: "gap = None" and a: "ix (ix (ix i ''judgment'') ''decisions'') (string_or (ix r ''id'')) = JStr s"
    using assms(2) by (auto simp: judged_answer_def json_simps split: if_splits)
  have n: "ix i ''judgment'' \<noteq> JNull" using a by (auto simp: ix_def [of JNull] jget_def [of JNull])
  then have "\<not> (\<exists>k \<in> {''source_revision'', ''task_identity'', ''current_work''}. ix i k \<noteq> ix (ix i ''judgment'') k)"
    using assms(1) unfolding g applicability_gap_def Let_def
    by (auto simp: and_then_Inr_iff split: if_splits)
  then show ?thesis using n a by blast
qed

lemma path_hits_iff:
  "path_hits i r \<noteq> [] \<longleftrightarrow> (\<exists>path pattern. JStr path \<in> set (elements (ix i ''changed_paths'')) \<and>
     JStr pattern \<in> set (elements (ix r ''applies_to_paths'')) \<and> denotes (tokens pattern) (utf8_chars path))"
  by (auto simp: path_hits_def filter_empty_conv set_strings_of pattern_matches_denotes)

lemma row_status:
  "ix (requirement_row i gap r routed) ''status'' = JStr (requirement_status i gap r routed)"
  "ix (requirement_row i gap r routed) ''source_requirement'' = r"
  by (simp_all add: requirement_row_def Let_def)

definition not_waived :: "json \<Rightarrow> json \<Rightarrow> json \<Rightarrow> bool" where
  "not_waived i r row \<longleftrightarrow>
     ix row ''source_requirement'' = r \<and>
     (jget r ''freshness'' \<noteq> None \<or> planning_hits i r \<noteq> [] \<or>
        (\<exists>path pattern. JStr path \<in> set (elements (ix i ''changed_paths'')) \<and>
           JStr pattern \<in> set (elements (ix r ''applies_to_paths'')) \<and>
           denotes (tokens pattern) (utf8_chars path)) \<longrightarrow>
      ix row ''status'' = JStr ''applicable'') \<and>
     (planning_unknown i r \<longrightarrow> ix row ''status'' \<in> {JStr ''applicable'', JStr ''unresolved''}) \<and>
     (semantic_unknown i r \<and> ix row ''status'' = JStr ''not-applicable'' \<longrightarrow>
        ix i ''judgment'' \<noteq> JNull \<and>
        (\<forall>k \<in> {''source_revision'', ''task_identity'', ''current_work''}. ix i k = ix (ix i ''judgment'') k) \<and>
        ix (ix (ix i ''judgment'') ''decisions'') (string_or (ix r ''id'')) = JStr ''not-applicable'')"

lemma row_not_waived:
  assumes "applicability_gap i ids = Inr gap"
  shows "not_waived i r (requirement_row i gap r routed)"
proof -
  have a: "requirement_status i gap r routed = ''applicable''"
    if "jget r ''freshness'' \<noteq> None \<or> planning_hits i r \<noteq> [] \<or> path_hits i r \<noteq> []"
    using that by (auto simp: requirement_status_def exact_reasons_def)
  have u: "requirement_status i gap r routed \<in> {''applicable'', ''unresolved''}" if "planning_unknown i r"
    using that by (simp add: requirement_status_def)
  have j: "judged_answer i gap r = Some ''not-applicable''"
    if "semantic_unknown i r" "requirement_status i gap r routed = ''not-applicable''"
    using that by (simp add: requirement_status_def split: if_splits option.splits)
  show ?thesis
    unfolding not_waived_def row_status json.inject path_hits_iff [symmetric]
    using a u j current_answer [OF assms] by (intro conjI impI) (blast | simp)+
qed


end
