(* ===== verification/Duty.thy ===== *)
theory Duty
  imports Capability
begin

text \<open>
  Separation of duty between an implementer and a reviewer
  (\<open>src/src/core/src/separation_of_duty.rs\<close>): a predicate over facts other owners admitted.
\<close>

text \<open>\<open>to_ascii_lowercase\<close>.\<close>

definition lowercase :: "char \<Rightarrow> char" where
  "lowercase c = (if CHR ''A'' \<le> c \<and> c \<le> CHR ''Z'' then char_of (of_char c + 32 :: nat) else c)"

definition known_identity :: "json \<Rightarrow> str option" where
  "known_identity v =
     (case as_str v of
        None \<Rightarrow> None
      | Some s \<Rightarrow>
          if trim s = '''' \<or> map lowercase (trim s) \<in>
            {''unknown'', ''unavailable'', ''unspecified'', ''none'', ''n/a'', ''not-applicable''}
          then None else Some (trim s))"

definition both :: "'a option \<Rightarrow> 'b option \<Rightarrow> ('a \<times> 'b) option" where
  "both a b = Option.bind a (\<lambda>x. map_option (Pair x) b)"

definition distinct_known :: "json \<Rightarrow> json \<Rightarrow> bool" where
  "distinct_known a b \<longleftrightarrow>
     (case both (known_identity a) (known_identity b) of None \<Rightarrow> False | Some (x, y) \<Rightarrow> x \<noteq> y)"

definition SEPARATION_KIND :: str where
  "SEPARATION_KIND = ''agentic-workspace/separation-of-duty-gate/v1''"

definition separation_accepted :: "str \<Rightarrow> json \<Rightarrow> json \<Rightarrow> bool" where
  "separation_accepted mode implementer reviewer \<longleftrightarrow>
     (let separate = distinct_known (ix implementer ''actor_id'') (ix reviewer ''actor_id'') in
      if mode = ''fresh-context'' then ix reviewer ''fresh_context'' = JBool True
      else if mode = ''separate-actor'' then separate
      else if mode = ''distinct-provider''
      then separate \<and> distinct_known (ix implementer ''provider'') (ix reviewer ''provider'')
      else if mode = ''human'' then ix reviewer ''role'' = JStr ''human-approver'' \<and> separate
      else False)"

definition no_reviewer :: "json \<Rightarrow> bool" where
  "no_reviewer reviewer \<longleftrightarrow> reviewer = JNull \<or> reviewer = JObj []"

definition separation_gate :: "str \<Rightarrow> json \<Rightarrow> json" where
  "separation_gate mode v =
     (let implementer = ix v ''implementer''; reviewer = ix v ''reviewer'';
          actors = both (known_identity (ix implementer ''actor_id'')) (known_identity (ix reviewer ''actor_id'')) in
      obj
       [(''kind'', JStr SEPARATION_KIND),
        (''status'', JStr (if separation_accepted mode implementer reviewer then ''satisfied'' else ''blocked'')),
        (''required_mode'', JStr mode),
        (''reviewer_role'', JStr (case as_str (ix reviewer ''role'') of Some s \<Rightarrow> s | None \<Rightarrow> '''')),
        (''independence'', obj
          [(''same_actor'', JBool (case actors of None \<Rightarrow> False | Some (x, y) \<Rightarrow> x = y)),
           (''fresh_context'', JBool (ix reviewer ''fresh_context'' = JBool True)),
           (''distinct_provider'', JBool (distinct_known (ix implementer ''provider'') (ix reviewer ''provider''))),
           (''human'', JBool (ix reviewer ''role'' = JStr ''human-approver'')),
           (''actor_identities_known'', JBool (actors \<noteq> None)),
           (''separate_actor'', JBool (distinct_known (ix implementer ''actor_id'') (ix reviewer ''actor_id'')))]),
        (''rule'', JStr ''Implementer assertions, same-context self-review, and proof reruns never satisfy an independent-review requirement.'')])"

text \<open>The checked-in schema requires the mode; reading it from anything but a string panics,
  which the model shows as an error.\<close>

definition separation_view :: "host \<Rightarrow> json \<Rightarrow> json \<Rightarrow> json res" where
  "separation_view H schema v =
     and_then (schema_validator H schema ''review separation'') (\<lambda>valid.
     if \<not> valid v then Inl (err ''invalid review separation input'')
     else
     and_then (ok_or (as_str (ix v ''required_mode'')) (err ''panic'')) (\<lambda>mode.
     if mode \<in> {'''', ''none'', ''not-applicable''}
     then Inr (obj [(''kind'', JStr SEPARATION_KIND), (''status'', JStr ''not-applicable'')])
     else if no_reviewer (ix v ''reviewer'')
     then Inr (obj [(''kind'', JStr SEPARATION_KIND), (''status'', JStr ''required''), (''required_mode'', JStr mode)])
     else Inr (separation_gate mode v)))"

lemma known_identity_Some:
  "known_identity v = Some a \<longleftrightarrow> (\<exists>s. v = JStr s \<and> a = trim s \<and> a \<noteq> '''' \<and>
     map lowercase a \<notin> {''unknown'', ''unavailable'', ''unspecified'', ''none'', ''n/a'', ''not-applicable''})"
  by (auto simp: known_identity_def json_simps split: option.splits if_splits)

lemma distinct_known_iff:
  "distinct_known a b \<longleftrightarrow> (\<exists>x y. known_identity a = Some x \<and> known_identity b = Some y \<and> x \<noteq> y)"
  by (auto simp: distinct_known_def both_def split: option.splits bind_splits)

text \<open>A requirement of separation is met exactly when a reviewer is there and is separate in
  the required way: a fresh context, or an actor whose identity and the implementer's are
  both known and differ, and for the two stronger modes a known different provider or the
  role of a human approver besides; an unknown mode is never met.\<close>

theorem separation_satisfied_iff:
  assumes "separation_view H schema v = Inr out"
  defines "differ \<equiv> (\<lambda>k. \<exists>x y. known_identity (ix (ix v ''implementer'') k) = Some x \<and>
      known_identity (ix (ix v ''reviewer'') k) = Some y \<and> x \<noteq> y)"
  shows "ix out ''status'' = JStr ''satisfied'' \<longleftrightarrow>
    ix v ''reviewer'' \<noteq> JNull \<and> ix v ''reviewer'' \<noteq> JObj [] \<and>
    (ix v ''required_mode'' = JStr ''fresh-context'' \<and> ix (ix v ''reviewer'') ''fresh_context'' = JBool True \<or>
     ix v ''required_mode'' = JStr ''separate-actor'' \<and> differ ''actor_id'' \<or>
     ix v ''required_mode'' = JStr ''distinct-provider'' \<and> differ ''actor_id'' \<and> differ ''provider'' \<or>
     ix v ''required_mode'' = JStr ''human'' \<and> differ ''actor_id'' \<and>
       ix (ix v ''reviewer'') ''role'' = JStr ''human-approver'')"
proof -
  obtain mode where m: "ix v ''required_mode'' = JStr mode"
    and out: "out = (if mode \<in> {'''', ''none'', ''not-applicable''}
       then obj [(''kind'', JStr SEPARATION_KIND), (''status'', JStr ''not-applicable'')]
       else if no_reviewer (ix v ''reviewer'')
       then obj [(''kind'', JStr SEPARATION_KIND), (''status'', JStr ''required''), (''required_mode'', JStr mode)]
       else separation_gate mode v)"
    using assms(1) unfolding separation_view_def
    by (auto simp: and_then_Inr_iff ok_or_Inr_iff json_simps split: if_splits)
  have g: "ix (separation_gate mode v) ''status'' = JStr ''satisfied'' \<longleftrightarrow>
      separation_accepted mode (ix v ''implementer'') (ix v ''reviewer'')"
    by (simp add: separation_gate_def Let_def)
  show ?thesis
    unfolding m out differ_def distinct_known_iff [symmetric]
    by (auto simp: g separation_accepted_def Let_def no_reviewer_def)
qed

end
