(* ===== verification/Task_Requirements.thy ===== *)
theory Task_Requirements
  imports Task_Judgment
begin

text \<open>
  The requirements a task puts on an execution (\<open>src/src/core/src/task_requirements.rs\<close>):
  a current judgment and a current Verification obligation are combined, or the gaps that
  keep them from it are reported. Resolved requirements are what
  \<open>assignment.rs\<close>'s configurations are then checked against.
\<close>

definition classes_of :: "json \<Rightarrow> str list res" where
  "classes_of v = and_then (strings_in (elements v)) (\<lambda>ss. Inr (sort_dedup ss))"

definition verification_identity :: "json \<Rightarrow> json" where
  "verification_identity verification =
     (if verification = JNull then JNull
      else obj [(''id'', ix verification ''id''), (''revision'', ix verification ''revision'')])"

definition judgment_gaps :: "json \<Rightarrow> str list res" where
  "judgment_gaps i =
     (let judgment = ix i ''judgment'' in
      if judgment = JNull then Inr [''current-task-judgment-required'']
      else
      and_then (array_at ''required_result_classes'' judgment) (\<lambda>results.
      Inr ((if ix judgment ''task_identity'' = ix i ''task_identity'' then [] else [''task-judgment-identity-stale'']) @
        (if ix judgment ''current_work'' = ix i ''current_work'' then [] else [''task-judgment-work-stale'']) @
        (if ix judgment ''verification_identity'' = verification_identity (ix i ''verification'') then []
         else [''task-judgment-verification-stale'']) @
        (if results = [] then [''task-result-requirement-missing''] else []))))"

definition mode_gaps :: "str \<Rightarrow> str list" where
  "mode_gaps mode =
     (if mode \<in> {''none'', ''not-applicable'', ''fresh-context''} then []
      else if mode = ''separate-actor'' then [''separate-actor-eligibility-unrepresentable'']
      else if mode = ''distinct-provider'' then [''distinct-provider-eligibility-unrepresentable'']
      else if mode = ''human'' then [''human-authority-eligibility-unrepresentable'']
      else [''verification-independence-mode-unsupported''])"

text \<open>The gaps of the obligation and whether an independent context is needed.\<close>

definition verification_gaps :: "json \<Rightarrow> (str list \<times> bool) res" where
  "verification_gaps i =
     (let judgment = ix i ''judgment''; verification = ix i ''verification'' in
      if verification = JNull
      then Inr (if ix judgment ''role'' = JStr ''evaluator'' then [''current-evaluator-obligation-required''] else [], False)
      else
      and_then (string_at ''independence_mode'' verification) (\<lambda>mode.
      Inr ((if ix verification ''current'' = JBool True then [] else [''verification-obligation-not-current'']) @
        (if judgment \<noteq> JNull \<and> ix verification ''role'' \<noteq> ix judgment ''role''
         then [''verification-obligation-role-mismatch''] else []) @
        mode_gaps mode, mode = ''fresh-context'')))"

definition requirements_of :: "str list \<Rightarrow> str list \<Rightarrow> bool \<Rightarrow> str list \<Rightarrow> json" where
  "requirements_of results proof_classes independent guarantees = obj
     [(''required_result_classes'', jstrs results), (''required_proof_classes'', jstrs proof_classes),
      (''independent_context'', JBool independent), (''required_execution_guarantees'', jstrs guarantees)]"

definition requirements_value :: "host \<Rightarrow> json \<Rightarrow> json \<Rightarrow> str list \<Rightarrow> json" where
  "requirements_value H i requirements gaps =
     (let judgment = ix i ''judgment''; identity = verification_identity (ix i ''verification'') in
      obj
       [(''kind'', JStr ''agentic-workspace/task-requirements/v1''),
        (''status'', JStr (if gaps = [] then ''resolved'' else ''unresolved'')),
        (''revision'', JStr (digest H (obj
          [(''kind'', JStr ''agentic-workspace/task-requirements/v1''), (''task_identity'', ix i ''task_identity''),
           (''current_work'', ix i ''current_work''), (''role'', ix judgment ''role''),
           (''verification_identity'', identity), (''verification_role'', ix (ix i ''verification'') ''role''),
           (''requirements'', requirements), (''gaps'', jstrs gaps)]))),
        (''role'', ix judgment ''role''), (''verification_identity'', identity),
        (''requirements'', if gaps = [] then requirements else JNull), (''gaps'', jstrs gaps),
        (''claim_boundary'', JStr ''Execution feasibility requirements only; no transport, proof, human or completion authority.'')])"

text \<open>The whole declaration's definitions are part of the schema, with a reference into them.\<close>

definition requirements_schema :: "json \<Rightarrow> str \<Rightarrow> json" where
  "requirements_schema declaration name = obj
     [(''$schema'', ix declaration ''$schema''), (''$defs'', ix declaration ''$defs''),
      (''$ref'', JStr (fmt [''#/$defs/'', name]))]"

definition task_requirements :: "host \<Rightarrow> json \<Rightarrow> json res" where
  "task_requirements H i =
     and_then (schema_validator H (requirements_schema (source_schema H) ''task_requirements_input'') ''task requirements'') (\<lambda>valid.
     if \<not> valid i then Inl (err ''invalid task requirements input'')
     else
     and_then (judgment_gaps i) (\<lambda>early.
     and_then (verification_gaps i) (\<lambda>(late, independent).
     and_then (classes_of (ix (ix i ''judgment'') ''required_result_classes'')) (\<lambda>results.
     and_then (classes_of (ix (ix i ''judgment'') ''required_proof_classes'')) (\<lambda>judged.
     and_then (classes_of (ix (ix i ''verification'') ''required_proof_classes'')) (\<lambda>obliged.
     and_then (classes_of (ix i ''required_execution_guarantees'')) (\<lambda>guarantees.
     Inr (requirements_value H i
       (requirements_of results (sort_dedup (judged @ obliged)) independent guarantees) (early @ late)))))))))"


section \<open>Resolved requirements\<close>

lemma classes_of_Inr: "classes_of v = Inr cs \<Longrightarrow> set (map JStr cs) = set (elements v)"
  by (auto simp: classes_of_def and_then_Inr_iff strings_in_Inr)

lemma judgment_gaps_Nil:
  "judgment_gaps i = Inr [] \<longleftrightarrow>
     ix i ''judgment'' \<noteq> JNull \<and>
     (\<exists>results. ix (ix i ''judgment'') ''required_result_classes'' = JArr results \<and> results \<noteq> []) \<and>
     ix (ix i ''judgment'') ''task_identity'' = ix i ''task_identity'' \<and>
     ix (ix i ''judgment'') ''current_work'' = ix i ''current_work'' \<and>
     ix (ix i ''judgment'') ''verification_identity'' = verification_identity (ix i ''verification'')"
  by (auto simp: judgment_gaps_def Let_def and_then_Inr_iff array_at_Inr)

lemma mode_gaps_Nil: "mode_gaps mode = [] \<longleftrightarrow> mode \<in> {''none'', ''not-applicable'', ''fresh-context''}"
  by (auto simp: mode_gaps_def)

lemma verification_gaps_Inr:
  "verification_gaps i = Inr (gaps, independent) \<Longrightarrow>
     (independent \<longleftrightarrow> ix (ix i ''verification'') ''independence_mode'' = JStr ''fresh-context'') \<and>
     (gaps = [] \<longleftrightarrow>
       (if ix i ''verification'' = JNull then ix (ix i ''judgment'') ''role'' \<noteq> JStr ''evaluator''
        else ix (ix i ''verification'') ''current'' = JBool True \<and>
          (ix i ''judgment'' \<noteq> JNull \<longrightarrow> ix (ix i ''verification'') ''role'' = ix (ix i ''judgment'') ''role'') \<and>
          ix (ix i ''verification'') ''independence_mode'' \<in>
            {JStr ''none'', JStr ''not-applicable'', JStr ''fresh-context''}))"
  by (auto simp: verification_gaps_def Let_def and_then_Inr_iff string_at_Inr mode_gaps_Nil
      ix_def [of JNull] jget_def [of JNull] split: if_splits)

lemma task_requirements_Inr:
  assumes "task_requirements H i = Inr out"
  obtains early late independent results judged obliged guarantees
  where "judgment_gaps i = Inr early" and "verification_gaps i = Inr (late, independent)"
    and "set (map JStr results) = set (elements (ix (ix i ''judgment'') ''required_result_classes''))"
    and "set (map JStr (sort_dedup (judged @ obliged))) =
      set (elements (ix (ix i ''judgment'') ''required_proof_classes'')) \<union>
      set (elements (ix (ix i ''verification'') ''required_proof_classes''))"
    and "set (map JStr guarantees) = set (elements (ix i ''required_execution_guarantees''))"
    and "out = requirements_value H i (requirements_of results (sort_dedup (judged @ obliged)) independent guarantees)
      (early @ late)"
proof -
  from assms obtain early late independent results judged obliged guarantees where
    o: "judgment_gaps i = Inr early" "verification_gaps i = Inr (late, independent)"
    "classes_of (ix (ix i ''judgment'') ''required_result_classes'') = Inr results"
    "classes_of (ix (ix i ''judgment'') ''required_proof_classes'') = Inr judged"
    "classes_of (ix (ix i ''verification'') ''required_proof_classes'') = Inr obliged"
    "classes_of (ix i ''required_execution_guarantees'') = Inr guarantees"
    "out = requirements_value H i (requirements_of results (sort_dedup (judged @ obliged)) independent guarantees)
      (early @ late)"
    by (auto simp: task_requirements_def and_then_Inr_iff split: if_splits)
  have "set (map JStr (sort_dedup (judged @ obliged))) = set (map JStr judged) \<union> set (map JStr obliged)"
    by (simp add: image_Un)
  then show thesis using that [OF o(1,2) classes_of_Inr [OF o(3)] _ classes_of_Inr [OF o(6)] o(7)]
    classes_of_Inr [OF o(4)] classes_of_Inr [OF o(5)] by simp
qed

lemma requirements_value_fields [simp]:
  "ix (requirements_value H i r gaps) ''status'' = JStr (if gaps = [] then ''resolved'' else ''unresolved'')"
  "ix (requirements_value H i r gaps) ''requirements'' = (if gaps = [] then r else JNull)"
  by (simp_all add: requirements_value_def Let_def)

text \<open>Requirements are resolved exactly when there is a judgment about exactly this task, work
  and Verification obligation that requires some result, and the obligation is current, in
  the same role and in a representable mode; without an obligation nobody evaluates. Only
  resolved requirements are handed on.\<close>

theorem requirements_resolved_iff:
  assumes "task_requirements H i = Inr out"
  shows "(ix out ''status'' = JStr ''resolved'' \<longleftrightarrow>
      ix i ''judgment'' \<noteq> JNull \<and>
      ix (ix i ''judgment'') ''task_identity'' = ix i ''task_identity'' \<and>
      ix (ix i ''judgment'') ''current_work'' = ix i ''current_work'' \<and>
      ix (ix i ''judgment'') ''verification_identity'' = verification_identity (ix i ''verification'') \<and>
      ix (ix i ''judgment'') ''required_result_classes'' \<noteq> JArr [] \<and>
      (if ix i ''verification'' = JNull then ix (ix i ''judgment'') ''role'' \<noteq> JStr ''evaluator''
       else ix (ix i ''verification'') ''current'' = JBool True \<and>
         ix (ix i ''verification'') ''role'' = ix (ix i ''judgment'') ''role'' \<and>
         ix (ix i ''verification'') ''independence_mode'' \<in>
           {JStr ''none'', JStr ''not-applicable'', JStr ''fresh-context''})) \<and>
    (ix out ''requirements'' \<noteq> JNull \<longleftrightarrow> ix out ''status'' = JStr ''resolved'')"
proof -
  obtain early late independent results judged obliged guarantees where e: "judgment_gaps i = Inr early"
    and l: "verification_gaps i = Inr (late, independent)"
    and sets: "set (map JStr results) = set (elements (ix (ix i ''judgment'') ''required_result_classes''))"
      "set (map JStr (sort_dedup (judged @ obliged))) =
        set (elements (ix (ix i ''judgment'') ''required_proof_classes'')) \<union>
        set (elements (ix (ix i ''verification'') ''required_proof_classes''))"
      "set (map JStr guarantees) = set (elements (ix i ''required_execution_guarantees''))"
    and out': "out = requirements_value H i
      (requirements_of results (sort_dedup (judged @ obliged)) independent guarantees) (early @ late)"
    by (rule task_requirements_Inr [OF assms])
  define r where "r = requirements_of results (sort_dedup (judged @ obliged)) independent guarantees"
  have r: "r \<noteq> JNull" and out: "out = requirements_value H i r (early @ late)"
    by (simp_all add: r_def requirements_of_def out')
  have j: "early = [] \<longleftrightarrow> judgment_gaps i = Inr []" using e by auto
  have a: "\<exists>results. ix (ix i ''judgment'') ''required_result_classes'' = JArr results"
    if "ix i ''judgment'' \<noteq> JNull"
    using e that by (auto simp: judgment_gaps_def Let_def and_then_Inr_iff array_at_Inr)
  define J where "J \<longleftrightarrow> ix i ''judgment'' \<noteq> JNull \<and>
      ix (ix i ''judgment'') ''task_identity'' = ix i ''task_identity'' \<and>
      ix (ix i ''judgment'') ''current_work'' = ix i ''current_work'' \<and>
      ix (ix i ''judgment'') ''verification_identity'' = verification_identity (ix i ''verification'') \<and>
      ix (ix i ''judgment'') ''required_result_classes'' \<noteq> JArr []"
  define V where "V \<longleftrightarrow> (if ix i ''verification'' = JNull then ix (ix i ''judgment'') ''role'' \<noteq> JStr ''evaluator''
       else ix (ix i ''verification'') ''current'' = JBool True \<and>
         ix (ix i ''verification'') ''role'' = ix (ix i ''judgment'') ''role'' \<and>
         ix (ix i ''verification'') ''independence_mode'' \<in>
           {JStr ''none'', JStr ''not-applicable'', JStr ''fresh-context''})"
  have "(\<exists>results. ix (ix i ''judgment'') ''required_result_classes'' = JArr results \<and> results \<noteq> []) \<longleftrightarrow>
      ix (ix i ''judgment'') ''required_result_classes'' \<noteq> JArr []" if "ix i ''judgment'' \<noteq> JNull"
    using a [OF that] by auto
  then have "early = [] \<longleftrightarrow> J" unfolding j judgment_gaps_Nil J_def by blast
  moreover have "late = [] \<longleftrightarrow> V" if J
  proof -
    have "ix i ''judgment'' \<noteq> JNull" using that by (simp add: J_def)
    then show ?thesis using verification_gaps_Inr [OF l, THEN conjunct2] unfolding V_def by simp
  qed
  moreover have "ix out ''status'' = JStr ''resolved'' \<longleftrightarrow> early = [] \<and> late = []" by (simp add: out)
  moreover have "ix out ''requirements'' \<noteq> JNull \<longleftrightarrow> early = [] \<and> late = []" using r by (simp add: out)
  ultimately have "(ix out ''status'' = JStr ''resolved'' \<longleftrightarrow> J \<and> V) \<and>
      (ix out ''requirements'' \<noteq> JNull \<longleftrightarrow> ix out ''status'' = JStr ''resolved'')" by blast
  then show ?thesis unfolding J_def V_def conj_assoc .
qed

text \<open>A configuration selected under resolved requirements is a current, authorized, safe
  candidate that offers every result class the judgment requires, every proof class the
  judgment or the obligation requires and every required guarantee, in a fresh context
  where the obligation asks for one.\<close>

theorem requirements_reach_execution:
  assumes "task_requirements H i = Inr out" and "ix out ''requirements'' \<noteq> JNull"
    and "configurations H v = Inr choice" and "de_configurations v = Some c" and "ix choice ''selected'' \<noteq> JNull"
    and "jstrs (cf_required_results c) = at [''requirements'', ''required_result_classes''] out"
    and "jstrs (cf_required_proof c) = at [''requirements'', ''required_proof_classes''] out"
    and "JBool (cf_independent_context c) = at [''requirements'', ''independent_context''] out"
    and "jstrs (cf_required_guarantees c) = at [''requirements'', ''required_execution_guarantees''] out"
  shows "\<exists>candidate \<in> set (cf_candidates c).
    ec_current candidate \<and> ec_authorized candidate \<and> ec_safe candidate \<and>
    set (elements (ix (ix i ''judgment'') ''required_result_classes'')) \<subseteq> JStr ` set (ec_result_classes candidate) \<and>
    set (elements (ix (ix i ''judgment'') ''required_proof_classes'')) \<subseteq> JStr ` set (ec_proof_classes candidate) \<and>
    set (elements (ix (ix i ''verification'') ''required_proof_classes'')) \<subseteq> JStr ` set (ec_proof_classes candidate) \<and>
    set (elements (ix i ''required_execution_guarantees'')) \<subseteq> JStr ` set (ec_execution_guarantees candidate) \<and>
    (ix (ix i ''verification'') ''independence_mode'' = JStr ''fresh-context'' \<longrightarrow> ec_independent_context candidate)"
proof -
  obtain early late independent results judged obliged guarantees where e: "judgment_gaps i = Inr early"
    and l: "verification_gaps i = Inr (late, independent)"
    and sets: "set (map JStr results) = set (elements (ix (ix i ''judgment'') ''required_result_classes''))"
      "set (map JStr (sort_dedup (judged @ obliged))) =
        set (elements (ix (ix i ''judgment'') ''required_proof_classes'')) \<union>
        set (elements (ix (ix i ''verification'') ''required_proof_classes''))"
      "set (map JStr guarantees) = set (elements (ix i ''required_execution_guarantees''))"
    and out: "out = requirements_value H i
      (requirements_of results (sort_dedup (judged @ obliged)) independent guarantees) (early @ late)"
    by (rule task_requirements_Inr [OF assms(1)])
  have r: "ix out ''requirements'' = requirements_of results (sort_dedup (judged @ obliged)) independent guarantees"
    using assms(2) by (simp add: out split: if_splits)
  have eq: "map JStr (cf_required_results c) = map JStr results"
    "map JStr (cf_required_proof c) = map JStr (sort_dedup (judged @ obliged))"
    "cf_independent_context c = independent" "map JStr (cf_required_guarantees c) = map JStr guarantees"
    using assms(6-9) unfolding at_simps r requirements_of_def jstrs_def by simp_all
  obtain candidate where k: "candidate \<in> set (cf_candidates c)"
    "ec_current candidate" "ec_authorized candidate" "ec_safe candidate"
    "cf_independent_context c \<longrightarrow> ec_independent_context candidate"
    "set (cf_required_guarantees c) \<subseteq> set (ec_execution_guarantees candidate)"
    "set (cf_required_results c) \<subseteq> set (ec_result_classes candidate)"
    "set (cf_required_proof c) \<subseteq> set (ec_proof_classes candidate)"
    using selected_feasible [OF assms(3-5)] by blast
  have img: "set (map JStr xs) \<subseteq> JStr ` set ys" if "set xs \<subseteq> set ys" for xs ys using that by auto
  have "ix (ix i ''verification'') ''independence_mode'' = JStr ''fresh-context'' \<longrightarrow> ec_independent_context candidate"
    using k(5) verification_gaps_Inr [OF l, THEN conjunct1] unfolding eq by blast
  moreover note img [OF k(6), unfolded eq sets] img [OF k(7), unfolded eq sets] img [OF k(8), unfolded eq sets]
  ultimately show ?thesis using k(1-4) by (intro bexI [of _ candidate]) simp_all
qed

end
