(* ===== verification/Packet.thy ===== *)
theory Packet
  imports Assessment
begin

text \<open>
  The worker projection and the seal of an assignment packet
  (\<open>src/src/core/src/assignment_packet.rs\<close>), over the compact JSON of
  \<open>src/src/core/src/proof_subject.rs\<close>.
\<close>

section \<open>Compact JSON\<close>

text \<open>
  How a double prints and whether it is zero or its size lies in \<open>0.0001..1e16\<close> is
  the standard library's arithmetic, an argument here.
\<close>

record float_env =
  float_text :: "nat \<Rightarrow> str"
  float_in_range :: "nat \<Rightarrow> bool"

definition exact_float :: "float_env \<Rightarrow> nat \<Rightarrow> bool" where
  "exact_float F n \<longleftrightarrow>
     CHR ''e'' \<notin> set (float_text F n) \<and> CHR ''E'' \<notin> set (float_text F n) \<and> float_in_range F n"

fun exact_numbers :: "float_env \<Rightarrow> json \<Rightarrow> bool" where
  "exact_numbers F (JNum (Float n)) \<longleftrightarrow> exact_float F n"
| "exact_numbers F (JArr xs) \<longleftrightarrow> list_all (exact_numbers F) xs"
| "exact_numbers F (JObj m) \<longleftrightarrow> list_all (\<lambda>p. exact_numbers F (snd p)) m"
| "exact_numbers F _ \<longleftrightarrow> True"

definition compact_json :: "host \<Rightarrow> float_env \<Rightarrow> json \<Rightarrow> str res" where
  "compact_json H F v =
     (if exact_numbers F v then Inr (ascii_json 0x7F (to_vec H v))
      else Inl (err ''proof identity numeric encoding compatibility is unproven''))"

definition fingerprint :: "host \<Rightarrow> float_env \<Rightarrow> json \<Rightarrow> str res" where
  "fingerprint H F v = and_then (compact_json H F v) (\<lambda>s. Inr (sha256_hex H s))"

section \<open>The worker's view\<close>

definition text_of :: "json \<Rightarrow> str" where
  "text_of v = trim (case as_str v of Some s \<Rightarrow> s | None \<Rightarrow> '''')"

definition array_of :: "json \<Rightarrow> json" where
  "array_of v = JArr (elements v)"

definition object_of :: "json \<Rightarrow> json" where
  "object_of v = (case v of JObj m \<Rightarrow> JObj m | _ \<Rightarrow> JObj [])"

definition first_text :: "json \<Rightarrow> json \<Rightarrow> str" where
  "first_text a b = (if text_of a = '''' then text_of b else text_of a)"

definition add_input :: "bool \<Rightarrow> str \<Rightarrow> json \<Rightarrow> json \<Rightarrow> json" where
  "add_input present k v context = (if present then jset_in [''inputs'', k] v context else context)"

definition worker_context :: "json \<Rightarrow> json" where
  "worker_context packet =
     (let i = ix packet ''assignment_identity'';
          context = obj
            [(''kind'', JStr ''agentic-workspace/assignment-worker-context/v1''),
             (''assignment'', obj
               [(''id'', JStr (text_of (ix packet ''assignment_id''))),
                (''revision'', JStr (first_text (ix packet ''assignment_revision'') (ix i ''revision''))),
                (''run_id'', JStr (text_of (ix packet ''run_id''))),
                (''target'', JStr (first_text (ix packet ''target'') (ix i ''target'')))]),
             (''intent'', obj [(''outcome'', JStr (text_of (ix i ''human_intent''))),
               (''task_class'', JStr (text_of (ix i ''task_class''))), (''role'', JStr (text_of (ix i ''role'')))]),
             (''scope'', obj [(''class'', JStr (text_of (ix i ''scope_class''))),
               (''allowed_paths'', array_of (ix i ''allowed_paths''))]),
             (''effects'', obj [(''allowed'', array_of (ix i ''allowed_effects'')),
               (''prohibited'', array_of (ix i ''prohibited_effects''))]),
             (''inputs'', obj [(''required'', array_of (ix i ''required_inputs'')),
               (''read_first'', array_of (ix i ''read_first'')),
               (''lazy_expansion_rule'', JStr ''Read only these exact references first; request or resolve deeper context only when the assignment requires it.'')]),
             (''proof'', obj [(''obligation_id'', JStr (text_of (ix i ''proof_obligation_id''))),
               (''obligation_revision'', JStr (text_of (ix i ''proof_obligation_revision''))),
               (''worker_authority'', JBool False)]),
             (''stop_conditions'', array_of (ix i ''stop_conditions'')),
             (''authority'', obj [(''semantic_source'', JStr ''canonical-assignment-identity''),
               (''claim_authority'', object_of (ix i ''claim_authority'')),
               (''scope_widening_allowed'', JBool False)]),
             (''return_contract'', object_of (ix packet ''return_contract''))] in
      add_input (is_object (ix i ''source_work'')) ''source_work'' (ix i ''source_work'')
       (add_input (ix i ''task_requirements'' \<noteq> JNull) ''task_requirements'' (ix i ''task_requirements'')
        (add_input (ix i ''input_capsule'' \<noteq> JNull) ''capsule'' (ix i ''input_capsule'') context)))"

section \<open>The seal\<close>

text \<open>\<open>pointer_mut(..).filter(is_object)\<close>: the seal of an identity is emptied only where there is one.\<close>

definition clear_at :: "str list \<Rightarrow> json \<Rightarrow> json" where
  "clear_at path subject =
     (if is_object (at path subject)
      then jset_in (path @ [''packet_integrity'']) (JStr '''') subject else subject)"

definition seal_subject :: "json \<Rightarrow> json" where
  "seal_subject packet =
     clear_at [''worker_context'', ''return_contract'', ''required_identity'']
      (clear_at [''return_contract'', ''required_identity''] (jset ''packet_integrity'' (JStr '''') packet))"

definition packet_integrity :: "host \<Rightarrow> float_env \<Rightarrow> json \<Rightarrow> str res" where
  "packet_integrity H F packet =
     (if \<not> is_object packet then Inl (err ''assignment packet must be an object'')
      else
      let subject = seal_subject packet; legacy = digest H subject in
      if ix packet ''packet_integrity'' = JStr legacy then Inr legacy
      else and_then (compact_json H F subject) (\<lambda>s. Inr (''sha256:'' @ sha256_hex H s)))"

definition seal_contract :: "json \<Rightarrow> str \<Rightarrow> json" where
  "seal_contract packet seal =
     (let contract = object_of (ix packet ''return_contract'');
          fields = with_fields [''assignment_id'', ''packet_integrity'', ''result_delivery'']
            (elements (ix contract ''required_fields'')) in
      jset ''required_identity'' (obj
        [(''assignment_id'', ix packet ''assignment_id''),
         (''assignment_revision'', ix packet ''assignment_revision''),
         (''run_id'', ix packet ''run_id''), (''target'', ix packet ''target''),
         (''packet_integrity'', JStr seal)])
       (jset ''required_fields'' (JArr fields) contract))"

definition seal_draft :: "json \<Rightarrow> json" where
  "seal_draft packet =
     (let sealed = jset ''packet_integrity'' (JStr '''')
        (jset ''return_contract'' (seal_contract packet '''') packet) in
      jset ''worker_context'' (worker_context sealed) sealed)"

definition with_seal :: "str \<Rightarrow> json \<Rightarrow> json" where
  "with_seal hash sealed =
     (let sealed = jset_in [''return_contract'', ''required_identity'', ''packet_integrity''] (JStr hash)
        (jset ''packet_integrity'' (JStr hash) sealed) in
      jset ''worker_context'' (worker_context sealed) sealed)"

definition seal_packet :: "host \<Rightarrow> float_env \<Rightarrow> json \<Rightarrow> json res" where
  "seal_packet H F packet =
     (if \<not> is_object packet then Inl (err ''assignment packet must be an object'')
      else
      and_then (packet_integrity H F (seal_draft packet)) (\<lambda>hash.
      let sealed = with_seal hash (seal_draft packet) in
      and_then (packet_integrity H F sealed) (\<lambda>again.
      if again \<noteq> hash then Inl (err ''assignment packet integrity did not stabilize'')
      else Inr sealed)))"

text \<open>The worker entry projections are another component's, an argument here.\<close>

definition packet_view :: "host \<Rightarrow> float_env \<Rightarrow> (json \<Rightarrow> json res) \<Rightarrow> json \<Rightarrow> json res" where
  "packet_view H F entry_view i =
     (case as_str (ix i ''action'') of
        Some action \<Rightarrow>
          if action = ''seal'' then seal_packet H F (ix i ''packet'')
          else if action = ''integrity''
          then and_then (packet_integrity H F (ix i ''packet'')) (\<lambda>s. Inr (obj [(''integrity'', JStr s)]))
          else if action = ''worker-context'' then Inr (worker_context (ix i ''packet''))
          else if action \<in> {''entry'', ''manual'', ''expand'', ''return''} then entry_view i
          else Inl (err ''unknown assignment packet projection'')
      | None \<Rightarrow> Inl (err ''unknown assignment packet projection''))"

section \<open>Sealing is stable\<close>

lemma jset_obj: "jset k x (obj kvs) = obj ((k, x) # kvs)"
  by (simp add: jset_def obj_def om_of_def)

lemma obj_cong: "map_of kvs = map_of kvs' \<Longrightarrow> obj kvs = obj kvs'"
  unfolding obj_def by (intro arg_cong [of _ _ JObj] om_ext) (simp_all add: om_get_of fun_eq_iff om_ok_of)

lemma obj_Cons: "obj ((k, x) # kvs) = jset k x (obj kvs)"
  by (simp add: jset_obj)

lemma object_of_object [simp]: "is_object v \<Longrightarrow> object_of v = v" "is_object (object_of v)"
  by (cases v; simp add: object_of_def is_object_def)+

lemma add_input_object [simp]: "is_object c \<Longrightarrow> is_object (add_input b k v c)"
  by (simp add: add_input_def)

lemma add_input_ix: "is_object c \<Longrightarrow> k' \<noteq> ''inputs'' \<Longrightarrow> ix (add_input b k v c) k' = ix c k'"
  by (simp add: add_input_def ix_jset)

lemma add_input_swap:
  "is_object c \<Longrightarrow> k' \<noteq> ''inputs'' \<Longrightarrow> jset k' x (add_input b k v c) = add_input b k v (jset k' x c)"
  by (simp add: add_input_def ix_jset jset_swap [of _ k'])

lemma worker_context_object [simp]: "is_object (worker_context p)"
  by (simp add: worker_context_def Let_def)

lemma worker_context_contract: "ix (worker_context p) ''return_contract'' = object_of (ix p ''return_contract'')"
  by (simp add: worker_context_def Let_def add_input_ix)

text \<open>Packets that agree on what the projection reads have projections that agree but for the contract.\<close>

definition same_work :: "json \<Rightarrow> json \<Rightarrow> bool" where
  "same_work p q \<longleftrightarrow> (\<forall>k \<in> {''assignment_identity'', ''assignment_id'', ''assignment_revision'', ''run_id'', ''target''}.
     ix q k = ix p k)"

lemma worker_context_same:
  assumes "same_work p q"
  shows "worker_context q = jset ''return_contract'' (object_of (ix q ''return_contract'')) (worker_context p)"
proof -
  have s: "ix q ''assignment_identity'' = ix p ''assignment_identity''" "ix q ''assignment_id'' = ix p ''assignment_id''"
    "ix q ''assignment_revision'' = ix p ''assignment_revision''" "ix q ''run_id'' = ix p ''run_id''"
    "ix q ''target'' = ix p ''target''"
    using assms by (simp_all add: same_work_def)
  show ?thesis unfolding worker_context_def Let_def s
    by (simp add: add_input_swap obj_Cons jset_swap [of _ "''return_contract''"] del: ix_obj_Cons)
qed


lemma same_work_jset:
  "is_object p \<Longrightarrow> k \<in> {''packet_integrity'', ''return_contract'', ''worker_context''} \<Longrightarrow>
     same_work q (jset k x p) \<longleftrightarrow> same_work q p"
  by (auto simp: same_work_def ix_jset)

lemma same_work_refl [simp]: "same_work p p"
  by (simp add: same_work_def)

text \<open>The contract of a seal, its identity and the effect of writing another seal into it.\<close>

lemma seal_contract_facts:
  "is_object (seal_contract p s)"
  "is_object (ix (seal_contract p s) ''required_identity'')"
  "jset ''required_identity''
     (jset ''packet_integrity'' (JStr s') (ix (seal_contract p s) ''required_identity'')) (seal_contract p s) =
   seal_contract p s'"
  by (simp_all add: seal_contract_def Let_def ix_jset obj_Cons jset_swap [of _ "''packet_integrity''"]
      del: ix_obj_Cons)

lemmas seal_order =
  jset_swap [of _ "''return_contract''" "''worker_context''"]
  jset_swap [of _ "''return_contract''" "''packet_integrity''"]
  jset_swap [of _ "''packet_integrity''" "''worker_context''"]

text \<open>A packet with its contract and its own seal, and with the projection of that.\<close>

definition stamped :: "str \<Rightarrow> json \<Rightarrow> json" where
  "stamped s p = (let q = jset ''packet_integrity'' (JStr s) (jset ''return_contract'' (seal_contract p s) p) in
     jset ''worker_context'' (worker_context q) q)"

lemma seal_draft_stamped: "seal_draft p = stamped '''' p"
  by (simp add: seal_draft_def stamped_def)

lemma stamped_facts:
  assumes "is_object p"
  shows "is_object (stamped s p)" and "ix (stamped s p) ''packet_integrity'' = JStr s"
    and "ix (stamped s p) ''return_contract'' = seal_contract p s"
    and "ix (stamped s p) ''worker_context'' = jset ''return_contract'' (seal_contract p s) (worker_context p)"
    and "ix (stamped s p) ''worker_context'' = worker_context (stamped s p)"
proof -
  let ?q = "jset ''packet_integrity'' (JStr s) (jset ''return_contract'' (seal_contract p s) p)"
  show "is_object (stamped s p)" "ix (stamped s p) ''packet_integrity'' = JStr s"
    "ix (stamped s p) ''return_contract'' = seal_contract p s"
    using assms by (simp_all add: stamped_def Let_def ix_jset)
  have w: "worker_context ?q = jset ''return_contract'' (seal_contract p s) (worker_context p)"
    using worker_context_same [of p ?q] assms by (simp add: same_work_jset ix_jset seal_contract_facts)
  then show "ix (stamped s p) ''worker_context'' = jset ''return_contract'' (seal_contract p s) (worker_context p)"
    using assms by (simp add: stamped_def Let_def ix_jset)
  moreover have "worker_context (stamped s p) = jset ''return_contract'' (seal_contract p s) (worker_context p)"
    using worker_context_same [of p "stamped s p"] assms
    by (simp add: stamped_def Let_def same_work_jset ix_jset seal_contract_facts)
  ultimately show "ix (stamped s p) ''worker_context'' = worker_context (stamped s p)" by simp
qed


lemma stamped_eq:
  assumes "is_object p"
  shows "stamped s p = jset ''worker_context'' (jset ''return_contract'' (seal_contract p s) (worker_context p))
    (jset ''packet_integrity'' (JStr s) (jset ''return_contract'' (seal_contract p s) p))"
  using worker_context_same [of p "jset ''packet_integrity'' (JStr s) (jset ''return_contract'' (seal_contract p s) p)"]
    assms
  by (simp add: stamped_def Let_def same_work_jset ix_jset seal_contract_facts)

lemma restamp:
  assumes "is_object p"
  shows "jset ''return_contract'' (seal_contract p s') (jset ''packet_integrity'' (JStr s') (stamped s p)) =
    jset ''worker_context'' (jset ''return_contract'' (seal_contract p s) (worker_context p))
      (jset ''packet_integrity'' (JStr s') (jset ''return_contract'' (seal_contract p s') p))"
  using assms by (simp add: stamped_eq seal_order)

lemma with_seal_stamped:
  assumes "is_object p"
  shows "with_seal h (stamped s p) = stamped h p"
proof -
  let ?q = "jset_in [''return_contract'', ''required_identity'', ''packet_integrity''] (JStr h)
      (jset ''packet_integrity'' (JStr h) (stamped s p))"
  have q: "?q = jset ''worker_context'' (jset ''return_contract'' (seal_contract p s) (worker_context p))
      (jset ''packet_integrity'' (JStr h) (jset ''return_contract'' (seal_contract p h) p))"
    using restamp [OF assms, of h s] by (simp add: ix_jset stamped_facts [OF assms] seal_contract_facts)
  have "worker_context ?q = jset ''return_contract'' (seal_contract p h) (worker_context p)"
    using worker_context_same [of p ?q] assms unfolding q by (simp add: same_work_jset ix_jset seal_contract_facts)
  then show ?thesis using assms unfolding with_seal_def Let_def q by (simp add: stamped_eq)
qed

lemma seal_subject_stamped:
  assumes "is_object p"
  shows "seal_subject (stamped s p) = stamped '''' p"
proof -
  let ?r = "jset ''return_contract'' (seal_contract p '''') (jset ''packet_integrity'' (JStr '''') (stamped s p))"
  have a: "clear_at [''return_contract'', ''required_identity''] (jset ''packet_integrity'' (JStr '''') (stamped s p)) = ?r"
    by (simp add: clear_at_def ix_jset stamped_facts [OF assms] seal_contract_facts)
  have "clear_at [''worker_context'', ''return_contract'', ''required_identity''] ?r =
      jset ''worker_context'' (jset ''return_contract'' (seal_contract p '''') (worker_context p)) ?r"
    by (simp add: clear_at_def ix_jset stamped_facts [OF assms] seal_contract_facts)
  then show ?thesis using assms unfolding seal_subject_def a by (simp add: restamp) (simp add: stamped_eq)
qed

lemma integrity_stamped:
  assumes "is_object p"
  shows "packet_integrity H F (stamped s p) =
    (if s = digest H (stamped '''' p) then Inr s
     else and_then (compact_json H F (stamped '''' p)) (\<lambda>t. Inr (''sha256:'' @ sha256_hex H t)))"
  by (auto simp: packet_integrity_def stamped_facts [OF assms] seal_subject_stamped [OF assms] Let_def)

lemma seal_packet_eq:
  assumes "is_object p"
  shows "seal_packet H F p =
    (if exact_numbers F (seal_draft p)
     then Inr (stamped (''sha256:'' @ sha256_hex H (ascii_json 0x7F (to_vec H (seal_draft p)))) p)
     else Inl (err ''proof identity numeric encoding compatibility is unproven''))"
proof -
  have "'''' \<noteq> digest H v" for v by (simp add: digest_def)
  then have i: "packet_integrity H F (seal_draft p) =
      and_then (compact_json H F (seal_draft p)) (\<lambda>t. Inr (''sha256:'' @ sha256_hex H t))"
    by (simp add: seal_draft_stamped integrity_stamped [OF assms])
  have w: "with_seal h (seal_draft p) = stamped h p" for h
    by (simp add: seal_draft_stamped with_seal_stamped [OF assms])
  show ?thesis
    using assms unfolding seal_packet_def i w
    by (simp add: compact_json_def integrity_stamped [OF assms] seal_draft_stamped [symmetric] Let_def)
qed

text \<open>C28: Sealing never fails to stabilize: it is refused exactly for a packet that is no object
  or that holds a number whose encoding is unproven, and a sealed packet carries its own
  integrity, also in the identity every return must name, and the projection of itself.\<close>

theorem seal_stabilizes:
  "case seal_packet H F p of
     Inl e \<Rightarrow> (e = err ''assignment packet must be an object'' \<and> \<not> is_object p) \<or>
       (e = err ''proof identity numeric encoding compatibility is unproven'' \<and> \<not> exact_numbers F (seal_draft p))
   | Inr s \<Rightarrow> is_object p \<and> (\<exists>h. packet_integrity H F s = Inr h \<and> ix s ''packet_integrity'' = JStr h \<and>
       at [''return_contract'', ''required_identity'', ''packet_integrity''] s = JStr h \<and>
       at [''worker_context'', ''return_contract'', ''required_identity'', ''packet_integrity''] s = JStr h \<and>
       worker_context s = ix s ''worker_context'')"
proof (cases "is_object p")
  case True
  have c: "ix (ix (seal_contract p h) ''required_identity'') ''packet_integrity'' = JStr h" for h
    by (simp add: seal_contract_def Let_def ix_jset)
  show ?thesis
    using stamped_facts [OF True] True
    by (simp add: seal_packet_eq [OF True] integrity_stamped [OF True] compact_json_def seal_draft_stamped
        ix_jset c)
qed (simp add: seal_packet_def)

end
