(* ===== verification/Proof_Receipt.thy ===== *)
theory Proof_Receipt
  imports Task_Requirements Packet
begin

text \<open>
  The admission of proof receipts (\<open>src/src/core/src/proof_receipt.rs\<close>): the identity a
  publication is bound to, the binding of an assignment's proof, and the checks a receipt
  must pass before it may count as proof. The Unicode tables of \<open>str::to_lowercase\<close> are an
  argument.
\<close>

record receipt_env = float_env +
  to_lowercase :: "str \<Rightarrow> str"

definition RECEIPT_KIND :: str where
  "RECEIPT_KIND = ''agentic-workspace/proof-receipt/v1''"

section \<open>Identities\<close>

definition present_fields :: "str list \<Rightarrow> json \<Rightarrow> (str \<times> json) list" where
  "present_fields names v =
     List.map_filter (\<lambda>n. map_option (Pair n) (jget v n)) names"

definition publication_identity :: "json \<Rightarrow> json" where
  "publication_identity receipt = obj
     (map (\<lambda>n. (n, ix receipt n)) [''command'', ''result'', ''changed_paths'', ''proof_subject''] @
      [(''target_context'', case jget receipt ''target_context'' of Some v \<Rightarrow> v | None \<Rightarrow> obj []),
       (''proof_commands'', case jget receipt ''proof_commands'' of Some v \<Rightarrow> v | None \<Rightarrow> JArr [])] @
      present_fields [''task_claim_judgment'', ''assignment_proof_obligation'', ''assignment_proof_binding'',
        ''assignment_closeout_lineage'', ''execution_artifact''] receipt)"

text \<open>A path that is no string is its JSON text.\<close>

definition bound_paths :: "host \<Rightarrow> json \<Rightarrow> str list" where
  "bound_paths H receipt =
     sort (filter (\<lambda>s. s \<noteq> '''')
       (map (\<lambda>path. case as_str path of Some s \<Rightarrow> s | None \<Rightarrow> to_vec H path) (elements (ix receipt ''changed_paths''))))"

definition binding_subject :: "host \<Rightarrow> json \<Rightarrow> json" where
  "binding_subject H receipt = obj
     [(''assignment_proof_obligation'', ix receipt ''assignment_proof_obligation''),
      (''proof_subject_fingerprint'', at [''proof_subject'', ''fingerprint''] receipt),
      (''command'', ix receipt ''command''), (''result'', ix receipt ''result''),
      (''changed_paths'', jstrs (bound_paths H receipt)), (''authority'', ix receipt ''authority''),
      (''producer_class'', ix receipt ''producer_class'')]"

definition assignment_binding :: "host \<Rightarrow> receipt_env \<Rightarrow> json \<Rightarrow> str res" where
  "assignment_binding H F receipt =
     and_then (compact_json H (float_env.truncate F) (binding_subject H receipt)) (\<lambda>s.
     Inr (fmt [''sha256:'', sha256_hex H s]))"

section \<open>Texts\<close>

text \<open>Zero, also the double \<open>-0.0\<close> (doubles are their bits), is empty.\<close>

definition is_zero :: "number \<Rightarrow> bool" where
  "is_zero n = (case n of PosInt k \<Rightarrow> k = 0 | NegInt i \<Rightarrow> i = 0 | Float bits \<Rightarrow> bits = 0 \<or> bits = 2 ^ 63)"

definition receipt_text :: "host \<Rightarrow> json \<Rightarrow> str" where
  "receipt_text H v =
     (case v of
        JNull \<Rightarrow> ''''
      | JStr s \<Rightarrow> s
      | JBool b \<Rightarrow> if b then ''True'' else ''''
      | JNum n \<Rightarrow> if is_zero n then '''' else to_vec H v
      | _ \<Rightarrow> to_vec H v)"

text \<open>\<open>str::split\<close> and \<open>str::split_once\<close> on a text.\<close>

function split_str :: "str \<Rightarrow> str \<Rightarrow> str list" where
  "split_str p s =
     (case s of
        [] \<Rightarrow> [[]]
      | c # cs \<Rightarrow>
          if p \<noteq> [] \<and> starts_with s p then [] # split_str p (drop (length p) s)
          else (case split_str p cs of [] \<Rightarrow> [[c]] | x # xs \<Rightarrow> (c # x) # xs))"
  by pat_completeness auto
termination
  by (relation "measure (\<lambda>(p, s). length s)") auto

declare split_str.simps [simp del]

fun once_str :: "str \<Rightarrow> str \<Rightarrow> (str \<times> str) option" where
  "once_str p [] = (if p = [] then Some ([], []) else None)"
| "once_str p (c # cs) =
     (if starts_with (c # cs) p then Some ([], drop (length p) (c # cs))
      else map_option (\<lambda>(a, b). (c # a, b)) (once_str p cs))"

definition placeholder_pairs :: "(str \<times> str) list" where
  "placeholder_pairs = [(''<'', ''>''), (''{{'', ''}}''), (''${'', ''}'')]"

definition placeholder_body :: "str \<Rightarrow> str \<Rightarrow> str \<Rightarrow> bool" where
  "placeholder_body ob cb body \<longleftrightarrow>
     body \<noteq> '''' \<and> (\<forall>c \<in> set body. c \<notin> {CHR 0x0D, CHR 0x0A} \<and> c \<notin> set ob \<and> c \<notin> set cb)"

definition unresolved :: "str \<Rightarrow> bool" where
  "unresolved command \<longleftrightarrow>
     (\<exists>(ob, cb) \<in> set placeholder_pairs. \<exists>tail \<in> set (tl (split_str ob command)).
        case once_str cb tail of None \<Rightarrow> False | Some (body, _) \<Rightarrow> placeholder_body ob cb body)"

section \<open>Results and commands\<close>

definition result_class :: "str \<Rightarrow> str" where
  "result_class observed =
     (if observed \<in> {''passed'', ''pass'', ''success'', ''succeeded''} then ''passed''
      else if observed \<in> {''failed'', ''fail'', ''failure'', ''error''} then ''failed''
      else if observed \<in> {''skipped'', ''skip''} then ''skipped''
      else if observed \<in> {''waived'', ''waive''} then ''waived'' else '''')"

definition observed_result :: "host \<Rightarrow> receipt_env \<Rightarrow> json \<Rightarrow> str" where
  "observed_result H F v = to_lowercase F (trim (receipt_text H v))"

definition receipt_result :: "host \<Rightarrow> receipt_env \<Rightarrow> json \<Rightarrow> json" where
  "receipt_result H F v =
     (let observed = observed_result H F v; class = result_class observed in
      obj [(''admitted'', JBool (class \<noteq> '''')), (''observed_result'', JStr observed),
        (''result_class'', JStr class), (''proof_sufficient'', JBool (class = ''passed''))])"

definition command_verdict :: "host \<Rightarrow> json \<Rightarrow> str \<times> str" where
  "command_verdict H v =
     (let s = receipt_text H v in
      if trim s = ''''
      then (''missing-command'', ''Supply the exact command that was executed with --receipt-command.'')
      else if unresolved (trim s)
      then (''unresolved-command-template'',
        ''Substitute every placeholder, execute the concrete command, then record that exact command.'')
      else (''admissible'', ''none''))"

definition receipt_command :: "host \<Rightarrow> json \<Rightarrow> json" where
  "receipt_command H v =
     (let (reason, recovery) = command_verdict H v in
      obj [(''admitted'', JBool (reason = ''admissible'')), (''reason'', JStr reason), (''safe_recovery'', JStr recovery)])"

section \<open>Admission\<close>

definition failure :: "str \<Rightarrow> str \<Rightarrow> str \<Rightarrow> json" where
  "failure reason field recovery =
     obj [(''reason'', JStr reason), (''field'', JStr field), (''recovery'', JStr recovery)]"

definition failing :: "bool \<Rightarrow> str \<Rightarrow> str \<Rightarrow> str \<Rightarrow> json list" where
  "failing b reason field recovery = (if b then [failure reason field recovery] else [])"

definition shape_failures :: "host \<Rightarrow> receipt_env \<Rightarrow> json \<Rightarrow> bool \<Rightarrow> json list" where
  "shape_failures H F receipt timestamp_valid =
     failing (ix receipt ''kind'' \<noteq> JStr RECEIPT_KIND) ''unsupported-receipt-kind'' ''kind''
       ''Supply a receipt of kind agentic-workspace/proof-receipt/v1 through the current Verification owner request; resolve current requests with `agentic-workspace start --target . --format json`.'' @
     (let (reason, recovery) = command_verdict H (ix receipt ''command'') in
      failing (reason \<noteq> ''admissible'') reason ''command'' recovery) @
     (let observed = observed_result H F (ix receipt ''result'') in
      if observed = ''''
      then [failure ''missing-result'' ''result'' ''Supply the observed result in the receipt result field.'']
      else failing (result_class observed = '''') ''unsupported-result'' ''result''
        ''Use an admitted result class: passed, failed, skipped, or waived.'') @
     failing (\<not> timestamp_valid) ''invalid-recorded-at'' ''recorded_at''
       ''Record the receipt again so AW supplies an ISO-8601 timestamp with timezone.''"

definition abstract_path :: "host \<Rightarrow> json \<Rightarrow> bool" where
  "abstract_path H path \<longleftrightarrow> trim (receipt_text H path) = '''' \<or> unresolved (trim (receipt_text H path))"

definition path_failures :: "host \<Rightarrow> json \<Rightarrow> json list" where
  "path_failures H receipt =
     (if elements (ix receipt ''changed_paths'') = []
      then [failure ''missing-changed-path-scope'' ''changed_paths''
        ''Pass one or more concrete --changed paths matching the proof scope.'']
      else failing (list_ex (abstract_path H) (elements (ix receipt ''changed_paths'')))
        ''invalid-changed-path-scope'' ''changed_paths''
        ''Replace empty or templated --changed values with concrete repo-relative paths.'')"

definition assignment_failures :: "json \<Rightarrow> str option \<Rightarrow> json list" where
  "assignment_failures receipt binding =
     (if ix receipt ''assignment_proof_obligation'' = JNull then []
      else
        failing (at [''assignment_proof_obligation'', ''kind''] receipt \<noteq>
            JStr ''agentic-workspace/assignment-task-proof-obligation/v1'')
          ''invalid-assignment-proof-obligation'' ''assignment_proof_obligation''
          ''Record assignment proof through the AW proof producer while the exact run is integrated.'' @
        failing (ix receipt ''producer_class'' \<noteq> JStr ''aw-proof'' \<or> ix receipt ''authority'' \<noteq> JStr ''aw-proof'')
          ''assignment-proof-not-aw-owned'' ''producer_class|authority''
          ''Record assignment proof through the AW proof producer.'' @
        failing (binding = None \<or> as_str (ix receipt ''assignment_proof_binding'') \<noteq> binding)
          ''assignment-proof-binding-mismatch'' ''assignment_proof_binding''
          ''Record the proof again against the current integrated assignment.'')"

definition admit_receipt :: "host \<Rightarrow> receipt_env \<Rightarrow> json \<Rightarrow> bool \<Rightarrow> str option \<Rightarrow> json" where
  "admit_receipt H F receipt timestamp_valid binding =
     (let failures = shape_failures H F receipt timestamp_valid @ path_failures H receipt @
            assignment_failures receipt binding;
          result = receipt_result H F (ix receipt ''result'') in
      obj
       [(''kind'', JStr ''agentic-workspace/proof-receipt-admission/v1''),
        (''status'', JStr (if failures = [] then ''admitted'' else ''rejected'')),
        (''admitted'', JBool (failures = [])), (''result_class'', ix result ''result_class''),
        (''proof_sufficient'', JBool (failures = [] \<and> ix result ''proof_sufficient'' = JBool True)),
        (''reason'', case failures of f # _ \<Rightarrow> ix f ''reason'' | [] \<Rightarrow> JStr ''admissible''),
        (''safe_recovery'', case failures of f # _ \<Rightarrow> ix f ''recovery'' | [] \<Rightarrow> JStr ''none''),
        (''failures'', JArr failures),
        (''rule'', JStr ''Only admitted receipts may be persisted, selected, or counted as trusted proof state.'')])"

definition admit_derived :: "host \<Rightarrow> receipt_env \<Rightarrow> json \<Rightarrow> json res" where
  "admit_derived H F v =
     and_then (assignment_binding H F (ix v ''receipt'')) (\<lambda>binding.
     Inr (admit_receipt H F (ix v ''receipt'') (ix v ''timestamp_valid'' = JBool True) (Some binding)))"

definition receipt_view :: "host \<Rightarrow> receipt_env \<Rightarrow> json \<Rightarrow> json res" where
  "receipt_view H F v =
     and_then (schema_validator H (requirements_schema (source_schema H) ''proof_receipt_input'') ''proof receipt admission'') (\<lambda>valid.
     if \<not> valid v then Inl (err ''schema violation'')
     else
       (let action = ix v ''action'' in
        if action = JStr ''admit-many'' then
          and_then (array_at ''items'' v) (\<lambda>items.
          and_then (collect (admit_derived H F) items) (\<lambda>results.
          Inr (obj [(''items'', JArr results)])))
        else if action = JStr ''result'' then Inr (receipt_result H F (ix v ''value''))
        else if action = JStr ''command'' then Inr (receipt_command H (ix v ''value''))
        else if action = JStr ''publication-identity''
        then Inr (obj [(''identity'', publication_identity (ix v ''receipt''))])
        else if action = JStr ''binding'' then
          and_then (assignment_binding H F (ix v ''receipt'')) (\<lambda>binding.
          Inr (obj [(''binding'', JStr binding)]))
        else if action = JStr ''admit'' then admit_derived H F v
        else Inl (err ''unsupported proof receipt admission request'')))"

section \<open>What counts as a placeholder\<close>

definition has_placeholder :: "str \<Rightarrow> str \<Rightarrow> str \<Rightarrow> bool" where
  "has_placeholder ob cb command \<longleftrightarrow>
     (\<exists>before body after. command = before @ ob @ body @ cb @ after \<and>
        placeholder_body ob cb body)"

lemma once_str_Some: "once_str p s = Some (a, b) \<Longrightarrow> s = a @ p @ b"
  by (induction p s arbitrary: a rule: once_str.induct) (auto simp: starts_with_iff split: if_splits)

lemma once_str_first:
  "p \<noteq> [] \<Longrightarrow> \<forall>c \<in> set body. c \<notin> set p \<Longrightarrow> once_str p (body @ p @ b) = Some (body, b)"
proof (induction body)
  case Nil
  then show ?case by (cases p) (auto simp: starts_with_iff)
next
  case (Cons c cs)
  then have "\<not> starts_with (c # cs @ p @ b) p" by (cases p) (auto simp: starts_with_def)
  then show ?case using Cons by simp
qed

lemma split_str_hd: "\<exists>x xs. split_str p s = x # xs \<and> (\<exists>r. s = x @ r)"
  by (induction p s rule: split_str.induct)
    (subst split_str.simps, fastforce split: list.splits if_splits)

text \<open>Every later piece follows an opening.\<close>

lemma split_str_tail:
  "tail \<in> set (tl (split_str p s)) \<Longrightarrow> \<exists>before rest. s = before @ p @ tail @ rest"
proof (induction p s rule: split_str.induct)
  case (1 p s)
  show ?case
  proof (cases s)
    case Nil
    then show ?thesis using "1.prems" by (simp add: split_str.simps)
  next
    case (Cons c cs)
    show ?thesis
    proof (cases "p \<noteq> [] \<and> starts_with s p")
      case True
      then obtain t where t: "s = p @ t" by (auto simp: starts_with_iff)
      obtain x xs r where x: "split_str p t = x # xs" "t = x @ r" using split_str_hd [of p t] by blast
      have "drop (length p) s = t" by (simp add: t)
      then have "split_str p s = [] # split_str p t"
        using True Cons by (subst split_str.simps) simp
      then consider "tail = x" | "tail \<in> set (tl (split_str p t))" using "1.prems" x by auto
      then show ?thesis
      proof cases
        case 1
        then show ?thesis using t x(2) by (intro exI [of _ "[]"] exI [of _ r]) simp
      next
        case 2
        then obtain before rest where "t = before @ p @ tail @ rest"
          using "1.IH"(1) [OF Cons] True t Cons by auto
        then show ?thesis using t by (intro exI [of _ "p @ before"] exI [of _ rest]) simp
      qed
    next
      case False
      obtain x xs where x: "split_str p cs = x # xs" using split_str_hd [of p cs] by blast
      have "split_str p s = (c # x) # xs"
        using False Cons x by (subst split_str.simps) simp
      then obtain before rest where "cs = before @ p @ tail @ rest"
        using "1.IH"(2) [OF Cons False] x "1.prems" by auto
      then show ?thesis using Cons by (intro exI [of _ "c # before"] exI [of _ rest]) simp
    qed
  qed
qed

lemma unresolved_sound:
  assumes "unresolved command"
  shows "\<exists>(ob, cb) \<in> set placeholder_pairs. has_placeholder ob cb command"
proof -
  obtain ob cb tail body b where p: "(ob, cb) \<in> set placeholder_pairs"
    "tail \<in> set (tl (split_str ob command))" "once_str cb tail = Some (body, b)"
    "placeholder_body ob cb body"
    using assms unfolding unresolved_def by (auto split: option.splits)
  obtain before rest where "command = before @ ob @ tail @ rest" using split_str_tail [OF p(2)] by blast
  then have "command = before @ ob @ body @ cb @ (b @ rest)" using once_str_Some [OF p(3)] by simp
  then have "has_placeholder ob cb command" unfolding has_placeholder_def using p(4) by blast
  then show ?thesis using p(1) by blast
qed

text \<open>An opening whose first character does not come again in it is found wherever it stands.\<close>

lemma split_str_skip:
  "\<forall>c \<in> set a. c \<noteq> q \<Longrightarrow> split_str (q # p) (a @ s) =
     (case split_str (q # p) s of x # xs \<Rightarrow> (a @ x) # xs | [] \<Rightarrow> [a])"
proof (induction a)
  case Nil
  then show ?case using split_str_hd [of "q # p" s] by auto
next
  case (Cons c cs)
  have "split_str (q # p) (c # cs @ s) = (case split_str (q # p) (cs @ s) of [] \<Rightarrow> [[c]] | x # xs \<Rightarrow> (c # x) # xs)"
    using Cons.prems by (subst split_str.simps) (simp add: starts_with_def)
  then show ?case using Cons split_str_hd [of "q # p" s] by auto
qed

lemma split_str_at:
  assumes "q \<notin> set p"
  shows "\<exists>xs. split_str (q # p) (a @ (q # p) @ t) = xs @ split_str (q # p) t \<and> xs \<noteq> []"
proof (induction a rule: length_induct)
  case (1 a)
  show ?case
  proof (cases a)
    case Nil
    have "split_str (q # p) ((q # p) @ t) = [] # split_str (q # p) t"
      by (subst split_str.simps) (simp add: starts_with_def)
    then show ?thesis using Nil by (intro exI [of _ "[[]]"]) simp
  next
    case (Cons c cs)
    show ?thesis
    proof (cases "starts_with (a @ (q # p) @ t) (q # p)")
      case True
      then obtain r where r: "a @ (q # p) @ t = (q # p) @ r" by (auto simp: starts_with_iff)
      have len: "length (q # p) \<le> length a"
      proof (rule ccontr)
        assume "\<not> length (q # p) \<le> length a"
        then have l: "length a < length (q # p)" by simp
        have "(a @ (q # p) @ t) ! length a = q" by simp
        moreover have "((q # p) @ r) ! length a = p ! (length a - 1)"
          using l Cons by (simp add: nth_append)
        moreover have "p ! (length a - 1) \<in> set p" using l Cons by (intro nth_mem) simp
        ultimately show False using arg_cong [OF r, of "\<lambda>s. s ! length a"] assms by simp
      qed
      then obtain a' where a': "a = (q # p) @ a'"
        using r by (metis append_eq_append_conv_if append_take_drop_id)
      obtain xs where xs: "split_str (q # p) (a' @ (q # p) @ t) = xs @ split_str (q # p) t" "xs \<noteq> []"
        using 1 a' by (metis length_append less_add_same_cancel2 length_greater_0_conv list.distinct(1))
      have "split_str (q # p) (a @ (q # p) @ t) = [] # split_str (q # p) (a' @ (q # p) @ t)"
        using a' by (subst split_str.simps) (simp add: starts_with_def)
      then show ?thesis using xs by (intro exI [of _ "[] # xs"]) simp
    next
      case False
      obtain xs where xs: "split_str (q # p) (cs @ (q # p) @ t) = xs @ split_str (q # p) t" "xs \<noteq> []"
        using 1 Cons by auto
      have "split_str (q # p) (a @ (q # p) @ t) =
          (case split_str (q # p) (cs @ (q # p) @ t) of [] \<Rightarrow> [[c]] | x # ys \<Rightarrow> (c # x) # ys)"
        using False Cons by (subst split_str.simps) simp
      then show ?thesis using xs
        by (cases xs) (auto intro: exI [of _ "(c # hd xs) # tl xs"])
    qed
  qed
qed

lemma unresolved_found:
  assumes "has_placeholder (q # p) cb command" and "(q # p, cb) \<in> set placeholder_pairs"
    and "q \<notin> set p" and "q \<notin> set cb" and "cb \<noteq> []"
  shows "unresolved command"
proof -
  obtain before body after where c: "command = before @ (q # p) @ body @ cb @ after"
    "placeholder_body (q # p) cb body"
    using assms(1) unfolding has_placeholder_def by blast
  let ?t = "body @ cb @ after"
  obtain xs where xs: "split_str (q # p) command = xs @ split_str (q # p) ?t" "xs \<noteq> []"
    using split_str_at [OF assms(3)] c(1) by blast
  have "\<forall>c \<in> set (body @ cb). c \<noteq> q" using c(2) assms(4) by (auto simp: placeholder_body_def)
  from split_str_skip [OF this, of p after] obtain x ys where
    x: "split_str (q # p) ?t = (body @ cb @ x) # ys"
    using split_str_hd [of "q # p" after] by auto
  have tail: "body @ cb @ x \<in> set (tl (split_str (q # p) command))"
    using xs x by (cases xs) simp_all
  have "\<forall>c \<in> set body. c \<notin> set cb" using c(2) by (simp add: placeholder_body_def)
  from once_str_first [OF assms(5) this] have "once_str cb (body @ cb @ x) = Some (body, x)" .
  then show ?thesis unfolding unresolved_def using assms(2) tail c(2)
    by (intro bexI [OF _ assms(2)]) (auto intro!: bexI [OF _ tail])
qed


text \<open>A text counts as an unresolved template exactly when it holds a placeholder in angle or
  dollar braces, or one in double braces that the leftmost-first split of the text finds.\<close>

theorem placeholders_found:
  "(unresolved command \<longrightarrow>
      has_placeholder ''<'' ''>'' command \<or> has_placeholder ''{{'' ''}}'' command \<or> has_placeholder ''${'' ''}'' command) \<and>
   (has_placeholder ''<'' ''>'' command \<or> has_placeholder ''${'' ''}'' command \<longrightarrow> unresolved command)"
proof (intro conjI impI)
  assume "unresolved command"
  then show "has_placeholder ''<'' ''>'' command \<or> has_placeholder ''{{'' ''}}'' command \<or> has_placeholder ''${'' ''}'' command"
    using unresolved_sound [of command] by (auto simp: placeholder_pairs_def)
next
  assume "has_placeholder ''<'' ''>'' command \<or> has_placeholder ''${'' ''}'' command"
  then show "unresolved command"
    using unresolved_found [of "CHR ''<''" "[]" "''>''" command] unresolved_found [of "CHR ''$''" "''{''" "''}''" command]
    by (auto simp: placeholder_pairs_def)
qed

text \<open>Three opening braces hide a placeholder: the split takes the first two of them.\<close>

lemma triple_brace_hidden:
  "has_placeholder ''{{'' ''}}'' ''run {{{name}}}'' \<and> \<not> unresolved ''run {{{name}}}''"
proof
  have "''run {{{name}}}'' = ''run {'' @ ''{{'' @ ''name'' @ ''}}'' @ ''}'' \<and> placeholder_body ''{{'' ''}}'' ''name''"
    by code_simp
  then show "has_placeholder ''{{'' ''}}'' ''run {{{name}}}''" unfolding has_placeholder_def by blast
  show "\<not> unresolved ''run {{{name}}}''" by code_simp
qed

section \<open>What an admitted receipt shows\<close>

definition concrete_text :: "host \<Rightarrow> json \<Rightarrow> bool" where
  "concrete_text H v \<longleftrightarrow>
     trim (receipt_text H v) \<noteq> '''' \<and> \<not> unresolved (trim (receipt_text H v))"

lemma failing_Nil [simp]: "failing b r f s = [] \<longleftrightarrow> \<not> b"
  by (simp add: failing_def)

lemma command_verdict_admissible:
  "fst (command_verdict H v) = ''admissible'' \<longleftrightarrow> concrete_text H v"
  by (auto simp: command_verdict_def concrete_text_def Let_def)

lemma shape_failures_Nil:
  "shape_failures H F receipt timestamp = [] \<longleftrightarrow>
     ix receipt ''kind'' = JStr RECEIPT_KIND \<and> concrete_text H (ix receipt ''command'') \<and>
     result_class (observed_result H F (ix receipt ''result'')) \<noteq> '''' \<and> timestamp"
proof -
  obtain reason recovery where v: "command_verdict H (ix receipt ''command'') = (reason, recovery)" by fastforce
  have "reason = ''admissible'' \<longleftrightarrow> concrete_text H (ix receipt ''command'')"
    using command_verdict_admissible [of H "ix receipt ''command''"] by (simp add: v)
  moreover have "result_class '''' = ''''" by (simp add: result_class_def)
  ultimately show ?thesis by (auto simp: shape_failures_def v Let_def)
qed

lemma path_failures_Nil:
  "path_failures H receipt = [] \<longleftrightarrow>
     elements (ix receipt ''changed_paths'') \<noteq> [] \<and> (\<forall>p \<in> set (elements (ix receipt ''changed_paths'')). concrete_text H p)"
  by (auto simp: path_failures_def list_ex_iff abstract_path_def concrete_text_def)

lemma assignment_failures_Nil:
  "assignment_failures receipt (Some binding) = [] \<longleftrightarrow>
     (ix receipt ''assignment_proof_obligation'' \<noteq> JNull \<longrightarrow>
        at [''assignment_proof_obligation'', ''kind''] receipt =
          JStr ''agentic-workspace/assignment-task-proof-obligation/v1'' \<and>
        ix receipt ''producer_class'' = JStr ''aw-proof'' \<and> ix receipt ''authority'' = JStr ''aw-proof'' \<and>
        ix receipt ''assignment_proof_binding'' = JStr binding)"
  by (simp add: assignment_failures_def json_simps del: at_simps)

lemma admit_receipt_fields:
  "ix (admit_receipt H F receipt timestamp binding) ''admitted'' =
     JBool (shape_failures H F receipt timestamp @ path_failures H receipt @ assignment_failures receipt binding = [])"
  "ix (admit_receipt H F receipt timestamp binding) ''proof_sufficient'' =
     JBool (shape_failures H F receipt timestamp @ path_failures H receipt @ assignment_failures receipt binding = [] \<and>
       result_class (observed_result H F (ix receipt ''result'')) = ''passed'')"
  by (simp_all add: admit_receipt_def Let_def receipt_result_def)

text \<open>C38: A receipt is admitted exactly when its kind is right, its command and all its changed
  paths are concrete, its result is of a known class and its time is valid, and a receipt of
  an assignment was produced by the workspace's own proof producer under the binding that is
  recomputed from the receipt itself; it suffices as proof exactly when it is admitted and
  its result is a pass.\<close>

theorem receipt_admitted_iff:
  assumes "receipt_view H F v = Inr out" and "ix v ''action'' = JStr ''admit''"
  shows "\<exists>binding. assignment_binding H F (ix v ''receipt'') = Inr binding \<and>
    (let receipt = ix v ''receipt''; class = result_class (observed_result H F (ix receipt ''result'')) in
      (ix out ''admitted'' = JBool True \<longleftrightarrow>
        ix receipt ''kind'' = JStr RECEIPT_KIND \<and> concrete_text H (ix receipt ''command'') \<and>
        class \<in> {''passed'', ''failed'', ''skipped'', ''waived''} \<and> ix v ''timestamp_valid'' = JBool True \<and>
        elements (ix receipt ''changed_paths'') \<noteq> [] \<and>
        (\<forall>p \<in> set (elements (ix receipt ''changed_paths'')). concrete_text H p) \<and>
        (ix receipt ''assignment_proof_obligation'' \<noteq> JNull \<longrightarrow>
          at [''assignment_proof_obligation'', ''kind''] receipt =
            JStr ''agentic-workspace/assignment-task-proof-obligation/v1'' \<and>
          ix receipt ''producer_class'' = JStr ''aw-proof'' \<and> ix receipt ''authority'' = JStr ''aw-proof'' \<and>
          ix receipt ''assignment_proof_binding'' = JStr binding)) \<and>
      (ix out ''proof_sufficient'' = JBool True \<longleftrightarrow> ix out ''admitted'' = JBool True \<and> class = ''passed''))"
proof -
  obtain binding where b: "assignment_binding H F (ix v ''receipt'') = Inr binding"
    "out = admit_receipt H F (ix v ''receipt'') (ix v ''timestamp_valid'' = JBool True) (Some binding)"
    using assms by (auto simp: receipt_view_def admit_derived_def and_then_Inr_iff split: if_splits)
  have c: "result_class s \<noteq> '''' \<longleftrightarrow> result_class s \<in> {''passed'', ''failed'', ''skipped'', ''waived''}" for s
    by (simp add: result_class_def)
  show ?thesis
    using b(1) unfolding Let_def b(2) admit_receipt_fields append_is_Nil_conv shape_failures_Nil path_failures_Nil
      assignment_failures_Nil c json.inject by blast
qed

end
