(* ===== verification/Proof_Subject.thy ===== *)
theory Proof_Subject
  imports Dependency Packet Task_Judgment
begin

text \<open>
  The identity of a proof (\<open>src/src/core/src/proof_subject.rs\<close>): the roles of the changed paths,
  the observed inputs, the fingerprint over what a proof depends on, and the comparison of a
  stored subject with the current one. The files are read through the world of
  \<open>Dependency\<close>; a target has none when its directory cannot be opened.
\<close>

section \<open>Paths and roles\<close>

definition PROOF_SUBJECT :: str where
  "PROOF_SUBJECT = ''agentic-workspace/proof-subject/v1''"

definition RECEIPTS :: str where
  "RECEIPTS = ''.agentic-workspace/proof/receipts/''"

definition MANIFESTS :: str where
  "MANIFESTS = ''.agentic-workspace/proof/manifests/''"

definition CLOSEOUTS :: str where
  "CLOSEOUTS = ''.agentic-workspace/planning/closeout-evidence/''"

definition trim_controls :: "str \<Rightarrow> str" where
  "trim_controls s = trim_with split_space s"

definition normalized_path :: "str \<Rightarrow> str" where
  "normalized_path s = trim_controls (map (\<lambda>c. if c = CHR 0x5C then CHR 0x2F else c) s)"

definition normalized_set :: "str list \<Rightarrow> str list" where
  "normalized_set vs = sort_dedup (filter (\<lambda>s. s \<noteq> '''') (map normalized_path vs))"

definition publication_output :: "str \<Rightarrow> bool" where
  "publication_output p \<longleftrightarrow> (\<exists>w \<in> set [RECEIPTS, MANIFESTS, CLOSEOUTS]. starts_with p w)"

definition role_row :: "str \<Rightarrow> str \<Rightarrow> str \<Rightarrow> str \<Rightarrow> json" where
  "role_row p owner role reason = obj
     [(''path'', JStr p), (''owner'', JStr owner), (''role'', JStr role), (''reason'', JStr reason)]"

definition dependency_role :: "str \<Rightarrow> str list \<Rightarrow> json" where
  "dependency_role path explicit =
     (let p = normalized_path path in
      if p \<in> set (normalized_set explicit) then role_row p ''claim'' ''semantic-input'' ''explicit-claim-dependency''
      else
        role_row p
          (if starts_with p RECEIPTS then ''canonical-proof-receipt-publication''
           else if starts_with p CLOSEOUTS then ''planning-closeout-evidence-publication'' else ''claim'')
          (if publication_output p then ''evidence-output'' else ''semantic-input'')
          (if publication_output p then ''proof-owned-publication-output'' else ''declared-proof-subject-input''))"

definition semantic_role :: "json \<Rightarrow> bool" where
  "semantic_role v \<longleftrightarrow> ix v ''role'' = JStr ''semantic-input''"

section \<open>Observed inputs\<close>

text \<open>\<open>u64::MAX - 1\<close>: any size, and the read of one byte more does not wrap.\<close>

definition SUBJECT_LIMIT :: u64 where
  "SUBJECT_LIMIT = - 2"

definition source_input :: "host \<Rightarrow> world \<Rightarrow> nat \<Rightarrow> str \<Rightarrow> json res" where
  "source_input H W t path =
     and_then (observe_raw_with_limit H W path SUBJECT_LIMIT t) (\<lambda>seen.
     Inr (case seen of
       Some (hash, _) \<Rightarrow> obj [(''path'', JStr path), (''sha256'', JStr (drop 7 hash))]
     | None \<Rightarrow> obj [(''path'', JStr path), (''state'', JStr ''absent'')]))"

text \<open>The world of the target, and when the read of each path starts.\<close>

type_synonym target_view = "world option \<times> (str \<Rightarrow> nat)"

definition observed_input :: "host \<Rightarrow> target_view \<Rightarrow> str \<Rightarrow> json option" where
  "observed_input H V path =
     (case fst V of
        None \<Rightarrow> None
      | Some W \<Rightarrow> (case source_input H W (snd V path) path of Inl _ \<Rightarrow> None | Inr row \<Rightarrow> Some row))"

section \<open>The subject\<close>

definition nonempty_or :: "str list \<Rightarrow> str list option \<Rightarrow> str list" where
  "nonempty_or fallback v = (case v of Some (x # xs) \<Rightarrow> x # xs | _ \<Rightarrow> fallback)"

definition claim_set :: "str list option \<Rightarrow> str list" where
  "claim_set claims =
     sort_dedup (filter (\<lambda>s. s \<noteq> '''') (map trim_controls (nonempty_or [''executable-validation''] claims)))"

definition manual_claims :: "str list \<Rightarrow> bool" where
  "manual_claims claims \<longleftrightarrow> claims \<noteq> [] \<and> list_all (\<lambda>v. v \<in> {''manual-review'', ''documentation-review''}) claims"

record subject_request =
  sr_changed :: "str list"
  sr_command :: str
  sr_claims :: "str list option"
  sr_effects :: "str list option"
  sr_explicit :: "str list"
  sr_runtime :: json

definition role_rows :: "subject_request \<Rightarrow> json list" where
  "role_rows q = map (\<lambda>p. dependency_role p (sr_explicit q)) (normalized_set (sr_changed q))"

definition semantic_paths :: "subject_request \<Rightarrow> str list" where
  "semantic_paths q = map (\<lambda>v. string_or (ix v ''path'')) (filter semantic_role (role_rows q))"

definition evidence_outputs :: "subject_request \<Rightarrow> json list" where
  "evidence_outputs q = filter (\<lambda>v. ix v ''role'' = JStr ''evidence-output'') (role_rows q)"

definition effect_set :: "subject_request \<Rightarrow> str list" where
  "effect_set q = filter (\<lambda>p. semantic_role (dependency_role p (sr_explicit q)))
     (normalized_set (nonempty_or (semantic_paths q) (sr_effects q)))"

definition source_rows :: "host \<Rightarrow> target_view \<Rightarrow> subject_request \<Rightarrow> json list" where
  "source_rows H V q = List.map_filter (observed_input H V) (semantic_paths q)"

definition unavailable_inputs :: "host \<Rightarrow> target_view \<Rightarrow> subject_request \<Rightarrow> str list" where
  "unavailable_inputs H V q = filter (\<lambda>p. observed_input H V p = None) (semantic_paths q)"

definition identity_complete :: "host \<Rightarrow> target_view \<Rightarrow> subject_request \<Rightarrow> bool" where
  "identity_complete H V q \<longleftrightarrow>
     source_rows H V q \<noteq> [] \<and> unavailable_inputs H V q = [] \<or>
     semantic_paths q = [] \<and> manual_claims (claim_set (sr_claims q)) \<and>
       (case sr_effects q of Some es \<Rightarrow> es \<noteq> [] | None \<Rightarrow> False)"

text \<open>What the fingerprint is taken of.\<close>

definition subject_identity :: "host \<Rightarrow> target_view \<Rightarrow> subject_request \<Rightarrow> (str \<times> json) list" where
  "subject_identity H V q =
     [(''claim_classes'', jstrs (claim_set (sr_claims q))), (''effect_scope'', jstrs (effect_set q)),
      (''source_inputs'', JArr (source_rows H V q)),
      (''command_sha256'', JStr (sha256_hex H (trim_controls (sr_command q)))), (''runtime'', sr_runtime q),
      (''identity_complete'', JBool (identity_complete H V q)),
      (''unavailable_inputs'', jstrs (unavailable_inputs H V q))]"

definition SUBJECT_RULE :: str where
  "SUBJECT_RULE = ''Only declared semantic inputs participate in proof freshness; proof-owned publication outputs are diagnostic unless this claim explicitly declares them as semantic inputs.''"

definition subject_details :: "host \<Rightarrow> target_view \<Rightarrow> subject_request \<Rightarrow> str \<Rightarrow> (str \<times> json) list" where
  "subject_details H V q hash =
     [(''kind'', JStr PROOF_SUBJECT), (''id'', JStr (fmt [''proof-subject:'', take 20 hash])), (''fingerprint'', JStr hash),
      (''dependency_roles'', JArr (role_rows q)), (''evidence_outputs'', JArr (evidence_outputs q)),
      (''dependency_scope'', JStr ''declared-path-and-command''),
      (''fallback'', JStr (if identity_complete H V q then ''not-required'' else ''whole-state-required'')),
      (''rule'', JStr SUBJECT_RULE)]"

definition build_subject :: "host \<Rightarrow> float_env \<Rightarrow> target_view \<Rightarrow> subject_request \<Rightarrow> json res" where
  "build_subject H F V q =
     (if (case as_object (sr_runtime q) of None \<Rightarrow> True | Some m \<Rightarrow> m = [])
      then Inl (err ''proof runtime observations are required'')
      else
      and_then (fingerprint H F (obj (subject_identity H V q))) (\<lambda>hash.
      Inr (obj (subject_identity H V q @ subject_details H V q hash))))"

section \<open>Comparison\<close>

definition input_paths :: "json \<Rightarrow> str list" where
  "input_paths subject = List.map_filter (\<lambda>v. as_str (ix v ''path'')) (elements (ix subject ''source_inputs''))"

definition subject_verdict :: "json \<Rightarrow> json \<Rightarrow> str \<times> str" where
  "subject_verdict stored current =
     (if ix stored ''kind'' \<noteq> JStr PROOF_SUBJECT \<or> ix current ''kind'' \<noteq> JStr PROOF_SUBJECT
      then (''unverifiable'', ''proof-subject-kind-mismatch'')
      else if ix stored ''identity_complete'' \<noteq> JBool True \<or> ix current ''identity_complete'' \<noteq> JBool True
        \<or> \<not> is_fingerprint (ix stored ''fingerprint'') \<or> \<not> is_fingerprint (ix current ''fingerprint'')
      then (''unverifiable'', ''incomplete-subject-identity'')
      else if ix stored ''claim_classes'' \<noteq> ix current ''claim_classes'' then (''incompatible'', ''claim-class-changed'')
      else if ix stored ''fingerprint'' = ix current ''fingerprint'' then (''reusable'', ''subject-fingerprint-match'')
      else if set (input_paths stored) \<inter> set (input_paths current) = {}
      then (''partially-reusable'', ''independent-subject-scope'')
      else (''stale'', ''dependency-input-changed''))"

definition compare_subjects :: "json \<Rightarrow> json \<Rightarrow> str \<Rightarrow> json" where
  "compare_subjects stored current rerun =
     (case subject_verdict stored current of (status, reason) \<Rightarrow> obj
        [(''status'', JStr status), (''reasons'', jstrs [reason]),
         (''minimum_rerun_command'', JStr (if status = ''reusable'' then '''' else rerun))])"

section \<open>The view\<close>

definition legacy_subject :: "str \<Rightarrow> json" where
  "legacy_subject command = obj
     [(''status'', JStr ''unverifiable''), (''reasons'', jstrs [''legacy-receipt-without-proof-subject'']),
      (''minimum_rerun_command'', JStr command),
      (''rule'', JStr ''Legacy receipts remain visible for migration but cannot demonstrate dependency-scoped equivalence.'')]"

definition subject_strings :: "str \<Rightarrow> json \<Rightarrow> str list option res" where
  "subject_strings field v = opt_try strings_in (as_array (ix v field))"

definition classify_receipt ::
  "host \<Rightarrow> float_env \<Rightarrow> (str \<Rightarrow> target_view) \<Rightarrow> json \<Rightarrow> str list \<Rightarrow> json \<Rightarrow> json res" where
  "classify_receipt H F T v paths receipt =
     (let command = trim_controls (string_or (ix receipt ''command'')); stored = ix receipt ''proof_subject'' in
      if ix stored ''kind'' \<noteq> JStr PROOF_SUBJECT then Inr (legacy_subject command)
      else
      and_then (string_at ''target'' v) (\<lambda>target.
      and_then (build_subject H F (T target) \<lparr>sr_changed = paths, sr_command = command, sr_claims = None,
          sr_effects = None, sr_explicit = [], sr_runtime = ix v ''runtime''\<rparr>) (\<lambda>current.
      Inr (compare_subjects stored current command))))"

definition classify_many :: "host \<Rightarrow> float_env \<Rightarrow> (nat \<Rightarrow> str \<Rightarrow> target_view) \<Rightarrow> json \<Rightarrow> json res" where
  "classify_many H F T v =
     and_then (subject_strings ''changed_paths'' v) (\<lambda>given.
     and_then (ok_or given panic) (\<lambda>paths.
     and_then (array_at ''receipts'' v) (\<lambda>receipts.
     and_then (collect_ix (\<lambda>k. classify_receipt H F (T k) v paths) 0 receipts) (\<lambda>results.
     Inr (obj [(''results'', JArr results)])))))"

text \<open>\<open>build\<close> and \<open>classify\<close>.\<close>

definition build_or_classify :: "host \<Rightarrow> float_env \<Rightarrow> (str \<Rightarrow> target_view) \<Rightarrow> str \<Rightarrow> json \<Rightarrow> json res" where
  "build_or_classify H F T action v =
     and_then (string_at ''command'' v) (\<lambda>command.
     let stored = at [''receipt'', ''proof_subject''] v in
     if action = ''classify'' \<and> ix stored ''kind'' \<noteq> JStr PROOF_SUBJECT then Inr (legacy_subject command)
     else
     and_then (string_at ''target'' v) (\<lambda>target.
     and_then (subject_strings ''changed_paths'' v) (\<lambda>given.
     and_then (ok_or given panic) (\<lambda>paths.
     and_then (subject_strings ''claim_classes'' v) (\<lambda>claims.
     and_then (subject_strings ''effect_scope'' v) (\<lambda>effects.
     and_then (subject_strings ''semantic_input_paths'' v) (\<lambda>explicit.
     and_then (build_subject H F (T target) \<lparr>sr_changed = paths, sr_command = command, sr_claims = claims,
         sr_effects = effects, sr_explicit = (case explicit of None \<Rightarrow> [] | Some e \<Rightarrow> e), sr_runtime = ix v ''runtime''\<rparr>) (\<lambda>subject.
     Inr (if action = ''classify'' then compare_subjects stored subject command else subject)))))))))"

definition proof_subject_view :: "host \<Rightarrow> float_env \<Rightarrow> (nat \<Rightarrow> str \<Rightarrow> target_view) \<Rightarrow> json \<Rightarrow> json res" where
  "proof_subject_view H F T v =
     and_then (check_part H ''proof_subject_input'' ''proof subject'' v) (\<lambda>_.
     and_then (string_at ''action'' v) (\<lambda>action.
     if action = ''classify-many'' then classify_many H F T v
     else if action = ''dependency-role'' then
       and_then (string_at ''path'' v) (\<lambda>p.
       and_then (subject_strings ''semantic_input_paths'' v) (\<lambda>explicit.
       Inr (dependency_role p (case explicit of None \<Rightarrow> [] | Some e \<Rightarrow> e))))
     else if action = ''compare'' then
       Inr (compare_subjects (ix v ''stored'') (ix v ''current'') (string_or (ix v ''minimum_rerun_command'')))
     else build_or_classify H F (T 0) action v))"

section \<open>What a subject identifies\<close>

lemma ix_identity [simp]:
  "ix (obj (subject_identity H V q @ xs)) ''claim_classes'' = jstrs (claim_set (sr_claims q))"
  "ix (obj (subject_identity H V q @ xs)) ''effect_scope'' = jstrs (effect_set q)"
  "ix (obj (subject_identity H V q @ xs)) ''source_inputs'' = JArr (source_rows H V q)"
  "ix (obj (subject_identity H V q @ xs)) ''command_sha256'' = JStr (sha256_hex H (trim_controls (sr_command q)))"
  "ix (obj (subject_identity H V q @ xs)) ''runtime'' = sr_runtime q"
  "ix (obj (subject_identity H V q @ xs)) ''identity_complete'' = JBool (identity_complete H V q)"
  "ix (obj (subject_identity H V q @ xs)) ''unavailable_inputs'' = jstrs (unavailable_inputs H V q)"
  by (simp_all add: subject_identity_def)

lemma ix_details [simp]:
  "ix (obj (subject_identity H V q @ subject_details H V q hash)) ''kind'' = JStr PROOF_SUBJECT"
  "ix (obj (subject_identity H V q @ subject_details H V q hash)) ''fingerprint'' = JStr hash"
  by (simp_all add: subject_identity_def subject_details_def)

lemma build_subject_Inr:
  assumes "build_subject H F V q = Inr subject"
  obtains hash where "fingerprint H F (obj (subject_identity H V q)) = Inr hash"
    and "subject = obj (subject_identity H V q @ subject_details H V q hash)"
  using assms by (auto simp: build_subject_def and_then_Inr_iff split: if_splits)

lemma observed_path: "observed_input H V p = Some row \<Longrightarrow> ix row ''path'' = JStr p"
  by (auto simp: observed_input_def source_input_def and_then_def split: option.splits sum.splits)

lemma source_rows_complete:
  "unavailable_inputs H V q = [] \<Longrightarrow> map (\<lambda>p. Some p) (source_rows H V q) = map (observed_input H V) (semantic_paths q)"
proof -
  have "filter (\<lambda>p. observed_input H V p = None) ps = [] \<Longrightarrow>
      map Some (List.map_filter (observed_input H V) ps) = map (observed_input H V) ps" for ps
    by (induction ps) (auto simp: List.map_filter_simps split: if_splits)
  then show "unavailable_inputs H V q = [] \<Longrightarrow> ?thesis"
    by (simp add: unavailable_inputs_def source_rows_def)
qed

lemma rows_paths:
  assumes "map Some rows = map (observed_input H V) ps"
  shows "map (\<lambda>row. ix row ''path'') rows = map JStr ps"
  using assms
proof (induction ps arbitrary: rows)
  case (Cons p ps)
  then obtain row rest where r: "rows = row # rest" "observed_input H V p = Some row"
    "map Some rest = map (observed_input H V) ps" by (cases rows) auto
  then show ?case using Cons.IH [OF r(3)] observed_path [OF r(2)] by simp
qed simp

text \<open>The inputs two subjects are made of.\<close>

definition same_subject :: "host \<Rightarrow> target_view \<Rightarrow> subject_request \<Rightarrow> target_view \<Rightarrow> subject_request \<Rightarrow> bool" where
  "same_subject H V q V' q' \<longleftrightarrow>
     claim_set (sr_claims q) = claim_set (sr_claims q') \<and> effect_set q = effect_set q' \<and>
     sha256_hex H (trim_controls (sr_command q)) = sha256_hex H (trim_controls (sr_command q')) \<and>
     sr_runtime q = sr_runtime q' \<and> semantic_paths q = semantic_paths q' \<and>
     (\<forall>p \<in> set (semantic_paths q). observed_input H V p = observed_input H V' p)"

lemma jstrs_inject [simp]: "jstrs xs = jstrs ys \<longleftrightarrow> xs = ys"
  by (simp add: jstrs_def inj_map_eq_map inj_def)

lemma same_subject_rows:
  assumes "same_subject H V q V' q'"
  shows "source_rows H V q = source_rows H V' q'" and "unavailable_inputs H V q = unavailable_inputs H V' q'"
proof -
  have "semantic_paths q = semantic_paths q'" "\<forall>p \<in> set (semantic_paths q). observed_input H V p = observed_input H V' p"
    using assms by (simp_all add: same_subject_def)
  then show "source_rows H V q = source_rows H V' q'" "unavailable_inputs H V q = unavailable_inputs H V' q'"
    by (auto simp: source_rows_def unavailable_inputs_def List.map_filter_def intro!: map_cong filter_cong)
qed

lemma complete_rows:
  assumes "identity_complete H V q"
  shows "map Some (source_rows H V q) = map (observed_input H V) (semantic_paths q)"
proof (cases "semantic_paths q = []")
  case True
  then show ?thesis by (simp add: source_rows_def List.map_filter_simps)
next
  case False
  then show ?thesis using assms by (intro source_rows_complete) (simp add: identity_complete_def)
qed

lemma same_identity_subject:
  assumes "obj (subject_identity H V q) = obj (subject_identity H V' q')"
    and "identity_complete H V q" and "identity_complete H V' q'"
  shows "same_subject H V q V' q'"
proof -
  note field = arg_cong [OF assms(1), of "\<lambda>v. ix v k" for k]
  have same: "claim_set (sr_claims q) = claim_set (sr_claims q')" "effect_set q = effect_set q'"
    "sha256_hex H (trim_controls (sr_command q)) = sha256_hex H (trim_controls (sr_command q'))"
    "sr_runtime q = sr_runtime q'" and rows: "source_rows H V q = source_rows H V' q'"
    using field [of "''claim_classes''"] field [of "''effect_scope''"] field [of "''command_sha256''"]
      field [of "''runtime''"] field [of "''source_inputs''"] ix_identity(1-5) [where xs = "[]"] by simp_all
  have s: "map Some (source_rows H V q) = map (observed_input H V) (semantic_paths q)"
    and s': "map Some (source_rows H V q) = map (observed_input H V') (semantic_paths q')"
    using complete_rows [OF assms(2)] complete_rows [OF assms(3)] rows by simp_all
  have "map JStr (semantic_paths q) = map JStr (semantic_paths q')"
    using rows_paths [OF s] rows_paths [OF s'] by simp
  then have p: "semantic_paths q = semantic_paths q'" by (simp add: inj_map_eq_map inj_def)
  then have "map (observed_input H V) (semantic_paths q) = map (observed_input H V') (semantic_paths q)"
    using s s' by simp
  then show ?thesis using same p by (auto simp: same_subject_def)
qed

lemma verdict_reusable:
  "fst (subject_verdict stored current) = ''reusable'' \<longleftrightarrow>
     ix stored ''kind'' = JStr PROOF_SUBJECT \<and> ix current ''kind'' = JStr PROOF_SUBJECT \<and>
     ix stored ''identity_complete'' = JBool True \<and> ix current ''identity_complete'' = JBool True \<and>
     is_fingerprint (ix stored ''fingerprint'') \<and> is_fingerprint (ix current ''fingerprint'') \<and>
     ix stored ''claim_classes'' = ix current ''claim_classes'' \<and> ix stored ''fingerprint'' = ix current ''fingerprint''"
  by (simp add: subject_verdict_def) blast

text \<open>C36: A stored proof is reusable exactly when both identities are complete and nothing it depends on
  changed: the same claims, effects, command and runtime, and the same inputs, each of which
  is observed now as it was observed then. (The fingerprint is a digest: the two identities
  are assumed not to collide.)\<close>

theorem reusable_iff:
  assumes "build_subject H F V q = Inr stored" and "build_subject H F V' q' = Inr current"
    and "inj_on (fingerprint H F) {obj (subject_identity H V q), obj (subject_identity H V' q')}"
    and "\<And>s. length (sha256_hex H s) = 64 \<and> list_all lower_hex (sha256_hex H s)"
  shows "fst (subject_verdict stored current) = ''reusable'' \<longleftrightarrow>
    identity_complete H V q \<and> identity_complete H V' q' \<and> same_subject H V q V' q'"
proof -
  obtain hash where h: "fingerprint H F (obj (subject_identity H V q)) = Inr hash"
    "stored = obj (subject_identity H V q @ subject_details H V q hash)" by (rule build_subject_Inr [OF assms(1)])
  obtain hash' where h': "fingerprint H F (obj (subject_identity H V' q')) = Inr hash'"
    "current = obj (subject_identity H V' q' @ subject_details H V' q' hash')" by (rule build_subject_Inr [OF assms(2)])
  have "is_fingerprint (JStr (sha256_hex H s))" for s using assms(4) [of s] by (simp add: is_fingerprint_def)
  then have f: "is_fingerprint (JStr hash)" "is_fingerprint (JStr hash')"
    using h(1) h'(1) by (auto simp: fingerprint_def and_then_Inr_iff)
  have v: "fst (subject_verdict stored current) = ''reusable'' \<longleftrightarrow>
      identity_complete H V q \<and> identity_complete H V' q' \<and>
      claim_set (sr_claims q) = claim_set (sr_claims q') \<and> hash = hash'"
    unfolding verdict_reusable h(2) h'(2) ix_identity ix_details jstrs_inject json.inject
    by (simp only: f simp_thms)
  have e: "hash = hash' \<longleftrightarrow> obj (subject_identity H V q) = obj (subject_identity H V' q')"
    using inj_on_eq_iff [OF assms(3) insertI1 insertI2 [OF insertI1]] unfolding h(1) h'(1) sum.inject .
  have b: "obj (subject_identity H V q) = obj (subject_identity H V' q')"
    if "identity_complete H V q" "identity_complete H V' q'" "same_subject H V q V' q'"
    using that same_subject_rows [OF that(3)] by (simp add: same_subject_def subject_identity_def)
  have c: "claim_set (sr_claims q) = claim_set (sr_claims q')" if "same_subject H V q V' q'"
    using that by (simp add: same_subject_def)
  show ?thesis
    unfolding v e using same_identity_subject [of H V q V' q'] b c by blast
qed

section \<open>Publication outputs\<close>

lemma filter_sort_dedup: "filter P (sort_dedup xs) = sort_dedup (filter P xs)"
  by (rule sort_dedup_unique [symmetric]) simp_all

lemma semantic_paths_outputs:
  assumes "\<And>o'. o' \<in> set outs \<Longrightarrow> \<not> semantic_role (dependency_role (normalized_path o') (sr_explicit q))"
  shows "semantic_paths (q\<lparr>sr_changed := sr_changed q @ outs\<rparr>) = semantic_paths q"
proof -
  let ?P = "\<lambda>p. semantic_role (dependency_role p (sr_explicit q))"
  have n: "filter ?P (filter (\<lambda>s. s \<noteq> '''') (map normalized_path outs)) = []"
    using assms by (auto simp: filter_empty_conv)
  have "filter ?P (normalized_set (sr_changed q @ outs)) = filter ?P (normalized_set (sr_changed q))"
    unfolding normalized_set_def filter_sort_dedup map_append filter_append n by simp
  then show ?thesis by (simp add: semantic_paths_def role_rows_def filter_map comp_def)
qed

text \<open>C37: Publishing evidence never expires a proof: changed paths that are proof-owned outputs alter
  nothing of what a subject identifies, so its fingerprint and its verdict against any stored
  subject stay.\<close>

theorem outputs_never_expire:
  assumes "build_subject H F V q = Inr subject"
    and "\<And>o'. o' \<in> set outs \<Longrightarrow> \<not> semantic_role (dependency_role (normalized_path o') (sr_explicit q))"
  shows "\<exists>subject'. build_subject H F V (q\<lparr>sr_changed := sr_changed q @ outs\<rparr>) = Inr subject' \<and>
    (\<forall>stored. subject_verdict stored subject' = subject_verdict stored subject)"
proof -
  let ?q = "q\<lparr>sr_changed := sr_changed q @ outs\<rparr>"
  obtain hash where h: "fingerprint H F (obj (subject_identity H V q)) = Inr hash"
    "subject = obj (subject_identity H V q @ subject_details H V q hash)" by (rule build_subject_Inr [OF assms(1)])
  have sp: "semantic_paths ?q = semantic_paths q" by (rule semantic_paths_outputs) (rule assms(2))
  have i: "subject_identity H V ?q = subject_identity H V q"
    unfolding subject_identity_def effect_set_def source_rows_def unavailable_inputs_def identity_complete_def
      sp
    by simp
  have b: "build_subject H F V ?q = Inr (obj (subject_identity H V q @ subject_details H V ?q hash))"
    using assms(1) h(1) by (auto simp: build_subject_def i and_then_def split: if_splits)
  have "subject_verdict stored (obj (subject_identity H V q @ subject_details H V ?q hash)) = subject_verdict stored subject"
    for stored
    using ix_details [of H V ?q hash, unfolded i] unfolding h(2) subject_verdict_def input_paths_def by simp
  then show ?thesis using b by blast
qed

end
