(* ===== verification/Policy.thy ===== *)
theory Policy
  imports Routes Capability
begin

text \<open>
  The reduction of an assignment policy (\<open>src/src/core/src/assignment_policy.rs\<close>): the
  overlay of one configuration on another, and what the effective policy permits.
\<close>

section \<open>Overlay\<close>

function merge_policy :: "json \<Rightarrow> json \<Rightarrow> json"
  and merge_entries :: "(str, json) omap \<Rightarrow> (str, json) omap \<Rightarrow> (str, json) omap" where
  "merge_policy base over =
     (case over of
        JObj source \<Rightarrow> JObj (merge_entries source (case base of JObj m \<Rightarrow> m | _ \<Rightarrow> []))
      | _ \<Rightarrow> over)"
| "merge_entries [] result = result"
| "merge_entries ((k, v) # source) result =
     (let old = (case om_get result k of Some x \<Rightarrow> x | None \<Rightarrow> JNull) in
      merge_entries source
        (om_put k (if is_object v \<and> is_object old then merge_policy old v else v) result))"
  by pat_completeness auto
termination
  by (relation "measure (\<lambda>a. case a of Inl (_, v) \<Rightarrow> size v
      | Inr (source, _) \<Rightarrow> size_list (size_prod (\<lambda>_. 0) size) source)") simp_all

lemma merge_entries_get:
  assumes "om_ok source"
  shows "om_get (merge_entries source result) k =
    (case om_get source k of
       None \<Rightarrow> om_get result k
     | Some v \<Rightarrow>
         let old = (case om_get result k of Some x \<Rightarrow> x | None \<Rightarrow> JNull) in
         Some (if is_object v \<and> is_object old then merge_policy old v else v))"
  using assms
proof (induction source arbitrary: result)
  case (Cons p source)
  obtain k' v where p: "p = (k', v)" by fastforce
  have "om_ok source" using Cons.prems by (simp add: om_ok_def)
  moreover have "om_get source k' = None"
  proof -
    have "k' \<notin> fst ` set source" using Cons.prems by (auto simp: om_ok_def p)
    then show ?thesis by (simp add: map_of_eq_None_iff)
  qed
  ultimately show ?case
    using Cons.IH by (simp add: p Let_def om_get_put del: merge_policy.simps split: option.splits)
qed simp

lemma jget_merge:
  assumes "json_ok over" and "is_object over"
  shows "jget (merge_policy base over) k =
    (case jget over k of
       None \<Rightarrow> jget base k
     | Some v \<Rightarrow> Some (if is_object v \<and> is_object (ix base k) then merge_policy (ix base k) v else v))"
proof -
  obtain source where s: "over = JObj source" using assms(2) by (auto simp: json_simps)
  define m where "m = (case base of JObj m \<Rightarrow> m | _ \<Rightarrow> [])"
  have b: "om_get m k = jget base k" by (simp add: m_def jget_def split: json.splits)
  have "merge_policy base over = JObj (merge_entries source m)" by (simp add: s m_def)
  then have "jget (merge_policy base over) k = om_get (merge_entries source m) k" by (simp add: jget_def)
  then show ?thesis
    using merge_entries_get [of source m k] assms(1) b
    by (simp add: s jget_def [of "JObj source"] ix_def Let_def del: merge_policy.simps split: option.splits)
qed

text \<open>The setting at a path, and whether an overlay says nothing about a path.\<close>

fun setting :: "json \<Rightarrow> str list \<Rightarrow> json option" where
  "setting v [] = Some v"
| "setting v (k # ks) = Option.bind (jget v k) (\<lambda>x. setting x ks)"

fun silent :: "json \<Rightarrow> str list \<Rightarrow> bool" where
  "silent v [] \<longleftrightarrow> False"
| "silent v (k # ks) \<longleftrightarrow> is_object v \<and> (case jget v k of None \<Rightarrow> True | Some w \<Rightarrow> silent w ks)"

lemma json_ok_jget: "json_ok v \<Longrightarrow> jget v k = Some w \<Longrightarrow> json_ok w"
  by (cases v) (auto simp: jget_def dest!: map_of_SomeD)

lemma setting_non_object: "\<not> is_object v \<Longrightarrow> setting v path = (if path = [] then Some v else None)"
  by (cases path; cases v) (auto simp: jget_def is_object_def)

text \<open>An overlay wins wherever it sets a value that is no object, and changes nothing about
  a path it says nothing about, at every depth.\<close>

theorem overlay_precedence:
  assumes "json_ok over"
  shows "(setting over path = Some x \<and> \<not> is_object x \<longrightarrow> setting (merge_policy base over) path = Some x) \<and>
    (silent over path \<longrightarrow> setting (merge_policy base over) path = setting base path)"
  using assms
proof (induction path arbitrary: base over)
  case Nil
  then show ?case by (cases over) (auto simp: is_object_def)
next
  case (Cons k ks)
  show ?case
  proof (cases "is_object over \<and> jget over k \<noteq> None")
    case True
    then obtain w where w: "jget over k = Some w" by blast
    note g = jget_merge [OF Cons.prems, of base k, unfolded w option.case]
    note IH = Cons.IH [OF json_ok_jget [OF Cons.prems w]]
    have ks: "silent w ks \<Longrightarrow> is_object w \<and> ks \<noteq> []" by (cases ks) auto
    have b: "is_object (ix base k) \<Longrightarrow> jget base k = Some (ix base k)"
      by (simp add: ix_def is_object_def split: option.splits)
    show ?thesis
    proof (cases "is_object w \<and> is_object (ix base k)")
      case both: True
      then show ?thesis using True w g b IH [of "ix base k"] by (simp del: merge_policy.simps)
    next
      case False
      have "setting w ks = Option.bind (jget base k) (\<lambda>x. setting x ks)" if s: "silent w ks"
      proof -
        have n: "\<not> is_object (ix base k)" using False ks [OF s] by blast
        have "setting w ks = None" using s
        proof (induction ks arbitrary: w)
          case (Cons j js)
          then show ?case by (auto split: option.splits)
        qed simp
        then show ?thesis
          using n ks [OF s] setting_non_object [of "ix base k" ks] by (auto simp: ix_def split: option.splits)
      qed
      then show ?thesis using True w g False by (simp del: merge_policy.simps)
    qed
  next
    case False
    then have "jget over k = None" by (cases over) (auto simp: jget_def is_object_def)
    then show ?thesis using jget_merge [OF Cons.prems, of base k] by (simp del: merge_policy.simps)
  qed
qed

section \<open>The effective policy\<close>

definition str_at :: "str list \<Rightarrow> json \<Rightarrow> str option" where
  "str_at path v = as_str (fold (\<lambda>k v. ix v k) path v)"

definition or_text :: "str option \<Rightarrow> str \<Rightarrow> str" where
  "or_text v d = (case v of Some s \<Rightarrow> s | None \<Rightarrow> d)"

definition configured_mode :: "str option \<Rightarrow> str" where
  "configured_mode transport =
     (if transport = Some ''automatic'' then ''auto''
      else if transport = Some ''manual'' then ''manual'' else ''suggest'')"

text \<open>The profiles the configured target names: by name, identity or alias.\<close>

definition names_profile :: "str \<Rightarrow> json \<Rightarrow> bool" where
  "names_profile t p \<longleftrightarrow>
     ix p ''name'' = JStr t \<or> ix p ''target_id'' = JStr t \<or> JStr t \<in> set (elements (ix p ''aliases''))"

definition matching_profiles :: "json \<Rightarrow> str option \<Rightarrow> json list" where
  "matching_profiles i current =
     (case current of
        None \<Rightarrow> []
      | Some t \<Rightarrow> filter (names_profile t) (elements (ix i ''profiles'')))"

definition profile_identity :: "json \<Rightarrow> str option" where
  "profile_identity p =
     (case as_str (ix p ''target_id'') of
        Some s \<Rightarrow> if s \<noteq> '''' then Some s else as_str (ix p ''name'')
      | None \<Rightarrow> as_str (ix p ''name''))"

definition known_target :: "json list \<Rightarrow> bool" where
  "known_target matching \<longleftrightarrow> length (sort_dedup (List.map_filter profile_identity matching)) = 1"

definition selected_profile :: "json list \<Rightarrow> json" where
  "selected_profile matching =
     (if known_target matching then (case matching of p # _ \<Rightarrow> p | [] \<Rightarrow> JNull) else JNull)"

definition policy_words :: "json \<Rightarrow> (str \<times> str option \<times> str) res" where
  "policy_words policy =
     (let assignment = or_text (str_at [''assignment_policy''] policy) ''local-preferred'';
          transport = str_at [''transport_authority''] policy;
          override = or_text (str_at [''human_override_policy''] policy) ''explicit-only'' in
      if assignment \<notin> {''local-preferred'', ''best-fit-advisory'', ''required-best-fit''}
      then Inl (err ''unknown assignment policy'')
      else if transport \<notin> {None, Some ''manual'', Some ''automatic''}
      then Inl (err ''unknown transport authority'')
      else if override \<notin> {''explicit-only'', ''allowed-with-recorded-reason'', ''disallowed''}
      then Inl (err ''unknown human override policy'')
      else Inr (assignment, transport, override))"

definition policy_value :: "host \<Rightarrow> json \<Rightarrow> str \<Rightarrow> str option \<Rightarrow> str \<Rightarrow> json" where
  "policy_value H i assignment transport override =
    (let mode = configured_mode transport;
         current = str_at [''policy'', ''current_target''] i;
         matching = matching_profiles i current; known = known_target matching;
         selected = selected_profile matching;
         safe = (ix i ''safe_to_auto_run_commands'' = JBool True);
         result = obj
           [(''assignment_policy'', JStr assignment),
            (''binding'', JBool (assignment = ''required-best-fit'')),
            (''enforceable'', JBool (assignment \<noteq> ''required-best-fit'' \<or> known)),
            (''current_target'', jopt JStr current),
            (''current_target_status'', JStr (if known then ''known-profile''
              else if current \<noteq> None then ''unknown'' else ''not-configured'')),
            (''current_profile'', if selected = JNull then JNull else obj
              [(''name'', ix selected ''name''), (''target_id'', ix selected ''target_id''),
               (''revision'', JStr (digest H selected))]),
            (''transport_authority'', JStr (or_text transport (if mode = ''auto'' then ''automatic'' else ''manual''))),
            (''configured_mode'', JStr mode),
            (''effective_mode'', JStr (if mode = ''auto'' \<and> \<not> safe then ''suggest'' else mode)),
            (''execution_permitted'', JBool (mode = ''auto'' \<and> safe)),
            (''safe_to_auto_run_commands'', JBool safe), (''human_override_policy'', JStr override),
            (''manual_transport_policy'', JStr (if transport = Some ''automatic''
              then ''required-when-no-automatic-method'' else ''allowed'')),
            (''source_boundary'', JStr ''Assignment never grants transport readiness or safety.'')] in
     jset ''revision'' (JStr (digest H result)) result)"

definition resolve_policy :: "host \<Rightarrow> json \<Rightarrow> json res" where
  "resolve_policy H i =
     and_then (policy_words (ix i ''policy'')) (\<lambda>(assignment, transport, override).
     Inr (policy_value H i assignment transport override))"

lemma policy_value_fields:
  "ix (policy_value H i assignment transport override) ''execution_permitted'' =
     JBool (configured_mode transport = ''auto'' \<and> ix i ''safe_to_auto_run_commands'' = JBool True)"
  "ix (policy_value H i assignment transport override) ''effective_mode'' =
     JStr (if configured_mode transport = ''auto'' \<and> ix i ''safe_to_auto_run_commands'' \<noteq> JBool True
       then ''suggest'' else configured_mode transport)"
  "ix (policy_value H i assignment transport override) ''binding'' = JBool (assignment = ''required-best-fit'')"
  "ix (policy_value H i assignment transport override) ''enforceable'' =
     JBool (assignment \<noteq> ''required-best-fit'' \<or>
       known_target (matching_profiles i (str_at [''policy'', ''current_target''] i)))"
  unfolding policy_value_def Let_def by (simp_all add: ix_jset)

lemma set_map_filter: "set (List.map_filter f xs) = {y. \<exists>x \<in> set xs. f x = Some y}"
  by (induction xs) (auto simp: List.map_filter_def)

text \<open>A policy permits execution exactly when the transport is automatic and the host marks
  automatic commands as safe, which is also exactly when the effective mode is automatic;
  a binding policy is enforceable only when all profiles its target names share one identity.\<close>

theorem policy_permits_exact:
  assumes "resolve_policy H i = Inr out"
  shows "(ix out ''execution_permitted'' = JBool True \<longleftrightarrow>
      str_at [''policy'', ''transport_authority''] i = Some ''automatic'' \<and>
      ix i ''safe_to_auto_run_commands'' = JBool True) \<and>
    (ix out ''effective_mode'' = JStr ''auto'' \<longleftrightarrow> ix out ''execution_permitted'' = JBool True) \<and>
    (ix out ''binding'' = JBool True \<and> ix out ''enforceable'' = JBool True \<longrightarrow>
      (\<exists>t identity. str_at [''policy'', ''current_target''] i = Some t \<and>
         (\<exists>p \<in> set (elements (ix i ''profiles'')). names_profile t p \<and> profile_identity p = Some identity) \<and>
         (\<forall>p \<in> set (elements (ix i ''profiles'')). \<forall>other. names_profile t p \<and> profile_identity p = Some other \<longrightarrow>
            other = identity)))"
proof -
  obtain assignment transport override where w: "policy_words (ix i ''policy'') = Inr (assignment, transport, override)"
    using assms unfolding resolve_policy_def by (elim and_then_InrE) auto
  have t: "transport = str_at [''policy'', ''transport_authority''] i"
    using w by (simp add: policy_words_def Let_def str_at_def split: if_splits)
  define matching where "matching = matching_profiles i (str_at [''policy'', ''current_target''] i)"
  have out: "out = policy_value H i assignment transport override"
    using assms unfolding resolve_policy_def w by simp
  have one: "\<exists>t identity. str_at [''policy'', ''current_target''] i = Some t \<and>
         (\<exists>p \<in> set (elements (ix i ''profiles'')). names_profile t p \<and> profile_identity p = Some identity) \<and>
         (\<forall>p \<in> set (elements (ix i ''profiles'')). \<forall>other. names_profile t p \<and> profile_identity p = Some other \<longrightarrow>
            other = identity)" if k: "known_target matching"
  proof -
    obtain identity where i: "sort_dedup (List.map_filter profile_identity matching) = [identity]"
      using k by (auto simp: known_target_def length_Suc_conv)
    have s: "set (List.map_filter profile_identity matching) = {identity}"
      using set_sort_dedup [of "List.map_filter profile_identity matching"] unfolding i by simp
    have "set (List.map_filter profile_identity []) = {}" by (simp add: List.map_filter_def)
    then have "matching \<noteq> []" using s by (metis insert_not_empty)
    then obtain t where "str_at [''policy'', ''current_target''] i = Some t"
      by (cases "str_at [''policy'', ''current_target''] i") (auto simp: matching_def matching_profiles_def)
    moreover from this have "matching = filter (names_profile t) (elements (ix i ''profiles''))"
      by (simp add: matching_def matching_profiles_def)
    ultimately show ?thesis using s set_map_filter [of profile_identity matching]
      by (intro exI [of _ t] exI [of _ identity]) auto
  qed
  have a: "configured_mode transport = ''auto'' \<longleftrightarrow> transport = Some ''automatic''"
    by (simp add: configured_mode_def)
  show ?thesis
    using one a t unfolding out policy_value_fields matching_def [symmetric] by auto
qed

end
