(* ===== verification/Transport.thy ===== *)
theory Transport
  imports Planning Assurance Duty Applicability Proof_Receipt Proof_Subject Task_Requirements Policy Packet
begin

text \<open>
  The transport (\<open>src/src/core/src/transport.rs\<close>): one JSON request names one command by its
  only field, and every other request is a decision to compile. The commands of the modelled
  components are the model's functions; those of other components are arguments. Reading the
  request, logging and printing the answer are input and output.
\<close>

section \<open>Commands\<close>

text \<open>
  The checked-in schemas of three views, the worker entry projections, the view of the target
  of a proof subject, and the commands of components outside the model.
\<close>

record transport_env =
  te_planning :: planning_env
  te_floats :: float_env
  te_receipts :: receipt_env
  te_assurance :: "json \<times> json"
  te_separation :: json
  te_applicability :: json
  te_worker :: "json \<Rightarrow> json res"
  te_targets :: "nat \<Rightarrow> str \<Rightarrow> target_view"
  te_other :: "str \<Rightarrow> json \<Rightarrow> json io"

abbreviation te_host :: "transport_env \<Rightarrow> host" where
  "te_host T \<equiv> pl_host (te_planning T)"

type_synonym command = "str \<times> (json \<Rightarrow> json io)"

definition pure_command :: "str \<Rightarrow> (json \<Rightarrow> json res) \<Rightarrow> command" where
  "pure_command name f = (name, \<lambda>v. io_lift (f v))"

definition other_command :: "transport_env \<Rightarrow> str \<Rightarrow> command" where
  "other_command T name = (name, te_other T name)"

definition packet_command :: "transport_env \<Rightarrow> json \<Rightarrow> json res" where
  "packet_command T = packet_view (te_host T) (te_floats T) (te_worker T)"

text \<open>In the order the code asks for them; the first one is the binding of \<open>native_methods\<close>.\<close>

definition first_commands :: "transport_env \<Rightarrow> command list" where
  "first_commands T =
     (let H = te_host T in
      [other_command T ''resources'', other_command T ''activation-index'', other_command T ''ownership_read_profile'',
       pure_command ''worker'' (\<lambda>v. packet_command T (ix v ''request'')),
       other_command T ''session_logging_policy'',
       pure_command ''assurance_applicability'' (assurance_view H (fst (te_assurance T)) (snd (te_assurance T))),
       pure_command ''assignment_packet'' (packet_command T),
       other_command T ''native_route_discovery'', other_command T ''review_authentication'',
       other_command T ''verification_requirements'',
       pure_command ''separation_of_duty'' (separation_view H (te_separation T)),
       other_command T ''runtime_compatibility'',
       pure_command ''instruction_applicability'' (applicability_view H (te_applicability T)),
       pure_command ''proof_receipt'' (receipt_view H (te_receipts T)),
       pure_command ''task_requirements'' (task_requirements H), pure_command ''task_judgment'' (task_judgment H),
       pure_command ''proof_subject'' (proof_subject_view H (te_floats T) (te_targets T)),
       pure_command ''direct_task_subject'' (direct_task_view H),
       other_command T ''start'', other_command T ''invoke''])"

definition later_commands :: "transport_env \<Rightarrow> command list" where
  "later_commands T =
     (let H = te_host T; E = pl_store (te_planning T) in
      [pure_command ''attribute_assignment_outcome'' attribute_outcome,
       pure_command ''assignment_policy'' (resolve_policy H),
       pure_command ''local_source_overlay'' (\<lambda>v. Inr (merge_policy (ix v ''base'') (ix v ''override''))),
       other_command T ''transport_sources'',
       pure_command ''execution_configurations'' (configurations H),
       pure_command ''replace_assignment'' (replace_assignment_value H),
       pure_command ''admit_assignment_packet'' (\<lambda>v. Inr (admit_packet H v)),
       other_command T ''instruction_source_admission'',
       pure_command ''semantic_route_view'' (routes_view H),
       other_command T ''repository_decision_view'',
       pure_command ''admission'' admit_invocation_value, pure_command ''prepare_request'' (prepare_request_value H),
       pure_command ''answer_decision'' (answer_decision_value H), pure_command ''operation_result'' operation_result_value,
       pure_command ''admit_attempt'' (attempt_admit_value H), pure_command ''commit_attempt'' (attempt_commit_value H),
       (''admit_stored_attempt'', store_admit_value E), (''commit_stored_attempt'', store_commit_value E),
       (''planning_view'', planning_view (te_planning T)), (''reconcile_planning'', reconcile_planning (te_planning T)),
       pure_command ''normalize_decision_record'' (normalize_material H)])"

definition commands :: "transport_env \<Rightarrow> command list" where
  "commands T = first_commands T @ later_commands T"

section \<open>Dispatch\<close>

definition names_only :: "str \<Rightarrow> json \<Rightarrow> bool" where
  "names_only name r \<longleftrightarrow> (case as_object r of None \<Rightarrow> False | Some m \<Rightarrow> length m = 1 \<and> om_get m name \<noteq> None)"

definition run_request :: "transport_env \<Rightarrow> json \<Rightarrow> json io" where
  "run_request T r =
     (case find (\<lambda>c. names_only (fst c) r) (commands T) of
        Some (name, f) \<Rightarrow> f (ix r name)
      | None \<Rightarrow> io_lift (compile_value (te_host T) r))"

section \<open>Exactly one answer\<close>

lemma names_of_commands: "map fst (commands T) =
    [''resources'', ''activation-index'', ''ownership_read_profile'', ''worker'', ''session_logging_policy'',
     ''assurance_applicability'', ''assignment_packet'', ''native_route_discovery'', ''review_authentication'',
     ''verification_requirements'', ''separation_of_duty'', ''runtime_compatibility'', ''instruction_applicability'',
     ''proof_receipt'', ''task_requirements'', ''task_judgment'', ''proof_subject'', ''direct_task_subject'', ''start'',
     ''invoke'', ''attribute_assignment_outcome'', ''assignment_policy'', ''local_source_overlay'', ''transport_sources'',
     ''execution_configurations'', ''replace_assignment'', ''admit_assignment_packet'', ''instruction_source_admission'',
     ''semantic_route_view'', ''repository_decision_view'', ''admission'', ''prepare_request'', ''answer_decision'',
     ''operation_result'', ''admit_attempt'', ''commit_attempt'', ''admit_stored_attempt'', ''commit_stored_attempt'',
     ''planning_view'', ''reconcile_planning'', ''normalize_decision_record'']"
  by (simp add: commands_def first_commands_def later_commands_def Let_def pure_command_def other_command_def)

lemma distinct_commands: "distinct (map fst (commands T))"
  unfolding names_of_commands by simp

lemma names_only_iff: "names_only name r \<longleftrightarrow> (\<exists>v. r = JObj [(name, v)])"
proof -
  have "length m = 1 \<and> om_get m name \<noteq> None \<longleftrightarrow> (\<exists>v. m = [(name, v)])" for m :: "(str \<times> json) list"
    by (cases m) (auto split: if_splits)
  then show ?thesis by (auto simp: names_only_def as_object_def split: json.splits)
qed

lemma find_command:
  "find (\<lambda>c. names_only (fst c) (JObj [(name, v)])) cs = map_option (\<lambda>f. (name, f)) (map_of cs name)"
  by (induction cs) (auto simp: names_only_iff)

lemma request_of_command:
  "map_of (commands T) name = Some f \<Longrightarrow> run_request T (JObj [(name, v)]) = f v"
  unfolding run_request_def find_command by (simp add: ix_def jget_def)

text \<open>A request is answered by the one command its only field names, whatever the order in which the
  commands are asked for; every other request, an object with further fields included, is
  compiled as a decision.\<close>

theorem one_command_answers:
  "run_request T r =
     (case r of
        JObj [(name, v)] \<Rightarrow>
          (case map_of (commands T) name of
             Some f \<Rightarrow> f v | None \<Rightarrow> io_lift (compile_value (te_host T) r))
      | _ \<Rightarrow> io_lift (compile_value (te_host T) r))"
proof (cases "\<exists>name v. r = JObj [(name, v)]")
  case True
  then obtain name v where r: "r = JObj [(name, v)]" by blast
  show ?thesis unfolding run_request_def r find_command by (simp add: ix_def jget_def split: option.splits)
next
  case False
  then have "\<not> names_only n r" for n by (simp add: names_only_iff)
  then have "find (\<lambda>c. names_only (fst c) r) (commands T) = None" by (simp add: find_None_iff)
  then show ?thesis using False unfolding run_request_def by (auto split: json.splits list.splits)
qed

section \<open>What a request may write\<close>

text \<open>The commands of components outside the model, and the three that reach the evidence store.\<close>

definition outside_commands :: "str list" where
  "outside_commands =
     [''resources'', ''activation-index'', ''ownership_read_profile'', ''session_logging_policy'', ''native_route_discovery'',
      ''review_authentication'', ''verification_requirements'', ''runtime_compatibility'', ''start'', ''invoke'',
      ''transport_sources'', ''instruction_source_admission'', ''repository_decision_view'']"

definition writing_commands :: "str list" where
  "writing_commands = [''admit_stored_attempt'', ''commit_stored_attempt'', ''reconcile_planning'']"

definition any_target :: "store_env \<Rightarrow> (str \<times> path) set" where
  "any_target E = (\<Union>target. target_places E target)"

lemma store_value_within:
  "within (any_target E) (store_admit_value E v)" "within (any_target E) (store_commit_value E v)"
proof -
  have t: "target_places E target \<subseteq> any_target E" for target by (auto simp: any_target_def)
  show "within (any_target E) (store_admit_value E v)" "within (any_target E) (store_commit_value E v)"
    unfolding store_admit_value_def store_commit_value_def
    by (auto intro!: within_then within_mono [OF store_admit_within t] within_mono [OF store_commit_within t])
qed

lemma reconcile_any: "within (any_target (pl_store P)) (reconcile_planning P v)"
proof (cases "de_planning_input v")
  case None
  then show ?thesis
    by (simp add: reconcile_planning_def reconcile_retaining_checked_def decoded_def ok_or_def within_def io_then_def io_lift_def)
next
  case (Some i)
  show ?thesis
    by (rule within_mono [OF reconcile_planning_within [OF Some]]) (auto simp: any_target_def)
qed

lemma any_target_places:
  assumes "(R, p) \<in> any_target E"
  shows "(\<exists>k. prefix p (store_parents @ [k])) \<and> (\<exists>target. se_canonicalize E target = Some R)"
proof -
  from assms obtain target where "(R, p) \<in> target_places E target" unfolding any_target_def by blast
  then show ?thesis unfolding target_places_def evidence_places_def by (auto split: option.splits)
qed

definition confined_command :: "transport_env \<Rightarrow> command \<Rightarrow> bool" where
  "confined_command T c \<longleftrightarrow> fst c \<in> set outside_commands \<or> (\<forall>v. pure_io (snd c v)) \<or>
     fst c \<in> set writing_commands \<and> (\<forall>v. within (any_target (pl_store (te_planning T))) (snd c v))"

lemma confined_commands: "list_all (confined_command T) (commands T)"
proof -
  have p: "confined_command T (pure_command n f)" for n f by (simp add: confined_command_def pure_command_def)
  have o': "n \<in> set outside_commands \<Longrightarrow> confined_command T (other_command T n)" for n
    by (simp add: confined_command_def other_command_def)
  have v: "confined_command T (''planning_view'', planning_view (te_planning T))"
    by (simp add: confined_command_def planning_view_pure)
  have w: "n \<in> set writing_commands \<Longrightarrow> (\<And>v. within (any_target (pl_store (te_planning T))) (f v)) \<Longrightarrow>
      confined_command T (n, f)" for n f
    by (simp add: confined_command_def)
  show ?thesis
    unfolding commands_def first_commands_def later_commands_def Let_def list_all_append list.pred_inject
    by (intro conjI TrueI p v o' w store_value_within reconcile_any)
      (simp_all add: outside_commands_def writing_commands_def)
qed

text \<open>C15: A request changes the disk only through a command of another component, or by one of the three
  commands that record effects; these only add entries that did not exist, on the paths of the
  evidence store below a canonical target.\<close>

theorem requests_only_record:
  assumes "snd (run_request T r d) R p \<noteq> d R p"
  shows "\<exists>name v. r = JObj [(name, v)] \<and>
    (name \<in> set outside_commands \<or>
     name \<in> set writing_commands \<and> d R p = None \<and> (\<exists>k. prefix p (store_parents @ [k])) \<and>
       (\<exists>target. se_canonicalize (pl_store (te_planning T)) target = Some R))"
proof (cases "find (\<lambda>c. names_only (fst c) r) (commands T)")
  case None
  then show ?thesis using assms by (simp add: run_request_def io_lift_def)
next
  case (Some c)
  obtain name f where c: "c = (name, f)" by fastforce
  obtain i where "i < length (commands T)" "c = commands T ! i" "names_only (fst c) r"
    using Some by (auto simp: find_Some_iff)
  then have n: "(name, f) \<in> set (commands T)" "names_only name r" using c
    by (auto simp: in_set_conv_nth) (metis fst_conv)
  then obtain v where r: "r = JObj [(name, v)]" by (auto simp: names_only_iff)
  have run: "run_request T r = f (ix r name)" using Some c by (simp add: run_request_def)
  have k: "confined_command T (name, f)" using confined_commands n(1) by (auto simp: list_all_iff)
  have "\<not> pure_io (f (ix r name))" using assms pure_io_snd [of "f (ix r name)" d] unfolding run by auto
  then have "name \<in> set outside_commands \<or> name \<in> set writing_commands \<and>
      within (any_target (pl_store (te_planning T))) (f (ix r name))"
    using k by (auto simp: confined_command_def)
  moreover have "d R p = None \<and> (R, p) \<in> any_target (pl_store (te_planning T))"
    if "within (any_target (pl_store (te_planning T))) (f (ix r name))"
    using that assms unfolding run within_def grows_def by blast
  ultimately show ?thesis
    using r any_target_places by blast
qed

end
