(* ===== verification/Policy_Examples.thy ===== *)
theory Policy_Examples
  imports Component_Examples Packet Policy Duty
begin

text \<open>
  Concrete inputs for the judgment of alternatives, the seal of a packet, the assignment
  policy and the separation of duty.
\<close>

section \<open>Judgment\<close>

definition assessed_row :: "str \<Rightarrow> str \<Rightarrow> str list \<Rightarrow> json" where
  "assessed_row n target tags = obj [(''configuration'', obj [(''id'', JStr n), (''target'', JStr target),
     (''transport'', JStr ''internal''), (''execution_guarantees'', jstrs tags)]), (''eligible'', JBool True)]"

definition assessing :: json where
  "assessing = obj
     [(''work'', obj [(''id'', JStr ''w'')]),
      (''policy'', obj [(''enforceable'', JBool True), (''assignment_policy'', JStr ''best-fit-advisory''),
        (''current_profile'', obj [(''name'', JStr ''t1'')])]),
      (''requirements'', obj [(''status'', JStr ''resolved''),
        (''execution_posture'', obj [(''preferred_execution_guarantees'', jstrs [''sandboxed'', ''offline''])])]),
      (''execution'', obj [(''gaps'', JArr []), (''configurations'', obj
        [(''candidates'', JArr [assessed_row ''a'' ''t1'' [''sandboxed'', ''offline''], assessed_row ''b'' ''t2'' [''offline'']])])])]"

definition assessed :: json where
  "assessed = projr (comparative_assessment plain_host JNull assessing)"

lemma assessed_evaluated:
  "\<not> isl (comparative_assessment plain_host JNull assessing)"
  "ix assessed ''assignment_identity'' \<noteq> JNull"
  "ix assessed ''determination'' = JStr ''standing-execution-preferences''"
  "length (elements (ix assessed ''alternatives'')) = 2"
  "ix (elements (ix assessed ''alternatives'') ! 1) ''id'' \<noteq> ix (ix assessed ''selected'') ''id''"
  "at [''policy'', ''assignment_policy''] assessing \<noteq> JStr ''local-preferred''"
  by code_simp+

lemma assessed_runs: "comparative_assessment plain_host JNull assessing = Inr assessed"
  using projr_code [OF assessed_evaluated(1)] by (simp add: assessed_def)

theorem assignment_identity_sound_witness:
  "\<exists>row \<in> set (configuration_rows assessing). ix row ''eligible'' = JBool True"
  using assignment_identity_sound [OF assessed_runs assessed_evaluated(2)] by blast

theorem standing_preferences_dominate_witness:
  "set (elements (ix (elements (ix assessed ''alternatives'') ! 1) ''matched_preferences''))
     \<subset> set (elements (ix (ix assessed ''selected'') ''matched_preferences''))"
proof -
  have "elements (ix assessed ''alternatives'') ! 1 \<in> set (elements (ix assessed ''alternatives''))"
    using assessed_evaluated(4) by simp
  then show ?thesis
    using standing_preferences_dominate [OF assessed_runs] assessed_evaluated(3,5,6) by blast
qed

section \<open>Seal\<close>

definition plain_floats :: float_env where
  "plain_floats = \<lparr>float_text = (\<lambda>_. ''0.5''), float_in_range = (\<lambda>_. True)\<rparr>"

definition sealed_demo :: "json res" where
  "sealed_demo = seal_packet plain_host plain_floats (obj [(''assignment_id'', JStr ''a''), (''target'', JStr ''t'')])"

lemma sealed_evaluated: "\<not> isl sealed_demo"
  by code_simp

theorem seal_stabilizes_witness: "\<exists>s h. sealed_demo = Inr s \<and> ix s ''packet_integrity'' = JStr h"
proof -
  obtain s where s: "sealed_demo = Inr s" using projr_code [OF sealed_evaluated] by blast
  show ?thesis
    using seal_stabilizes [where H = plain_host and F = plain_floats and
        p = "obj [(''assignment_id'', JStr ''a''), (''target'', JStr ''t'')]",
        folded sealed_demo_def, unfolded s sum.case] s by blast
qed

section \<open>Policy\<close>

definition base_settings :: json where
  "base_settings = obj [(''a'', obj [(''x'', JBool True), (''y'', JBool False)])]"

definition over_settings :: json where
  "over_settings = obj [(''a'', obj [(''y'', JBool True)])]"

theorem overlay_precedence_witness:
  "setting (merge_policy base_settings over_settings) [''a'', ''y''] = Some (JBool True) \<and>
   setting (merge_policy base_settings over_settings) [''a'', ''x''] = setting base_settings [''a'', ''x'']"
proof -
  have ok: "json_ok over_settings" by code_simp
  have "setting over_settings [''a'', ''y''] = Some (JBool True)" "silent over_settings [''a'', ''x'']"
    by (simp_all add: over_settings_def)
  then show ?thesis
    using overlay_precedence [OF ok, of "[''a'', ''y'']" "JBool True" base_settings]
      overlay_precedence [OF ok, of "[''a'', ''x'']" JNull base_settings]
    by (simp add: is_object_def del: merge_policy.simps)
qed

definition automatic_policy :: json where
  "automatic_policy = obj
     [(''policy'', obj [(''assignment_policy'', JStr ''required-best-fit''),
        (''transport_authority'', JStr ''automatic''), (''current_target'', JStr ''t'')]),
      (''profiles'', JArr [obj [(''name'', JStr ''t''), (''target_id'', JStr ''id'')],
        obj [(''name'', JStr ''u''), (''target_id'', JStr ''id''), (''aliases'', jstrs [''t''])]]),
      (''safe_to_auto_run_commands'', JBool True)]"

lemma automatic_evaluated: "\<not> isl (resolve_policy plain_host automatic_policy)"
  by code_simp

theorem policy_permits_exact_witness:
  "ix (projr (resolve_policy plain_host automatic_policy)) ''execution_permitted'' = JBool True"
  using policy_permits_exact [OF projr_code [OF automatic_evaluated]]
  by (simp add: automatic_policy_def str_at_def)

section \<open>Separation\<close>

definition reviewed :: json where
  "reviewed = obj [(''required_mode'', JStr ''separate-actor''),
     (''implementer'', obj [(''actor_id'', JStr ''one'')]), (''reviewer'', obj [(''actor_id'', JStr '' two '')])]"

lemma reviewed_evaluated:
  "\<not> isl (separation_view plain_host plain_schema reviewed)"
  "known_identity (ix (ix reviewed ''implementer'') ''actor_id'') = Some ''one''"
  "known_identity (ix (ix reviewed ''reviewer'') ''actor_id'') = Some ''two''"
  "ix reviewed ''required_mode'' = JStr ''separate-actor''" "ix reviewed ''reviewer'' \<noteq> JNull"
  "ix reviewed ''reviewer'' \<noteq> JObj []"
  by code_simp+

theorem separation_satisfied_iff_witness:
  "ix (projr (separation_view plain_host plain_schema reviewed)) ''status'' = JStr ''satisfied''"
  using separation_satisfied_iff [OF projr_code [OF reviewed_evaluated(1)]] reviewed_evaluated(2-6) by simp

end
