(* ===== verification/Strategy.thy ===== *)
theory Strategy
  imports Assurance
begin

text \<open>
  Assurance level and proof profiles of the current work
  (\<open>src/src/core/src/verification_strategy.rs\<close>): what the source requires, what Planning
  declares and what the agent assesses are combined, and conflicts block execution.
\<close>

definition verification_policy :: "host \<Rightarrow> json \<Rightarrow> str \<Rightarrow> json" where
  "verification_policy H config source =
     (let assurance = ix config ''assurance'';
          policy = obj
            [(''configured'', JBool (\<exists>k \<in> {''default_level'', ''agent_may_escalate'', ''agent_may_deescalate'', ''proof_profiles''}.
                jget assurance k \<noteq> None)),
             (''profile_source'', JStr source),
             (''baseline'', JStr (case as_str (ix assurance ''default_level'') of Some s \<Rightarrow> s | None \<Rightarrow> ''low'')),
             (''agent_may_escalate'', JBool (case as_bool (ix assurance ''agent_may_escalate'') of Some b \<Rightarrow> b | None \<Rightarrow> True)),
             (''agent_may_deescalate'', JBool (case as_bool (ix assurance ''agent_may_deescalate'') of Some b \<Rightarrow> b | None \<Rightarrow> False)),
             (''profiles'', case as_object (ix assurance ''proof_profiles'') of Some m \<Rightarrow> JObj m | None \<Rightarrow> JObj [])] in
      jset ''revision'' (JStr (digest H policy)) policy)"

definition rank :: "str \<Rightarrow> nat" where
  "rank level =
     (if level = ''medium'' then 1 else if level = ''high'' then 2 else if level = ''critical'' then 3 else 0)"

section \<open>Levels\<close>

definition binding_force :: "json \<Rightarrow> bool" where
  "binding_force row \<longleftrightarrow> as_str (ix row ''force'') \<in> {Some ''blocking'', Some ''required-before-closeout''}"

text \<open>\<open>max_by_key\<close>: the last of the greatest.\<close>

definition last_greatest :: "str list \<Rightarrow> str option" where
  "last_greatest levels =
     fold (\<lambda>l best. case best of None \<Rightarrow> Some l | Some b \<Rightarrow> if rank b \<le> rank l then Some l else Some b) levels None"

definition binding_levels :: "json \<Rightarrow> str list" where
  "binding_levels assurance =
     List.map_filter (\<lambda>row. as_str (at [''source_requirement'', ''level''] row))
       (filter (\<lambda>row. ix row ''status'' = JStr ''applicable'' \<and> binding_force row) (elements (ix assurance ''requirements'')))"

definition required_level :: "json \<Rightarrow> str" where
  "required_level assurance = (case last_greatest (binding_levels assurance) of Some l \<Rightarrow> l | None \<Rightarrow> ''low'')"

definition source_level :: "json \<Rightarrow> json \<Rightarrow> str" where
  "source_level policy assurance =
     (let baseline = string_or (ix policy ''baseline'') in
      if rank baseline < rank (required_level assurance) then required_level assurance else baseline)"

definition level_gaps :: "json \<Rightarrow> json \<Rightarrow> str \<Rightarrow> str list" where
  "level_gaps policy assurance level =
     (if rank (source_level policy assurance) < rank level \<and> ix policy ''agent_may_escalate'' \<noteq> JBool True
      then [''assurance-escalation-not-authorized''] else []) @
     (if rank level < rank (string_or (ix policy ''baseline'')) \<and> ix policy ''agent_may_deescalate'' \<noteq> JBool True
      then [''assurance-deescalation-not-authorized''] else []) @
     (if rank level < rank (required_level assurance) then [''assurance-below-binding-requirement''] else [])"

section \<open>Profiles\<close>

definition requirement_profile :: "json \<Rightarrow> str" where
  "requirement_profile row = string_or (at [''source_requirement'', ''proof_profile''] row)"

definition names_live_profile :: "json \<Rightarrow> bool" where
  "names_live_profile row \<longleftrightarrow> requirement_profile row \<noteq> '''' \<and> ix row ''status'' \<noteq> JStr ''not-applicable''"

definition unresolved_gaps :: "json \<Rightarrow> str list" where
  "unresolved_gaps assurance =
     map (\<lambda>row. fmt [''profile-applicability-unresolved:'', string_or (ix row ''id'')])
       (filter (\<lambda>row. names_live_profile row \<and> ix row ''status'' = JStr ''unresolved'')
         (elements (ix assurance ''requirements'')))"

definition profiles_named :: "bool \<Rightarrow> json \<Rightarrow> str list" where
  "profiles_named binding assurance =
     map requirement_profile
       (filter (\<lambda>row. names_live_profile row \<and> ix row ''status'' \<noteq> JStr ''unresolved'' \<and> binding_force row = binding)
         (elements (ix assurance ''requirements'')))"

definition planning_profiles :: "json option \<Rightarrow> json" where
  "planning_profiles planning =
     (case planning of
        Some subject \<Rightarrow> at [''state'', ''proof'', ''adaptive_assurance'', ''proof_profiles''] subject
      | None \<Rightarrow> JNull)"

definition planning_gap :: "json \<Rightarrow> json option \<Rightarrow> str list" where
  "planning_gap policy planning =
     (if planning \<noteq> None \<and> as_array (planning_profiles planning) = None
        \<and> (case as_object (ix policy ''profiles'') of Some m \<Rightarrow> m \<noteq> [] | None \<Rightarrow> False)
      then [''planning-assurance-profile-projection-unavailable''] else [])"

definition required_profiles :: "json \<Rightarrow> json option \<Rightarrow> str list" where
  "required_profiles assurance planning =
     profiles_named True assurance @ strings_of (planning_profiles planning)"

definition selected_profiles :: "json \<Rightarrow> json option \<Rightarrow> json option \<Rightarrow> str list" where
  "selected_profiles assurance planning assessment =
     sort_dedup ((case assessment of Some a \<Rightarrow> strings_of (ix a ''profile_ids'') | None \<Rightarrow> []) @
       required_profiles assurance planning)"

text \<open>What one selected profile contributes.\<close>

record profile_part =
  pp_gaps :: "str list"
  pp_invalid :: bool
  pp_denied :: "str list"
  pp_profile :: "json list"
  pp_obligation :: "json list"
  pp_route :: "(str \<times> json) list"

definition profile_ref :: "json \<Rightarrow> str \<Rightarrow> str" where
  "profile_ref policy n = fmt [string_or (ix policy ''profile_source''), ''#assurance.proof_profiles.'', n]"

definition profile_row :: "host \<Rightarrow> json \<Rightarrow> str list \<Rightarrow> str list \<Rightarrow> str \<Rightarrow> json \<Rightarrow> json" where
  "profile_row H policy planned required n profile = obj
     [(''id'', JStr n), (''source_ref'', JStr (profile_ref policy n)), (''source_revision'', JStr (digest H profile)),
      (''selected_by'', JStr (if n \<in> set planned then ''planning-owner''
         else if n \<in> set required then ''binding-requirement'' else ''agent-assessment'')),
      (''required_count'', JNum (PosInt (length (strings_of (ix profile ''required_commands''))))),
      (''optional_count'', JNum (PosInt (length (strings_of (ix profile ''optional_commands''))))),
      (''disallowed_count'', JNum (PosInt (length (strings_of (ix profile ''disallowed_commands''))))),
      (''evidence_status'', JStr ''not-established-by-selection'')]"

definition profile_obligation :: "host \<Rightarrow> json \<Rightarrow> str \<Rightarrow> json \<Rightarrow> json list" where
  "profile_obligation H policy n profile =
     (if strings_of (ix profile ''required_commands'') = [] then []
      else [obj [(''profile_id'', JStr n), (''required_commands'', jstrs (strings_of (ix profile ''required_commands''))),
        (''source_ref'', JStr (profile_ref policy n)), (''source_revision'', JStr (digest H profile)),
        (''status'', JStr ''current-proof-evidence-required'')]])"

definition profile_route :: "host \<Rightarrow> json \<Rightarrow> str \<Rightarrow> json \<Rightarrow> json" where
  "profile_route H policy n profile =
     jset ''source_revision'' (JStr (digest H profile))
      (jset ''source_ref'' (JStr (profile_ref policy n))
       (jset ''source_kind'' (JStr ''config-proof-profile'')
        (jset ''commands'' (jstrs (strings_of (ix profile ''required_commands'') @ strings_of (ix profile ''optional_commands'')))
         profile)))"

definition unknown_fields :: "json \<Rightarrow> bool" where
  "unknown_fields profile \<longleftrightarrow>
     (case as_object profile of
        Some m \<Rightarrow> \<not> set (om_keys m) \<subseteq> {''required_commands'', ''optional_commands'', ''disallowed_commands'', ''review_aids''}
      | None \<Rightarrow> False)"

definition role_conflict :: "json \<Rightarrow> bool" where
  "role_conflict profile \<longleftrightarrow>
     \<not> distinct (strings_of (ix profile ''required_commands'') @ strings_of (ix profile ''optional_commands'') @
       strings_of (ix profile ''disallowed_commands''))"

definition profile_part_of :: "host \<Rightarrow> json \<Rightarrow> str list \<Rightarrow> str list \<Rightarrow> str \<Rightarrow> profile_part" where
  "profile_part_of H policy planned required n =
     (case jget (ix policy ''profiles'') n of
        None \<Rightarrow> \<lparr>pp_gaps = [fmt [''selected-proof-profile-unavailable:'', n]], pp_invalid = True, pp_denied = [],
          pp_profile = [], pp_obligation = [], pp_route = []\<rparr>
      | Some profile \<Rightarrow>
          \<lparr>pp_gaps = (if unknown_fields profile then [fmt [''selected-proof-profile-unknown-fields:'', n]] else []) @
              (if role_conflict profile then [fmt [''proof-profile-command-role-conflict:'', n]] else []),
            pp_invalid = (unknown_fields profile \<or> role_conflict profile),
            pp_denied = strings_of (ix profile ''disallowed_commands''),
            pp_profile = [profile_row H policy planned required n profile],
            pp_obligation = profile_obligation H policy n profile,
            pp_route = [(fmt [''profile:'', n], profile_route H policy n profile)]\<rparr>)"

definition obligation_denied :: "str list \<Rightarrow> json \<Rightarrow> bool" where
  "obligation_denied denied row \<longleftrightarrow> (\<exists>command \<in> set (strings_of (ix row ''required_commands'')). command \<in> set denied)"

definition obligation_gaps :: "str list \<Rightarrow> json list \<Rightarrow> str list" where
  "obligation_gaps denied obligations =
     map (\<lambda>row. fmt [''selected-profile-required-command-disallowed:'', string_or (ix row ''profile_id'')])
       (filter (obligation_denied denied) obligations)"

section \<open>The view\<close>

definition available_profiles :: "host \<Rightarrow> json \<Rightarrow> bool \<Rightarrow> json list" where
  "available_profiles H policy detail =
     (if detail then
        map (\<lambda>(n, profile). obj [(''id'', JStr n), (''revision'', JStr (digest H profile))])
          (take 32 (case as_object (ix policy ''profiles'') of Some m \<Rightarrow> m | None \<Rightarrow> []))
      else [])"

definition omitted_profiles :: "json \<Rightarrow> bool \<Rightarrow> nat" where
  "omitted_profiles policy detail =
     (case as_object (ix policy ''profiles'') of
        None \<Rightarrow> 0 | Some m \<Rightarrow> if detail then length m - 32 else length m)"

definition strategy_parts :: "host \<Rightarrow> json \<Rightarrow> json \<Rightarrow> json option \<Rightarrow> json option \<Rightarrow> profile_part list" where
  "strategy_parts H policy assurance planning assessment =
     map (profile_part_of H policy (strings_of (planning_profiles planning)) (required_profiles assurance planning))
       (selected_profiles assurance planning assessment)"

definition strategy_value ::
  "host \<Rightarrow> json \<Rightarrow> json \<Rightarrow> json option \<Rightarrow> json option \<Rightarrow> bool \<Rightarrow> str option \<Rightarrow> json" where
  "strategy_value H policy assurance planning assessment detail assessed =
     (let parts = strategy_parts H policy assurance planning assessment;
          refused = (case assessed of Some l \<Rightarrow> level_gaps policy assurance l | None \<Rightarrow> []);
          denied = concat (map pp_denied parts); obligations = concat (map pp_obligation parts);
          gaps = refused @ unresolved_gaps assurance @ planning_gap policy planning @
            concat (map pp_gaps parts) @ obligation_gaps denied obligations;
          denied_level = (\<exists>gap \<in> set gaps. starts_with gap ''assurance-'');
          invalid = (list_ex pp_invalid parts \<or> list_ex (obligation_denied denied) obligations);
          level = (case assessed of
            Some l \<Rightarrow> if denied_level then source_level policy assurance else l
          | None \<Rightarrow> source_level policy assurance) in
      obj
       [(''kind'', JStr ''agentic-workspace/verification-strategy/v1''), (''configured'', ix policy ''configured''),
        (''source_revision'', ix policy ''revision''), (''baseline_level'', ix policy ''baseline''),
        (''required_level'', JStr (required_level assurance)), (''effective_level'', JStr level),
        (''level_status'', JStr (if denied_level then ''rejected'' else if assessment \<noteq> None then ''agent-assessed''
           else if rank (string_or (ix policy ''baseline'')) < rank (required_level assurance) then ''source-required-level''
           else ''source-default-guidance'')),
        (''assessment'', jopt (\<lambda>v. v) assessment),
        (''available_profiles'', JArr (available_profiles H policy detail)),
        (''omitted_profile_count'', JNum (PosInt (omitted_profiles policy detail))),
        (''selected_profiles'', JArr (concat (map pp_profile parts))),
        (''recommended_profiles'', jstrs (sort_dedup (profiles_named False assurance))),
        (''obligations'', JArr obligations), (''disallowed_commands'', jstrs (sort_dedup denied)),
        (''routes'', obj (concat (map pp_route parts))), (''execution_blocked'', JBool (invalid \<or> denied_level)),
        (''gaps'', jstrs gaps),
        (''authority_boundary'', JStr ''Guidance/profile selection does not waive source requirements or establish proof, task judgment, review or completion.'')])"

text \<open>Where the code unwraps: the baseline always, and for every available selected profile the
  profile source and that the profile can be extended to a route.\<close>

definition profile_panics :: "json \<Rightarrow> str \<Rightarrow> bool" where
  "profile_panics policy n \<longleftrightarrow>
     (case jget (ix policy ''profiles'') n of
        None \<Rightarrow> False
      | Some profile \<Rightarrow>
          as_str (ix policy ''profile_source'') = None \<or> profile \<noteq> JNull \<and> \<not> is_object profile)"

definition strategy_checked ::
  "host \<Rightarrow> json \<Rightarrow> json \<Rightarrow> json option \<Rightarrow> json option \<Rightarrow> bool \<Rightarrow> str option \<Rightarrow> json res" where
  "strategy_checked H policy assurance planning assessment detail assessed =
     (if list_ex (profile_panics policy) (selected_profiles assurance planning assessment) then Inl panic
      else Inr (strategy_value H policy assurance planning assessment detail assessed))"

definition strategy_view ::
  "host \<Rightarrow> json \<Rightarrow> json \<Rightarrow> json option \<Rightarrow> json option \<Rightarrow> bool \<Rightarrow> json res" where
  "strategy_view H policy assurance planning assessment detail =
     and_then (string_at ''baseline'' policy) (\<lambda>_.
     case assessment of
       None \<Rightarrow> strategy_checked H policy assurance planning assessment detail None
     | Some a \<Rightarrow>
         and_then (schema_validator H (schema_part ''verification_strategy_request'' (source_schema H))
           ''Verification strategy assessment'') (\<lambda>valid.
         if \<not> valid a then Inl (err ''invalid Verification strategy assessment'')
         else
         and_then (string_at ''level'' a) (\<lambda>level.
         strategy_checked H policy assurance planning assessment detail (Some level))))"

definition public_strategy :: "json \<Rightarrow> json" where
  "public_strategy view = jremove ''routes'' view"

section \<open>What an unblocked strategy guarantees\<close>

lemma strategy_value_fields:
  assumes parts_def: "parts = strategy_parts H policy assurance planning assessment"
  shows "ix (strategy_value H policy assurance planning assessment detail assessed) ''obligations'' =
      JArr (concat (map pp_obligation parts))"
    and "ix (strategy_value H policy assurance planning assessment detail assessed) ''disallowed_commands'' =
      jstrs (sort_dedup (concat (map pp_denied parts)))"
    and "ix (strategy_value H policy assurance planning assessment detail assessed) ''execution_blocked'' = JBool False \<Longrightarrow>
      \<not> list_ex pp_invalid parts \<and>
      \<not> list_ex (obligation_denied (concat (map pp_denied parts))) (concat (map pp_obligation parts)) \<and>
      (\<forall>l. assessed = Some l \<longrightarrow> level_gaps policy assurance l = []) \<and>
      ix (strategy_value H policy assurance planning assessment detail assessed) ''effective_level'' =
        JStr (case assessed of Some l \<Rightarrow> l | None \<Rightarrow> source_level policy assurance)"
proof -
  note d = strategy_value_def [of H policy assurance planning assessment detail assessed, folded parts_def, unfolded Let_def]
  show "ix (strategy_value H policy assurance planning assessment detail assessed) ''obligations'' =
      JArr (concat (map pp_obligation parts))"
    "ix (strategy_value H policy assurance planning assessment detail assessed) ''disallowed_commands'' =
      jstrs (sort_dedup (concat (map pp_denied parts)))"
    unfolding d by simp_all
  define gaps where "gaps = (case assessed of Some l \<Rightarrow> level_gaps policy assurance l | None \<Rightarrow> []) @
      unresolved_gaps assurance @ planning_gap policy planning @ concat (map pp_gaps parts) @
      obligation_gaps (concat (map pp_denied parts)) (concat (map pp_obligation parts))"
  have b: "ix (strategy_value H policy assurance planning assessment detail assessed) ''execution_blocked'' =
      JBool ((list_ex pp_invalid parts \<or>
        list_ex (obligation_denied (concat (map pp_denied parts))) (concat (map pp_obligation parts))) \<or>
        (\<exists>gap \<in> set gaps. starts_with gap ''assurance-''))"
    "ix (strategy_value H policy assurance planning assessment detail assessed) ''effective_level'' =
      JStr (case assessed of
          Some l \<Rightarrow> if \<exists>gap \<in> set gaps. starts_with gap ''assurance-'' then source_level policy assurance else l
        | None \<Rightarrow> source_level policy assurance)"
    unfolding d gaps_def by simp_all
  have p: "\<forall>gap \<in> set (level_gaps policy assurance l). starts_with gap ''assurance-''" for l
    by (auto simp: level_gaps_def starts_with_iff)
  show "\<not> list_ex pp_invalid parts \<and>
      \<not> list_ex (obligation_denied (concat (map pp_denied parts))) (concat (map pp_obligation parts)) \<and>
      (\<forall>l. assessed = Some l \<longrightarrow> level_gaps policy assurance l = []) \<and>
      ix (strategy_value H policy assurance planning assessment detail assessed) ''effective_level'' =
        JStr (case assessed of Some l \<Rightarrow> l | None \<Rightarrow> source_level policy assurance)"
    if "ix (strategy_value H policy assurance planning assessment detail assessed) ''execution_blocked'' = JBool False"
  proof -
    have n: "\<not> list_ex pp_invalid parts"
      "\<not> list_ex (obligation_denied (concat (map pp_denied parts))) (concat (map pp_obligation parts))"
      "\<not> (\<exists>gap \<in> set gaps. starts_with gap ''assurance-'')"
      using that unfolding b by simp_all
    have "level_gaps policy assurance l = []" if "assessed = Some l" for l
    proof (rule ccontr)
      assume "level_gaps policy assurance l \<noteq> []"
      then have "hd (level_gaps policy assurance l) \<in> set (level_gaps policy assurance l)" by simp
      moreover from this have "hd (level_gaps policy assurance l) \<in> set gaps" using that by (simp add: gaps_def)
      ultimately show False using n(3) p by blast
    qed
    then show ?thesis using n b(2) by (auto split: option.split)
  qed
qed

lemma strategy_view_Inr:
  "strategy_view H policy assurance planning assessment detail = Inr out \<Longrightarrow>
     \<exists>assessed. out = strategy_value H policy assurance planning assessment detail assessed"
  by (auto simp: strategy_view_def strategy_checked_def and_then_Inr_iff split: option.splits if_splits)

lemma level_gaps_Nil:
  "level_gaps policy assurance l = [] \<longleftrightarrow>
     (rank l \<le> rank (source_level policy assurance) \<or> ix policy ''agent_may_escalate'' = JBool True) \<and>
     (rank (string_or (ix policy ''baseline'')) \<le> rank l \<or> ix policy ''agent_may_deescalate'' = JBool True) \<and>
     rank (required_level assurance) \<le> rank l"
  by (auto simp: level_gaps_def)

lemma source_level_rank:
  "rank (source_level policy assurance) =
     max (rank (string_or (ix policy ''baseline''))) (rank (required_level assurance))"
  by (auto simp: source_level_def Let_def)

text \<open>The binding level is one of the greatest among the applicable binding requirements.\<close>

lemma last_greatest_ge: "l \<in> set levels \<Longrightarrow> \<exists>g. last_greatest levels = Some g \<and> rank l \<le> rank g"
proof -
  have "\<exists>g. fold (\<lambda>l best. case best of None \<Rightarrow> Some l | Some b \<Rightarrow> if rank b \<le> rank l then Some l else Some b) ls best
      = Some g \<and> (\<forall>l \<in> set ls. rank l \<le> rank g) \<and> (\<forall>b. best = Some b \<longrightarrow> rank b \<le> rank g)"
    if "ls \<noteq> [] \<or> best \<noteq> None" for ls best
    using that
  proof (induction ls arbitrary: best)
    case (Cons x xs)
    let ?best = "case best of None \<Rightarrow> Some x | Some b \<Rightarrow> if rank b \<le> rank x then Some x else Some b"
    have "?best \<noteq> None" by (simp split: option.splits)
    from Cons.IH [OF disjI2 [OF this]] show ?case by (auto split: option.splits if_splits)
  qed auto
  from this [of levels None] show "l \<in> set levels \<Longrightarrow> \<exists>g. last_greatest levels = Some g \<and> rank l \<le> rank g"
    unfolding last_greatest_def by fastforce
qed

lemma required_level_ge: "l \<in> set (binding_levels assurance) \<Longrightarrow> rank l \<le> rank (required_level assurance)"
  using last_greatest_ge [of l "binding_levels assurance"] by (auto simp: required_level_def)

text \<open>C31: Execution under a strategy is open only when the level in force is at least that of
  every applicable binding requirement, differs from the source's level only as far as the
  policy lets the agent move it, every profile a binding requirement or Planning demands is
  declared, and none of the commands it requires is disallowed by any selected profile, while
  each stands as an obligation.\<close>

theorem open_strategy_sound:
  assumes "strategy_view H policy assurance planning assessment detail = Inr out"
    and "ix out ''execution_blocked'' = JBool False"
  shows "(\<exists>level. ix out ''effective_level'' = JStr level \<and>
      (\<forall>l \<in> set (binding_levels assurance). rank l \<le> rank level) \<and>
      (rank (string_or (ix policy ''baseline'')) \<le> rank level \<or> ix policy ''agent_may_deescalate'' = JBool True) \<and>
      (rank level \<le> rank (source_level policy assurance) \<or> ix policy ''agent_may_escalate'' = JBool True)) \<and>
    (\<forall>n \<in> set (required_profiles assurance planning). \<exists>profile. jget (ix policy ''profiles'') n = Some profile \<and>
      (\<forall>c \<in> set (strings_of (ix profile ''required_commands'')).
         JStr c \<notin> set (elements (ix out ''disallowed_commands'')) \<and>
         (\<exists>row \<in> set (elements (ix out ''obligations'')). ix row ''profile_id'' = JStr n \<and>
            JStr c \<in> set (elements (ix row ''required_commands'')))))"
proof -
  obtain assessed where out: "out = strategy_value H policy assurance planning assessment detail assessed"
    using strategy_view_Inr [OF assms(1)] by blast
  define parts where "parts = strategy_parts H policy assurance planning assessment"
  note f = strategy_value_fields [OF parts_def, of detail assessed, folded out]
  note b = f(3) [OF assms(2)]
  define level where "level = (case assessed of Some l \<Rightarrow> l | None \<Rightarrow> source_level policy assurance)"
  have lv: "rank (required_level assurance) \<le> rank level \<and>
      (rank (string_or (ix policy ''baseline'')) \<le> rank level \<or> ix policy ''agent_may_deescalate'' = JBool True) \<and>
      (rank level \<le> rank (source_level policy assurance) \<or> ix policy ''agent_may_escalate'' = JBool True)"
  proof (cases assessed)
    case None
    then show ?thesis by (simp add: level_def source_level_rank)
  next
    case (Some l)
    then have "level_gaps policy assurance l = []" using b by blast
    then show ?thesis using Some unfolding level_gaps_Nil level_def by simp
  qed
  have profiles: "\<exists>profile. jget (ix policy ''profiles'') n = Some profile \<and>
      (\<forall>c \<in> set (strings_of (ix profile ''required_commands'')).
         JStr c \<notin> set (elements (ix out ''disallowed_commands'')) \<and>
         (\<exists>row \<in> set (elements (ix out ''obligations'')). ix row ''profile_id'' = JStr n \<and>
            JStr c \<in> set (elements (ix row ''required_commands''))))"
    if n: "n \<in> set (required_profiles assurance planning)" for n
  proof -
    define part where "part = profile_part_of H policy (strings_of (planning_profiles planning))
      (required_profiles assurance planning) n"
    have "n \<in> set (selected_profiles assurance planning assessment)" using n by (simp add: selected_profiles_def)
    then have part: "part \<in> set parts" by (simp add: parts_def strategy_parts_def part_def)
    then have "\<not> pp_invalid part" using b by (auto simp: list_ex_iff)
    then obtain profile where p: "jget (ix policy ''profiles'') n = Some profile"
      "pp_obligation part = profile_obligation H policy n profile"
      by (cases "jget (ix policy ''profiles'') n") (auto simp: part_def profile_part_of_def)
    have c: "JStr c \<notin> set (elements (ix out ''disallowed_commands'')) \<and>
         (\<exists>row \<in> set (elements (ix out ''obligations'')). ix row ''profile_id'' = JStr n \<and>
            JStr c \<in> set (elements (ix row ''required_commands'')))"
      if c: "c \<in> set (strings_of (ix profile ''required_commands''))" for c
    proof -
      obtain row where row: "pp_obligation part = [row]" "ix row ''profile_id'' = JStr n"
        "ix row ''required_commands'' = jstrs (strings_of (ix profile ''required_commands''))"
      proof (rule that)
        have "strings_of (ix profile ''required_commands'') \<noteq> []" using c by auto
        then show "pp_obligation part = [obj [(''profile_id'', JStr n),
            (''required_commands'', jstrs (strings_of (ix profile ''required_commands''))),
            (''source_ref'', JStr (profile_ref policy n)), (''source_revision'', JStr (digest H profile)),
            (''status'', JStr ''current-proof-evidence-required'')]]"
          using p(2) by (simp add: profile_obligation_def)
      qed simp_all
      have mem: "row \<in> set (concat (map pp_obligation parts))"
      proof -
        have "row \<in> set (pp_obligation part)" by (simp add: row(1))
        then show ?thesis using part by (simp only: set_concat set_map UN_iff bex_simps) blast
      qed
      then have "\<not> obligation_denied (concat (map pp_denied parts)) row" using b by (auto simp: list_ex_iff)
      then have "c \<notin> set (concat (map pp_denied parts))"
        using c by (auto simp: obligation_denied_def set_strings_of row(3) jstrs_def)
      then have "JStr c \<notin> set (elements (ix out ''disallowed_commands''))"
        unfolding f(2) by (auto simp: jstrs_def)
      moreover have "row \<in> set (elements (ix out ''obligations''))" using mem unfolding f(1) by simp
      moreover have "JStr c \<in> set (elements (ix row ''required_commands''))" using c row(3) by (simp add: jstrs_def)
      ultimately show ?thesis using row(2) by blast
    qed
    show ?thesis using p(1) c by blast
  qed
  show ?thesis using lv profiles b order_trans [OF required_level_ge] unfolding level_def [symmetric] by blast
qed

end
