(* ===== verification/Verification_Examples.thy ===== *)
theory Verification_Examples
  imports Policy_Examples Task_Requirements Strategy
begin

text \<open>
  Concrete inputs for the judgment of a task, the requirements it puts on an execution, the
  applicability of assurance requirements and the assurance level and proof profiles in force.
\<close>

definition judging_host :: host where
  "judging_host = plain_host\<lparr>source_schema := plain_schema\<rparr>"

section \<open>Judgment of a task\<close>

definition fingerprint :: json where
  "fingerprint = JStr (replicate 64 CHR ''a'')"

definition judged_subject :: json where
  "judged_subject = direct_subject judging_host ''fix  it'' [''b'', ''a'']"

definition judged_work :: json where
  "judged_work = obj
     [(''action'', JStr ''classify''), (''task'', JStr ''fix  it''), (''changed_paths'', jstrs [''b'', ''a'']),
      (''work_ref'', JStr ''w''), (''work_revision'', JStr ''1''), (''manual_required'', JBool False),
      (''observations'', JArr [obj
        [(''publication_current'', JBool True), (''proof_sufficient'', JBool True),
         (''evidence_freshness'', JStr ''reusable''),
         (''receipt'', obj
           [(''proof_subject'', obj [(''fingerprint'', fingerprint)]),
            (''task_claim_judgment'', obj
              [(''work_ref'', JStr ''w''), (''work_revision'', JStr ''1''), (''claim_class'', JStr ''slice_complete''),
               (''status'', JStr ''sufficient''), (''proof_subject_fingerprint'', fingerprint),
               (''task_identity'', judged_subject)])])]])]"

lemma judged_evaluated:
  "\<not> isl (task_judgment judging_host judged_work)"
  "ix (projr (task_judgment judging_host judged_work)) ''status'' = JStr ''accepted''"
  "ix judged_work ''action'' = JStr ''classify''"
  by code_simp+

theorem task_accepted_iff_witness:
  "\<exists>task paths observations. ix judged_work ''observations'' = JArr observations \<and>
     (\<exists>observation \<in> set observations. exact_judgment judging_host judged_work task paths observation)"
  using task_accepted_iff [OF projr_code [OF judged_evaluated(1)] judged_evaluated(3)] judged_evaluated(2) by blast

section \<open>Requirements of a task\<close>

definition obligation :: json where
  "obligation = obj
     [(''id'', JStr ''o''), (''revision'', JStr ''1''), (''current'', JBool True), (''role'', JStr ''implementer''),
      (''independence_mode'', JStr ''fresh-context''), (''required_proof_classes'', jstrs [])]"

definition required_work :: json where
  "required_work = obj
     [(''task_identity'', judged_subject), (''current_work'', JStr ''w''), (''verification'', obligation),
      (''required_execution_guarantees'', jstrs []),
      (''judgment'', obj
        [(''task_identity'', judged_subject), (''current_work'', JStr ''w''), (''role'', JStr ''implementer''),
         (''verification_identity'', obj [(''id'', JStr ''o''), (''revision'', JStr ''1'')]),
         (''required_result_classes'', jstrs [''patch'']), (''required_proof_classes'', jstrs [])])]"

definition required :: json where
  "required = projr (task_requirements judging_host required_work)"

lemma required_evaluated:
  "\<not> isl (task_requirements judging_host required_work)"
  "ix required ''requirements'' \<noteq> JNull"
  "jstrs [''patch''] = at [''requirements'', ''required_result_classes''] required"
  "jstrs [] = at [''requirements'', ''required_proof_classes''] required"
  "JBool True = at [''requirements'', ''independent_context''] required"
  "jstrs [] = at [''requirements'', ''required_execution_guarantees''] required"
  by code_simp+

lemma required_runs: "task_requirements judging_host required_work = Inr required"
  using projr_code [OF required_evaluated(1)] by (simp add: required_def)

theorem requirements_resolved_iff_witness:
  "ix required ''status'' = JStr ''resolved'' \<and> ix (ix required_work ''judgment'') ''required_result_classes'' \<noteq> JArr []"
  using requirements_resolved_iff [OF required_runs] required_evaluated(2) by blast

definition fresh_choice :: json where
  "fresh_choice = jset ''independent_context'' (JBool True) choice"

definition fresh_chosen :: json where
  "fresh_chosen = projr (configurations judging_host fresh_choice)"

definition fresh_input :: configurations_input where
  "fresh_input = the (de_configurations fresh_choice)"

lemma fresh_evaluated:
  "\<not> isl (configurations judging_host fresh_choice)" "\<not> Option.is_none (de_configurations fresh_choice)"
  "ix fresh_chosen ''selected'' \<noteq> JNull"
  "cf_required_results fresh_input = [''patch'']" "cf_required_proof fresh_input = []"
  "cf_independent_context fresh_input" "cf_required_guarantees fresh_input = []"
  by code_simp+

theorem requirements_reach_execution_witness:
  "\<exists>candidate \<in> set (cf_candidates fresh_input).
     JStr ''patch'' \<in> JStr ` set (ec_result_classes candidate) \<and> ec_independent_context candidate"
proof -
  have "set (elements (ix (ix required_work ''judgment'') ''required_result_classes'')) = {JStr ''patch''}"
    "ix (ix required_work ''verification'') ''independence_mode'' = JStr ''fresh-context''"
    by (simp_all add: required_work_def obligation_def jstrs_def)
  then show ?thesis
    using requirements_reach_execution [OF required_runs required_evaluated(2)
        projr_code [OF fresh_evaluated(1), folded fresh_chosen_def]
        the_code [OF fresh_evaluated(2), folded fresh_input_def] fresh_evaluated(3)]
      fresh_evaluated(4-7) required_evaluated(3-6) by auto
qed

section \<open>Applicability of assurance requirements\<close>

definition assuring :: json where
  "assuring = obj
     [(''requirements'', JArr
        [obj [(''id'', JStr ''a''), (''applies_to_paths'', jstrs [''src/**'']), (''force'', JStr ''blocking''),
          (''level'', JStr ''high''), (''proof_profile'', JStr ''full'')],
         obj [(''id'', JStr ''b''), (''applies_to_task_markers'', jstrs [''risky''])]]),
      (''changed_paths'', jstrs [''src/x'']), (''planning_facts'', obj []), (''source_revision'', JStr ''r''),
      (''judgment'', obj [(''source_revision'', JStr ''r''),
        (''decisions'', obj [(''a'', JStr ''not-applicable''), (''b'', JStr ''not-applicable'')])])]"

definition assured :: json where
  "assured = projr (assurance_view plain_host plain_schema plain_schema assuring)"

lemma assured_evaluated:
  "\<not> isl (assurance_view plain_host plain_schema plain_schema assuring)"
  "map (\<lambda>row. ix row ''status'') (elements (ix assured ''requirements'')) =
     [JStr ''applicable'', JStr ''not-applicable'']"
  by code_simp+


section \<open>Level and profiles\<close>

definition leveled_policy :: json where
  "leveled_policy = verification_policy plain_host (obj
     [(''assurance'', obj [(''default_level'', JStr ''low''),
       (''proof_profiles'', obj [(''full'', obj [(''required_commands'', jstrs [''make check''])])])])]) ''c.toml''"

definition leveled :: json where
  "leveled = projr (strategy_view judging_host leveled_policy assured None
     (Some (obj [(''level'', JStr ''critical''), (''profile_ids'', jstrs [])])) True)"

lemma leveled_evaluated:
  "\<not> isl (strategy_view judging_host leveled_policy assured None
     (Some (obj [(''level'', JStr ''critical''), (''profile_ids'', jstrs [])])) True)"
  "ix leveled ''execution_blocked'' = JBool False"
  "''high'' \<in> set (binding_levels assured)" "''full'' \<in> set (required_profiles assured None)"
  by code_simp+

theorem open_strategy_sound_witness:
  "(\<exists>level. ix leveled ''effective_level'' = JStr level \<and> rank ''high'' \<le> rank level) \<and>
   (\<exists>profile. jget (ix leveled_policy ''profiles'') ''full'' = Some profile)"
proof -
  note s = open_strategy_sound [OF projr_code [OF leveled_evaluated(1), folded leveled_def] leveled_evaluated(2)]
  show ?thesis
    using s [THEN conjunct1] s [THEN conjunct2, rule_format, OF leveled_evaluated(4)] leveled_evaluated(3) by blast
qed

end
