(* ===== verification/Retention.thy ===== *)
theory Retention
  imports Dependency
begin

text \<open>
  The bounded collection of retention sources (\<open>src/src/core/src/retention_sources.rs\<close>).
  Directories are read while others may change them and may contain themselves (mounts), so
  the recursion is a partial function; that it always returns, and the bounds of what it
  returns, are theorems.
\<close>

section \<open>A tree that changes between calls\<close>

text \<open>
  A directory or file capability is a number. Every call is answered for the moment it is
  made at; a directory's entries are the sequence its iterator gives, where \<open>None\<close> is an
  entry that cannot be read and an inner \<open>None\<close> a name that is not UTF-8.
\<close>

type_synonym handle = nat
type_synonym dir_item = "str option option"

record dir_world =
  dw_stat :: "nat \<Rightarrow> handle \<Rightarrow> str \<Rightarrow> lookup"
  dw_open_dir :: "nat \<Rightarrow> handle \<Rightarrow> str \<Rightarrow> handle option"
  dw_entries :: "nat \<Rightarrow> handle \<Rightarrow> dir_item list option"
  dw_open :: "nat \<Rightarrow> handle \<Rightarrow> str \<Rightarrow> handle option"
  dw_fstat :: "nat \<Rightarrow> handle \<Rightarrow> file_meta option"
  dw_read :: "nat \<Rightarrow> handle \<Rightarrow> str option"

text \<open>The output map, the bytes counted so far and the calls made so far.\<close>

record retention =
  rt_output :: "(str, str) omap"
  rt_total :: u64
  rt_calls :: nat

definition MAX_SOURCE_BYTES :: nat where
  "MAX_SOURCE_BYTES = 262144"

definition RETENTION_BYTES :: u64 where
  "RETENTION_BYTES = 64 * 1024 * 1024"

definition io_error :: core_error where
  "io_error = err ''io''"

definition called :: "nat \<Rightarrow> retention \<Rightarrow> retention" where
  "called n st = st\<lparr>rt_calls := rt_calls st + n\<rparr>"

lemma called_simps [simp]:
  "rt_output (called n st) = rt_output st" "rt_total (called n st) = rt_total st"
  by (simp_all add: called_def)

section \<open>One file\<close>

definition over_bound :: "file_meta \<Rightarrow> retention \<Rightarrow> bool" where
  "over_bound m st \<longleftrightarrow>
     4096 \<le> length (rt_output st) \<or> RETENTION_BYTES < rt_total st + fm_len m \<or>
     of_nat MAX_SOURCE_BYTES < fm_len m"

definition keep_bytes :: "str \<Rightarrow> str \<Rightarrow> retention \<Rightarrow> retention res" where
  "keep_bytes child bytes st =
     (if MAX_SOURCE_BYTES < length bytes \<or> RETENTION_BYTES < rt_total st + of_nat (length bytes)
      then Inl (err ''Retention source grew beyond bound; preserved'')
      else Inr (st\<lparr>rt_total := rt_total st + of_nat (length bytes),
        rt_output := om_put child bytes (rt_output st)\<rparr>))"

definition collect_file :: "dir_world \<Rightarrow> handle \<Rightarrow> str \<Rightarrow> str \<Rightarrow> file_meta \<Rightarrow> retention \<Rightarrow> retention res" where
  "collect_file W h child name m st =
     (if fm_len m = 0 \<and> strip_suffix child ''.lock'' \<noteq> None then Inr st
      else if over_bound m st then Inl (err ''Retention source bound exceeded; preserved'')
      else
      and_then (ok_or (dw_open W (rt_calls st) h name) io_error) (\<lambda>f.
      and_then (ok_or (dw_fstat W (rt_calls st + 1) f) io_error) (\<lambda>opened.
      if \<not> fm_file opened then Inl (err ''Retention preserves non-file sources'')
      else
      and_then (ok_or (dw_read W (rt_calls st + 2) f) io_error) (\<lambda>bytes.
      keep_bytes child (take (MAX_SOURCE_BYTES + 1) bytes) (called 3 st)))))"

section \<open>The walk\<close>

definition path_depth :: "str \<Rightarrow> nat" where
  "path_depth path = length (split_on CHR 0x2F path)"

text \<open>What \<open>walk\<close> does before its loop: the depth bound and the directory's entries.\<close>

definition enter_directory :: "dir_world \<Rightarrow> handle \<Rightarrow> str \<Rightarrow> retention \<Rightarrow> (dir_item list \<times> retention) res" where
  "enter_directory W h path st =
     (if 32 < path_depth path then Inl (err ''Retention depth bound exceeded; preserved'')
      else
      and_then (ok_or (dw_entries W (rt_calls st) h) io_error) (\<lambda>items. Inr (items, called 1 st)))"

text \<open>One entry is done, or a directory has been opened that is walked before the next one.\<close>

datatype walk_step = Walked retention | Descend handle str retention

definition walk_entry :: "dir_world \<Rightarrow> handle \<Rightarrow> str \<Rightarrow> dir_item \<Rightarrow> retention \<Rightarrow> walk_step res" where
  "walk_entry W h path item st =
     (case item of
        None \<Rightarrow> Inl io_error
      | Some None \<Rightarrow> Inl (err ''Non-UTF8 retention source preserved'')
      | Some (Some name) \<Rightarrow>
          if name \<in> {''__pycache__'', ''.pytest_cache''} then Inr (Walked st)
          else
            let child = fmt [path, ''/'', name] in
            (case dw_stat W (rt_calls st) h name of
               Absent \<Rightarrow> Inl io_error
             | Failed \<Rightarrow> Inl io_error
             | Entry m \<Rightarrow>
                 let st' = called 1 st in
                 if fm_link m then Inl (err ''Retention preserves linked sources'')
                 else if fm_dir m then
                   and_then (ok_or (dw_open_dir W (rt_calls st') h name) io_error) (\<lambda>nested.
                   Inr (Descend nested child (called 1 st')))
                 else if fm_file m then
                   and_then (collect_file W h child name m st') (\<lambda>st''. Inr (Walked st''))
                 else Inl (err ''Retention preserves non-file sources'')))"

partial_function (option) walk_entries ::
  "dir_world \<Rightarrow> handle \<Rightarrow> str \<Rightarrow> dir_item list \<Rightarrow> retention \<Rightarrow> retention res option" where
  "walk_entries W h path items st =
     (case items of
        [] \<Rightarrow> Some (Inr st)
      | item # rest \<Rightarrow>
          (case walk_entry W h path item st of
             Inl e \<Rightarrow> Some (Inl e)
           | Inr (Walked st') \<Rightarrow> walk_entries W h path rest st'
           | Inr (Descend nested child st') \<Rightarrow>
               (case enter_directory W nested child st' of
                  Inl e \<Rightarrow> Some (Inl e)
                | Inr (inner, st'') \<Rightarrow>
                    Option.bind (walk_entries W nested child inner st'') (\<lambda>r.
                    case r of
                      Inl e \<Rightarrow> Some (Inl e)
                    | Inr st''' \<Rightarrow> walk_entries W h path rest st'''))))"

declare walk_entries.simps [code]

definition walk_directory :: "dir_world \<Rightarrow> handle \<Rightarrow> str \<Rightarrow> retention \<Rightarrow> retention res option" where
  "walk_directory W h path st =
     (case enter_directory W h path st of
        Inl e \<Rightarrow> Some (Inl e)
      | Inr (items, st') \<Rightarrow> walk_entries W h path items st')"

text \<open>The prefixes of the path: whether the whole path is there.\<close>

fun check_prefixes :: "dir_world \<Rightarrow> handle \<Rightarrow> str \<Rightarrow> str list \<Rightarrow> retention \<Rightarrow> (bool \<times> retention) res" where
  "check_prefixes W root done_part [] st = Inr (True, st)"
| "check_prefixes W root done_part (part # parts) st =
     (let here = (if done_part = '''' then part else fmt [done_part, ''/'', part]) in
      case dw_stat W (rt_calls st) root here of
        Entry m \<Rightarrow>
          if fm_link m then Inl (err ''Retention preserves linked sources'')
          else check_prefixes W root here parts (called 1 st)
      | Absent \<Rightarrow> Inr (False, called 1 st)
      | Failed \<Rightarrow> Inl io_error)"

definition output_bytes :: "(str, str) omap \<Rightarrow> nat" where
  "output_bytes m = sum_list (map (length \<circ> snd) m)"

definition retention_files :: "dir_world \<Rightarrow> handle \<Rightarrow> str \<Rightarrow> (str, str) omap \<Rightarrow> (str, str) omap res option" where
  "retention_files W root path output =
     (case check_prefixes W root '''' (split_on CHR 0x2F path)
          \<lparr>rt_output = output, rt_total = 0, rt_calls = 0\<rparr> of
        Inl e \<Rightarrow> Some (Inl e)
      | Inr (present, st) \<Rightarrow>
          if \<not> present then Some (Inr output)
          else
            (case dw_open_dir W (rt_calls st) root path of
               None \<Rightarrow> Some (Inl io_error)
             | Some h \<Rightarrow>
                 Option.bind
                   (walk_directory W h path
                     ((called 1 st)\<lparr>rt_total := of_nat (output_bytes output)\<rparr>)) (\<lambda>r.
                 Some (and_then r (\<lambda>st'. Inr (rt_output st'))))))"

section \<open>The walk returns within its bounds\<close>

lemma om_put_length: "length (om_put k v m) \<le> Suc (length m)"
  by (induction m rule: om_put.induct) auto

lemma om_put_bytes: "output_bytes (om_put k v m) \<le> output_bytes m + length v"
  by (induction k v m rule: om_put.induct) (auto simp: output_bytes_def)

lemma path_depth_child: "path_depth path < path_depth (fmt [path, ''/'', name])"
proof -
  have "length (split_on c s) < length (split_on c (s @ c # t))" for c s t
    by (induction s) (auto split: list.splits)
  then show ?thesis by (simp add: path_depth_def fmt_def)
qed

text \<open>What the walk keeps: the counts, and where the entries that are not of \<open>old\<close> come from.\<close>

definition collected_under :: "str \<Rightarrow> (str, str) omap \<Rightarrow> retention \<Rightarrow> bool" where
  "collected_under path old st \<longleftrightarrow>
     om_ok (rt_output st) \<and> length (rt_output st) \<le> 4096 \<and>
     output_bytes (rt_output st) \<le> unat (rt_total st) \<and> rt_total st \<le> RETENTION_BYTES \<and>
     (\<forall>k v. om_get (rt_output st) k = Some v \<longrightarrow>
        om_get old k = Some v \<or> length v \<le> MAX_SOURCE_BYTES \<and> starts_with k (fmt [path, ''/'']))"

lemma collected_called [simp]: "collected_under path old (called n st) = collected_under path old st"
  by (simp add: collected_under_def)

lemma keep_bytes_collected:
  assumes "keep_bytes child bytes st = Inr st'" and "collected_under path old st"
    and "length (rt_output st) < 4096" and "starts_with child (fmt [path, ''/''])"
  shows "collected_under path old st'"
proof -
  have b: "length bytes \<le> MAX_SOURCE_BYTES" "rt_total st + of_nat (length bytes) \<le> RETENTION_BYTES"
    and st': "st' = st\<lparr>rt_total := rt_total st + of_nat (length bytes),
        rt_output := om_put child bytes (rt_output st)\<rparr>"
    using assms(1) by (auto simp: keep_bytes_def not_less split: if_splits)
  have t: "unat (rt_total st) \<le> 67108864"
    using assms(2) by (simp add: collected_under_def word_le_nat_alt RETENTION_BYTES_def)
  have "unat (of_nat (length bytes) :: u64) = length bytes"
    using b(1) by (simp add: MAX_SOURCE_BYTES_def unat_of_nat)
  then have sum: "unat (rt_total st + of_nat (length bytes)) = unat (rt_total st) + length bytes"
    using t b(1) by (simp add: unat_word_ariths MAX_SOURCE_BYTES_def)
  show ?thesis
    using assms(2-4) b om_put_length [of child bytes "rt_output st"] om_put_bytes [of child bytes "rt_output st"]
    by (auto simp: collected_under_def st' sum om_ok_put om_get_put split: if_splits)
qed

lemma collect_file_collected:
  assumes "collect_file W h child name m st = Inr st'" and "collected_under path old st"
    and "starts_with child (fmt [path, ''/''])"
  shows "collected_under path old st'"
proof (cases "st' = st")
  case False
  then obtain bytes where "\<not> over_bound m st" "keep_bytes child bytes (called 3 st) = Inr st'"
    using assms(1) by (auto simp: collect_file_def and_then_Inr_iff split: if_splits)
  then show ?thesis using keep_bytes_collected [of child bytes "called 3 st" st' path old] assms(2,3)
    by (simp add: over_bound_def)
qed (use assms(2) in simp)

lemma starts_with_child: "starts_with k (fmt [path, ''/'', name]) \<or> starts_with k (fmt [path, ''/'', name, ''/'']) \<Longrightarrow> starts_with k (fmt [path, ''/''])"
  by (auto simp: starts_with_iff fmt_def)

lemma walk_entry_collected:
  assumes "walk_entry W h path item st = Inr w" and "collected_under base old st"
    and "path = base \<or> starts_with path (fmt [base, ''/''])"
  shows "(\<forall>st'. w = Walked st' \<longrightarrow> collected_under base old st') \<and>
    (\<forall>nested child st'. w = Descend nested child st' \<longrightarrow> collected_under base old st' \<and>
       path_depth path < path_depth child \<and> starts_with child (fmt [base, ''/'']))"
proof -
  have child: "starts_with (fmt [path, ''/'', name]) (fmt [base, ''/''])" for name
    using assms(3) by (auto simp: starts_with_iff fmt_def)
  show ?thesis
    using assms(1,2) child path_depth_child
    by (auto simp: walk_entry_def and_then_Inr_iff Let_def split: option.splits lookup.splits if_splits
        intro: collect_file_collected)
qed

lemma walk_entry_deepens:
  "walk_entry W h path item st = Inr (Descend nested child st') \<Longrightarrow> path_depth path < path_depth child"
  using path_depth_child
  by (auto simp: walk_entry_def and_then_Inr_iff Let_def split: option.splits lookup.splits if_splits)

lemma enter_directory_Inr:
  "enter_directory W h path st = Inr (items, st') \<Longrightarrow>
     path_depth path \<le> 32 \<and> collected_under base old st' = collected_under base old st"
  by (auto simp: enter_directory_def and_then_Inr_iff split: if_splits)

lemmas walk_entries_Cons = walk_entries.simps [of _ _ _ "item # rest"] for item rest

text \<open>Every nesting deepens the path, so the depth bound ends the recursion.\<close>

lemma walk_entries_returns:
  "\<exists>r. walk_entries W h path items st = Some r \<and>
     (collected_under base old st \<and> (path = base \<or> starts_with path (fmt [base, ''/''])) \<longrightarrow>
        (\<forall>out. r = Inr out \<longrightarrow> collected_under base old out))"
proof (induction "33 - path_depth path" arbitrary: h path items st rule: less_induct)
  case less
  define below where "below p \<longleftrightarrow> p = base \<or> starts_with p (fmt [base, ''/''])" for p
  have "\<exists>r. walk_entries W h path items st = Some r \<and>
     (collected_under base old st \<and> below path \<longrightarrow> (\<forall>out. r = Inr out \<longrightarrow> collected_under base old out))"
  proof (induction items arbitrary: st)
    case Nil
    then show ?case by (simp add: walk_entries.simps)
  next
    case (Cons item rest)
    show ?case
    proof (cases "walk_entry W h path item st")
      case (Inl e)
      then show ?thesis by (simp add: walk_entries_Cons)
    next
      case (Inr w)
      show ?thesis
      proof (cases w)
        case (Walked st')
        then have "collected_under base old st'" if "collected_under base old st \<and> below path"
          using walk_entry_collected [OF Inr, of base old] that unfolding below_def by blast
        moreover have "walk_entries W h path (item # rest) st = walk_entries W h path rest st'"
          using Inr Walked by (simp add: walk_entries_Cons)
        ultimately show ?thesis using Cons.IH [of st'] by auto
      next
        case (Descend nested child st')
        then have step: "walk_entry W h path item st = Inr (Descend nested child st')" using Inr by simp
        note deep = walk_entry_deepens [OF step]
        have kept: "collected_under base old st' \<and> below child" if "collected_under base old st \<and> below path"
          using walk_entry_collected [OF step, of base old] that unfolding below_def by blast
        show ?thesis
        proof (cases "enter_directory W nested child st'")
          case (Inl e)
          then show ?thesis using Inr Descend by (simp add: walk_entries_Cons)
        next
          case entered: (Inr p)
          obtain inner st2 where p: "p = (inner, st2)" by fastforce
          note e = enter_directory_Inr [OF entered [unfolded p], of base old]
          have "33 - path_depth child < 33 - path_depth path" using deep e by linarith
          from less [OF this, folded below_def, of nested inner st2] obtain r where
            r: "walk_entries W nested child inner st2 = Some r"
            "collected_under base old st2 \<and> below child \<longrightarrow> (\<forall>out. r = Inr out \<longrightarrow> collected_under base old out)"
            by blast
          show ?thesis
          proof (cases r)
            case (Inl e)
            then show ?thesis using r(1) entered Inr Descend by (simp add: walk_entries_Cons p)
          next
            case last: (Inr st3)
            obtain r3 where r3: "walk_entries W h path rest st3 = Some r3"
              "collected_under base old st3 \<and> below path \<longrightarrow> (\<forall>out. r3 = Inr out \<longrightarrow> collected_under base old out)"
              using Cons.IH [of st3] by blast
            have "walk_entries W h path (item # rest) st = Some r3"
              using r(1) r3(1) last entered Inr Descend by (simp add: walk_entries_Cons p)
            moreover have "collected_under base old st \<and> below path \<Longrightarrow> collected_under base old st3"
              using kept e r(2) last by blast
            ultimately show ?thesis using r3(2) by blast
          qed
        qed
      qed
    qed
  qed
  then show ?case unfolding below_def .
qed

lemma check_prefixes_output:
  "check_prefixes W root p parts st = Inr (present, st') \<Longrightarrow> rt_output st' = rt_output st"
  by (induction W root p parts st rule: check_prefixes.induct)
    (auto simp: Let_def split: lookup.splits if_splits)

definition within_bounds :: "(str, str) omap \<Rightarrow> bool" where
  "within_bounds output \<longleftrightarrow>
     om_ok output \<and> length output \<le> 4096 \<and> output_bytes output \<le> 64 * 1024 * 1024"

lemma retention_files_total:
  "\<exists>r. retention_files W root path output = Some r \<and>
     (within_bounds output \<longrightarrow> (\<forall>out. r = Inr out \<longrightarrow> within_bounds out \<and>
        (\<forall>k v. om_get out k = Some v \<longrightarrow>
           om_get output k = Some v \<or> length v \<le> MAX_SOURCE_BYTES \<and> starts_with k (fmt [path, ''/'']))))"
proof (cases "check_prefixes W root '''' (split_on CHR 0x2F path)
    \<lparr>rt_output = output, rt_total = 0, rt_calls = 0\<rparr>")
  case (Inr p)
  obtain present st where p: "p = (present, st)" by fastforce
  have o: "rt_output st = output" using check_prefixes_output [OF Inr [unfolded p]] by simp
  consider "\<not> present" | "present" "dw_open_dir W (rt_calls st) root path = None"
    | h where "present" "dw_open_dir W (rt_calls st) root path = Some h" by fastforce
  then show ?thesis
  proof cases
    case 1
    then show ?thesis using Inr p by (simp add: retention_files_def)
  next
    case 2
    then show ?thesis using Inr p by (simp add: retention_files_def)
  next
    case 3
    define start where "start = (called 1 st)\<lparr>rt_total := of_nat (output_bytes output)\<rparr>"
    have start: "collected_under path output start" if "within_bounds output"
    proof -
      have n: "output_bytes output \<le> 67108864" using that by (simp add: within_bounds_def)
      then have "unat (of_nat (output_bytes output) :: u64) = output_bytes output" by (simp add: unat_of_nat)
      then show ?thesis using that n
        by (simp add: within_bounds_def collected_under_def start_def o word_le_nat_alt RETENTION_BYTES_def)
    qed
    obtain r where r: "walk_directory W h path start = Some r"
      "within_bounds output \<longrightarrow> (\<forall>out. r = Inr out \<longrightarrow> collected_under path output out)"
    proof (cases "enter_directory W h path start")
      case (Inl e)
      then show ?thesis using that by (simp add: walk_directory_def)
    next
      case entered: (Inr q)
      obtain items st2 where q: "q = (items, st2)" by fastforce
      obtain r where "walk_entries W h path items st2 = Some r"
        "collected_under path output st2 \<longrightarrow> (\<forall>out. r = Inr out \<longrightarrow> collected_under path output out)"
        using walk_entries_returns [of W h path items st2 path "output"] by blast
      then show ?thesis
        using that start enter_directory_Inr [OF entered [unfolded q], of path "output"] entered
        by (auto simp: walk_directory_def q)
    qed
    have "retention_files W root path output = Some (and_then r (\<lambda>st'. Inr (rt_output st')))"
      using Inr p 3 r(1) by (simp add: retention_files_def start_def)
    moreover have "within_bounds (rt_output st') \<and>
        (\<forall>k v. om_get (rt_output st') k = Some v \<longrightarrow>
           om_get output k = Some v \<or> length v \<le> MAX_SOURCE_BYTES \<and> starts_with k (fmt [path, ''/'']))"
      if "collected_under path output st'" for st'
      using that by (auto simp: collected_under_def within_bounds_def word_le_nat_alt RETENTION_BYTES_def)
    ultimately show ?thesis using r(2) by (auto simp: and_then_Inr_iff)
  qed
qed (simp add: retention_files_def)

text \<open>C39: Collecting the retention sources always returns, whatever the tree does while it is
  read, even when directories contain one another.\<close>

theorem retention_terminates: "\<exists>r. retention_files W root path output = Some r"
  using retention_files_total by blast

text \<open>A collection stays within 4096 files and 64 MiB, also over several calls into the same
  map; what a call adds lies below its path and has at most 262144 bytes, and entries of
  other paths are as they were.\<close>

theorem retention_bounded:
  assumes "retention_files W root path output = Some (Inr out)" and "within_bounds output"
  shows "length out \<le> 4096 \<and> output_bytes out \<le> 64 * 1024 * 1024 \<and> om_ok out \<and>
    (\<forall>k v. om_get out k = Some v \<longrightarrow> om_get output k \<noteq> Some v \<longrightarrow>
       length v \<le> MAX_SOURCE_BYTES \<and> starts_with k (fmt [path, ''/'']))"
  using retention_files_total [of W root path "output"] assms by (auto simp: within_bounds_def)

end
