(* ===== verification/Continuity_Safety.thy ===== *)
theory Continuity_Safety
  imports Continuity
begin

text \<open>
  What a projection of durable decisions guarantees, stated over the records, admissions and
  current references of its input: only decisions in force are shown, and lineages of
  supersession have no cycle and no competing heads.
\<close>

section \<open>The checked relation in terms of the input\<close>

text \<open>A decision of the context, as it is normalized.\<close>

definition decision_of :: "host \<Rightarrow> decision_context \<Rightarrow> material \<Rightarrow> bool" where
  "decision_of H c r \<longleftrightarrow> (\<exists>raw \<in> set (dc_records c). normalized_material H raw = Inr r)"

text \<open>The scopes in which some decision of the context supersedes another.\<close>

definition superseded_in :: "host \<Rightarrow> decision_context \<Rightarrow> str \<Rightarrow> str \<Rightarrow> str \<Rightarrow> bool" where
  "superseded_in H c scope x p \<longleftrightarrow>
     (\<exists>r relation. decision_of H c r \<and> mr_id r = x \<and> relation \<in> set (mr_supersedes r) \<and>
        su_id relation = p \<and> scope \<in> set (su_scope relation))"

lemma records_get:
  assumes "records_ok H records"
  shows "om_get records x = Some r \<longleftrightarrow> r \<in> snd ` set records \<and> mr_id r = x"
proof
  assume "om_get records x = Some r"
  then show "r \<in> snd ` set records \<and> mr_id r = x"
    using assms map_of_SomeD [of records x r] unfolding records_ok_def by force
next
  assume r: "r \<in> snd ` set records \<and> mr_id r = x"
  then obtain y where y: "(y, r) \<in> set records" by force
  have "distinct (om_keys records)" using assms om_ok_distinct unfolding records_ok_def by blast
  then have "om_get records y = Some r" using y by (simp add: map_of_is_SomeI)
  then show "om_get records x = Some r" using r assms unfolding records_ok_def by metis
qed

lemma load_records_source:
  assumes "fold_try (load_record H) raws [] = Inr records"
  shows "r \<in> snd ` set records \<longleftrightarrow> (\<exists>raw \<in> set raws. normalized_material H raw = Inr r)"
proof -
  have ok: "records_ok H records" by (rule load_records_ok [OF assms])
  have m: "r \<in> snd ` set records \<longleftrightarrow> om_get records (mr_id r) = Some r"
    using records_get [OF ok] by simp
  have "\<forall>x r. om_get records x = Some r \<longrightarrow> (\<exists>raw \<in> set raws. normalized_material H raw = Inr r)"
    using assms
    by (rule fold_try_invariant) (auto simp: load_record_def result_simps omap_simps split: if_splits)
  moreover have "om_get records (mr_id r) = Some r" if "raw \<in> set raws" "normalized_material H raw = Inr r" for raw
    using assms TrueI that(1)
    by (rule fold_try_establish [where P = "\<lambda>_. True"])
      (use that(2) in \<open>auto simp: load_record_def result_simps omap_simps split: if_splits\<close>)
  moreover have "mr_id r = x" if "om_get records x = Some r" for x
    using that records_get [OF ok] by simp
  ultimately show ?thesis unfolding m using normalized_material_ok by metis
qed

lemma load_current_source:
  assumes "fold_try load_current refs [] = Inr current" and "is_current current r"
  shows "r \<in> set refs"
proof -
  have "\<forall>x y z. om_get current (x, y) = Some z \<longrightarrow> Reference x y z \<in> set refs"
    using assms(1)
    by (rule fold_try_invariant)
      (auto simp: load_current_def result_simps omap_simps split: if_splits)
  then show ?thesis using assms(2) unfolding is_current_def by (cases r) auto
qed

lemma apply_relation_scopes:
  assumes "apply_relation records relation u = Inr v" and "records_ok H records"
  shows "set (replaced_scopes v x) =
    set (replaced_scopes u x) \<union> (if x = su_id relation then set (su_scope relation) else {})"
proof -
  obtain prior where prior: "om_get records (su_id relation) = Some prior"
    and v: "v = om_put (mr_id prior) (sort_dedup (replaced_scopes u (mr_id prior) @ su_scope relation)) u"
    using assms(1) by (auto simp: apply_relation_def result_simps split: if_splits)
  have same: "mr_id prior = su_id relation" using prior records_get [OF assms(2)] by simp
  show ?thesis
  proof (cases "x = su_id relation")
    case True
    then have "replaced_scopes v x = sort_dedup (replaced_scopes u x @ su_scope relation)"
      unfolding v same by (simp add: replaced_scopes_def om_get_put)
    then show ?thesis using True by auto
  next
    case False
    then have "replaced_scopes v x = replaced_scopes u x"
      unfolding v same by (simp add: replaced_scopes_def om_get_put)
    then show ?thesis using False by simp
  qed
qed

lemma apply_relations_scopes:
  assumes "fold_try (apply_relation records) relations u = Inr v" and "records_ok H records"
  shows "set (replaced_scopes v x) =
    set (replaced_scopes u x) \<union> (\<Union>relation \<in> {relation \<in> set relations. su_id relation = x}. set (su_scope relation))"
  using assms(1)
proof (induction relations arbitrary: u)
  case (Cons relation relations)
  obtain w where w: "apply_relation records relation u = Inr w" "fold_try (apply_relation records) relations w = Inr v"
    using Cons.prems by (auto simp: and_then_Inr_iff)
  show ?case using Cons.IH [OF w(2)] apply_relation_scopes [OF w(1) assms(2), of x] by auto
qed simp

lemma admit_records_scopes:
  assumes "fold_try (admit_record admissions records) rs u = Inr v" and "records_ok H records"
  shows "set (replaced_scopes v x) = set (replaced_scopes u x) \<union>
    (\<Union>r \<in> set rs. \<Union>relation \<in> {relation \<in> set (mr_supersedes r). su_id relation = x}. set (su_scope relation))"
  using assms(1)
proof (induction rs arbitrary: u)
  case (Cons r rs)
  obtain w where w: "admit_record admissions records r u = Inr w"
    "fold_try (admit_record admissions records) rs w = Inr v"
    using Cons.prems by (auto simp: and_then_Inr_iff)
  then have "fold_try (apply_relation records) (mr_supersedes r) u = Inr w"
    by (auto simp: admit_record_def and_then_Inr_iff split: if_splits)
  note a = apply_relations_scopes [OF this assms(2), of x]
  show ?case using Cons.IH [OF w(2)] a by auto
qed simp

lemma check_context_parts:
  assumes "check_context H c = Inr k"
  shows "r \<in> snd ` set (kc_records k) \<longleftrightarrow> decision_of H c r"
    and "is_current (kc_current k) ref \<Longrightarrow> ref \<in> set (dc_current_dependencies c)"
    and "scope \<in> set (replaced_scopes (kc_replaced k) p) \<longleftrightarrow> (\<exists>x. superseded_in H c scope x p)"
proof -
  obtain records admissions current m d heads applicable where
    r: "fold_try (load_record H) (dc_records c) [] = Inr records"
    and u: "fold_try load_current (dc_current_dependencies c) [] = Inr current"
    and m: "fold_try (admit_record admissions records) (map snd records) [] = Inr m"
    and k: "k = \<lparr>kc_records = records, kc_current = current, kc_replaced = m, kc_applicable = applicable\<rparr>"
    using assms unfolding check_context_def by (auto simp: and_then_Inr_iff split: if_splits)
  show d: "r \<in> snd ` set (kc_records k) \<longleftrightarrow> decision_of H c r" for r
    using load_records_source [OF r, of r] by (simp add: k decision_of_def)
  show "is_current (kc_current k) ref \<Longrightarrow> ref \<in> set (dc_current_dependencies c)"
    using load_current_source [OF u] by (simp add: k)
  have "set (replaced_scopes m p) =
      (\<Union>r \<in> snd ` set records. \<Union>relation \<in> {relation \<in> set (mr_supersedes r). su_id relation = p}. set (su_scope relation))"
    using admit_records_scopes [OF m load_records_ok [OF r], of p] by (simp add: replaced_scopes_def [of "[]"])
  moreover have "snd ` set records = Collect (decision_of H c)" using d by (auto simp: k)
  ultimately show "scope \<in> set (replaced_scopes (kc_replaced k) p) \<longleftrightarrow> (\<exists>x. superseded_in H c scope x p)"
    by (auto simp: k superseded_in_def)
qed

text \<open>C34: A consequence of a durable decision is shown only when the decision was admitted with its
  exact source and content, in a scope of its own in which no decision of the context
  supersedes it, and every reference it rests on is current as given.\<close>

theorem shown_decisions_in_force:
  assumes "project H c routes = Inr (Some out)" and "item \<in> set (elements (ix out ''consequences''))"
  shows "\<exists>r sc. decision_of H c r \<and> ix item ''id'' = JStr (mr_id r) \<and> ix item ''scope'' = jstrs sc \<and> sc \<noteq> [] \<and>
    set sc \<subseteq> set (mr_scope r) \<and> (\<forall>scope \<in> set sc. \<forall>x. \<not> superseded_in H c scope x (mr_id r)) \<and>
    set (all_references r) \<subseteq> set (dc_current_dependencies c) \<and> admitted_by (dc_admissions c) r"
proof -
  obtain k reconciled where k: "check_context H c = Inr k"
    "elements (ix out ''consequences'') = concat (map (fst \<circ> project_record routes (kc_applicable k)
       (kc_current k) (kc_replaced k) reconciled \<circ> snd) (kc_records k))"
    by (rule project_Some [OF assms(1)])
  then obtain r where r: "r \<in> snd ` set (kc_records k)"
    "item \<in> set (fst (project_record routes (kc_applicable k) (kc_current k) (kc_replaced k) reconciled r))"
    using assms(2) by auto
  obtain sc where sc: "ix item ''id'' = JStr (mr_id r)" "ix item ''scope'' = jstrs sc" "sc \<noteq> []"
    "set sc \<subseteq> set (mr_scope r)" "set sc \<inter> set (replaced_scopes (kc_replaced k) (mr_id r)) = {}"
    "list_all (is_current (kc_current k)) (all_references r)"
    by (rule project_record_consequence [OF r(2)])
  note p = check_context_parts [OF k(1)]
  have "set (all_references r) \<subseteq> set (dc_current_dependencies c)"
    using sc(6) p(2) by (auto simp: list_all_iff)
  moreover have "\<forall>scope \<in> set sc. \<forall>x. \<not> superseded_in H c scope x (mr_id r)"
    using sc(5) p(3) [of _ "mr_id r"] by blast
  moreover have "decision_of H c r" using r(1) p(1) by blast
  moreover have "admitted_by (dc_admissions c) r"
    using check_context_Inr(2) [OF k(1)] r(1) unfolding set_map by (rule bspec)
  ultimately show ?thesis using sc(1-4) by (intro exI [of _ r] exI [of _ sc] conjI)
qed

text \<open>C35: The decisions of a projected context supersede one another without a cycle, and in each
  scope two decisions that nothing supersedes there and that both supersede, directly or
  not, a common decision are the same one.\<close>

theorem lineages_have_one_head:
  assumes "project H c routes = Inr outcome"
  shows "acyclic {(x, p). \<exists>r. decision_of H c r \<and> mr_id r = x \<and> p \<in> su_id ` set (mr_supersedes r)} \<and>
    (\<forall>scope r1 r2 a. decision_of H c r1 \<longrightarrow> decision_of H c r2 \<longrightarrow>
       scope \<in> set (mr_scope r1) \<inter> set (mr_scope r2) \<longrightarrow>
       (\<forall>x. \<not> superseded_in H c scope x (mr_id r1) \<and> \<not> superseded_in H c scope x (mr_id r2)) \<longrightarrow>
       (superseded_in H c scope)\<^sup>*\<^sup>* (mr_id r1) a \<longrightarrow> (superseded_in H c scope)\<^sup>*\<^sup>* (mr_id r2) a \<longrightarrow>
       mr_id r1 = mr_id r2)"
proof -
  obtain k where k: "check_context H c = Inr k"
    using assms by (auto simp: project_def and_then_Inr_iff)
  note p = check_context_parts [OF k] and f = check_context_Inr [OF k]
  obtain heads where heads: "lineage_check (kc_records k) (kc_replaced k) = Inr heads" using f(4) by blast
  have get: "om_get (kc_records k) x = Some r \<longleftrightarrow> decision_of H c r \<and> mr_id r = x" for x r
    using records_get [OF f(1)] p(1) by simp
  have priors: "q \<in> set (prior_ids (kc_records k) x) \<longleftrightarrow>
      (\<exists>r. decision_of H c r \<and> mr_id r = x \<and> q \<in> su_id ` set (mr_supersedes r))" for x q
  proof -
    have "q \<in> set (prior_ids (kc_records k) x) \<longleftrightarrow>
        (\<exists>r. om_get (kc_records k) x = Some r \<and> q \<in> su_id ` set (mr_supersedes r))"
      by (cases "om_get (kc_records k) x") (auto simp: prior_ids_def)
    then show ?thesis unfolding get by simp
  qed
  have scoped: "(x, q) \<in> scoped_supersession (kc_records k) scope \<longleftrightarrow> superseded_in H c scope x q" for x q scope
  proof -
    have "(x, q) \<in> scoped_supersession (kc_records k) scope \<longleftrightarrow> (\<exists>r relation. om_get (kc_records k) x = Some r \<and>
        relation \<in> set (mr_supersedes r) \<and> su_id relation = q \<and> scope \<in> set (su_scope relation))"
      by (cases "om_get (kc_records k) x") (auto simp: scoped_supersession_def scoped_priors_def)
    then show ?thesis unfolding get superseded_in_def by simp
  qed
  have star: "(x, q) \<in> (scoped_supersession (kc_records k) scope)\<^sup>* \<longleftrightarrow> (superseded_in H c scope)\<^sup>*\<^sup>* x q" for x q scope
  proof -
    have "scoped_supersession (kc_records k) scope = {(x, y). superseded_in H c scope x y}" using scoped by auto
    then show ?thesis by (simp add: Enum.rtranclp_rtrancl_eq)
  qed
  have "acyclic {(x, q). \<exists>r. decision_of H c r \<and> mr_id r = x \<and> q \<in> su_id ` set (mr_supersedes r)}"
    using f(3) unfolding supersession_def priors .
  moreover have "mr_id r1 = mr_id r2"
    if "decision_of H c r1" "decision_of H c r2" "scope \<in> set (mr_scope r1) \<inter> set (mr_scope r2)"
      "\<forall>x. \<not> superseded_in H c scope x (mr_id r1) \<and> \<not> superseded_in H c scope x (mr_id r2)"
      "(superseded_in H c scope)\<^sup>*\<^sup>* (mr_id r1) a" "(superseded_in H c scope)\<^sup>*\<^sup>* (mr_id r2) a"
    for scope r1 r2 a
  proof (rule heads_unique [OF heads])
    have head: "is_head (kc_records k) (kc_replaced k) scope r \<longleftrightarrow>
        decision_of H c r \<and> scope \<in> set (mr_scope r) \<and> \<not> (\<exists>x. superseded_in H c scope x (mr_id r))" for r
      unfolding is_head_def set_map p(1) p(3) ..
    show "is_head (kc_records k) (kc_replaced k) scope r1" "is_head (kc_records k) (kc_replaced k) scope r2"
      using that(1-4) unfolding head by blast+
    show "(mr_id r1, a) \<in> (scoped_supersession (kc_records k) scope)\<^sup>*"
      "(mr_id r2, a) \<in> (scoped_supersession (kc_records k) scope)\<^sup>*"
      using that(5,6) by (simp_all only: star)
  qed
  ultimately show ?thesis by (intro conjI allI impI) simp_all
qed

end
