(* ===== verification/Owner_Examples.thy ===== *)
theory Owner_Examples
  imports Store_Examples Verification_Examples Retention Proof_Receipt Planning Continuity_Safety
begin

text \<open>
  Concrete inputs for the owners: a tree of retention sources that contains itself, a proof
  receipt, a former Planning source reconciled through the store, and two decisions of which
  one supersedes the other.
\<close>

section \<open>Retention\<close>

text \<open>The directory holds the file \<open>a\<close> and, at the other name, itself.\<close>

definition some_meta :: "bool \<Rightarrow> file_meta" where
  "some_meta directory = \<lparr>fm_file = \<not> directory, fm_dir = directory, fm_link = False, fm_len = 1,
     fm_modified = None, fm_created = None, fm_dev = 0, fm_ino = 0\<rparr>"

definition looping_tree :: "str \<Rightarrow> dir_world" where
  "looping_tree other = \<lparr>dw_stat = (\<lambda>_ _ name. Entry (some_meta (name \<noteq> ''a''))), dw_open_dir = (\<lambda>_ _ _. Some 0),
     dw_entries = (\<lambda>_ _. Some [Some (Some ''a''), Some (Some other)]), dw_open = (\<lambda>_ _ _. Some 1),
     dw_fstat = (\<lambda>_ _. Some (some_meta False)), dw_read = (\<lambda>_ _. Some ''x'')\<rparr>"

lemma retained_evaluated:
  "retention_files (looping_tree ''__pycache__'') 0 ''d'' [] = Some (Inr [(''d/a'', ''x'')])"
  by (simp add: retention_files_def walk_directory_def enter_directory_def walk_entries.simps walk_entry_def
      collect_file_def keep_bytes_def over_bound_def called_def looping_tree_def some_meta_def path_depth_def
      output_bytes_def MAX_SOURCE_BYTES_def RETENTION_BYTES_def strip_suffix_def fmt_def io_error_def and_then_def ok_or_def)

theorem retention_bounded_witness: "starts_with ''d/a'' (fmt [''d'', ''/''])"
proof -
  have "within_bounds []" by (simp add: within_bounds_def output_bytes_def)
  from retention_bounded [OF retained_evaluated this] show ?thesis by simp
qed

section \<open>Proof receipts\<close>

theorem placeholders_found_witness:
  "unresolved ''run <name>'' \<and> has_placeholder ''<'' ''>'' ''run <name>'' \<and> \<not> has_placeholder ''<'' ''>'' ''run a''"
proof -
  have u: "unresolved ''run <name>'' \<and> \<not> unresolved ''run a''" by code_simp
  have "''run <name>'' = ''run '' @ ''<'' @ ''name'' @ ''>'' @ '''' \<and> placeholder_body ''<'' ''>'' ''name''"
    by code_simp
  then have "has_placeholder ''<'' ''>'' ''run <name>''" unfolding has_placeholder_def by blast
  then show ?thesis using placeholders_found [of "''run <name>''"] placeholders_found [of "''run a''"] u by blast
qed

definition plain_receipts :: receipt_env where
  "plain_receipts = \<lparr>float_text = (\<lambda>_. ''0.5''), float_in_range = (\<lambda>_. True), to_lowercase = (\<lambda>s. s)\<rparr>"

definition receipt_request :: json where
  "receipt_request = obj
     [(''action'', JStr ''admit''), (''timestamp_valid'', JBool True),
      (''receipt'', obj
        [(''kind'', JStr RECEIPT_KIND), (''command'', JStr ''make check''), (''result'', JStr '' pass ''),
         (''changed_paths'', jstrs [''src/x''])])]"

lemma receipt_evaluated:
  "\<not> isl (receipt_view judging_host plain_receipts receipt_request)"
  "ix receipt_request ''action'' = JStr ''admit''"
  "ix (projr (receipt_view judging_host plain_receipts receipt_request)) ''proof_sufficient'' = JBool True"
  by code_simp+

theorem receipt_admitted_iff_witness:
  "concrete_text judging_host (at [''receipt'', ''command''] receipt_request) \<and>
   result_class (observed_result judging_host plain_receipts (at [''receipt'', ''result''] receipt_request)) = ''passed''"
  using receipt_admitted_iff [OF projr_code [OF receipt_evaluated(1)] receipt_evaluated(2)] receipt_evaluated(3)
  unfolding Let_def at_simps by blast

section \<open>A Planning source reconciled\<close>

definition plan_source :: json where
  "plan_source = obj [(''id'', JStr ''p''), (''title'', JStr ''Plan''), (''phase'', JStr ''ready'')]"

definition plan_contract :: json where
  "plan_contract = obj
     [(''kind'', JStr CAPABILITY_CONTRACT_KIND), (''revision'', JStr (''sha256:'' @ replicate 64 CHR ''a'')),
      (''owners'', JArr [obj
        [(''owner'', JStr ''planning''), (''revision'', JStr ''v1''), (''domains'', jstrs [''plan'']),
         (''effects'', JArr [obj [(''id'', JStr ''planning-state''), (''domain'', JStr ''plan'')]]),
         (''operations'', JArr [obj
           [(''id'', JStr ''planning.reconcile''), (''semantic_revision'', JStr ''planning-reconciliation-v1''),
            (''reads'', jstrs []), (''input_schema'', plain_schema), (''result_kind'', JStr ''r''),
            (''effects'', jstrs [''planning-state''])]])]])]"

definition plan_input :: "(str \<times> json) list \<Rightarrow> json" where
  "plan_input given = obj
     ([(''target'', JStr ''/t''), (''relevant'', JBool True),
       (''source'', obj [(''target'', JStr ''/t''), (''path'', JStr ''p.json''), (''owner'', JStr ''planning''),
          (''revision'', JStr (''sha256:'' @ demo_hash))]),
       (''capability_contract'', plan_contract)] @ given)"

definition plan_disk :: disk where
  "plan_disk = (\<lambda>_ p. if p = [''p.json''] then Some (FileNode ''source'') else None)"

text \<open>The store reads the source and the two records its effect leaves.\<close>

definition plan_store :: "(str \<Rightarrow> json option) \<Rightarrow> store_env" where
  "plan_store records = \<lparr>se_host = \<lparr>sha256_hex = (\<lambda>_. demo_hash),
       to_vec = (\<lambda>v. if is_null (ix v ''outcome'') then ''attempt'' else ''result''),
       schema_build = (\<lambda>_. Some (\<lambda>_. True)), source_schema = JNull\<rparr>,
     se_from_slice = records(''source'' \<mapsto> plan_source), se_canonicalize = Some\<rparr>"

definition plan_env :: "(str \<Rightarrow> json option) \<Rightarrow> planning_env" where
  "plan_env records = \<lparr>pl_store = plan_store records, pl_schema = obj
       [(''$schema'', JStr DRAFT), (''$defs'', obj [(''former_execplan'', obj []), (''selection_transition'', obj [])])],
     pl_canonical = obj [(''$schema'', JStr DRAFT)],
     pl_origin = (\<lambda>_ _ _ _. Inr False), pl_update = (\<lambda>_ _ _ _. Inr False),
     pl_portable_origin = (\<lambda>_ _. Inr False), pl_portable_update = (\<lambda>_ _. Inr False)\<rparr>"

definition hashed :: "str \<Rightarrow> json" where
  "hashed kind = JStr (kind @ ''sha256:'' @ demo_hash)"

definition plan_reconciled :: json where
  "plan_reconciled = obj
     [(''kind'', JStr ''agentic-planning/reconciliation/v1''), (''owner'', JStr ''planning''),
      (''former_source'', obj [(''target'', JStr ''/t''), (''path'', JStr ''p.json''), (''owner'', JStr ''planning''),
        (''revision'', hashed [])]),
      (''subject'', obj [(''id'', hashed ''planning:''), (''revision'', hashed []), (''label'', JStr ''Plan''),
        (''state'', material_of plan_source)]),
      (''coverage'', obj [(''complete'', JBool True), (''ambiguities'', jstrs []), (''omitted_history'', jstrs [])]),
      (''former_source_retained'', JBool True)]"

definition plan_invocation :: json where
  "plan_invocation = obj
     [(''kind'', JStr INVOCATION_KIND), (''authority'', JStr ''planning''), (''source_owner'', JStr ''planning''),
      (''operation_id'', JStr ''planning.reconcile''), (''operation_revision'', hashed []),
      (''expected_dependency_revision'', hashed []), (''idempotency_key'', hashed []),
      (''consequence_id'', hashed ''action:planning:''), (''effects'', jstrs [''planning-state'']),
      (''arguments'', obj [(''target'', JStr ''/t''), (''reconciliation'', plan_reconciled)])]"

definition plan_attempt :: "json option \<Rightarrow> json" where
  "plan_attempt outcome = en_attempt \<lparr>at_kind = ATTEMPT_KIND, at_attempt_id = ''attempt:sha256:'' @ demo_hash,
     at_invocation = plan_invocation, at_outcome = outcome, at_record_revision = ''sha256:'' @ demo_hash\<rparr>"

definition plan_reader :: planning_env where
  "plan_reader = plan_env [''attempt'' \<mapsto> plan_attempt None, ''result'' \<mapsto> plan_attempt (Some (obj
     [(''status'', JStr ''applied''), (''effects'', jstrs [''planning-state'']), (''value'', plan_reconciled)]))]"

definition plan_record :: "str \<Rightarrow> evidence" where
  "plan_record tail = (demo_evidence tail)\<lparr>ev_owner := ''planning''\<rparr>"

definition plan_custody :: custody where
  "plan_custody = \<lparr>cu_attempt = plan_record ''.attempt.json'', cu_committed = Some (plan_record ''.result.json'')\<rparr>"

definition plan_again :: json where
  "plan_again = plan_input [(''invocation'', plan_invocation), (''custody'', en_custody plan_custody)]"

text \<open>The disk after the effect: the source and the two records in the store's directory.\<close>

definition recorded_disk :: disk where
  "recorded_disk = (\<lambda>_ p.
     if p = [''p.json''] then Some (FileNode ''source'')
     else if p = split_on CHR 0x2F (ev_path (plan_record ''.attempt.json'')) then Some (FileNode ''attempt'')
     else if p = split_on CHR 0x2F (ev_path (plan_record ''.result.json'')) then Some (FileNode ''result'')
     else if length p \<le> 3 then Some DirNode else None)"

lemma plan_evaluated:
  "case compose_input plan_reader plan_again recorded_disk of
     (Inr (v, detail), _) \<Rightarrow> ix detail ''current'' = JBool True | _ \<Rightarrow> False"
  by code_simp

theorem planning_current_recorded_witness:
  "\<exists>root ev r reconciled. read_evidence (pl_store plan_reader) root ev recorded_disk = (Inr r, recorded_disk) \<and>
     at [''outcome'', ''value''] r = reconciled \<and> at [''coverage'', ''complete''] reconciled = JBool True"
proof -
  obtain v detail d where "compose_input plan_reader plan_again recorded_disk = (Inr (v, detail), d)"
    "ix detail ''current'' = JBool True"
    using plan_evaluated by (auto split: prod.splits sum.splits)
  from planning_current_recorded [OF this(1)] this(2) show ?thesis by blast
qed

lemma plan_decoded: "\<not> Option.is_none (de_planning_input plan_again)"
  by code_simp

theorem reconciliation_recorded_witness:
  "grows (target_places (pl_store plan_reader) (pi_target (the (de_planning_input plan_again)))) plan_disk
     (snd (reconcile_planning plan_reader plan_again plan_disk))"
  using reconciliation_recorded [OF the_code [OF plan_decoded]] by blast

definition plan_state :: json where
  "plan_state = obj
     [(''frontier'', obj [(''phase'', JStr ''ready'')]), (''proof'', obj []),
      (''handoff'', obj [(''assignment'', obj [(''run_id'', JStr ''1'')])])]"

theorem subject_ignores_attempts_witness:
  "semantic_subject (jset_in [''frontier'', ''phase''] (JStr ''done'') plan_state) = semantic_subject plan_state"
proof -
  have "json_ok plan_state \<and> shaped plan_state" by code_simp
  then show ?thesis using subject_ignores_attempts [of plan_state] by blast
qed

section \<open>Two decisions\<close>

definition demo_decision :: "str \<Rightarrow> str list \<Rightarrow> supersedes list \<Rightarrow> material" where
  "demo_decision name sc relations = \<lparr>mr_id = name, mr_source = Reference ''o'' name ''1'', mr_decision = ''d'',
     mr_consequence = ''c'', mr_rationale_reference = ''r'', mr_authors = [Actor Human ''h''], mr_contributors = [],
     mr_authority = \<lparr>au_actor = Actor Human ''h'', au_basis = [Reference ''o'' ''basis'' ''1'']\<rparr>, mr_scope = sc,
     mr_semantic_routes = [], mr_dependencies = [], mr_context = [], mr_supersedes = relations,
     mr_material_revision = None\<rparr>"

definition demo_admission :: "str \<Rightarrow> decision_admission" where
  "demo_admission name = \<lparr>da_rationale_reference = ''r'', da_id = name,
     da_material_revision = ''sha256:'' @ demo_hash, da_source = Reference ''o'' name ''1''\<rparr>"

definition demo_context :: decision_context where
  "demo_context = \<lparr>dc_records =
       [demo_decision ''new'' [''path:a''] [\<lparr>su_id = ''old'', su_material_revision = ''sha256:'' @ demo_hash,
          su_scope = [''path:a'']\<rparr>], demo_decision ''old'' [''path:a'', ''path:b''] []],
     dc_admissions = [demo_admission ''new'', demo_admission ''old''],
     dc_current_dependencies = [Reference ''o'' ''basis'' ''1''],
     dc_applicable_scope = [''path:a'', ''path:b''], dc_reconciliation = None\<rparr>"

lemma projection_evaluated:
  "case project plain_host demo_context None of Inr (Some out) \<Rightarrow>
     map (\<lambda>c. (ix c ''id'', ix c ''scope'')) (elements (ix out ''consequences'')) =
       [(JStr ''new'', jstrs [''path:a'']), (JStr ''old'', jstrs [''path:b''])] | _ \<Rightarrow> False"
  by code_simp

lemma projected:
  obtains out where "project plain_host demo_context None = Inr (Some out)"
    and "map (\<lambda>c. (ix c ''id'', ix c ''scope'')) (elements (ix out ''consequences'')) =
       [(JStr ''new'', jstrs [''path:a'']), (JStr ''old'', jstrs [''path:b''])]"
  using projection_evaluated by (auto split: sum.splits option.splits)

theorem shown_decisions_in_force_witness:
  "\<exists>r. decision_of plain_host demo_context r \<and> mr_id r = ''old'' \<and>
     (\<forall>x. \<not> superseded_in plain_host demo_context ''path:b'' x ''old'')"
proof -
  obtain out where out: "project plain_host demo_context None = Inr (Some out)"
    "map (\<lambda>c. (ix c ''id'', ix c ''scope'')) (elements (ix out ''consequences'')) =
       [(JStr ''new'', jstrs [''path:a'']), (JStr ''old'', jstrs [''path:b''])]"
    by (rule projected)
  then obtain c1 c2 where c: "elements (ix out ''consequences'') = [c1, c2]"
    "ix c2 ''id'' = JStr ''old''" "ix c2 ''scope'' = jstrs [''path:b'']"
    by (auto simp: map_eq_Cons_conv)
  have "c2 \<in> set (elements (ix out ''consequences''))" by (simp add: c(1))
  from shown_decisions_in_force [OF out(1) this] show ?thesis
    unfolding c(2,3) by (auto simp: jstrs_def)
qed

theorem lineages_have_one_head_witness:
  "acyclic {(x, p). \<exists>r. decision_of plain_host demo_context r \<and> mr_id r = x \<and> p \<in> su_id ` set (mr_supersedes r)}"
proof -
  obtain out where "project plain_host demo_context None = Inr (Some out)" by (rule projected)
  from lineages_have_one_head [OF this] show ?thesis by (rule conjunct1)
qed

end
