(* ===== verification/Subject_Examples.thy ===== *)
theory Subject_Examples
  imports Proof_Subject Component_Examples Policy_Examples
begin

text \<open>One proof over one file, and the same proof after its receipt was published.\<close>

definition one_file :: subject_request where
  "one_file = \<lparr>sr_changed = [''f''], sr_command = ''make'', sr_claims = None, sr_effects = None, sr_explicit = [],
     sr_runtime = obj [(''os'', JStr ''linux'')]\<rparr>"

text \<open>The file was deleted: its absence is observed.\<close>

definition one_target :: target_view where
  "one_target = (Some (quiet_world\<lparr>w_stat := (\<lambda>_ _. Absent)\<rparr>), \<lambda>_. 0)"

lemma identity_evaluated:
  "subject_identity plain_host one_target one_file =
     [(''claim_classes'', jstrs [''executable-validation'']), (''effect_scope'', jstrs [''f'']),
      (''source_inputs'', JArr [obj [(''path'', JStr ''f''), (''state'', JStr ''absent'')]]),
      (''command_sha256'', JStr (replicate 64 CHR ''0'')), (''runtime'', obj [(''os'', JStr ''linux'')]),
      (''identity_complete'', JBool True), (''unavailable_inputs'', jstrs [])]"
  by code_simp

lemma identity_completed: "identity_complete plain_host one_target one_file"
  using ix_identity(6) [of plain_host one_target one_file "[]"] unfolding identity_evaluated by simp

lemma subject_evaluated: "\<not> isl (build_subject plain_host plain_floats one_target one_file)"
proof -
  have "exact_numbers plain_floats (obj (subject_identity plain_host one_target one_file))"
    unfolding identity_evaluated by code_simp
  then have "\<not> isl (fingerprint plain_host plain_floats (obj (subject_identity plain_host one_target one_file)))"
    by (simp add: fingerprint_def compact_json_def)
  moreover have "as_object (sr_runtime one_file) = Some [(''os'', JStr ''linux'')]" by code_simp
  ultimately show ?thesis by (auto simp: build_subject_def and_then_def isl_def split: sum.split)
qed

lemma receipt_output: "\<not> semantic_role (dependency_role (normalized_path (RECEIPTS @ ''r.json'')) [])"
  by code_simp

definition one_subject :: json where
  "one_subject = projr (build_subject plain_host plain_floats one_target one_file)"

lemma one_built: "build_subject plain_host plain_floats one_target one_file = Inr one_subject"
  unfolding one_subject_def by (rule projr_code [OF subject_evaluated])

theorem reusable_iff_witness: "fst (subject_verdict one_subject one_subject) = ''reusable''"
proof -
  have "length (sha256_hex plain_host s) = 64 \<and> list_all lower_hex (sha256_hex plain_host s)" for s
    by (simp add: plain_host_def list_all_iff lower_hex_def ascii_digit_def)
  from reusable_iff [OF one_built one_built _ this] identity_completed show ?thesis
    by (simp add: same_subject_def)
qed

theorem outputs_never_expire_witness:
  "\<exists>subject'. build_subject plain_host plain_floats one_target
       (one_file\<lparr>sr_changed := [''f'', RECEIPTS @ ''r.json'']\<rparr>) = Inr subject' \<and>
     fst (subject_verdict one_subject subject') = fst (subject_verdict one_subject one_subject)"
proof -
  have e: "sr_explicit one_file = []" "sr_changed one_file = [''f'']" by (simp_all add: one_file_def)
  have "\<not> semantic_role (dependency_role (normalized_path o') (sr_explicit one_file))"
    if "o' \<in> set [RECEIPTS @ ''r.json'']" for o'
    using that receipt_output unfolding e by simp
  from outputs_never_expire [OF one_built this, of "[RECEIPTS @ ''r.json'']"] show ?thesis
    unfolding e append.simps by metis
qed

end
