(* ===== verification/Transport_Examples.thy ===== *)
theory Transport_Examples
  imports Transport Owner_Examples Subject_Examples
begin

text \<open>A request that admits an effect on an empty disk.\<close>

definition demo_transport :: transport_env where
  "demo_transport = \<lparr>te_planning = (plan_env (\<lambda>_. None))\<lparr>pl_store := demo_store\<rparr>, te_floats = plain_floats,
     te_receipts = plain_receipts, te_assurance = (JNull, JNull), te_separation = JNull, te_applicability = JNull,
     te_worker = Inr, te_targets = (\<lambda>_ _. one_target), te_other = (\<lambda>_. io_lift \<circ> Inr)\<rparr>"

definition admit_fields :: "(str \<times> json) list" where
  "admit_fields = [(''target'', JStr ''/t''), (''decision'', demo_ready), (''invocation'', demo_ivc), (''custody'', JNull)]"

lemma admit_answered:
  "run_request demo_transport (JObj [(''admit_stored_attempt'', obj admit_fields)]) empty_disk =
     (Inr (demo_result 0), demo_disk 1)"
proof -
  have "map_of (commands demo_transport) ''admit_stored_attempt'' = Some (store_admit_value demo_store)"
    by (simp add: commands_def first_commands_def later_commands_def Let_def pure_command_def other_command_def
        demo_transport_def)
  then have "run_request demo_transport (JObj [(''admit_stored_attempt'', obj admit_fields)]) =
      store_admit_value demo_store (obj admit_fields)"
    by (simp add: request_of_command)
  moreover have "store_admit_value demo_store (obj admit_fields) empty_disk = store_admit demo_store ''/t'' demo_ready demo_ivc None empty_disk"
    unfolding admit_fields_def store_admit_value_eq by (simp add: decoded_def ok_or_def io_run)
  ultimately show ?thesis by (simp add: demo_admitted)
qed

lemma admit_creates: "demo_disk 1 ''/t'' [''.agentic-workspace''] \<noteq> empty_disk ''/t'' [''.agentic-workspace'']"
  using demo_new_entry by (simp add: demo_disk_def empty_disk_def)

theorem requests_only_record_witness:
  "\<exists>name v. JObj [(''admit_stored_attempt'', obj admit_fields)] = JObj [(name, v)] \<and>
    (name \<in> set outside_commands \<or>
     name \<in> set writing_commands \<and> empty_disk ''/t'' [''.agentic-workspace''] = None \<and>
       (\<exists>k. prefix [''.agentic-workspace''] (store_parents @ [k])) \<and>
       (\<exists>target. se_canonicalize (pl_store (te_planning demo_transport)) target = Some ''/t''))"
  by (rule requests_only_record) (use admit_answered admit_creates in simp)

end
