(* ===== verification/Spec2Isabelle.thy ===== *)
theory Spec2Isabelle
  imports Patch_Examples Transport_Examples
begin

text \<open>
  A verification development for the semantic core of Agentic Workspace, the Rust crate under
  \<open>src/src/core/src/\<close>. The core answers one question for an agent that works in a
  repository: given what the owners of the sources (Planning, Assignment, Verification,
  configuration) contribute about the current work, which actions are ready, what restricts the
  rest, and what may be claimed. Every answer is a JSON value computed from JSON values; what an
  agent then does is admitted and recorded as an effect in files below the target.

  \<^bold>\<open>Parts and how they interact.\<close>
  Owners declare a capability contract and send contributions; \<open>lib.rs\<close> compiles
  them into one decision, whose ready actions are invocations. An invocation is admitted against
  the decision it came from, becomes a record (\<open>attempt.rs\<close>), and the record becomes
  two immutable files (\<open>attempt_store.rs\<close>). Planning reconciliations and patch
  integrations are effects that run through that store. The inputs of the decision come from
  functions over facts: applicability of instructions, dependency observations, assignment,
  task requirements, assurance, proof receipts and subjects.

  \<^bold>\<open>Conventions.\<close> (\<open>Prelude\<close>, \<open>Json\<close>, \<open>Core\<close>,
  \<open>Unicode\<close>.)
  A \<open>Result\<close> is a sum with the error on the left; \<open>and_then\<close> is the
  question mark operator and \<open>fold_try\<close> a loop that returns early, so each error path is a
  branch. A panic (\<open>unwrap\<close>, an index out of range) is the error \<open>panic\<close>, or
  excluded by an invariant where a text says so. Text is UTF-8 as a list of bytes. JSON objects,
  \<open>BTreeMap\<close> and \<open>BTreeSet\<close> are strictly sorted lists; the interface of the
  sorted map is the locale \<open>keyed_map\<close>, interpreted in \<open>Prelude\<close>. Derived
  deserializers are written out field by field (\<open>struct_fields\<close>, \<open>req\<close>,
  \<open>opt\<close>), \<open>deny_unknown_fields\<close> and defaults included.
  Arguments of the model, collected in the record \<open>host\<close>, are SHA-256, the printing of
  JSON, the JSON Schema engine and the checked-in schema file. No theorem assumes anything of
  them unless its statement says so (that two digests do not collide, that a printed record
  reads back).

  \<^bold>\<open>The decision compiler\<close> (\<open>lib.rs\<close>, \<open>semantic_routes.rs\<close>).
  \<^item> \<open>Capability\<close>: \<open>normalize_capability_contract\<close>; an admitted contract is a
    normal form with one owner per operation, domain and effect.
  \<^item> \<open>Routes\<close>, \<open>Request\<close>: work identity, intended outcome, semantic routes,
    public requests and the answers to a decision.
  \<^item> \<open>Contribution\<close>: \<open>normalize_contribution\<close> with its sections; what an
    action may do without its owner's declaration.
  \<^item> \<open>Decision\<close>: \<open>compile\<close>, from the relevant contributions to the emitted
    value; \<open>Semantic_Routes\<close> ties the mutual recursion between the compiler and the
    resolver of route requests and shows that it is well founded, so no fuel is needed.
  \<^item> \<open>Decision_Safety\<close>: what a reader of a decision may rely on, stated on the emitted
    value: ready actions are entitled, unrestricted and pairwise independent; each status has
    one meaning; the end of a task and every claim have exclusive authority; the order of the
    contributions is irrelevant.
  \<^item> \<open>Continuity\<close>, \<open>Continuity_Safety\<close> (\<open>continuity.rs\<close>): the
    decision context; acyclic supersession with one head per lineage, and only decisions in
    force are shown.

  \<^bold>\<open>Effects\<close> (\<open>attempt.rs\<close>, \<open>attempt_store.rs\<close>).
  \<^item> \<open>Attempt\<close>: admission, commit and replay of one record, as functions and as a step
    relation over runs; at most one execution, and every ready action of a compiled decision can be
    admitted, completed and replayed.
  \<^item> \<open>Attempt_Store\<close>: the same over a disk of trees of nodes (files, directories, links,
    others): path confinement without links, creation of evidence, custody, prepared commits.
    An operation that fails may have changed the disk, as in the code.
  \<^item> \<open>Store_Safety\<close>: the locale \<open>immutable_store\<close> (what a client of creation
    and reading relies on), its interpretation on the store, and the properties of any sequence
    of calls: evidence is never overwritten, execution is granted once, a commit is found again.

  \<^bold>\<open>Patches\<close> (\<open>native_patch.rs\<close>).
  \<^item> \<open>Patch\<close>: strict application of hunks against the relation \<open>patches\<close> that says
    what a patch is, its inverse, the admission of a returned delta, the merge with the current
    text. The patch parser and the three-way merge of the crate \<open>diffy\<close> are arguments.
  \<^item> \<open>Patch_Integration\<close>: proposal and publication. A \<open>machine\<close> carries the
    disk, the faults still to come (a change refused, or a new file torn after some bytes) and
    the turns other processes get around a revalidation (and only there: nobody else
    acts between the last re-read of a file and its renaming). The guarantee is stated as reachability
    by own steps and steps of others; a publication that was interrupted by refused changes can
    be finished. The calls of the evidence store inside an integration are not torn.

  \<^bold>\<open>Facts the decision is computed from.\<close>
  \<^item> \<open>Applicability\<close> (\<open>instruction_applicability.rs\<close>): the pattern language and
    its matcher, exact against the set of paths a pattern denotes; overlap of two patterns is
    exact too (a worklist over pairs of positions whose unseen pairs decrease).
  \<^item> \<open>Dependency\<close> (\<open>dependency_binding.rs\<close>, parts of
    \<open>decision_source.rs\<close>): the bounded read of a file that may change meanwhile. A
    \<open>world\<close> answers each system call for the moment it is made; sizes are 64-bit words, and
    the read loop equals \<open>exact_stream\<close>, the same loop over natural numbers, for
    every limit below the largest word. \<open>stream_fuel\<close> is only the
    measure of its termination proof.
  \<^item> \<open>Assignment\<close>, \<open>Assessment\<close>, \<open>Packet\<close>, \<open>Policy\<close>,
    \<open>Duty\<close> (\<open>assignment.rs\<close>, \<open>assignment_packet.rs\<close>,
    \<open>assignment_policy.rs\<close>, \<open>separation_of_duty.rs\<close>): attribution of outcomes,
    feasible configurations, replacement, comparison, the seal of a packet, the policy, and the
    separation of implementer and reviewer.
  \<^item> \<open>Task_Judgment\<close>, \<open>Task_Requirements\<close>, \<open>Assurance\<close>,
    \<open>Strategy\<close> (\<open>direct_task.rs\<close>, \<open>task_judgment.rs\<close>,
    \<open>task_requirements.rs\<close>, \<open>assurance_applicability.rs\<close>,
    \<open>verification_strategy.rs\<close>): acceptance of a task, requirements, and which
    obligations and profiles bind it. No judgment waives what exact facts settle.
  \<^item> \<open>Proof_Receipt\<close>, \<open>Proof_Subject\<close> (\<open>proof_receipt.rs\<close>,
    \<open>proof_subject.rs\<close>): when a receipt is admitted, and when a stored proof may be reused.
  \<^item> \<open>Retention\<close> (\<open>retention_sources.rs\<close>): the bounded walk of a tree, which may
    contain itself; depth 32 bounds the recursion, and no fuel is used.
  \<^item> \<open>Planning\<close> (\<open>planning.rs\<close>, \<open>planning_lifetime.rs\<close>): the semantic
    subject of a state and the reconciliation of a former source through the evidence store.

  \<^bold>\<open>Requests\<close> (\<open>transport.rs\<close>).
  \<^item> \<open>Transport\<close>: the command a request names, over the models of all the commands above;
    the commands of other components are the argument \<open>te_other\<close>. A request is answered by
    exactly one command, and only the commands that record effects write.

  \<^bold>\<open>Examples.\<close>
  The theories named \<open>_Examples\<close> evaluate the model on concrete inputs by the simplifier and
  apply each property there. Byte bounds are compared as integers when they are evaluated.

  \<^bold>\<open>Not modelled.\<close>
  The native owners (\<open>native_*.rs\<close> other than the patch owner, \<open>operating.rs\<close>, the
  modules for memory, planning and verification files) read repositories, git objects and
  configuration, build the JSON inputs of the functions above and publish through the same
  store; what the modelled code asks of them is an argument (the record \<open>planning_env\<close>,
  the worlds and trees). Reading and printing of requests, logging, child processes and
  signatures are input and output around the core. Of \<open>planning.rs\<close>, the assignment work, the reentry input and the portable
  continuation are left out; of \<open>planning_lifetime.rs\<close>, the question to git; of
  \<open>native_patch.rs\<close>, the canonical source check other owners call. JSON numbers are
  integers or doubles given by their bits, and no arithmetic is done on doubles. The position
  inside an instance that a schema error names is left out of its message.

  \<^bold>\<open>What the model showed.\<close>
  \<open>triple_brace_hidden\<close> (\<open>Proof_Receipt\<close>): a template in triple braces is not
  recognized as one. \<open>insertion_glued\<close> (\<open>Patch\<close>): an insertion after an unterminated
  last line is joined to it. \<open>torn_temporary_stuck\<close> (\<open>Patch_Integration\<close>): a
  temporary file that was torn stops its integration for good.
\<close>

end
